(* ===== verification/Prelude.thy ===== *)
theory Prelude
  imports Main "HOL-Library.Word"
begin

text \<open>
  What every component of the service shares: the parts of Go's \<^verbatim>\<open>strings\<close> and
  \<^verbatim>\<open>strconv\<close> packages the source calls, on byte strings (\<^typ>\<open>string\<close> is a list of
  bytes, as a Go string is), Go's wrapped errors as values, and the lemma collections the
  component theories extend.

  White space is ASCII white space: \<open>strings.TrimSpace\<close> also trims two Latin-1 and several
  Unicode spaces, which are multi-byte in UTF-8 and are left alone here.
\<close>

named_theorems go_defs "unfolding of small helper operations"
named_theorems inv_intros "an operation keeps its component's invariant"

subsection \<open>Byte strings\<close>

definition has_prefix :: "'a list \<Rightarrow> 'a list \<Rightarrow> bool" where
  "has_prefix s p = (take (length p) s = p)"

definition has_suffix :: "'a list \<Rightarrow> 'a list \<Rightarrow> bool" where
  "has_suffix s p = (drop (length s - length p) s = p)"

fun has_infix :: "'a list \<Rightarrow> 'a list \<Rightarrow> bool" where
  "has_infix [] p = (p = [])"
| "has_infix (x # xs) p = (has_prefix (x # xs) p \<or> has_infix xs p)"

definition is_space :: "char \<Rightarrow> bool" where
  "is_space c = (c = CHR '' '' \<or> c = CHR 0x09 \<or> c = CHR 0x0A \<or> c = CHR 0x0B \<or> c = CHR 0x0C \<or> c = CHR 0x0D)"

definition trim_left :: "string \<Rightarrow> string" where
  "trim_left s = dropWhile is_space s"

definition trim_space :: "string \<Rightarrow> string" where
  "trim_space s = rev (trim_left (rev (trim_left s)))"

definition to_lower :: "char \<Rightarrow> char" where
  "to_lower c = (if of_char c \<ge> (65::nat) \<and> of_char c \<le> (90::nat) then char_of ((of_char c :: nat) + 32) else c)"

text \<open>\<open>strings.Split\<close> with a one-byte separator: never an empty list.\<close>

fun split_on :: "'a \<Rightarrow> 'a list \<Rightarrow> 'a list list" where
  "split_on c [] = [[]]"
| "split_on c (x # xs) =
     (if x = c then [] # split_on c xs
      else (case split_on c xs of [] \<Rightarrow> [[x]] | y # ys \<Rightarrow> (x # y) # ys))"

fun join_with :: "'a list \<Rightarrow> 'a list list \<Rightarrow> 'a list" where
  "join_with sep [] = []"
| "join_with sep [x] = x"
| "join_with sep (x # y # zs) = x @ sep @ join_with sep (y # zs)"

text \<open>\<open>strings.Cut\<close> at a one-byte separator: the parts around its first occurrence.\<close>

fun cut_at :: "'a \<Rightarrow> 'a list \<Rightarrow> ('a list \<times> 'a list) option" where
  "cut_at c [] = None"
| "cut_at c (x # xs) =
     (if x = c then Some ([], xs)
      else (case cut_at c xs of None \<Rightarrow> None | Some (a, b) \<Rightarrow> Some (x # a, b)))"

fun nat_digits :: "nat \<Rightarrow> string" where
  "nat_digits n =
     (if n < 10 then [char_of (48 + n)] else nat_digits (n div 10) @ [char_of (48 + n mod 10)])"

declare nat_digits.simps [simp del]

definition int_text :: "int \<Rightarrow> string" where
  "int_text i = (if i < 0 then CHR ''-'' # nat_digits (nat (- i)) else nat_digits (nat i))"

definition is_digit :: "char \<Rightarrow> bool" where
  "is_digit c = (of_char c \<ge> (48::nat) \<and> of_char c \<le> (57::nat))"

definition is_lower :: "char \<Rightarrow> bool" where
  "is_lower c = (of_char c \<ge> (97::nat) \<and> of_char c \<le> (122::nat))"

definition is_upper :: "char \<Rightarrow> bool" where
  "is_upper c = (of_char c \<ge> (65::nat) \<and> of_char c \<le> (90::nat))"

definition digit_value :: "char \<Rightarrow> nat" where
  "digit_value c = of_char c - 48"

definition digits_value :: "string \<Rightarrow> nat" where
  "digits_value s = foldl (\<lambda>n c. 10 * n + digit_value c) 0 s"

definition quoted :: "string \<Rightarrow> string" where
  "quoted s = CHR 0x22 # s @ [CHR 0x22]"

definition hex_value :: "char \<Rightarrow> nat option" where
  "hex_value c =
     (let n = of_char c in
      if 48 \<le> n \<and> n \<le> 57 then Some (n - 48)
      else if 97 \<le> n \<and> n \<le> 102 then Some (n - 87)
      else if 65 \<le> n \<and> n \<le> 70 then Some (n - 55)
      else None)"

subsection \<open>Facts about byte strings\<close>

lemma has_prefix_refl [simp]: "has_prefix s s"
  by (simp add: has_prefix_def)

lemma has_prefix_Nil [simp]: "has_prefix s []"
  by (simp add: has_prefix_def)

lemma has_prefix_append [simp]: "has_prefix (p @ s) p"
  by (simp add: has_prefix_def)

lemma has_prefix_iff: "has_prefix s p \<longleftrightarrow> (\<exists>r. s = p @ r)"
  unfolding has_prefix_def by (metis append_eq_conv_conj append_take_drop_id)

lemma split_on_nonempty [simp]: "split_on c s \<noteq> []"
  by (induction s) (auto split: list.splits)

lemma split_on_no_sep: "c \<notin> set s \<Longrightarrow> split_on c s = [s]"
  by (induction s) auto

lemma split_on_append: "c \<notin> set a \<Longrightarrow> split_on c (a @ c # b) = a # split_on c b"
  by (induction a) auto

lemma split_on_parts: "p \<in> set (split_on c s) \<Longrightarrow> c \<notin> set p"
  by (induction s arbitrary: p) (auto split: if_splits list.splits)

lemma join_split_on: "join_with [c] (split_on c s) = s"
proof (induction s)
  case Nil
  then show ?case by simp
next
  case (Cons x xs)
  obtain y ys where s: "split_on c xs = y # ys"
    by (cases "split_on c xs") auto
  with Cons show ?case by (cases ys) auto
qed

lemma split_join_on:
  "ps \<noteq> [] \<Longrightarrow> (\<forall>p \<in> set ps. c \<notin> set p) \<Longrightarrow> split_on c (join_with [c] ps) = ps"
  by (induction "[c]" ps rule: join_with.induct) (auto simp: split_on_no_sep split_on_append)

lemma length_split_on: "length (split_on c s) = Suc (count_list s c)"
proof (induction s)
  case Nil
  then show ?case by simp
next
  case (Cons x xs)
  then show ?case by (cases "split_on c xs") auto
qed

lemma cut_at_None: "cut_at c s = None \<longleftrightarrow> c \<notin> set s"
  by (induction s) (auto split: option.splits)

lemma cut_at_Some: "cut_at c s = Some (a, b) \<Longrightarrow> s = a @ c # b \<and> c \<notin> set a"
  by (induction s arbitrary: a) (auto split: if_splits option.splits prod.splits)

lemma trim_left_no_space: "s \<noteq> [] \<Longrightarrow> \<not> is_space (hd s) \<Longrightarrow> trim_left s = s"
  by (cases s) (auto simp: trim_left_def)

lemma trim_space_Nil [simp]: "trim_space [] = []"
  by (simp add: trim_space_def trim_left_def)

lemma trim_space_id:
  assumes "\<forall>c \<in> set s. \<not> is_space c" shows "trim_space s = s"
proof (cases "s = []")
  case False
  then have "trim_left s = s" "trim_left (rev s) = rev s"
    using assms by (simp_all add: trim_left_no_space hd_rev)
  then show ?thesis by (simp add: trim_space_def)
qed simp

lemma trim_space_edges:
  assumes "s \<noteq> []" "\<not> is_space (hd s)" "\<not> is_space (last s)" shows "trim_space s = s"
  using assms by (simp add: trim_space_def trim_left_no_space hd_rev)

lemma set_trim_space: "set (trim_space s) \<subseteq> set s"
  unfolding trim_space_def trim_left_def
  by (auto dest!: set_dropWhileD)

lemma trim_left_hd: "trim_left s \<noteq> [] \<Longrightarrow> \<not> is_space (hd (trim_left s))"
  unfolding trim_left_def by (rule hd_dropWhile)

lemma trim_left_idem [simp]: "trim_left (trim_left s) = trim_left s"
  unfolding trim_left_def by (induction s) auto

lemma trim_left_rev_trim_left:
  "trim_left (rev (trim_left (rev (trim_left s)))) = rev (trim_left (rev (trim_left s)))"
proof (cases "trim_left (rev (trim_left s)) = []")
  case True
  then show ?thesis by (simp add: trim_left_def [of "[]"])
next
  case False
  let ?t = "trim_left s" and ?u = "trim_left (rev (trim_left s))"
  obtain p where p: "rev ?t = p @ ?u"
    unfolding trim_left_def by (metis takeWhile_dropWhile_id)
  then have t: "?t = rev ?u @ rev p" by (metis rev_append rev_rev_ident)
  then have h: "hd (rev ?u) = hd ?t" and "?t \<noteq> []"
    using False by (metis hd_append2 rev_is_Nil_conv, auto)
  then have "\<not> is_space (hd (rev ?u))" using trim_left_hd [of s] by simp
  with False show ?thesis by (simp add: trim_left_no_space)
qed

lemma trim_space_idem [simp]: "trim_space (trim_space s) = trim_space s"
  unfolding trim_space_def by (simp add: trim_left_rev_trim_left)

lemma trim_space_hd:
  assumes "trim_space s = s" "s \<noteq> []" shows "\<not> is_space (hd s)" "\<not> is_space (last s)"
proof -
  have r: "rev (trim_left (rev (trim_left s))) = s" using assms(1) by (simp add: trim_space_def)
  then have n: "trim_left (rev (trim_left s)) \<noteq> []" using assms(2) by auto
  have "last s = hd (trim_left (rev (trim_left s)))" by (subst r [symmetric]) (simp add: last_rev n)
  then show "\<not> is_space (last s)" using trim_left_hd [OF n] by simp
  have "trim_left s = s" using trim_left_rev_trim_left [of s] unfolding r .
  then show "\<not> is_space (hd s)" using trim_left_hd [of s] assms(2) by simp
qed

subsection \<open>Decimal numbers\<close>

lemma nat_digits_nonempty [simp]: "nat_digits n \<noteq> []"
  by (subst nat_digits.simps) simp

lemma digit_char: "d < 10 \<Longrightarrow> is_digit (char_of (48 + d)) \<and> digit_value (char_of (48 + d)) = d"
  by (simp add: is_digit_def digit_value_def take_bit_eq_mod)

lemma nat_digits_are_digits: "\<forall>c \<in> set (nat_digits n). is_digit c"
proof (induction n rule: nat_digits.induct)
  case (1 n)
  then show ?case
    by (subst nat_digits.simps) (use digit_char [of n] digit_char [of "n mod 10"] in auto)
qed

lemma digits_value_nat_digits [simp]: "digits_value (nat_digits n) = n"
proof (induction n rule: nat_digits.induct)
  case (1 n)
  show ?case
  proof (cases "n < 10")
    case True
    then show ?thesis
      using digit_char [of n] by (subst nat_digits.simps) (simp add: digits_value_def)
  next
    case False
    with 1 have "digits_value (nat_digits (n div 10)) = n div 10" by simp
    with False show ?thesis
      using digit_char [of "n mod 10"]
      by (subst nat_digits.simps) (simp add: digits_value_def)
  qed
qed

subsection \<open>Signed 64-bit arithmetic\<close>

text \<open>What is left of a result in an \<open>int64\<close>.\<close>

definition wrap64 :: "int \<Rightarrow> int" where
  "wrap64 x = (x + 2 ^ 63) mod 2 ^ 64 - 2 ^ 63"

lemma wrap64_small: "- (2 ^ 63) \<le> x \<Longrightarrow> x < 2 ^ 63 \<Longrightarrow> wrap64 x = x"
  by (simp add: wrap64_def)

lemma wrap64_bounds: "- (2 ^ 63) \<le> wrap64 x" "wrap64 x < 2 ^ 63"
  by (simp_all add: wrap64_def)

subsection \<open>Results\<close>

text \<open>A fallible call returns \<^term>\<open>Inl e\<close> for the error and \<^term>\<open>Inr v\<close> for the value.\<close>

definition is_ok :: "'e + 'a \<Rightarrow> bool" where
  "is_ok r = (case r of Inl _ \<Rightarrow> False | Inr _ \<Rightarrow> True)"

lemma is_ok_simps [simp]: "\<not> is_ok (Inl e)" "is_ok (Inr v)"
  by (simp_all add: is_ok_def)

lemma is_ok_iff: "is_ok r \<longleftrightarrow> (\<exists>v. r = Inr v)"
  by (cases r) auto

end
