(* ===== verification/Paths.thy ===== *)
theory Paths
  imports Prelude
begin

text \<open>
  Go's lexical path operations on Unix (\<^verbatim>\<open>path/filepath\<close> and \<^verbatim>\<open>path\<close>), which every containment
  check of the service is written in: \<open>Clean\<close>, \<open>Join\<close>, \<open>Dir\<close>, \<open>Base\<close>, \<open>IsAbs\<close>. The lemmas relate
  a cleaned absolute path to its list of components, so that "lies below the root" as the code
  tests it (a string prefix) is the same as "extends the root's components".
\<close>

definition dotdot :: string where "dotdot = ''..''"

fun clean_comps :: "bool \<Rightarrow> string list \<Rightarrow> string list \<Rightarrow> string list" where
  "clean_comps rooted st [] = rev st"
| "clean_comps rooted st (c # cs) =
     (if c = [] \<or> c = ''.'' then clean_comps rooted st cs
      else if c = dotdot then
        (case st of
           [] \<Rightarrow> if rooted then clean_comps rooted [] cs else clean_comps rooted [dotdot] cs
         | x # xs \<Rightarrow> if x = dotdot then clean_comps rooted (dotdot # st) cs
                     else clean_comps rooted xs cs)
      else clean_comps rooted (c # st) cs)"

definition is_abs :: "string \<Rightarrow> bool" where
  "is_abs p = has_prefix p ''/''"

definition join_slash :: "string list \<Rightarrow> string" where
  "join_slash = join_with ''/''"

definition clean :: "string \<Rightarrow> string" where
  "clean p =
     (let cs = clean_comps (is_abs p) [] (split_on CHR ''/'' p) in
      if is_abs p then CHR ''/'' # join_slash cs
      else if cs = [] then ''.'' else join_slash cs)"

text \<open>\<open>Join\<close> ignores empty elements and cleans the result; nothing to join is the empty string.\<close>

definition path_join :: "string list \<Rightarrow> string" where
  "path_join es =
     (case dropWhile (\<lambda>e. e = []) es of [] \<Rightarrow> [] | e # rest \<Rightarrow> clean (join_slash (e # rest)))"

definition path_dir :: "string \<Rightarrow> string" where
  "path_dir p = clean (rev (dropWhile (\<lambda>c. c \<noteq> CHR ''/'') (rev p)))"

text \<open>\<open>strings.HasPrefix(p, root + "/")\<close> or \<open>p == root\<close>, the containment test of the service.\<close>

definition within :: "string \<Rightarrow> string \<Rightarrow> bool" where
  "within root p = (p = root \<or> has_prefix p (root @ ''/''))"

subsection \<open>Component lists\<close>

definition proper :: "string \<Rightarrow> bool" where
  "proper c = (c \<noteq> [] \<and> c \<noteq> ''.'' \<and> c \<noteq> dotdot \<and> CHR ''/'' \<notin> set c)"

definition abs_path :: "string list \<Rightarrow> string" where
  "abs_path cs = CHR ''/'' # join_slash cs"

lemma properD:
  assumes "proper c"
  shows "c \<noteq> []" "c \<noteq> ''.''" "c \<noteq> dotdot" "CHR ''/'' \<notin> set c"
  using assms by (auto simp: proper_def)

lemma split_on_mid: "split_on c (a @ c # b) = split_on c a @ split_on c b"
proof (induction a)
  case (Cons x a)
  then show ?case by (cases "split_on c a") auto
qed simp

lemma join_slash_Cons: "cs \<noteq> [] \<Longrightarrow> join_slash (c # cs) = c @ ''/'' @ join_slash cs"
  by (cases cs) (simp_all add: join_slash_def)

lemma join_slash_single [simp]: "join_slash [c] = c"
  by (simp add: join_slash_def)

lemma join_slash_Nil [simp]: "join_slash [] = []"
  by (simp add: join_slash_def)

lemma join_slash_append:
  "as \<noteq> [] \<Longrightarrow> bs \<noteq> [] \<Longrightarrow> join_slash (as @ bs) = join_slash as @ ''/'' @ join_slash bs"
proof (induction as)
  case (Cons a as)
  then show ?case by (cases "as = []") (simp_all add: join_slash_Cons)
qed simp

lemma split_join_slash:
  "cs \<noteq> [] \<Longrightarrow> \<forall>c \<in> set cs. CHR ''/'' \<notin> set c \<Longrightarrow> split_on CHR ''/'' (join_slash cs) = cs"
  unfolding join_slash_def by (rule split_join_on)

lemma split_abs_path:
  "\<forall>c \<in> set cs. proper c \<Longrightarrow>
     split_on CHR ''/'' (abs_path cs) = [] # (if cs = [] then [[]] else cs)"
  unfolding abs_path_def by (auto simp: split_join_slash proper_def)

lemma clean_comps_proper:
  "\<forall>c \<in> set cs. proper c \<Longrightarrow> clean_comps r st (cs @ ds) = clean_comps r (rev cs @ st) ds"
  by (induction cs arbitrary: st) (auto simp: proper_def)

lemma clean_comps_all_proper [simp]:
  "\<forall>c \<in> set cs. proper c \<Longrightarrow> clean_comps r st cs = rev st @ cs"
  using clean_comps_proper [of cs r st "[]"] by simp

lemma is_abs_abs_path [simp]: "is_abs (abs_path cs)"
  by (simp add: is_abs_def abs_path_def has_prefix_def)

lemma is_abs_iff: "is_abs p \<longleftrightarrow> (\<exists>r. p = CHR ''/'' # r)"
  by (auto simp: is_abs_def has_prefix_iff)

text \<open>What the stack of \<open>Clean\<close> can hold: leading \<open>..\<close> (never when rooted), then names.\<close>

definition clean_form :: "bool \<Rightarrow> string list \<Rightarrow> bool" where
  "clean_form r cs \<longleftrightarrow>
     (\<exists>k ps. cs = replicate k dotdot @ ps \<and> (\<forall>p \<in> set ps. proper p) \<and> (r \<longrightarrow> k = 0))"

lemma clean_formI: "\<forall>p \<in> set ps. proper p \<Longrightarrow> (r \<longrightarrow> k = 0) \<Longrightarrow> clean_form r (replicate k dotdot @ ps)"
  unfolding clean_form_def by blast

lemma clean_form_push:
  assumes "clean_form r (rev st)" "proper c" shows "clean_form r (rev (c # st))"
proof -
  obtain k ps where "rev st = replicate k dotdot @ ps" "\<forall>p \<in> set ps. proper p" "r \<longrightarrow> k = 0"
    using assms(1) unfolding clean_form_def by blast
  then show ?thesis using assms(2) clean_formI [of "ps @ [c]" r k] by simp
qed

lemma clean_form_pop:
  assumes "clean_form r (rev (x # st))" "x \<noteq> dotdot" shows "clean_form r (rev st)"
proof -
  obtain k ps where k: "rev st @ [x] = replicate k dotdot @ ps" "\<forall>p \<in> set ps. proper p" "r \<longrightarrow> k = 0"
    using assms(1) unfolding clean_form_def by auto
  show ?thesis
  proof (cases ps rule: rev_cases)
    case Nil
    then have "x \<in> set (replicate k dotdot)" using k(1) by (metis append_Nil2 in_set_conv_decomp)
    then show ?thesis using assms(2) by simp
  next
    case (snoc qs q)
    then show ?thesis using k clean_formI [of qs r k] by auto
  qed
qed

lemma clean_form_dotdots:
  assumes "clean_form False (rev (dotdot # st))" shows "clean_form False (rev (dotdot # dotdot # st))"
proof -
  obtain k ps where k: "rev st @ [dotdot] = replicate k dotdot @ ps" "\<forall>p \<in> set ps. proper p"
    using assms unfolding clean_form_def by auto
  have "ps = []"
    using k by (cases ps rule: rev_cases) (auto simp: proper_def)
  then have "rev (dotdot # dotdot # st) = replicate (Suc k) dotdot @ []"
    using k by (simp add: replicate_append_same [symmetric])
  then show ?thesis using clean_formI [of "[]" False "Suc k"] by simp
qed

lemma clean_form_rooted_no_dotdot: "clean_form True (rev (dotdot # st)) \<Longrightarrow> False"
  by (auto simp: clean_form_def proper_def)

lemma clean_comps_form:
  "clean_form r (rev st) \<Longrightarrow> \<forall>c \<in> set cs. CHR ''/'' \<notin> set c \<Longrightarrow> clean_form r (clean_comps r st cs)"
proof (induction r st cs rule: clean_comps.induct)
  case (2 rooted st c cs)
  show ?case
  proof (cases "c = [] \<or> c = ''.''")
    case True
    then show ?thesis using 2 by auto
  next
    case nd: False
    show ?thesis
    proof (cases "c = dotdot")
      case False
      then have "proper c" using nd "2.prems" by (simp add: proper_def)
      with "2.prems"(1) have "clean_form rooted (rev (c # st))" by (rule clean_form_push)
      then show ?thesis using nd False 2 by auto
    next
      case dd: True
      have one: "clean_form False [dotdot]" using clean_formI [of "[]" False 1] by simp
      show ?thesis
      proof (cases st)
        case Nil
        then show ?thesis using nd dd 2 one by auto
      next
        case (Cons x xs)
        show ?thesis
        proof (cases "x = dotdot")
          case True
          then have "\<not> rooted" using "2.prems"(1) Cons clean_form_rooted_no_dotdot by (cases rooted) auto
          then have "clean_form rooted (rev (dotdot # st))"
            using "2.prems"(1) Cons True clean_form_dotdots [of xs] by simp
          then show ?thesis using nd dd Cons True 2 by auto
        next
          case False
          then have "clean_form rooted (rev xs)" using "2.prems"(1) Cons clean_form_pop by blast
          then show ?thesis using nd dd Cons False 2 by auto
        qed
      qed
    qed
  qed
qed simp

lemma split_slash_no_slash: "\<forall>c \<in> set (split_on CHR ''/'' p). CHR ''/'' \<notin> set c"
  by (auto dest: split_on_parts)

lemma clean_form_Nil [simp]: "clean_form r []"
  using clean_formI [of "[]" r 0] by simp

lemma clean_abs:
  assumes "is_abs p"
  obtains cs where "\<forall>c \<in> set cs. proper c" "clean p = abs_path cs"
proof -
  have "clean_form True (clean_comps True [] (split_on CHR ''/'' p))"
    by (rule clean_comps_form) (simp_all add: split_slash_no_slash)
  then have "\<forall>c \<in> set (clean_comps True [] (split_on CHR ''/'' p)). proper c"
    by (auto simp: clean_form_def)
  then show ?thesis
    using that [of "clean_comps True [] (split_on CHR ''/'' p)"] assms
    by (simp add: clean_def abs_path_def)
qed

lemma clean_abs_path [simp]: "\<forall>c \<in> set cs. proper c \<Longrightarrow> clean (abs_path cs) = abs_path cs"
  by (cases "cs = []")
    (simp_all add: clean_def split_abs_path, simp_all add: abs_path_def)

subsection \<open>Containment\<close>

lemma within_refl [simp]: "within r r"
  by (simp add: within_def)

lemma abs_path_inj:
  assumes "\<forall>c \<in> set as. proper c" "\<forall>c \<in> set bs. proper c" "abs_path as = abs_path bs"
  shows "as = bs"
proof -
  have "(if as = [] then [[]] else as) = (if bs = [] then [[]] else bs)"
    using split_abs_path [OF assms(1)] split_abs_path [OF assms(2)] assms(3) by simp
  moreover have "[] \<notin> set as" "[] \<notin> set bs" using assms(1,2) by (auto simp: proper_def)
  ultimately show ?thesis by (auto split: if_splits)
qed

lemma abs_path_append:
  "as \<noteq> [] \<Longrightarrow> bs \<noteq> [] \<Longrightarrow> abs_path (as @ bs) = abs_path as @ ''/'' @ join_slash bs"
  by (simp add: abs_path_def join_slash_append)

text \<open>The string test of the code is component-wise extension (the root directory aside).\<close>

lemma within_components:
  assumes "\<forall>c \<in> set rs. proper c" "\<forall>c \<in> set cs. proper c" "rs \<noteq> []"
  shows "within (abs_path rs) (abs_path cs) \<longleftrightarrow> (\<exists>xs. cs = rs @ xs)"
proof
  assume "within (abs_path rs) (abs_path cs)"
  then consider "abs_path cs = abs_path rs" | t where "abs_path cs = abs_path rs @ CHR ''/'' # t"
    by (auto simp: within_def has_prefix_iff)
  then show "\<exists>xs. cs = rs @ xs"
  proof cases
    case 1
    then show ?thesis using abs_path_inj [OF assms(2,1)] by auto
  next
    case 2
    have "split_on CHR ''/'' (abs_path cs) = ([] # rs) @ split_on CHR ''/'' t"
      using assms by (simp add: 2 split_on_mid split_abs_path)
    then show ?thesis
      using split_abs_path [OF assms(2)] assms(3)
      by (auto split: if_splits simp: Cons_eq_append_conv)
  qed
next
  assume "\<exists>xs. cs = rs @ xs"
  then obtain xs where xs: "cs = rs @ xs" by blast
  show "within (abs_path rs) (abs_path cs)"
  proof (cases "xs = []")
    case False
    then have "abs_path cs = (abs_path rs @ ''/'') @ join_slash xs"
      using xs assms(3) by (simp add: abs_path_append)
    then show ?thesis by (simp only: within_def has_prefix_append simp_thms)
  qed (simp add: xs)
qed

lemma within_trans_components:
  assumes "\<forall>c \<in> set rs. proper c" "\<forall>c \<in> set xs. proper c" "rs \<noteq> []"
  shows "within (abs_path rs) (abs_path (rs @ xs))"
  using assms by (subst within_components) auto

lemma clean_join2:
  assumes "\<forall>c \<in> set ds. proper c"
  shows "path_join [abs_path ds, r] = abs_path (clean_comps True (rev ds) (split_on CHR ''/'' r))"
proof -
  have "split_on CHR ''/'' (join_slash [abs_path ds, r]) =
          ([] # (if ds = [] then [[]] else ds)) @ split_on CHR ''/'' r"
    using split_on_mid [of "CHR ''/''" "abs_path ds" r] split_abs_path [OF assms]
    by (simp add: join_slash_def)
  moreover have "is_abs (join_slash [abs_path ds, r])"
    by (simp add: join_slash_def abs_path_def is_abs_iff)
  moreover have "abs_path ds \<noteq> []" by (simp add: abs_path_def)
  ultimately show ?thesis
    using assms clean_comps_proper [OF assms, of True "[]" "split_on CHR ''/'' r"]
    by (simp add: path_join_def clean_def) (simp add: abs_path_def)
qed

lemma last_component:
  assumes "\<forall>c \<in> set (ds @ [d]). proper c"
  shows "path_dir (abs_path (ds @ [d])) = abs_path ds"
proof -
  have p: "abs_path (ds @ [d]) = (CHR ''/'' # (if ds = [] then [] else join_slash ds @ ''/'')) @ d"
    by (cases "ds = []") (simp_all add: abs_path_def join_slash_append)
  have d: "CHR ''/'' \<notin> set d" using assms by (simp add: proper_def)
  then have "dropWhile (\<lambda>c. c \<noteq> CHR ''/'') (rev d @ rev q) = dropWhile (\<lambda>c. c \<noteq> CHR ''/'') (rev q)" for q
    by (subst dropWhile_append2) auto
  then have "rev (dropWhile (\<lambda>c. c \<noteq> CHR ''/'') (rev (abs_path (ds @ [d])))) =
          CHR ''/'' # (if ds = [] then [] else join_slash ds @ ''/'')"
    unfolding p by (simp only: rev_append) simp
  moreover have "clean (CHR ''/'' # (if ds = [] then [] else join_slash ds @ ''/'')) = abs_path ds"
  proof (cases "ds = []")
    case True
    then show ?thesis by (simp add: clean_def is_abs_iff abs_path_def)
  next
    case False
    have "split_on CHR ''/'' (abs_path ds @ ''/'') = ([] # ds) @ [[]]"
      using False assms split_on_mid [of "CHR ''/''" "abs_path ds" "[]"] by (simp add: split_abs_path)
    moreover have "abs_path ds @ ''/'' = CHR ''/'' # join_slash ds @ ''/''" by (simp add: abs_path_def)
    ultimately show ?thesis
      using False assms clean_comps_proper [of ds True "[]" "[[]]"]
      by (simp add: clean_def is_abs_iff abs_path_def)
  qed
  ultimately show ?thesis by (simp add: path_dir_def)
qed

lemma clean_nonempty [simp]: "clean p \<noteq> []"
proof -
  have "cs \<noteq> [] \<Longrightarrow> [] \<notin> set cs \<Longrightarrow> join_slash cs \<noteq> []" for cs
    by (cases cs; cases "tl cs") (auto simp: join_slash_def)
  moreover have "[] \<notin> set (clean_comps r [] (split_on CHR ''/'' p))" for r
    using clean_comps_form [of r "[]" "split_on CHR ''/'' p"] split_slash_no_slash
    by (auto simp: clean_form_def proper_def dotdot_def)
  ultimately show ?thesis by (auto simp: clean_def Let_def)
qed

lemma path_join_nonempty [simp]:
  "p \<noteq> [] \<Longrightarrow> path_join (p # ps) \<noteq> []" "p \<noteq> [] \<Longrightarrow> [] \<noteq> path_join (p # ps)"
  using clean_nonempty [of "join_slash (p # ps)"] clean_nonempty [of "join_slash (p # ps)", symmetric]
  by (simp_all add: path_join_def)

lemma clean_comps_parts:
  assumes "c \<in> set (clean_comps r [] (split_on CHR ''/'' p))"
  shows "c \<noteq> []" "CHR ''/'' \<notin> set c"
proof -
  obtain k ps where "clean_comps r [] (split_on CHR ''/'' p) = replicate k dotdot @ ps"
    "\<forall>p \<in> set ps. proper p"
    using clean_comps_form [of r "[]" "split_on CHR ''/'' p"] split_slash_no_slash
    by (auto simp: clean_form_def)
  then have "c = dotdot \<or> proper c" using assms by (cases "c \<in> set ps") simp_all
  then show "c \<noteq> []" "CHR ''/'' \<notin> set c" by (auto simp: proper_def dotdot_def)
qed

lemma clean_relative:
  assumes "\<not> is_abs p" shows "\<not> is_abs (clean p)"
proof (cases "clean_comps False [] (split_on CHR ''/'' p)")
  case Nil
  then show ?thesis using assms by (simp add: clean_def is_abs_iff)
next
  case (Cons c cs)
  obtain a c' where c: "c = a # c'" "a \<noteq> CHR ''/''"
    using clean_comps_parts [of c False p] Cons by (cases c) auto
  then have "\<exists>r. join_slash (c # cs) = a # r" by (cases "cs = []") (simp_all add: join_slash_Cons)
  then show ?thesis using assms Cons c by (auto simp: clean_def is_abs_iff)
qed

end
