(* ===== verification/Domain.thy ===== *)
theory Domain
  imports Prelude
begin

text \<open>
  The domain types of \<^verbatim>\<open>internal/core/domain.go\<close> and the request context of
  \<^verbatim>\<open>internal/core/context.go\<close>: sentinel errors and wrapped errors, features, plugins,
  listing keys and pages, audit entries and licence claims.

  A Go \<open>error\<close> is its chain of sentinels (what \<open>errors.Is\<close> can find) and its text (what
  \<open>Error()\<close> returns). Times and durations are \<^typ>\<open>int\<close> nanoseconds. JSON documents are
  trees; a \<open>json.RawMessage\<close> is empty, unparseable, or a tree.
\<close>

subsection \<open>Errors\<close>

datatype sentinel =
    ErrNotFound | ErrInvalidPluginName | ErrGenerationFailed | ErrServerOverloaded
  | ErrShuttingDown | ErrAlreadyExists | ErrMaxPluginsExceeded | ErrFeatureDenied
  | ErrStorageUnavailable | ErrBinaryNotUploaded | ErrInvalidConfig
  \<comment> \<open>context package\<close>
  | DeadlineExceeded | Canceled
  \<comment> \<open>registry and plugarchive packages\<close>
  | ErrEmptyConfig | ErrEmptyCommand | ErrRegistryInvalidConfig | ErrEmptyPluginsDir
  | ErrChecksumMismatch | ErrUnsafePath | ErrMissingEntrypoint
  \<comment> \<open>api, auth and audit packages\<close>
  | ErrBadPageToken | ErrNoCredentials | ErrUnknownToken | ErrWorkerStopped
  | ErrRetentionWouldEmptyTable
  \<comment> \<open>standard library: sql.ErrNoRows, os.ErrNotExist, os.ErrPermission, exec.ErrNotFound\<close>
  | SqlErrNoRows | OsErrNotExist | OsErrPermission | ExecErrNotFound

record go_error =
  chain :: "sentinel list"
  msg :: string

type_synonym 'a result = "go_error + 'a"

text \<open>\<open>errors.Is(err, target)\<close>.\<close>

definition errors_is :: "go_error \<Rightarrow> sentinel \<Rightarrow> bool" where
  "errors_is e s = List.member (chain e) s"

text \<open>\<open>errors.New(text)\<close> for a sentinel, and \<open>fmt.Errorf("prefix%w", err)\<close>.\<close>

definition errors_new :: "sentinel \<Rightarrow> string \<Rightarrow> go_error" where
  "errors_new s m = \<lparr>chain = [s], msg = m\<rparr>"

definition wrap :: "string \<Rightarrow> go_error \<Rightarrow> go_error" where
  "wrap prefix e = e\<lparr>msg := prefix @ msg e\<rparr>"

text \<open>\<open>fmt.Errorf("%w" + suffix, err)\<close> and \<open>fmt.Errorf("%w" + infix + "%w" + suffix, outer, inner)\<close>.\<close>

definition wrap_after :: "go_error \<Rightarrow> string \<Rightarrow> go_error" where
  "wrap_after e suffix = e\<lparr>msg := msg e @ suffix\<rparr>"

definition wrap_both :: "go_error \<Rightarrow> string \<Rightarrow> go_error \<Rightarrow> string \<Rightarrow> go_error" where
  "wrap_both outer infix_text inner suffix =
     \<lparr>chain = chain outer @ chain inner, msg = msg outer @ infix_text @ msg inner @ suffix\<rparr>"

text \<open>An error no sentinel of the service matches, such as a driver error.\<close>

definition plain_error :: "string \<Rightarrow> go_error" where
  "plain_error m = \<lparr>chain = [], msg = m\<rparr>"

lemma errors_is_simps [simp]:
  "errors_is (errors_new s m) t = (t = s)"
  "errors_is (wrap p e) t = errors_is e t"
  "errors_is (wrap_after e q) t = errors_is e t"
  "errors_is (wrap_both e1 p e2 q) t = (errors_is e1 t \<or> errors_is e2 t)"
  "\<not> errors_is (plain_error m) t"
  by (auto simp: errors_is_def errors_new_def wrap_def wrap_after_def wrap_both_def plain_error_def)

lemma chain_simps [simp]:
  "chain (wrap p e) = chain e" "chain (wrap_after e q) = chain e"
  "chain (errors_new s m) = [s]" "chain (plain_error m) = []"
  by (simp_all add: wrap_def wrap_after_def errors_new_def plain_error_def)

text \<open>The package-level sentinels of the core package.\<close>

definition err_not_found :: go_error where
  "err_not_found = errors_new ErrNotFound ''not found''"
definition err_invalid_plugin_name :: go_error where
  "err_invalid_plugin_name = errors_new ErrInvalidPluginName ''invalid plugin name''"
definition err_generation_failed :: go_error where
  "err_generation_failed = errors_new ErrGenerationFailed ''code generation failed''"
definition err_server_overloaded :: go_error where
  "err_server_overloaded = errors_new ErrServerOverloaded ''server overloaded''"
definition err_shutting_down :: go_error where
  "err_shutting_down = errors_new ErrShuttingDown ''server shutting down''"
definition err_already_exists :: go_error where
  "err_already_exists = errors_new ErrAlreadyExists ''already exists''"
definition err_max_plugins_exceeded :: go_error where
  "err_max_plugins_exceeded = errors_new ErrMaxPluginsExceeded ''max plugins exceeded''"
definition err_feature_denied :: go_error where
  "err_feature_denied = errors_new ErrFeatureDenied ''feature denied''"
definition err_storage_unavailable :: go_error where
  "err_storage_unavailable = errors_new ErrStorageUnavailable ''binary storage unavailable''"
definition err_binary_not_uploaded :: go_error where
  "err_binary_not_uploaded = errors_new ErrBinaryNotUploaded ''plugin archive not found in binary storage''"
definition err_invalid_config :: go_error where
  "err_invalid_config = errors_new ErrInvalidConfig ''invalid plugin configuration''"

definition ctx_deadline_exceeded :: go_error where
  "ctx_deadline_exceeded = errors_new DeadlineExceeded ''context deadline exceeded''"
definition ctx_canceled :: go_error where
  "ctx_canceled = errors_new Canceled ''context canceled''"

lemmas core_errors [go_defs] =
  err_not_found_def err_invalid_plugin_name_def err_generation_failed_def
  err_server_overloaded_def err_shutting_down_def err_already_exists_def
  err_max_plugins_exceeded_def err_feature_denied_def err_storage_unavailable_def
  err_binary_not_uploaded_def err_invalid_config_def ctx_deadline_exceeded_def ctx_canceled_def

subsection \<open>Features\<close>

type_synonym feature = int

definition FeatureCodeGeneration :: feature where "FeatureCodeGeneration = 0"
definition FeaturePluginListing :: feature where "FeaturePluginListing = 1"
definition FeatureMCPServerTools :: feature where "FeatureMCPServerTools = 2"
definition FeatureRateLimiting :: feature where "FeatureRateLimiting = 3"
definition FeaturePluginCRUD :: feature where "FeaturePluginCRUD = 4"
definition FeatureAudit :: feature where "FeatureAudit = 5"

lemmas feature_defs =
  FeatureCodeGeneration_def FeaturePluginListing_def FeatureMCPServerTools_def
  FeatureRateLimiting_def FeaturePluginCRUD_def FeatureAudit_def

definition feature_names :: "string list" where
  "feature_names =
     [''code_generation'', ''plugin_listing'', ''mcp_server_tools'', ''rate_limiting'',
      ''plugin_crud'', ''audit'']"

definition feature_string :: "feature \<Rightarrow> string" where
  "feature_string f =
     (if f < 0 \<or> f \<ge> int (length feature_names) then ''unknown'' else feature_names ! nat f)"

subsection \<open>The request context\<close>

record req_context =
  ctx_caller_ip :: "string option"
  ctx_actor :: "string option"

definition unknown_value :: string where "unknown_value = ''unknown''"

definition with_caller_ip :: "req_context \<Rightarrow> string \<Rightarrow> req_context" where
  "with_caller_ip ctx ip = ctx\<lparr>ctx_caller_ip := Some ip\<rparr>"

definition caller_ip_from_context :: "req_context \<Rightarrow> string" where
  "caller_ip_from_context ctx =
     (case ctx_caller_ip ctx of Some ip \<Rightarrow> if ip \<noteq> [] then ip else unknown_value
      | None \<Rightarrow> unknown_value)"

definition with_actor :: "req_context \<Rightarrow> string \<Rightarrow> req_context" where
  "with_actor ctx actor = ctx\<lparr>ctx_actor := Some actor\<rparr>"

definition actor_from_context :: "req_context \<Rightarrow> string" where
  "actor_from_context ctx =
     (case ctx_actor ctx of Some a \<Rightarrow> if a \<noteq> [] then a else unknown_value
      | None \<Rightarrow> unknown_value)"

subsection \<open>Plugins, filters and pages\<close>

record plugin_info =
  pi_id :: nat
  pi_group :: string
  pi_name :: string
  pi_version :: string
  pi_tags :: "string list"
  pi_created_at :: int

record plugin_filter =
  pf_group :: string
  pf_name :: string
  pf_version :: string
  pf_tags :: "string list"

record plugin_key =
  pk_group :: string
  pk_name :: string
  pk_version :: string

record plugin_page =
  pg_size :: int
  pg_after :: "plugin_key option"

record plugin_list =
  pl_plugins :: "plugin_info list"
  pl_next :: "plugin_key option"

definition info_key :: "plugin_info \<Rightarrow> plugin_key" where
  "info_key p = \<lparr>pk_group = pi_group p, pk_name = pi_name p, pk_version = pi_version p\<rparr>"

text \<open>The zero values \<open>PluginFilter{}\<close> and \<open>PluginPage{}\<close>.\<close>

definition no_filter :: plugin_filter where
  "no_filter = \<lparr>pf_group = [], pf_name = [], pf_version = [], pf_tags = []\<rparr>"

definition no_page :: plugin_page where
  "no_page = \<lparr>pg_size = 0, pg_after = None\<rparr>"

subsection \<open>Plugin configurations\<close>

datatype json =
    JNull | JBool bool | JNum string | JStr string | JArr "json list" | JObj "(string \<times> json) list"

datatype raw_json = RawEmpty | RawBad string | RawDoc json

record create_request =
  cr_group :: string
  cr_name :: string
  cr_version :: string
  cr_config :: raw_json
  cr_tags :: "string list"

record update_request =
  ur_group :: string
  ur_name :: string
  ur_version :: string
  ur_config :: raw_json
  ur_tags :: "string list"
  ur_update_config :: bool
  ur_update_tags :: bool

subsection \<open>Audit entries\<close>

datatype operation = GENERATE_CODE | LIST_PLUGINS | CREATE_PLUGIN | UPDATE_PLUGIN | DELETE_PLUGIN

datatype audit_status = AuditSuccess | AuditError

datatype meta_value = MetaInt int | MetaString string

record audit_entry =
  ae_id :: nat
  ae_operation :: operation
  ae_plugin_name :: string
  ae_caller :: string
  ae_status :: audit_status
  ae_error_code :: string
  ae_error_message :: string
  ae_duration_ms :: int
  ae_metadata :: "string \<rightharpoonup> meta_value"
  ae_created_at :: int

subsection \<open>Licence claims\<close>

record license_claims =
  lc_tier :: string
  lc_features :: "feature list"
  lc_max_workers :: int
  lc_max_plugins :: int
  lc_expires_at :: "int option"
  lc_in_grace :: bool

definition tier_community :: string where "tier_community = ''community''"
definition tier_enterprise :: string where "tier_enterprise = ''enterprise''"
definition community_max_workers :: int where "community_max_workers = 4"
definition community_max_plugins :: int where "community_max_plugins = 10"
definition license_unlimited :: int where "license_unlimited = -1"

definition community_license_claims :: license_claims where
  "community_license_claims =
     \<lparr>lc_tier = tier_community,
      lc_features = [FeatureCodeGeneration, FeaturePluginListing, FeatureMCPServerTools,
                     FeatureRateLimiting, FeaturePluginCRUD],
      lc_max_workers = community_max_workers,
      lc_max_plugins = community_max_plugins,
      lc_expires_at = None,
      lc_in_grace = False\<rparr>"

definition enterprise_license_claims :: "int \<Rightarrow> bool \<Rightarrow> license_claims" where
  "enterprise_license_claims expires_at in_grace =
     \<lparr>lc_tier = tier_enterprise,
      lc_features = [FeatureCodeGeneration, FeaturePluginListing, FeatureMCPServerTools,
                     FeatureRateLimiting, FeaturePluginCRUD, FeatureAudit],
      lc_max_workers = license_unlimited,
      lc_max_plugins = license_unlimited,
      lc_expires_at = Some expires_at,
      lc_in_grace = in_grace\<rparr>"

lemmas claims_defs =
  community_license_claims_def enterprise_license_claims_def tier_community_def
  tier_enterprise_def community_max_workers_def community_max_plugins_def license_unlimited_def

lemma tiers_differ [simp]: "tier_community \<noteq> tier_enterprise" "tier_enterprise \<noteq> tier_community"
  by (simp_all add: tier_community_def tier_enterprise_def)

end
