(* ===== verification/PluginConfig.thy ===== *)
theory PluginConfig
  imports Paths Domain
begin

text \<open>
  Plugin configurations (\<^verbatim>\<open>internal/adapters/registry/registry.go\<close>): decoding the JSON document into
  \<open>PluginConfig\<close> the way \<^verbatim>\<open>encoding/json\<close> does (member names matched exactly or up to case
  folding, \<open>null\<close> ignored, a later member overriding an earlier one, a wrong type an error), the
  validation of a document a client sends, and recording the checksum of the archive in it.

  The lemmas show which commands the validation admits and that the recorded checksum is the one
  read back, unless the document has another member whose name folds to \<^verbatim>\<open>sha256\<close>.
\<close>

subsection \<open>Errors\<close>

text \<open>Three of them wrap \<open>core.ErrInvalidConfig\<close>.\<close>

definition err_empty_config :: go_error where
  "err_empty_config = \<lparr>chain = [ErrEmptyConfig, ErrInvalidConfig], msg = msg err_invalid_config @ '': empty config''\<rparr>"
definition err_empty_command :: go_error where
  "err_empty_command =
     \<lparr>chain = [ErrEmptyCommand, ErrInvalidConfig], msg = msg err_invalid_config @ '': empty command array''\<rparr>"
definition err_registry_invalid_config :: go_error where
  "err_registry_invalid_config = \<lparr>chain = [ErrRegistryInvalidConfig, ErrInvalidConfig], msg = msg err_invalid_config\<rparr>"
definition err_empty_plugins_dir :: go_error where
  "err_empty_plugins_dir = errors_new ErrEmptyPluginsDir ''pluginsDir cannot be empty''"
definition err_checksum_mismatch :: go_error where
  "err_checksum_mismatch = errors_new ErrChecksumMismatch ''plugin archive checksum mismatch''"

lemmas registry_errors [go_defs] =
  err_empty_config_def err_empty_command_def err_registry_invalid_config_def
  err_empty_plugins_dir_def err_checksum_mismatch_def

subsection \<open>Decoding\<close>

record plugin_config =
  pc_command :: "string list"
  pc_env :: "(string \<times> string) list"
  pc_timeout :: string
  pc_sha256 :: string

definition zero_config :: plugin_config where
  "zero_config = \<lparr>pc_command = [], pc_env = [], pc_timeout = [], pc_sha256 = []\<rparr>"

text \<open>
  Member names are matched up to simple case folding. Strings are UTF-8 bytes: besides the ASCII
  letters, U+017F (bytes C5 BF) folds to \<open>S\<close> and U+212A (bytes E2 84 AA) to \<open>K\<close>.
\<close>

definition upper_char :: "char \<Rightarrow> char" where
  "upper_char c = (if is_lower c then char_of (of_char c - 32 :: nat) else c)"

fun fold_name :: "string \<Rightarrow> string" where
  "fold_name (a # b # c # s) =
     (if a = CHR 0xC5 \<and> b = CHR 0xBF then CHR ''S'' # fold_name (c # s)
      else if a = CHR 0xE2 \<and> b = CHR 0x84 \<and> c = CHR 0xAA then CHR ''K'' # fold_name s
      else upper_char a # fold_name (b # c # s))"
| "fold_name [a, b] = (if a = CHR 0xC5 \<and> b = CHR 0xBF then ''S'' else [upper_char a, upper_char b])"
| "fold_name s = map upper_char s"

definition json_kind :: "json \<Rightarrow> string" where
  "json_kind j = (case j of JNull \<Rightarrow> ''null'' | JBool _ \<Rightarrow> ''bool'' | JNum _ \<Rightarrow> ''number'' | JStr _ \<Rightarrow> ''string''
                  | JArr _ \<Rightarrow> ''array'' | JObj _ \<Rightarrow> ''object'')"

definition type_error :: "json \<Rightarrow> string \<Rightarrow> string \<Rightarrow> go_error" where
  "type_error j field typ =
     plain_error (''json: cannot unmarshal '' @ json_kind j @ '' into Go struct field PluginConfig.'' @ field
                  @ '' of type '' @ typ)"

definition decode_string :: "string \<Rightarrow> string \<Rightarrow> json \<Rightarrow> string result" where
  "decode_string field old j =
     (case j of JNull \<Rightarrow> Inr old | JStr s \<Rightarrow> Inr s | _ \<Rightarrow> Inl (type_error j field ''string''))"

text \<open>An element that is \<open>null\<close> keeps what the slice held at its place.\<close>

fun decode_strings :: "string \<Rightarrow> string list \<Rightarrow> json list \<Rightarrow> string list result" where
  "decode_strings field old [] = Inr []"
| "decode_strings field old (j # js) =
     (case decode_string field (case old of [] \<Rightarrow> [] | x # xs \<Rightarrow> x) j of
        Inl e \<Rightarrow> Inl e
      | Inr s \<Rightarrow> (case decode_strings field (tl old) js of Inl e \<Rightarrow> Inl e | Inr ss \<Rightarrow> Inr (s # ss)))"

definition assoc_set :: "'a \<Rightarrow> 'b \<Rightarrow> ('a \<times> 'b) list \<Rightarrow> ('a \<times> 'b) list" where
  "assoc_set k v m = (k, v) # filter (\<lambda>(k', _). k' \<noteq> k) m"

fun decode_env :: "(string \<times> string) list \<Rightarrow> (string \<times> json) list \<Rightarrow> (string \<times> string) list result" where
  "decode_env m [] = Inr m"
| "decode_env m ((k, j) # kvs) =
     (case decode_string ''env'' [] j of Inl e \<Rightarrow> Inl e | Inr s \<Rightarrow> decode_env (assoc_set k s m) kvs)"

text \<open>Which field a member sets: the exact name first, then the folded one.\<close>

definition field_of :: "string \<Rightarrow> string option" where
  "field_of k =
     (let names = [''command'', ''env'', ''timeout'', ''sha256''] in
      if k \<in> set names then Some k else find (\<lambda>n. fold_name n = fold_name k) names)"

definition decode_member :: "plugin_config \<Rightarrow> string \<Rightarrow> json \<Rightarrow> plugin_config result" where
  "decode_member cfg k j =
     (case field_of k of
        None \<Rightarrow> Inr cfg
      | Some f \<Rightarrow>
          if f = ''command'' then
            (case j of
               JNull \<Rightarrow> Inr (cfg\<lparr>pc_command := []\<rparr>)
             | JArr js \<Rightarrow> (case decode_strings f (pc_command cfg) js of
                            Inl e \<Rightarrow> Inl e | Inr ss \<Rightarrow> Inr (cfg\<lparr>pc_command := ss\<rparr>))
             | _ \<Rightarrow> Inl (type_error j f ''[]string''))
          else if f = ''env'' then
            (case j of
               JNull \<Rightarrow> Inr (cfg\<lparr>pc_env := []\<rparr>)
             | JObj kvs \<Rightarrow> (case decode_env (pc_env cfg) kvs of
                             Inl e \<Rightarrow> Inl e | Inr m \<Rightarrow> Inr (cfg\<lparr>pc_env := m\<rparr>))
             | _ \<Rightarrow> Inl (type_error j f ''map[string]string''))
          else if f = ''timeout'' then
            (case decode_string f (pc_timeout cfg) j of Inl e \<Rightarrow> Inl e | Inr s \<Rightarrow> Inr (cfg\<lparr>pc_timeout := s\<rparr>))
          else
            (case decode_string f (pc_sha256 cfg) j of Inl e \<Rightarrow> Inl e | Inr s \<Rightarrow> Inr (cfg\<lparr>pc_sha256 := s\<rparr>)))"

fun decode_members :: "plugin_config \<Rightarrow> (string \<times> json) list \<Rightarrow> plugin_config result" where
  "decode_members cfg [] = Inr cfg"
| "decode_members cfg ((k, j) # kvs) =
     (case decode_member cfg k j of Inl e \<Rightarrow> Inl e | Inr cfg' \<Rightarrow> decode_members cfg' kvs)"

text \<open>\<open>json.Unmarshal(config, &pConfig)\<close> into the zero value.\<close>

definition unmarshal_config :: "raw_json \<Rightarrow> plugin_config result" where
  "unmarshal_config config =
     (case config of
        RawEmpty \<Rightarrow> Inl (plain_error ''unexpected end of JSON input'')
      | RawBad m \<Rightarrow> Inl (plain_error m)
      | RawDoc JNull \<Rightarrow> Inr zero_config
      | RawDoc (JObj kvs) \<Rightarrow> decode_members zero_config kvs
      | RawDoc j \<Rightarrow> Inl (plain_error (''json: cannot unmarshal '' @ json_kind j
                       @ '' into Go value of type registry.PluginConfig'')))"

subsection \<open>Validation\<close>

definition validate_config :: "raw_json \<Rightarrow> string \<Rightarrow> go_error option" where
  "validate_config config plugins_dir =
     (if config = RawEmpty then Some err_empty_config
      else
        case unmarshal_config config of
          Inl e \<Rightarrow> Some (wrap_both err_registry_invalid_config '': json.Unmarshal config: '' e [])
        | Inr cfg \<Rightarrow>
            (case pc_command cfg of
               [] \<Rightarrow> Some err_empty_command
             | c0 # args \<Rightarrow>
                 (let cleaned_plugins_dir = clean plugins_dir;
                      executable = clean c0 in
                  if executable \<noteq> cleaned_plugins_dir
                     \<and> \<not> has_prefix executable (cleaned_plugins_dir @ ''/'') then
                    Some (wrap_after err_registry_invalid_config
                      ('': command[0] must be the plugin executable inside '' @ plugins_dir @ '', got '' @ c0))
                  else None)))"

subsection \<open>Recording the checksum\<close>

text \<open>
  \<open>json.Unmarshal\<close> into \<open>map[string]any\<close> keeps the last of equal members; assigning into the nil
  map a \<open>null\<close> document leaves would panic, which is \<^term>\<open>None\<close> here (validation has rejected the
  document by then). \<open>json.Marshal\<close> writes the members sorted by name; \<open>renumber\<close> is what
  a number becomes on its way through \<open>float64\<close>, \<^term>\<open>None\<close> when it is out of range.
\<close>

fun insert_member :: "(string \<Rightarrow> string \<Rightarrow> bool) \<Rightarrow> string \<Rightarrow> json \<Rightarrow> (string \<times> json) list \<Rightarrow> (string \<times> json) list" where
  "insert_member le k v [] = [(k, v)]"
| "insert_member le k v ((k', v') # m) =
     (if k = k' then (k, v) # m
      else if le k k' then (k, v) # (k', v') # m
      else (k', v') # insert_member le k v m)"

fun bytes_le :: "string \<Rightarrow> string \<Rightarrow> bool" where
  "bytes_le [] t = True"
| "bytes_le (a # s) [] = False"
| "bytes_le (a # s) (b # t) =
     (if a = b then bytes_le s t else (of_char a :: nat) < of_char b)"

fun reread :: "(string \<Rightarrow> string option) \<Rightarrow> json \<Rightarrow> json option"
  and reread_list :: "(string \<Rightarrow> string option) \<Rightarrow> json list \<Rightarrow> json list option"
  and reread_members ::
    "(string \<Rightarrow> string option) \<Rightarrow> (string \<times> json) list \<Rightarrow> (string \<times> json) list \<Rightarrow> (string \<times> json) list option" where
  "reread renumber (JNum n) = map_option JNum (renumber n)"
| "reread renumber (JArr js) = map_option JArr (reread_list renumber js)"
| "reread renumber (JObj kvs) = map_option JObj (reread_members renumber [] kvs)"
| "reread renumber j = Some j"
| "reread_list renumber [] = Some []"
| "reread_list renumber (j # js) =
     (case (reread renumber j, reread_list renumber js) of
        (Some x, Some xs) \<Rightarrow> Some (x # xs) | _ \<Rightarrow> None)"
| "reread_members renumber m [] = Some m"
| "reread_members renumber m ((k, j) # kvs) =
     (case reread renumber j of
        None \<Rightarrow> None
      | Some v \<Rightarrow> reread_members renumber (insert_member bytes_le k v m) kvs)"

definition config_with_checksum ::
  "(string \<Rightarrow> string option) \<Rightarrow> raw_json \<Rightarrow> string \<Rightarrow> raw_json result option" where
  "config_with_checksum renumber config checksum_hex =
     (case config of
        RawEmpty \<Rightarrow> Some (Inl (plain_error ''json.Unmarshal: unexpected end of JSON input''))
      | RawBad m \<Rightarrow> Some (Inl (wrap ''json.Unmarshal: '' (plain_error m)))
      | RawDoc JNull \<Rightarrow> None
      | RawDoc (JObj kvs) \<Rightarrow>
          (case reread_members renumber [] kvs of
             None \<Rightarrow> Some (Inl (plain_error ''json.Unmarshal: cannot unmarshal number into Go value of type float64''))
           | Some raw \<Rightarrow> Some (Inr (RawDoc (JObj (insert_member bytes_le ''sha256'' (JStr checksum_hex) raw)))))
      | RawDoc j \<Rightarrow>
          Some (Inl (plain_error (''json.Unmarshal: cannot unmarshal '' @ json_kind j
                  @ '' into Go value of type map[string]interface {}''))))"

subsection \<open>What validation admits\<close>

lemma clean_within:
  assumes "\<forall>c \<in> set ds. proper c" "ds \<noteq> []"
  shows "(clean c0 = abs_path ds \<or> has_prefix (clean c0) (abs_path ds @ ''/'')) \<longleftrightarrow>
      (\<exists>xs. (\<forall>x \<in> set xs. proper x) \<and> is_abs c0 \<and> clean c0 = abs_path (ds @ xs))" (is "?L = ?R")
proof
  assume l: ?L
  then have "is_abs (clean c0)" by (auto simp: has_prefix_iff is_abs_iff abs_path_def)
  have abs: "is_abs c0"
  proof (rule ccontr)
    assume n: "\<not> is_abs c0"
    then show False using clean_relative \<open>is_abs (clean c0)\<close> by simp
  qed
  obtain cs where pr: "\<forall>c \<in> set cs. proper c" and cs: "clean c0 = abs_path cs"
    by (rule clean_abs [OF abs])
  then have "within (abs_path ds) (abs_path cs)" using l by (simp add: within_def)
  then obtain xs where "cs = ds @ xs" using within_components [OF assms(1) pr assms(2)] by blast
  then show ?R using abs cs pr by auto
next
  assume ?R
  then obtain xs where "\<forall>x \<in> set xs. proper x" "clean c0 = abs_path (ds @ xs)" by blast
  then show ?L using within_trans_components [of ds xs] assms by (simp add: within_def)
qed

lemma validate_config_None:
  "validate_config config dir = None \<longleftrightarrow>
     (\<exists>cfg c0 args. unmarshal_config config = Inr cfg \<and> pc_command cfg = c0 # args \<and>
        (clean c0 = clean dir \<or> has_prefix (clean c0) (clean dir @ ''/'')))"
proof (cases "unmarshal_config config")
  case (Inr cfg)
  moreover have "config \<noteq> RawEmpty" using Inr by (auto simp: unmarshal_config_def)
  ultimately show ?thesis
    by (cases "pc_command cfg") (simp_all add: validate_config_def Let_def)
qed (simp add: validate_config_def)

lemma config_errors_are_invalid [simp]:
  "errors_is err_empty_config ErrInvalidConfig" "errors_is err_empty_command ErrInvalidConfig"
  "errors_is err_registry_invalid_config ErrInvalidConfig"
  by (simp_all add: errors_is_def err_empty_config_def err_empty_command_def err_registry_invalid_config_def)

lemma validate_config_Some:
  assumes "validate_config config dir = Some e" shows "errors_is e ErrInvalidConfig"
proof (cases "config = RawEmpty")
  case True
  then show ?thesis using assms by (auto simp: validate_config_def)
next
  case False
  show ?thesis
  proof (cases "unmarshal_config config")
    case (Inl x)
    then show ?thesis using assms False by (auto simp: validate_config_def)
  next
    case (Inr cfg)
    then show ?thesis using assms False
      by (cases "pc_command cfg") (auto simp: validate_config_def Let_def split: if_splits)
  qed
qed

text \<open>
  A document is accepted exactly when it decodes and the first element of its command, cleaned,
  is the plugins directory or a path below it: whatever the arguments, an executable elsewhere is
  refused. Every refusal is an invalid configuration to the caller.
\<close>

theorem validate_config_contained:
  assumes "\<forall>c \<in> set ds. proper c" "ds \<noteq> []"
  shows "(validate_config config (abs_path ds) = None \<longleftrightarrow>
      (\<exists>cfg c0 args xs. unmarshal_config config = Inr cfg \<and> pc_command cfg = c0 # args \<and>
         (\<forall>x \<in> set xs. proper x) \<and> is_abs c0 \<and> clean c0 = abs_path (ds @ xs))) \<and>
    (\<forall>e. validate_config config (abs_path ds) = Some e \<longrightarrow> errors_is e ErrInvalidConfig)"
  using validate_config_None [of config "abs_path ds"] validate_config_Some [of config "abs_path ds"]
    clean_within [OF assms] clean_abs_path [OF assms(1)] by metis

definition sample_config :: raw_json where
  "sample_config = RawDoc (JObj [(''command'', JArr [JStr ''/plugins/g/n/v1/plugin'', JStr ''-x'']), (''sha256'', JStr ''0'')])"

theorem validate_config_contained_witness:
  "validate_config sample_config (abs_path [''plugins'']) = None \<and>
   validate_config (RawDoc (JObj [(''command'', JArr [JStr ''/bin/sh'', JStr ''/plugins/x''])]))
     (abs_path [''plugins'']) \<noteq> None"
proof -
  have p: "\<forall>c \<in> set [''plugins'']. proper c" by (simp add: proper_def dotdot_def)
  have c1: "is_abs ''/plugins/g/n/v1/plugin''"
    "clean ''/plugins/g/n/v1/plugin'' = abs_path ([''plugins''] @ [''g'', ''n'', ''v1'', ''plugin''])"
    by (simp_all add: is_abs_def has_prefix_def clean_def abs_path_def join_slash_def dotdot_def)
  have u: "\<exists>cfg. unmarshal_config sample_config = Inr cfg \<and> pc_command cfg = [''/plugins/g/n/v1/plugin'', ''-x'']"
    by (simp add: sample_config_def unmarshal_config_def decode_member_def field_of_def zero_config_def
        decode_string_def)
  have "\<forall>x \<in> set [''g'', ''n'', ''v1'', ''plugin'']. proper x" by (simp add: proper_def dotdot_def)
  then have "validate_config sample_config (abs_path [''plugins'']) = None"
    using validate_config_contained [OF p, of sample_config] c1 u by blast
  moreover have "validate_config (RawDoc (JObj [(''command'', JArr [JStr ''/bin/sh'', JStr ''/plugins/x''])]))
     (abs_path [''plugins'']) \<noteq> None"
    by (simp add: validate_config_def unmarshal_config_def decode_member_def field_of_def
        zero_config_def decode_string_def clean_def abs_path_def join_slash_def is_abs_def has_prefix_def dotdot_def)
  ultimately show ?thesis by blast
qed

subsection \<open>The recorded checksum\<close>

lemma bytes_le_refl [simp]: "bytes_le s s"
  by (induction s) auto

lemma bytes_le_total: "bytes_le s t \<or> bytes_le t s"
  by (induction s t rule: bytes_le.induct) (auto simp: not_less_iff_gr_or_eq of_char_eq_iff)

lemma bytes_le_antisym: "bytes_le s t \<Longrightarrow> bytes_le t s \<Longrightarrow> s = t"
proof (induction s t rule: bytes_le.induct)
  case (1 t)
  then show ?case by (cases t) auto
qed (auto split: if_splits)

lemma bytes_le_trans: "bytes_le s t \<Longrightarrow> bytes_le t u \<Longrightarrow> bytes_le s u"
proof (induction s t arbitrary: u rule: bytes_le.induct)
  case (3 a s b t)
  then show ?case by (cases u) (auto split: if_splits dest: less_trans)
qed auto

text \<open>The members written are strictly sorted by name.\<close>

definition member_lt :: "string \<times> json \<Rightarrow> string \<times> json \<Rightarrow> bool" where
  "member_lt x y \<longleftrightarrow> fst x \<noteq> fst y \<and> bytes_le (fst x) (fst y)"

lemma insert_member_subset: "set (insert_member le k v m) \<subseteq> insert (k, v) (set m)"
proof (induction m)
  case (Cons a m)
  then show ?case by (cases a) auto
qed simp

lemma insert_member_in: "(k, v) \<in> set (insert_member le k v m)"
proof (induction m)
  case (Cons a m)
  then show ?case by (cases a) auto
qed simp

lemma insert_member_sorted:
  "sorted_wrt member_lt m \<Longrightarrow> sorted_wrt member_lt (insert_member bytes_le k v m)"
proof (induction m)
  case (Cons a m)
  obtain k' v' where a: "a = (k', v')" by (cases a)
  consider "k = k'" | "k \<noteq> k'" "bytes_le k k'" | "k \<noteq> k'" "\<not> bytes_le k k'" by blast
  then show ?case
  proof cases
    case 1
    then show ?thesis using Cons.prems a by (auto simp: member_lt_def)
  next
    case 2
    have "member_lt (k, v) x" if "x \<in> set m" for x
    proof -
      have x: "k' \<noteq> fst x" "bytes_le k' (fst x)" using Cons.prems that by (auto simp: a member_lt_def)
      then show ?thesis using 2 bytes_le_trans bytes_le_antisym by (metis fst_conv member_lt_def)
    qed
    then show ?thesis using Cons.prems a 2 by (auto simp: member_lt_def)
  next
    case 3
    have "member_lt (k', v') x" if "x \<in> set (insert_member bytes_le k v m)" for x
      using that insert_member_subset [of bytes_le k v m] Cons.prems 3 bytes_le_total [of k k']
      by (auto simp: a member_lt_def)
    then show ?thesis using Cons a 3 by simp
  qed
qed simp

lemma member_unique:
  "sorted_wrt member_lt m \<Longrightarrow> (k, v) \<in> set m \<Longrightarrow> (k, w) \<in> set m \<Longrightarrow> v = w"
  by (induction m) (auto simp: member_lt_def)

lemma reread_members_sorted:
  "reread_members f m kvs = Some m' \<Longrightarrow> sorted_wrt member_lt m \<Longrightarrow> sorted_wrt member_lt m'"
proof (induction kvs arbitrary: m)
  case (Cons kv kvs)
  then show ?case using insert_member_sorted by (cases kv) (auto split: option.splits)
qed simp

lemma reread_members_keys:
  "reread_members f m kvs = Some m' \<Longrightarrow> fst ` set m' \<subseteq> fst ` set m \<union> fst ` set kvs"
proof (induction kvs arbitrary: m)
  case (Cons kv kvs)
  obtain k j where kv: "kv = (k, j)" by (cases kv)
  then obtain v where "reread_members f (insert_member bytes_le k v m) kvs = Some m'"
    using Cons.prems by (auto split: option.splits)
  from Cons.IH [OF this] have "fst ` set m' \<subseteq> fst ` set (insert_member bytes_le k v m) \<union> fst ` set kvs" .
  moreover have "fst ` set (insert_member bytes_le k v m) \<subseteq> insert k (fst ` set m)"
    using image_mono [OF insert_member_subset [of bytes_le k v m], of fst] by simp
  ultimately show ?case using kv by auto
qed simp

lemma field_of_sha256 [simp]: "field_of ''sha256'' = Some ''sha256''"
  by (simp add: field_of_def)

lemma decode_member_sha:
  assumes d: "decode_member cfg k j = Inr cfg'"
  shows "field_of k \<noteq> Some ''sha256'' \<Longrightarrow> pc_sha256 cfg' = pc_sha256 cfg"
    and "k = ''sha256'' \<Longrightarrow> j = JStr h \<Longrightarrow> pc_sha256 cfg' = h"
proof -
  assume f: "field_of k \<noteq> Some ''sha256''"
  let ?names = "[''command'', ''env'', ''timeout'', ''sha256'']"
  have "field_of k = None \<or> (\<exists>n \<in> set ?names. field_of k = Some n)"
  proof (cases "k \<in> set ?names")
    case False
    have "find P xs = None \<or> (\<exists>n \<in> set xs. find P xs = Some n)" for P and xs :: "string list"
      by (induction xs) auto
    then show ?thesis using False unfolding field_of_def Let_def by presburger
  qed (simp add: field_of_def)
  then consider "field_of k = None" | "field_of k = Some ''command''" | "field_of k = Some ''env''"
    | "field_of k = Some ''timeout''"
    using f by auto
  then show "pc_sha256 cfg' = pc_sha256 cfg"
    using d by cases (auto simp: decode_member_def split: json.splits sum.splits)
next
  assume "k = ''sha256''" "j = JStr h"
  then show "pc_sha256 cfg' = h" using d by (auto simp: decode_member_def decode_string_def)
qed

lemma decode_members_sha:
  assumes "decode_members cfg m = Inr cfg'"
    and "\<forall>(k, j) \<in> set m. field_of k = Some ''sha256'' \<longrightarrow> k = ''sha256'' \<and> j = JStr h"
    and "(''sha256'', JStr h) \<in> set m \<or> pc_sha256 cfg = h"
  shows "pc_sha256 cfg' = h"
  using assms
proof (induction m arbitrary: cfg)
  case (Cons kj m)
  obtain k j where kj: "kj = (k, j)" by (cases kj)
  then obtain cfg1 where d: "decode_member cfg k j = Inr cfg1" "decode_members cfg1 m = Inr cfg'"
    using Cons.prems(1) by (auto split: sum.splits)
  have "(''sha256'', JStr h) \<in> set m \<or> pc_sha256 cfg1 = h"
    using decode_member_sha [OF d(1)] Cons.prems(2,3) kj by auto
  then show ?case using Cons.IH [OF d(2)] Cons.prems(2) by simp
qed simp

text \<open>
  The checksum recorded at registration is the one verified before the archive is unpacked: when
  no member of the document but \<^verbatim>\<open>sha256\<close> itself folds to that name, the rewritten document, its
  members in whatever order the database returns them, decodes to the recorded checksum.
\<close>

theorem checksum_recorded:
  assumes "config_with_checksum renumber (RawDoc (JObj kvs)) h = Some (Inr (RawDoc (JObj m)))"
    and "\<forall>k \<in> fst ` set kvs. field_of k = Some ''sha256'' \<longrightarrow> k = ''sha256''"
    and "set m' = set m" "unmarshal_config (RawDoc (JObj m')) = Inr cfg"
  shows "pc_sha256 cfg = h"
proof -
  obtain raw where raw: "reread_members renumber [] kvs = Some raw"
    and m: "m = insert_member bytes_le ''sha256'' (JStr h) raw"
    using assms(1) by (auto simp: config_with_checksum_def split: option.splits)
  have s: "sorted_wrt member_lt m"
    using reread_members_sorted [OF raw] insert_member_sorted by (simp add: m)
  have i: "(''sha256'', JStr h) \<in> set m'" using insert_member_in assms(3) by (simp add: m)
  have keys: "fst ` set m \<subseteq> insert ''sha256'' (fst ` set kvs)"
  proof -
    have "fst ` set m \<subseteq> fst ` insert (''sha256'', JStr h) (set raw)"
      unfolding m by (rule image_mono [OF insert_member_subset])
    then show ?thesis using reread_members_keys [OF raw] by simp blast
  qed
  have "k = ''sha256'' \<and> j = JStr h" if "(k, j) \<in> set m'" "field_of k = Some ''sha256''" for k j
  proof -
    have "k \<in> fst ` set m" using that(1) assms(3) by (metis fst_conv image_eqI)
    then have k: "k = ''sha256''" using keys assms(2) that(2) by blast
    then show ?thesis using member_unique [OF s, of k j "JStr h"] i that(1) assms(3) by simp
  qed
  then have "\<forall>(k, j) \<in> set m'. field_of k = Some ''sha256'' \<longrightarrow> k = ''sha256'' \<and> j = JStr h"
    by blast
  moreover have "decode_members zero_config m' = Inr cfg" using assms(4) by (simp add: unmarshal_config_def)
  ultimately show ?thesis using decode_members_sha [of zero_config m' cfg h] i by blast
qed

theorem checksum_recorded_witness:
  "\<exists>m cfg. config_with_checksum Some sample_config ''abc'' = Some (Inr (RawDoc (JObj m))) \<and>
     unmarshal_config (RawDoc (JObj (rev m))) = Inr cfg \<and> pc_sha256 cfg = ''abc''"
proof -
  let ?cmd = "JArr [JStr ''/plugins/g/n/v1/plugin'', JStr ''-x'']"
  let ?kvs = "[(''command'', ?cmd), (''sha256'', JStr ''0'')]"
  let ?m = "[(''command'', ?cmd), (''sha256'', JStr ''abc'')]"
  have c: "config_with_checksum Some (RawDoc (JObj ?kvs)) ''abc'' = Some (Inr (RawDoc (JObj ?m)))"
    by (simp add: config_with_checksum_def)
  obtain cfg where u: "unmarshal_config (RawDoc (JObj (rev ?m))) = Inr cfg"
    by (simp add: unmarshal_config_def decode_member_def field_of_def zero_config_def decode_string_def)
  have "pc_sha256 cfg = ''abc''"
    by (rule checksum_recorded [OF c _ _ u]) (auto simp: field_of_def)
  then show ?thesis using c u by (auto simp: sample_config_def)
qed

text \<open>
  Without that proviso it is not: a document with the member U+017F \<^verbatim>\<open>ha256\<close> set to the empty
  string is accepted, the checksum is recorded beside it, and what is read back is the empty
  string, which turns the verification of the archive off.
\<close>

definition folded_config :: raw_json where
  "folded_config = RawDoc (JObj [(''command'', JArr [JStr ''/plugins/x'']),
     (CHR 0xC5 # CHR 0xBF # ''ha256'', JStr [])])"

theorem checksum_overridden:
  "validate_config folded_config ''/plugins'' = None \<and>
   (\<exists>m cfg. config_with_checksum Some folded_config ''abc'' = Some (Inr (RawDoc (JObj m))) \<and>
      (''sha256'', JStr ''abc'') \<in> set m \<and>
      unmarshal_config (RawDoc (JObj m)) = Inr cfg \<and> pc_sha256 cfg = [])"
  by (simp add: folded_config_def validate_config_def unmarshal_config_def decode_member_def field_of_def
      zero_config_def decode_string_def config_with_checksum_def clean_def join_slash_def is_abs_def
      has_prefix_def dotdot_def upper_char_def is_lower_def char_of_def bit_0)

end
