(* ===== verification/FileSys.thy ===== *)
theory FileSys
  imports Paths Domain "HOL-Library.Sublist"
begin

text \<open>
  The part of Go's \<^verbatim>\<open>os\<close> package the service uses on disk: a tree of directories, regular files
  and symbolic links, addressed by absolute component lists, with path resolution as the Linux
  kernel does it (every directory component of a path is followed through links, at most 40 of
  them, and \<open>..\<close> goes to the parent of the directory actually reached). The operations fail for
  the reasons the tree shows (missing, not a directory, already there, too many links); failures
  of the device are not modelled.
\<close>

datatype node = Dir nat | File string nat | Link string

type_synonym fs = "string list \<rightharpoonup> node"

definition max_links :: nat where "max_links = 40"

definition path_comps :: "string \<Rightarrow> string list" where
  "path_comps p = filter (\<lambda>c. c \<noteq> []) (split_on CHR ''/'' p)"

subsection \<open>Path resolution\<close>

function walk :: "nat \<Rightarrow> fs \<Rightarrow> string list \<Rightarrow> string list \<Rightarrow> string list option" where
  "walk n fs d [] = Some d"
| "walk n fs d (c # cs) =
     (if c = [] \<or> c = ''.'' then walk n fs d cs
      else if c = dotdot then walk n fs (butlast d) cs
      else (case fs (d @ [c]) of
              Some (Link t) \<Rightarrow>
                (case n of
                   0 \<Rightarrow> None
                 | Suc m \<Rightarrow> walk m fs (if is_abs t then [] else d) (split_on CHR ''/'' t @ cs))
            | Some (Dir _) \<Rightarrow> walk n fs (d @ [c]) cs
            | _ \<Rightarrow> if cs = [] then Some (d @ [c]) else None))"
  by pat_completeness auto
termination
  by (relation "measures [\<lambda>(n, fs, d, cs). n, \<lambda>(n, fs, d, cs). length cs]") auto

text \<open>The entry a path names when its last component is not followed: \<open>Lstat\<close>, \<open>O_NOFOLLOW\<close>.\<close>

definition lresolve :: "fs \<Rightarrow> string list \<Rightarrow> string list option" where
  "lresolve fs cs =
     (if cs = [] then Some []
      else (case walk max_links fs [] (butlast cs) of
              None \<Rightarrow> None
            | Some d \<Rightarrow> (case fs d of Some (Dir _) \<Rightarrow> Some (d @ [last cs]) | _ \<Rightarrow> None)))"

definition stat :: "fs \<Rightarrow> string list \<Rightarrow> node option" where
  "stat fs cs = (case walk max_links fs [] cs of None \<Rightarrow> None | Some p \<Rightarrow> fs p)"

definition lstat :: "fs \<Rightarrow> string list \<Rightarrow> node option" where
  "lstat fs cs = (case lresolve fs cs of None \<Rightarrow> None | Some p \<Rightarrow> fs p)"

subsection \<open>Operations\<close>

text \<open>Each returns the error, if any, and the tree it leaves behind.\<close>

definition os_error :: "string \<Rightarrow> go_error" where "os_error m = plain_error m"

definition mkdir :: "fs \<Rightarrow> string list \<Rightarrow> nat \<Rightarrow> go_error option \<times> fs" where
  "mkdir fs cs mode =
     (case lresolve fs cs of
        None \<Rightarrow> (Some (os_error ''mkdir: no such file or directory''), fs)
      | Some p \<Rightarrow>
          (case fs p of
             None \<Rightarrow> (None, fs(p \<mapsto> Dir mode))
           | Some _ \<Rightarrow> (Some (os_error ''mkdir: file exists''), fs)))"

function mkdir_all :: "fs \<Rightarrow> string list \<Rightarrow> nat \<Rightarrow> go_error option \<times> fs" where
  "mkdir_all fs cs mode =
     (case stat fs cs of
        Some (Dir _) \<Rightarrow> (None, fs)
      | Some _ \<Rightarrow> (Some (os_error ''mkdir: not a directory''), fs)
      | None \<Rightarrow>
          if cs = [] then (Some (os_error ''mkdir: no such file or directory''), fs)
          else (case mkdir_all fs (butlast cs) mode of
                  (Some e, fs1) \<Rightarrow> (Some e, fs1)
                | (None, fs1) \<Rightarrow> mkdir fs1 cs mode))"
  by pat_completeness auto
termination
  by (relation "measure (\<lambda>(fs, cs, mode). length cs)") auto

declare mkdir_all.simps [simp del]

text \<open>\<open>OpenFile(O_CREATE|O_WRONLY|O_TRUNC|O_NOFOLLOW)\<close> followed by writing \<open>content\<close>.\<close>

definition write_nofollow :: "fs \<Rightarrow> string list \<Rightarrow> string \<Rightarrow> nat \<Rightarrow> go_error option \<times> fs" where
  "write_nofollow fs cs content mode =
     (case lresolve fs cs of
        None \<Rightarrow> (Some (os_error ''open: no such file or directory''), fs)
      | Some p \<Rightarrow>
          (case fs p of
             None \<Rightarrow> (None, fs(p \<mapsto> File content mode))
           | Some (File _ m) \<Rightarrow> (None, fs(p \<mapsto> File content m))
           | Some (Dir _) \<Rightarrow> (Some (os_error ''open: is a directory''), fs)
           | Some (Link _) \<Rightarrow> (Some (os_error ''open: too many levels of symbolic links''), fs)))"

text \<open>
  \<open>RemoveAll\<close> never follows the last component; nothing to remove is no error. \<open>Remove\<close> takes a
  file, a link or an empty directory.
\<close>

definition remove_all :: "fs \<Rightarrow> string list \<Rightarrow> fs" where
  "remove_all fs cs =
     (case lresolve fs cs of None \<Rightarrow> fs | Some p \<Rightarrow> (\<lambda>q. if prefix p q then None else fs q))"

definition unlink :: "fs \<Rightarrow> string list \<Rightarrow> fs" where
  "unlink fs cs =
     (case lresolve fs cs of
        None \<Rightarrow> fs
      | Some p \<Rightarrow> (case fs p of
            Some (Dir _) \<Rightarrow> (if \<forall>c. fs (p @ [c]) = None then fs(p := None) else fs)
          | _ \<Rightarrow> fs(p := None)))"

definition symlink :: "fs \<Rightarrow> string \<Rightarrow> string list \<Rightarrow> go_error option \<times> fs" where
  "symlink fs target cs =
     (case lresolve fs cs of
        None \<Rightarrow> (Some (os_error ''symlink: no such file or directory''), fs)
      | Some p \<Rightarrow>
          (case fs p of
             None \<Rightarrow> (None, fs(p \<mapsto> Link target))
           | Some _ \<Rightarrow> (Some (os_error ''symlink: file exists''), fs)))"

definition chmod :: "fs \<Rightarrow> string list \<Rightarrow> nat \<Rightarrow> fs" where
  "chmod fs cs mode =
     (case walk max_links fs [] cs of
        None \<Rightarrow> fs
      | Some p \<Rightarrow> (case fs p of
            Some (Dir _) \<Rightarrow> fs(p \<mapsto> Dir mode)
          | Some (File c _) \<Rightarrow> fs(p \<mapsto> File c mode)
          | _ \<Rightarrow> fs))"

text \<open>\<open>Rename\<close> of a directory over a name that is free: the whole subtree moves.\<close>

definition rename :: "fs \<Rightarrow> string list \<Rightarrow> string list \<Rightarrow> go_error option \<times> fs" where
  "rename fs src dst =
     (case (lresolve fs src, lresolve fs dst) of
        (Some p, Some q) \<Rightarrow>
          (if fs p = None then (Some (os_error ''rename: no such file or directory''), fs)
           else if fs q \<noteq> None then (Some (os_error ''rename: file exists''), fs)
           else (None, (\<lambda>r. if prefix q r then fs (p @ drop (length q) r)
                            else if prefix p r then None else fs r)))
      | _ \<Rightarrow> (Some (os_error ''rename: no such file or directory''), fs))"

subsection \<open>Resolution where no link is in the way\<close>

definition is_link :: "node option \<Rightarrow> bool" where
  "is_link n = (case n of Some (Link _) \<Rightarrow> True | _ \<Rightarrow> False)"

definition is_dir :: "node option \<Rightarrow> bool" where
  "is_dir n = (case n of Some (Dir _) \<Rightarrow> True | _ \<Rightarrow> False)"

lemma is_dir_iff: "is_dir n \<longleftrightarrow> (\<exists>m. n = Some (Dir m))"
  by (auto simp: is_dir_def split: option.splits node.splits if_splits)

lemma is_link_iff: "is_link n \<longleftrightarrow> (\<exists>t. n = Some (Link t))"
  by (auto simp: is_link_def split: option.splits node.splits)

definition link_free :: "fs \<Rightarrow> string list \<Rightarrow> bool" where
  "link_free fs cs \<longleftrightarrow> (\<forall>xs. prefix xs cs \<longrightarrow> \<not> is_link (fs xs))"

definition dirs_to :: "fs \<Rightarrow> string list \<Rightarrow> bool" where
  "dirs_to fs cs \<longleftrightarrow> (\<forall>xs. prefix xs cs \<longrightarrow> is_dir (fs xs))"

lemma link_free_prefix: "link_free fs cs \<Longrightarrow> prefix xs cs \<Longrightarrow> link_free fs xs"
  unfolding link_free_def by (meson prefix_order.trans)

lemma dirs_to_prefix: "dirs_to fs cs \<Longrightarrow> prefix xs cs \<Longrightarrow> dirs_to fs xs"
  unfolding dirs_to_def by (meson prefix_order.trans)

lemma dirs_to_link_free: "dirs_to fs cs \<Longrightarrow> link_free fs cs"
  by (auto simp: dirs_to_def link_free_def is_dir_iff is_link_iff)

lemma dirs_to_self: "dirs_to fs cs \<Longrightarrow> is_dir (fs cs)"
  by (simp add: dirs_to_def)

lemma walk_link_free_gen:
  "\<forall>c \<in> set cs. proper c \<Longrightarrow> link_free fs (d @ cs) \<Longrightarrow>
     walk n fs d cs = None \<or> walk n fs d cs = Some (d @ cs)"
proof (induction cs arbitrary: d)
  case (Cons c cs)
  have "\<not> is_link (fs (d @ [c]))"
    using Cons.prems(2) by (auto simp: link_free_def prefix_def)
  moreover have "walk n fs (d @ [c]) cs = None \<or> walk n fs (d @ [c]) cs = Some (d @ c # cs)"
    using Cons.IH [of "d @ [c]"] Cons.prems by simp
  ultimately show ?case
    using Cons.prems(1) by (auto simp: proper_def is_link_def split: option.splits node.splits)
qed simp

lemma walk_link_free:
  assumes "\<forall>c \<in> set cs. proper c" "link_free fs cs" "walk n fs [] cs = Some p"
  shows "p = cs"
  using walk_link_free_gen [of cs fs "[]" n] assms by auto

lemma walk_dirs_gen:
  "\<forall>c \<in> set cs. proper c \<Longrightarrow> (\<forall>xs. prefix xs cs \<longrightarrow> is_dir (fs (d @ xs))) \<Longrightarrow>
     walk n fs d cs = Some (d @ cs)"
proof (induction cs arbitrary: d)
  case (Cons c cs)
  obtain m where m: "fs (d @ [c]) = Some (Dir m)"
    using Cons.prems(2) [rule_format, of "[c]"] by (auto simp: is_dir_iff)
  have "\<forall>xs. prefix xs cs \<longrightarrow> is_dir (fs ((d @ [c]) @ xs))"
    using Cons.prems(2) by (metis Cons_prefix_Cons append.assoc append_Cons append_Nil)
  then have "walk n fs (d @ [c]) cs = Some (d @ c # cs)"
    using Cons.IH [of "d @ [c]"] Cons.prems(1) by simp
  moreover have "c \<noteq> []" "c \<noteq> ''.''" "c \<noteq> dotdot"
    using Cons.prems(1) by (simp_all add: proper_def)
  ultimately show ?case using m by simp
qed simp

lemma walk_dirs: "\<forall>c \<in> set cs. proper c \<Longrightarrow> dirs_to fs cs \<Longrightarrow> walk n fs [] cs = Some cs"
  using walk_dirs_gen [of cs fs "[]"] by (simp add: dirs_to_def)

lemma stat_dirs: "\<forall>c \<in> set cs. proper c \<Longrightarrow> dirs_to fs cs \<Longrightarrow> stat fs cs = fs cs"
  by (simp add: stat_def walk_dirs)

lemma lresolve_link_free:
  assumes "\<forall>c \<in> set cs. proper c" "link_free fs (butlast cs)" "lresolve fs cs = Some p"
  shows "p = cs"
proof (cases "cs = []")
  case False
  then obtain d where "walk max_links fs [] (butlast cs) = Some d" "p = d @ [last cs]"
    using assms(3) by (auto simp: lresolve_def split: option.splits node.splits)
  moreover have "d = butlast cs"
    using walk_link_free [of "butlast cs" fs max_links d] calculation assms(1,2)
    by (auto dest: in_set_butlastD)
  ultimately show ?thesis using False by simp
qed (use assms in \<open>simp add: lresolve_def\<close>)

lemma lresolve_dirs:
  assumes "\<forall>c \<in> set cs. proper c" "dirs_to fs (butlast cs)"
  shows "lresolve fs cs = Some cs"
proof (cases "cs = []")
  case False
  have "walk max_links fs [] (butlast cs) = Some (butlast cs)"
    using assms walk_dirs [of "butlast cs" fs] by (auto dest: in_set_butlastD)
  then show ?thesis
    using False dirs_to_self [OF assms(2)] by (auto simp: lresolve_def is_dir_iff)
qed (simp add: lresolve_def)

subsection \<open>Frames: what an operation can change\<close>

text \<open>
  \<open>inside ds a b\<close>: the trees \<open>a\<close> and \<open>b\<close> agree outside the directory \<open>ds\<close>.
\<close>

definition inside :: "string list \<Rightarrow> fs \<Rightarrow> fs \<Rightarrow> bool" where
  "inside ds a b \<longleftrightarrow> (\<forall>p. \<not> prefix ds p \<longrightarrow> b p = a p)"

lemma inside_refl [simp]: "inside ds a a"
  by (simp add: inside_def)

lemma inside_trans: "inside ds a b \<Longrightarrow> inside ds b c \<Longrightarrow> inside ds a c"
  by (simp add: inside_def)

lemma inside_upd: "prefix ds p \<Longrightarrow> inside ds a (a(p := v))"
  by (auto simp: inside_def)

text \<open>Outside \<open>ls\<close> directories stay and no link appears: what every extraction step keeps.\<close>

definition grows :: "string list set \<Rightarrow> fs \<Rightarrow> fs \<Rightarrow> bool" where
  "grows ls a b \<longleftrightarrow>
     (\<forall>p. is_dir (a p) \<longrightarrow> is_dir (b p) \<or> p \<in> ls) \<and> (\<forall>p. is_link (b p) \<longrightarrow> is_link (a p) \<or> p \<in> ls)"

lemma grows_refl [simp]: "grows ls a a"
  by (simp add: grows_def)

lemma grows_trans: "grows ls a b \<Longrightarrow> grows ls b c \<Longrightarrow> grows ls a c"
  unfolding grows_def by blast

lemma grows_mono: "grows ls a b \<Longrightarrow> ls \<subseteq> ms \<Longrightarrow> grows ms a b"
  unfolding grows_def by blast

lemma grows_dirs_to:
  "grows ls a b \<Longrightarrow> dirs_to a ds \<Longrightarrow> (\<forall>xs. prefix xs ds \<longrightarrow> xs \<notin> ls) \<Longrightarrow> dirs_to b ds"
  unfolding grows_def dirs_to_def by blast

lemma grows_link_free:
  "grows ls a b \<Longrightarrow> link_free a cs \<Longrightarrow> (\<forall>xs. prefix xs cs \<longrightarrow> xs \<notin> ls) \<Longrightarrow> link_free b cs"
  unfolding grows_def link_free_def by blast

lemma mkdir_frame:
  assumes "mkdir fs cs mode = (e, fs')" "\<forall>c \<in> set cs. proper c" "link_free fs (butlast cs)" "prefix ds cs"
  shows "inside ds fs fs'" "grows {} fs fs'"
  using assms lresolve_link_free [of cs fs]
  by (auto simp: mkdir_def grows_def is_dir_iff is_link_iff intro!: inside_upd
      split: option.splits if_splits)

text \<open>\<open>MkdirAll\<close> below a directory that exists creates directories below it only.\<close>

lemma mkdir_all_frame:
  assumes "mkdir_all fs cs mode = (e, fs')" "\<forall>c \<in> set cs. proper c" "dirs_to fs ds"
    and "prefix ds cs" "link_free fs (butlast cs)"
  shows "inside ds fs fs' \<and> grows {} fs fs'"
  using assms
proof (induction fs cs mode arbitrary: e fs' rule: mkdir_all.induct)
  case (1 fs cs mode)
  show ?case
  proof (cases "stat fs cs")
    case (Some nd)
    then show ?thesis using "1.prems"(1) by (auto simp: mkdir_all.simps [of fs cs] split: node.splits)
  next
    case None
    have "cs \<noteq> ds"
      using None "1.prems"(2,3) stat_dirs [of ds fs] dirs_to_self [of fs ds] by (auto simp: is_dir_iff)
    then obtain zs where zs: "cs = ds @ zs" "zs \<noteq> []"
      using "1.prems"(4) by (auto simp: prefix_def)
    then have ne: "cs \<noteq> []" and pre: "prefix ds (butlast cs)"
      by (simp_all add: butlast_append)
    obtain e1 fs1 where r: "mkdir_all fs (butlast cs) mode = (e1, fs1)" by fastforce
    have "link_free fs (butlast (butlast cs))"
      using "1.prems"(5) link_free_prefix prefixeq_butlast by blast
    moreover have "\<forall>c \<in> set (butlast cs). proper c" using "1.prems"(2) by (auto dest: in_set_butlastD)
    ultimately have f1: "inside ds fs fs1 \<and> grows {} fs fs1"
      using "1.IH" [OF None ne r] "1.prems"(3) pre by blast
    show ?thesis
    proof (cases e1)
      case (Some x)
      then show ?thesis using "1.prems"(1) None ne r f1 by (simp add: mkdir_all.simps [of fs cs])
    next
      case N: None
      have m: "mkdir fs1 cs mode = (e, fs')"
        using "1.prems"(1) None ne r N by (simp add: mkdir_all.simps [of fs cs])
      have "link_free fs1 (butlast cs)"
        using f1 "1.prems"(5) grows_link_free by blast
      then show ?thesis
        using mkdir_frame [OF m "1.prems"(2) _ "1.prems"(4)] f1 inside_trans grows_trans by blast
    qed
  qed
qed

lemma write_nofollow_frame:
  assumes "write_nofollow fs cs c mode = (e, fs')" "\<forall>c \<in> set cs. proper c" "link_free fs (butlast cs)"
    and "prefix ds cs"
  shows "inside ds fs fs'" "grows {} fs fs'"
  using assms lresolve_link_free [of cs fs]
  by (auto simp: write_nofollow_def grows_def is_dir_iff is_link_iff intro!: inside_upd
      split: option.splits node.splits if_splits)

lemma unlink_frame:
  assumes "\<forall>c \<in> set cs. proper c" "link_free fs (butlast cs)" "prefix ds cs"
  shows "inside ds fs (unlink fs cs)" "grows {cs} fs (unlink fs cs)"
  using assms lresolve_link_free [of cs fs]
  by (auto simp: unlink_def grows_def is_dir_iff is_link_iff intro!: inside_upd
      split: option.splits node.splits if_splits)

lemma symlink_frame:
  assumes "symlink fs t cs = (e, fs')" "\<forall>c \<in> set cs. proper c" "link_free fs (butlast cs)" "prefix ds cs"
  shows "inside ds fs fs'" "grows {cs} fs fs'"
  using assms lresolve_link_free [of cs fs]
  by (auto simp: symlink_def grows_def is_dir_iff is_link_iff intro!: inside_upd
      split: option.splits if_splits)

end
