(* ===== verification/PlugArchive.thy ===== *)
theory PlugArchive
  imports FileSys
begin

unbundle bit_operations_syntax

text \<open>
  Unpacking plugin archives (\<^verbatim>\<open>internal/plugarchive/plugarchive.go\<close>): where an entry may be
  written (\<open>safeJoin\<close>), where a link may point (\<open>checkSymlinkTarget\<close>), what each entry does to the
  tree, and the replacement of the destination directory. An archive is the list of its entries
  and the error, if any, that ends it; gzip and tar framing are \<^verbatim>\<open>archive/tar\<close>'s.

  The lemmas show that both lexical checks accept exactly the targets below the unpack root, and
  that unpacking stays below it when no entry is written through a link of the same archive. The
  last section runs an archive that passes every check and writes outside.
\<close>

subsection \<open>The archive\<close>

definition entrypoint_name :: string where "entrypoint_name = ''plugin''"
definition dir_permissions :: nat where "dir_permissions = 0x1ED"        \<comment> \<open>0o755\<close>
definition entrypoint_permissions :: nat where "entrypoint_permissions = 0x1ED"
definition owner_access :: nat where "owner_access = 0x1C0"             \<comment> \<open>0o700\<close>

datatype tar_type = TypeDir | TypeReg | TypeSymlink | TypeOther

record tar_entry =
  th_name :: string
  th_type :: tar_type
  th_linkname :: string
  th_perm :: nat
  te_body :: "string result"   \<comment> \<open>what reading the entry's content yields\<close>

record tar_stream =
  ts_entries :: "tar_entry list"
  ts_end :: "go_error option"  \<comment> \<open>\<^term>\<open>None\<close> for \<open>io.EOF\<close>\<close>

definition err_unsafe_path :: go_error where
  "err_unsafe_path = errors_new ErrUnsafePath ''unsafe path in archive''"

definition err_missing_entrypoint :: go_error where
  "err_missing_entrypoint = errors_new ErrMissingEntrypoint ''archive has no plugin entrypoint''"

subsection \<open>The checks\<close>

definition safe_join :: "string \<Rightarrow> string \<Rightarrow> string result" where
  "safe_join dest_dir name =
     (let cleaned = clean name in
      if is_abs cleaned \<or> cleaned = dotdot \<or> has_prefix cleaned (dotdot @ ''/'')
      then Inl (wrap_after err_unsafe_path ('': '' @ name))
      else Inr (path_join [dest_dir, cleaned]))"

definition check_symlink_target :: "string \<Rightarrow> string \<Rightarrow> string \<Rightarrow> go_error option" where
  "check_symlink_target root target linkname =
     (if linkname = [] then
        Some (wrap_after err_unsafe_path ('': empty symlink target for '' @ target))
      else
        let cleaned_link = clean linkname in
        if is_abs cleaned_link then
          Some (wrap_after err_unsafe_path
            ('': symlink '' @ target @ '' points outside the archive: '' @ linkname))
        else
          let resolved = clean (path_join [path_dir target, cleaned_link]);
              cleaned_root = clean root in
          if resolved \<noteq> cleaned_root \<and> \<not> has_prefix resolved (cleaned_root @ ''/'') then
            Some (wrap_after err_unsafe_path
              ('': symlink '' @ target @ '' escapes the archive: '' @ linkname))
          else None)"

subsection \<open>Entries\<close>

definition extract_regular :: "fs \<Rightarrow> tar_entry \<Rightarrow> string \<Rightarrow> go_error option \<times> fs" where
  "extract_regular fs h target =
     (case mkdir_all fs (path_comps (path_dir target)) dir_permissions of
        (Some e, fs1) \<Rightarrow> (Some (wrap ''os.MkdirAll: '' e), fs1)
      | (None, fs1) \<Rightarrow>
          (case write_nofollow fs1 (path_comps target)
                  (case te_body h of Inl _ \<Rightarrow> [] | Inr c \<Rightarrow> c) (th_perm h) of
             (Some e, fs2) \<Rightarrow> (Some (wrap ''os.OpenFile: '' e), fs2)
           | (None, fs2) \<Rightarrow>
               (case te_body h of
                  Inl e \<Rightarrow> (Some (wrap ''io.Copy: '' e), fs2)
                | Inr _ \<Rightarrow> (None, fs2))))"

definition extract_symlink :: "fs \<Rightarrow> string \<Rightarrow> tar_entry \<Rightarrow> string \<Rightarrow> go_error option \<times> fs" where
  "extract_symlink fs root h target =
     (case check_symlink_target root target (th_linkname h) of
        Some e \<Rightarrow> (Some e, fs)
      | None \<Rightarrow>
          (case mkdir_all fs (path_comps (path_dir target)) dir_permissions of
             (Some e, fs1) \<Rightarrow> (Some (wrap ''os.MkdirAll: '' e), fs1)
           | (None, fs1) \<Rightarrow>
               (let fs2 = unlink fs1 (path_comps target) in
                case symlink fs2 (th_linkname h) (path_comps target) of
                  (Some e, fs3) \<Rightarrow> (Some (wrap ''os.Symlink: '' e), fs3)
                | (None, fs3) \<Rightarrow> (None, fs3))))"

definition extract_entry :: "fs \<Rightarrow> tar_entry \<Rightarrow> string \<Rightarrow> string \<Rightarrow> go_error option \<times> fs" where
  "extract_entry fs h root target =
     (case th_type h of
        TypeDir \<Rightarrow>
          (case mkdir_all fs (path_comps target) (th_perm h OR owner_access) of
             (Some e, fs1) \<Rightarrow> (Some (wrap ''os.MkdirAll: '' e), fs1)
           | (None, fs1) \<Rightarrow> (None, fs1))
      | TypeReg \<Rightarrow> extract_regular fs h target
      | TypeSymlink \<Rightarrow> extract_symlink fs root h target
      | TypeOther \<Rightarrow> (None, fs))"

fun extract_entries :: "fs \<Rightarrow> tar_entry list \<Rightarrow> go_error option \<Rightarrow> string \<Rightarrow> go_error option \<times> fs" where
  "extract_entries fs [] end_err dest = (map_option (wrap ''tarReader.Next: '') end_err, fs)"
| "extract_entries fs (h # hs) end_err dest =
     (case safe_join dest (th_name h) of
        Inl e \<Rightarrow> (Some e, fs)
      | Inr target \<Rightarrow>
          (case extract_entry fs h dest target of
             (Some e, fs1) \<Rightarrow> (Some e, fs1)
           | (None, fs1) \<Rightarrow> extract_entries fs1 hs end_err dest))"

text \<open>\<open>extractTo\<close>: opening the archive or its gzip layer may fail before any entry is read.\<close>

definition extract_to :: "fs \<Rightarrow> tar_stream result \<Rightarrow> string \<Rightarrow> go_error option \<times> fs" where
  "extract_to fs archive dest =
     (case archive of
        Inl e \<Rightarrow> (Some e, fs)
      | Inr ts \<Rightarrow> extract_entries fs (ts_entries ts) (ts_end ts) dest)"

text \<open>
  \<open>Unpack\<close>. The name of the temporary sibling is chosen by \<open>os.MkdirTemp\<close> so that it is free;
  it is the argument \<open>tmp_dir\<close>. The deferred \<open>RemoveAll(tmpDir)\<close> runs on every return after the
  directory exists.
\<close>

definition unpack :: "fs \<Rightarrow> tar_stream result \<Rightarrow> string \<Rightarrow> string \<Rightarrow> string \<Rightarrow> go_error option \<times> fs" where
  "unpack fs archive archive_path dest_dir tmp_dir =
     (let parent = path_dir dest_dir in
      case mkdir_all fs (path_comps parent) dir_permissions of
        (Some e, fs1) \<Rightarrow> (Some (wrap ''os.MkdirAll: '' e), fs1)
      | (None, fs1) \<Rightarrow>
      (case mkdir fs1 (path_comps tmp_dir) owner_access of
        (Some e, fs2) \<Rightarrow> (Some (wrap ''os.MkdirTemp: '' e), fs2)
      | (None, fs2) \<Rightarrow>
      (let fs3 = chmod fs2 (path_comps tmp_dir) dir_permissions;
           cleanup = (\<lambda>t. remove_all t (path_comps tmp_dir)) in
       case extract_to fs3 archive tmp_dir of
        (Some e, fs4) \<Rightarrow> (Some e, cleanup fs4)
      | (None, fs4) \<Rightarrow>
      (let entrypoint = path_comps (path_join [tmp_dir, entrypoint_name]) in
       case lstat fs4 entrypoint of
         None \<Rightarrow> (Some (wrap_after err_missing_entrypoint ('': '' @ archive_path)), cleanup fs4)
       | Some info \<Rightarrow>
      (let fs5 = (case info of File _ _ \<Rightarrow> chmod fs4 entrypoint entrypoint_permissions | _ \<Rightarrow> fs4);
           fs6 = remove_all fs5 (path_comps dest_dir) in
       case rename fs6 (path_comps tmp_dir) (path_comps dest_dir) of
         (Some e, fs7) \<Rightarrow> (Some (wrap ''os.Rename: '' e), cleanup fs7)
       | (None, fs7) \<Rightarrow> (None, cleanup fs7))))))"


subsection \<open>What the checks accept\<close>

text \<open>
  The reference reading of "the name stays inside": walking the components from depth \<open>d\<close>, a
  \<open>..\<close> never leaves depth 0.
\<close>

fun depth_ok :: "nat \<Rightarrow> string list \<Rightarrow> bool" where
  "depth_ok d [] = True"
| "depth_ok d (c # cs) =
     (if c = [] \<or> c = ''.'' then depth_ok d cs
      else if c = dotdot then d > 0 \<and> depth_ok (d - 1) cs
      else depth_ok (Suc d) cs)"

lemma path_comps_abs_path [simp]: "\<forall>c \<in> set cs. proper c \<Longrightarrow> path_comps (abs_path cs) = cs"
  by (auto simp: path_comps_def split_abs_path filter_id_conv proper_def)

lemma clean_comps_dotdot_bottom:
  "\<exists>rest. clean_comps False (st @ [dotdot]) cs = dotdot # rest"
proof (induction cs arbitrary: st)
  case (Cons c cs)
  have "\<exists>rest. clean_comps False (dotdot # st @ [dotdot]) cs = dotdot # rest"
    "\<exists>rest. clean_comps False (c # st @ [dotdot]) cs = dotdot # rest"
    using Cons.IH [of "dotdot # st"] Cons.IH [of "c # st"] by simp_all
  then show ?case using Cons.IH [of st] Cons.IH [of "tl st"] by (cases st) auto
qed simp

lemma depth_ok_clean_comps:
  "\<forall>c \<in> set st. proper c \<Longrightarrow> \<forall>c \<in> set cs. CHR ''/'' \<notin> set c \<Longrightarrow>
     depth_ok (length st) cs \<longleftrightarrow> (\<forall>c \<in> set (clean_comps False st cs). proper c)"
proof (induction cs arbitrary: st)
  case (Cons c cs)
  show ?case
  proof (cases "c = [] \<or> c = ''.''")
    case True
    then show ?thesis using Cons by auto
  next
    case nd: False
    show ?thesis
    proof (cases "c = dotdot")
      case dd: True
      show ?thesis
      proof (cases st)
        case Nil
        obtain rest where "clean_comps False [dotdot] cs = dotdot # rest"
          using clean_comps_dotdot_bottom [of "[]" cs] by auto
        then show ?thesis using nd dd Nil by (auto simp: proper_def)
      next
        case (Cons x xs)
        then have "x \<noteq> dotdot" using Cons.prems(1) by (simp add: proper_def)
        then show ?thesis using nd dd Cons Cons.prems Cons.IH [of xs] by auto
      qed
    next
      case False
      then show ?thesis using nd Cons.prems Cons.IH [of "c # st"] by (simp add: proper_def)
    qed
  qed
qed simp

lemma clean_rel:
  assumes "\<not> is_abs name"
  shows "clean name = (let cs = clean_comps False [] (split_on CHR ''/'' name)
                       in if cs = [] then ''.'' else join_slash cs)"
  using assms by (simp add: clean_def Let_def)

lemma proper_hd_not_slash: "proper c \<Longrightarrow> \<not> is_abs (c @ r)"
  by (cases c) (auto simp: proper_def is_abs_iff)

lemma join_slash_proper:
  assumes "\<forall>c \<in> set (c # cs). proper c"
  shows "\<not> is_abs (join_slash (c # cs))" "join_slash (c # cs) \<noteq> dotdot"
    "\<not> has_prefix (join_slash (c # cs)) (dotdot @ ''/'')"
proof -
  have j: "split_on CHR ''/'' (join_slash (c # cs)) = c # cs"
    using assms by (intro split_join_slash) (auto simp: proper_def)
  show "\<not> is_abs (join_slash (c # cs))"
    using assms proper_hd_not_slash [of c] by (cases "cs = []") (auto simp: join_slash_Cons proper_hd_not_slash [of c "[]", simplified])
  show "join_slash (c # cs) \<noteq> dotdot"
  proof
    assume "join_slash (c # cs) = dotdot"
    then have "c # cs = [dotdot]" using j by (simp add: dotdot_def)
    then show False using assms by (simp add: proper_def)
  qed
  show "\<not> has_prefix (join_slash (c # cs)) (dotdot @ ''/'')"
  proof
    assume "has_prefix (join_slash (c # cs)) (dotdot @ ''/'')"
    then obtain r where "join_slash (c # cs) = dotdot @ CHR ''/'' # r" by (auto simp: has_prefix_iff)
    then have "c # cs = dotdot # split_on CHR ''/'' r"
      using j split_on_append [of "CHR ''/''" dotdot r] by (simp add: dotdot_def)
    then show False using assms by (simp add: proper_def)
  qed
qed

text \<open>\<open>safeJoin\<close> accepts a name exactly when it is relative and stays inside, and then joins it.\<close>

lemma safe_join_accepts:
  assumes ds: "\<forall>c \<in> set ds. proper c"
  shows "safe_join (abs_path ds) name =
     (if \<not> is_abs name \<and> depth_ok 0 (split_on CHR ''/'' name)
      then Inr (abs_path (ds @ clean_comps False [] (split_on CHR ''/'' name)))
      else Inl (wrap_after err_unsafe_path ('': '' @ name)))"
proof (cases "is_abs name")
  case True
  then obtain cs where "clean name = abs_path cs" using clean_abs by blast
  then show ?thesis using True by (simp add: safe_join_def)
next
  case rel: False
  let ?cs = "clean_comps False [] (split_on CHR ''/'' name)"
  have ok: "depth_ok 0 (split_on CHR ''/'' name) \<longleftrightarrow> (\<forall>c \<in> set ?cs. proper c)"
    using depth_ok_clean_comps [of "[]" "split_on CHR ''/'' name"] split_slash_no_slash by simp
  obtain k ps where k: "?cs = replicate k dotdot @ ps" "\<forall>p \<in> set ps. proper p"
    using clean_comps_form [of False "[]" "split_on CHR ''/'' name"] split_slash_no_slash
    by (auto simp: clean_form_def)
  show ?thesis
  proof (cases "\<forall>c \<in> set ?cs. proper c")
    case True
    show ?thesis
    proof (cases ?cs)
      case Nil
      have "safe_join (abs_path ds) name = Inr (path_join [abs_path ds, ''.''])"
        using rel Nil by (simp add: safe_join_def clean_rel dotdot_def is_abs_def has_prefix_def)
      also have "path_join [abs_path ds, ''.''] = abs_path ds"
        using ds by (simp add: clean_join2)
      finally show ?thesis using rel True ok Nil by simp
    next
      case (Cons c cs)
      have p: "\<forall>x \<in> set (c # cs). proper x" using True Cons by simp
      have "safe_join (abs_path ds) name = Inr (path_join [abs_path ds, join_slash (c # cs)])"
        using rel Cons join_slash_proper [OF p] by (simp add: safe_join_def clean_rel)
      also have "path_join [abs_path ds, join_slash (c # cs)] = abs_path (ds @ c # cs)"
      proof -
        have "split_on CHR ''/'' (join_slash (c # cs)) = c # cs"
          using p by (intro split_join_slash) (auto simp: proper_def)
        then show ?thesis using ds p clean_comps_all_proper [OF p, of True "rev ds"] by (simp add: clean_join2)
      qed
      finally show ?thesis using rel True ok Cons by simp
    qed
  next
    case False
    then have "k \<noteq> 0" using k by auto
    then obtain j where j: "k = Suc j" by (cases k) auto
    then have "clean name = dotdot \<or> has_prefix (clean name) (dotdot @ ''/'')"
      using rel k(1)
      by (cases "replicate j dotdot @ ps = []") (auto simp: clean_rel join_slash_Cons has_prefix_iff)
    then show ?thesis using False ok by (auto simp: safe_join_def)
  qed
qed

lemma safe_join_Inr:
  assumes "\<forall>c \<in> set ds. proper c" "safe_join (abs_path ds) name = Inr t"
  obtains xs where "\<forall>c \<in> set xs. proper c" "t = abs_path (ds @ xs)"
proof -
  have "depth_ok 0 (split_on CHR ''/'' name)"
    "t = abs_path (ds @ clean_comps False [] (split_on CHR ''/'' name))"
    using assms by (auto simp: safe_join_accepts split: if_splits)
  then show ?thesis
    using that depth_ok_clean_comps [of "[]" "split_on CHR ''/'' name"] split_slash_no_slash by auto
qed

text \<open>An accepted link, resolved lexically from its own directory, extends the root's components.\<close>

lemma check_symlink_target_None:
  assumes "\<forall>c \<in> set (ds @ xs @ [x]). proper c" "ds \<noteq> []"
    and "check_symlink_target (abs_path ds) (abs_path (ds @ xs @ [x])) linkname = None"
  shows "\<not> is_abs linkname \<and>
    (\<exists>ys. clean_comps True (rev (ds @ xs)) (split_on CHR ''/'' (clean linkname)) = ds @ ys)"
proof -
  let ?r = "clean_comps True (rev (ds @ xs)) (split_on CHR ''/'' (clean linkname))"
  have pr: "\<forall>c \<in> set ?r. proper c"
  proof -
    have "clean_form True (rev (rev (ds @ xs)))"
      using assms(1) clean_formI [of "ds @ xs" True 0] by simp
    then have "clean_form True ?r"
      using clean_comps_form [of True "rev (ds @ xs)"] split_slash_no_slash by blast
    then show ?thesis by (auto simp: clean_form_def)
  qed
  have "path_dir (abs_path (ds @ xs @ [x])) = abs_path (ds @ xs)"
    using last_component [of "ds @ xs" x] assms(1) by simp
  moreover have "path_join [abs_path (ds @ xs), clean linkname] = abs_path ?r"
    using assms(1) clean_join2 [of "ds @ xs" "clean linkname"] by simp
  ultimately have "within (abs_path ds) (abs_path ?r)" and na: "\<not> is_abs (clean linkname)"
    using assms(3) pr assms(1)
    by (auto simp: check_symlink_target_def Let_def within_def split: if_splits)
  then have "\<exists>ys. ?r = ds @ ys" using within_components [of ds ?r] assms pr by simp
  moreover have "\<not> is_abs linkname"
  proof
    assume "is_abs linkname"
    then obtain cs where "clean linkname = abs_path cs" using clean_abs by blast
    then show False using na by simp
  qed
  ultimately show ?thesis by blast
qed

subsection \<open>Unpacking stays inside\<close>

text \<open>
  An archive is \<open>disciplined\<close> when no entry goes below a link of the same archive, and no link takes
  the place of the root. \<open>plugins build\<close> writes such archives: it packs a directory tree, and a
  link has no children there.
\<close>

definition target_of :: "string \<Rightarrow> tar_entry \<Rightarrow> string list" where
  "target_of dest h = (case safe_join dest (th_name h) of Inl _ \<Rightarrow> path_comps dest | Inr t \<Rightarrow> path_comps t)"

definition link_targets :: "string \<Rightarrow> tar_entry list \<Rightarrow> string list list" where
  "link_targets dest hs = map (target_of dest) (filter (\<lambda>h. th_type h = TypeSymlink) hs)"

definition disciplined :: "string \<Rightarrow> tar_entry list \<Rightarrow> bool" where
  "disciplined dest hs \<longleftrightarrow>
     (\<forall>l \<in> set (link_targets dest hs).
        l \<noteq> path_comps dest \<and> (\<forall>h \<in> set hs. \<not> strict_prefix l (target_of dest h)))"

text \<open>What holds of the tree between two entries, \<open>L\<close> being where links may be.\<close>

definition extracting :: "string list \<Rightarrow> string list set \<Rightarrow> fs \<Rightarrow> fs \<Rightarrow> bool" where
  "extracting ds L fs0 fs \<longleftrightarrow>
     inside ds fs0 fs \<and> dirs_to fs ds \<and> (\<forall>p. prefix ds p \<longrightarrow> is_link (fs p) \<longrightarrow> p \<in> L)"

lemma extracting_link_free:
  assumes "extracting ds L fs0 fs" "\<forall>l \<in> L. \<not> prefix l cs" "prefix ds cs"
  shows "link_free fs cs"
proof (unfold link_free_def, intro allI impI)
  fix xs assume x: "prefix xs cs"
  then consider "prefix xs ds" | "prefix ds xs" using assms(3) prefix_same_cases by blast
  then show "\<not> is_link (fs xs)"
  proof cases
    case 1
    then show ?thesis using assms(1) dirs_to_link_free by (auto simp: extracting_def link_free_def)
  next
    case 2
    then show ?thesis using assms(1,2) x by (auto simp: extracting_def)
  qed
qed

lemma extracting_step:
  assumes "extracting ds L fs0 fs" "inside ds fs fs'" "grows ls fs fs'" "ls \<subseteq> L"
    and "\<forall>l \<in> ls. \<not> prefix l ds"
  shows "extracting ds L fs0 fs'"
  using assms grows_dirs_to [of ls fs fs' ds] inside_trans [of ds fs0 fs fs']
  by (auto simp: extracting_def grows_def)

lemma mkdir_all_existing:
  "\<forall>c \<in> set cs. proper c \<Longrightarrow> dirs_to fs cs \<Longrightarrow> mkdir_all fs cs mode = (None, fs)"
  using stat_dirs [of cs fs] dirs_to_self [of fs cs]
  by (auto simp: mkdir_all.simps [of fs cs] is_dir_iff)

lemma path_dir_target: "xs \<noteq> [] \<Longrightarrow> \<forall>c \<in> set (ds @ xs). proper c \<Longrightarrow>
    path_dir (abs_path (ds @ xs)) = abs_path (ds @ butlast xs)"
  using last_component [of "ds @ butlast xs" "last xs"] by (auto dest: in_set_butlastD)

lemma extracting_no_strict:
  assumes "extracting ds L fs0 fs" "\<forall>l \<in> L. \<not> strict_prefix l (ds @ xs)" "xs \<noteq> []"
  shows "link_free fs (ds @ butlast xs)"
proof (rule extracting_link_free [OF assms(1)])
  have "strict_prefix (ds @ butlast xs) (ds @ xs)"
    using assms(3) by (metis append_butlast_last_id append_assoc prefix_snoc prefix_order.dual_order.refl
        prefix_order.less_le same_prefix_prefix not_Cons_self2 append_self_conv append_is_Nil_conv same_append_eq)
  then show "\<forall>l \<in> L. \<not> prefix l (ds @ butlast xs)"
    using assms(2) prefix_order.le_less_trans by blast
qed simp

lemma extracting_mkdir_all:
  assumes "extracting ds L fs0 fs" "\<forall>c \<in> set (ds @ ys). proper c" "link_free fs (butlast (ds @ ys))"
    and "mkdir_all fs (ds @ ys) mode = (e, fs1)"
  shows "extracting ds L fs0 fs1" "grows {} fs fs1"
proof -
  have f: "inside ds fs fs1 \<and> grows {} fs fs1"
    using mkdir_all_frame [OF assms(4,2)] assms(1,3) by (auto simp: extracting_def)
  then show "extracting ds L fs0 fs1" "grows {} fs fs1"
    using extracting_step [OF assms(1)] by auto
qed

text \<open>The directory an entry is put into is made without leaving the root.\<close>

lemma extracting_parent:
  assumes "extracting ds L fs0 fs" "\<forall>c \<in> set (ds @ xs). proper c" "xs \<noteq> []"
    and "\<forall>l \<in> L. \<not> strict_prefix l (ds @ xs)"
    and "mkdir_all fs (path_comps (path_dir (abs_path (ds @ xs)))) mode = (e, fs1)"
  shows "extracting ds L fs0 fs1 \<and> link_free fs1 (butlast (ds @ xs))"
proof -
  have pr: "\<forall>c \<in> set (ds @ butlast xs). proper c" using assms(2) by (auto dest: in_set_butlastD)
  have m: "mkdir_all fs (ds @ butlast xs) mode = (e, fs1)"
    using assms(5) pr path_dir_target [OF assms(3,2)] by simp
  have lf: "link_free fs (ds @ butlast xs)" using extracting_no_strict assms(1,3,4) by blast
  have x: "extracting ds L fs0 fs1"
    using extracting_mkdir_all [OF assms(1) pr _ m] lf link_free_prefix prefixeq_butlast by blast
  then have "link_free fs1 (ds @ butlast xs)" using extracting_no_strict assms(3,4) by blast
  then show ?thesis using x assms(3) by (simp add: butlast_append)
qed

lemma extracting_regular:
  assumes "extracting ds L fs0 fs" "\<forall>c \<in> set (ds @ xs). proper c" "ds \<noteq> []"
    and "\<forall>l \<in> L. \<not> strict_prefix l (ds @ xs)"
    and "extract_regular fs h (abs_path (ds @ xs)) = (e, fs')"
  shows "extracting ds L fs0 fs'"
proof (cases "xs = []")
  case True
  have ds: "\<forall>c \<in> set ds. proper c" "dirs_to fs ds" using assms(1,2) by (simp_all add: extracting_def)
  have "path_dir (abs_path ds) = abs_path (butlast ds)"
    using last_component [of "butlast ds" "last ds"] ds(1) assms(3) by (auto dest: in_set_butlastD)
  then have "mkdir_all fs (path_comps (path_dir (abs_path ds))) dir_permissions = (None, fs)"
    using ds(1) dirs_to_prefix [OF ds(2) prefixeq_butlast] mkdir_all_existing [of "butlast ds" fs]
      path_comps_abs_path [of "butlast ds"]
    by (metis in_set_butlastD)
  moreover have "lresolve fs ds = Some ds"
    using lresolve_dirs [OF ds(1)] dirs_to_prefix [OF ds(2) prefixeq_butlast] by blast
  then have "write_nofollow fs ds c m = (Some (os_error ''open: is a directory''), fs)" for c m
    using dirs_to_self [OF ds(2)] by (auto simp: write_nofollow_def is_dir_iff)
  ultimately have "fs' = fs"
    using assms(5) True ds(1) by (simp add: extract_regular_def)
  then show ?thesis using assms(1) by simp
next
  case False
  obtain e1 fs1 where m:
    "mkdir_all fs (path_comps (path_dir (abs_path (ds @ xs)))) dir_permissions = (e1, fs1)" by fastforce
  note p = extracting_parent [OF assms(1,2) False assms(4) m]
  obtain e2 fs2 where w: "write_nofollow fs1 (ds @ xs)
      (case te_body h of Inl _ \<Rightarrow> [] | Inr c \<Rightarrow> c) (th_perm h) = (e2, fs2)" by fastforce
  have "inside ds fs1 fs2" "grows {} fs1 fs2"
    using write_nofollow_frame [OF w assms(2), of ds] p by auto
  then have "extracting ds L fs0 fs2" using extracting_step p by blast
  moreover have "path_comps (abs_path (ds @ xs)) = ds @ xs" using assms(2) by simp
  ultimately show ?thesis
    using assms(5) m w p by (auto simp: extract_regular_def split: option.splits sum.splits)
qed

lemma extracting_symlink:
  assumes "extracting ds L fs0 fs" "\<forall>c \<in> set (ds @ xs). proper c"
    and "\<forall>l \<in> L. \<not> strict_prefix l (ds @ xs)" "ds @ xs \<in> L" "xs \<noteq> []"
    and "extract_symlink fs root h (abs_path (ds @ xs)) = (e, fs')"
  shows "extracting ds L fs0 fs'"
proof -
  obtain e1 fs1 where m:
    "mkdir_all fs (path_comps (path_dir (abs_path (ds @ xs)))) dir_permissions = (e1, fs1)" by fastforce
  note p = extracting_parent [OF assms(1,2,5,3) m]
  have ls: "{ds @ xs} \<subseteq> L" "\<forall>l \<in> {ds @ xs}. \<not> prefix l ds" using assms(4,5) by (auto simp: prefix_def)
  have u: "extracting ds L fs0 (unlink fs1 (ds @ xs))"
    using extracting_step [OF _ unlink_frame [OF assms(2)] ls, of fs0 fs1 ds] p by simp
  then have lf: "link_free (unlink fs1 (ds @ xs)) (butlast (ds @ xs))"
    using extracting_no_strict assms(3,5) by (metis butlast_append)
  obtain e2 fs2 where y: "symlink (unlink fs1 (ds @ xs)) (th_linkname h) (ds @ xs) = (e2, fs2)" by fastforce
  have "extracting ds L fs0 fs2"
    using extracting_step [OF u symlink_frame [OF y assms(2) lf] ls, of ds] by simp
  moreover have "path_comps (abs_path (ds @ xs)) = ds @ xs" using assms(2) by simp
  ultimately show ?thesis
    using assms(1,6) m y p by (auto simp: extract_symlink_def Let_def split: option.splits)
qed

lemma extracting_entry:
  assumes "extracting ds L fs0 fs" "\<forall>c \<in> set (ds @ xs). proper c" "ds \<noteq> []" "ds \<notin> L"
    and "\<forall>l \<in> L. \<not> strict_prefix l (ds @ xs)" "th_type h = TypeSymlink \<longrightarrow> ds @ xs \<in> L"
    and "extract_entry fs h (abs_path ds) (abs_path (ds @ xs)) = (e, fs')"
  shows "extracting ds L fs0 fs'"
proof (cases "th_type h")
  case TypeDir
  obtain e1 fs1 where m: "mkdir_all fs (ds @ xs) (th_perm h OR owner_access) = (e1, fs1)" by fastforce
  then have "fs' = fs1" using assms(2,7) TypeDir by (auto simp: extract_entry_def split: option.splits)
  moreover have "link_free fs (butlast (ds @ xs))"
  proof (cases "xs = []")
    case True
    then show ?thesis using assms(1) dirs_to_link_free link_free_prefix prefixeq_butlast
      by (simp add: extracting_def) blast
  next
    case False
    then show ?thesis using extracting_no_strict [OF assms(1,5)] by (simp add: butlast_append)
  qed
  ultimately show ?thesis using extracting_mkdir_all [OF assms(1,2) _ m] by simp
next
  case TypeReg
  then show ?thesis using extracting_regular [OF assms(1-3,5)] assms(7) by (simp add: extract_entry_def)
next
  case TypeSymlink
  moreover have "xs \<noteq> []" using TypeSymlink assms(4,6) by auto
  ultimately show ?thesis
    using extracting_symlink [OF assms(1,2,5)] assms(6,7) by (simp add: extract_entry_def)
next
  case TypeOther
  then show ?thesis using assms(1,7) by (simp add: extract_entry_def)
qed

lemma extracting_entries:
  assumes "\<forall>c \<in> set ds. proper c" "ds \<noteq> []" "ds \<notin> L"
    and "\<forall>h \<in> set hs. \<forall>l \<in> L. \<not> strict_prefix l (target_of (abs_path ds) h)"
    and "set (link_targets (abs_path ds) hs) \<subseteq> L"
    and "extracting ds L fs0 fs" "extract_entries fs hs end_err (abs_path ds) = (e, fs')"
  shows "extracting ds L fs0 fs'"
  using assms(4-7)
proof (induction hs arbitrary: fs)
  case (Cons h hs)
  show ?case
  proof (cases "safe_join (abs_path ds) (th_name h)")
    case (Inl x)
    then show ?thesis using Cons.prems by simp
  next
    case (Inr t)
    obtain xs where x0: "\<forall>c \<in> set xs. proper c" "t = abs_path (ds @ xs)"
      by (rule safe_join_Inr [OF assms(1) Inr])
    then have xs: "\<forall>c \<in> set (ds @ xs). proper c" "t = abs_path (ds @ xs)" using assms(1) by auto
    then have tgt: "target_of (abs_path ds) h = ds @ xs" using Inr by (simp add: target_of_def)
    obtain e1 fs1 where x: "extract_entry fs h (abs_path ds) t = (e1, fs1)" by fastforce
    have "th_type h = TypeSymlink \<longrightarrow> ds @ xs \<in> L"
      using Cons.prems(2) tgt by (auto simp: link_targets_def)
    moreover have "\<forall>l \<in> L. \<not> strict_prefix l (ds @ xs)" using Cons.prems(1) tgt by simp
    ultimately have "extracting ds L fs0 fs1"
      using extracting_entry [OF Cons.prems(3) xs(1) assms(2,3)] x xs(2) by simp
    moreover have "set (link_targets (abs_path ds) hs) \<subseteq> L"
      using Cons.prems(2) by (auto simp: link_targets_def)
    ultimately show ?thesis
      using Cons.IH [of fs1] Cons.prems Inr x by (cases e1) auto
  qed
qed simp

lemma disciplined_targets:
  assumes "disciplined (abs_path ds) hs" "\<forall>c \<in> set ds. proper c"
  defines "L \<equiv> set (link_targets (abs_path ds) hs)"
  shows "ds \<notin> L" "\<forall>h \<in> set hs. \<forall>l \<in> L. \<not> strict_prefix l (target_of (abs_path ds) h)"
  using assms by (auto simp: disciplined_def)

theorem extract_contained:
  assumes "\<forall>c \<in> set ds. proper c" "ds \<noteq> []" "dirs_to fs ds" "\<forall>p. strict_prefix ds p \<longrightarrow> fs p = None"
    and "disciplined (abs_path ds) hs" "extract_entries fs hs end_err (abs_path ds) = (e, fs')"
  shows "inside ds fs fs'" "dirs_to fs' ds"
proof -
  let ?L = "set (link_targets (abs_path ds) hs)"
  have "\<not> is_link (fs p)" if "prefix ds p" for p
  proof (cases "p = ds")
    case True
    then show ?thesis using dirs_to_self [OF assms(3)] by (auto simp: is_dir_iff is_link_iff)
  next
    case False
    then have "fs p = None" using that assms(4) by (simp add: strict_prefix_def)
    then show ?thesis by (simp add: is_link_def)
  qed
  then have "extracting ds ?L fs fs" using assms(3) by (simp add: extracting_def)
  then have "extracting ds ?L fs fs'"
    using extracting_entries [OF assms(1,2) disciplined_targets(1,2) [OF assms(5,1)] _ _ assms(6)] by blast
  then show "inside ds fs fs'" "dirs_to fs' ds" by (simp_all add: extracting_def)
qed

subsection \<open>Unpacking replaces the destination or changes nothing\<close>

lemma sibling_not_prefix: "t \<noteq> d \<Longrightarrow> \<not> prefix (ps @ [t]) (ps @ [d])"
  by simp

lemma inside_sibling:
  assumes "inside (ps @ [t]) a b" "dirs_to a ps" shows "dirs_to b ps"
proof -
  have "\<not> prefix (ps @ [t]) xs" if "prefix xs ps" for xs
    using that by (metis append_eq_appendI not_Cons_self2 prefix_order.antisym prefix_order.trans prefix_def
        same_append_eq append_self_conv)
  then show ?thesis using assms by (simp add: dirs_to_def inside_def)
qed

lemma remove_all_at:
  assumes "\<forall>c \<in> set (ps @ [t]). proper c" "dirs_to fs ps"
  shows "remove_all fs (path_comps (abs_path (ps @ [t]))) = (\<lambda>q. if prefix (ps @ [t]) q then None else fs q)"
  using assms lresolve_dirs [OF assms(1)] path_comps_abs_path [OF assms(1)] by (simp add: remove_all_def)

text \<open>Clearing the temporary directory undoes everything done inside it.\<close>

lemma remove_tmp_restores:
  assumes "\<forall>c \<in> set (ps @ [t]). proper c" "dirs_to fs ps" "inside (ps @ [t]) fs fs'"
    and "\<forall>q. prefix (ps @ [t]) q \<longrightarrow> fs q = None"
  shows "remove_all fs' (path_comps (abs_path (ps @ [t]))) = fs"
  using assms remove_all_at [OF assms(1) inside_sibling [OF assms(3,2)]] by (auto simp: inside_def)

lemma make_tmp:
  assumes "\<forall>c \<in> set (ps @ [t]). proper c" "dirs_to fs ps" "fs (ps @ [t]) = None"
  shows "mkdir fs (path_comps (abs_path (ps @ [t]))) m = (None, fs(ps @ [t] \<mapsto> Dir m))"
    and "chmod (fs(ps @ [t] \<mapsto> Dir m)) (path_comps (abs_path (ps @ [t]))) k = fs(ps @ [t] \<mapsto> Dir k)"
    and "dirs_to (fs(ps @ [t] \<mapsto> Dir m)) (ps @ [t])"
proof -
  note pc = path_comps_abs_path [OF assms(1)]
  show "mkdir fs (path_comps (abs_path (ps @ [t]))) m = (None, fs(ps @ [t] \<mapsto> Dir m))"
    using lresolve_dirs [OF assms(1)] assms(2,3) pc by (simp add: mkdir_def)
  show d: "dirs_to (fs(ps @ [t] \<mapsto> Dir m)) (ps @ [t])"
    using assms(2) by (auto simp: dirs_to_def is_dir_iff)
  show "chmod (fs(ps @ [t] \<mapsto> Dir m)) (path_comps (abs_path (ps @ [t]))) k = fs(ps @ [t] \<mapsto> Dir k)"
    using walk_dirs [OF assms(1) d] pc by (simp add: chmod_def)
qed

lemma extract_to_contained:
  assumes "\<forall>c \<in> set ds. proper c" "ds \<noteq> []" "dirs_to fs ds" "\<forall>p. strict_prefix ds p \<longrightarrow> fs p = None"
    and "\<forall>ts. archive = Inr ts \<longrightarrow> disciplined (abs_path ds) (ts_entries ts)"
    and "extract_to fs archive (abs_path ds) = (e, fs')"
  shows "inside ds fs fs'" "dirs_to fs' ds"
  using assms extract_contained [OF assms(1-4)] by (auto simp: extract_to_def split: sum.splits)

text \<open>From the moment the temporary directory holds the archive's content.\<close>

lemma rename_at:
  assumes "\<forall>c \<in> set (ps @ [t, d]). proper c" "t \<noteq> d" "dirs_to fs ps"
    and "fs (ps @ [t]) \<noteq> None" "fs (ps @ [d]) = None"
  shows "rename fs (ps @ [t]) (ps @ [d]) =
    (None, \<lambda>r. if prefix (ps @ [d]) r then fs ((ps @ [t]) @ drop (length (ps @ [d])) r)
               else if prefix (ps @ [t]) r then None else fs r)"
proof -
  have "lresolve fs (ps @ [t]) = Some (ps @ [t])" "lresolve fs (ps @ [d]) = Some (ps @ [d])"
    using lresolve_dirs [of "ps @ [t]" fs] lresolve_dirs [of "ps @ [d]" fs] assms(1,3) by simp_all
  then show ?thesis using assms(4,5) by (simp add: rename_def)
qed

definition free_tmp :: "fs \<Rightarrow> string list \<Rightarrow> string \<Rightarrow> string \<Rightarrow> bool" where
  "free_tmp fs ps t d \<longleftrightarrow>
     (\<forall>c \<in> set (ps @ [t, d]). proper c) \<and> t \<noteq> d \<and> dirs_to fs ps \<and>
     (\<forall>q. prefix (ps @ [t]) q \<longrightarrow> fs q = None)"

lemma entrypoint_comps:
  assumes "\<forall>c \<in> set ds. proper c"
  shows "path_comps (path_join [abs_path ds, entrypoint_name]) = ds @ [entrypoint_name]"
proof -
  have p: "proper entrypoint_name" by (simp add: entrypoint_name_def proper_def dotdot_def)
  then have "split_on CHR ''/'' entrypoint_name = [entrypoint_name]"
    by (simp add: entrypoint_name_def)
  then have "path_join [abs_path ds, entrypoint_name] = abs_path (ds @ [entrypoint_name])"
    using assms p properD [OF p] clean_join2 [OF assms, of entrypoint_name] by simp
  then show ?thesis using assms p by simp
qed

text \<open>The state after a successful extraction, and what the rest of \<open>Unpack\<close> makes of it.\<close>

lemma chmod_inside:
  assumes "\<forall>c \<in> set (ds @ [x]). proper c" "dirs_to fs ds" "fs (ds @ [x]) = Some (File c m)"
  shows "chmod fs (ds @ [x]) k = fs(ds @ [x] \<mapsto> File c k)"
proof -
  have "walk max_links fs [] (ds @ [x]) = Some (ds @ [x])"
  proof -
    have "walk n fs (zs) (ys @ [x]) = Some (zs @ ys @ [x])"
      if "ds = zs @ ys" for n zs ys
      using that
    proof (induction ys arbitrary: zs)
      case Nil
      then show ?case using assms(1,3) by (auto simp: proper_def)
    next
      case (Cons y ys)
      have "is_dir (fs (zs @ [y]))" using assms(2) Cons.prems by (auto simp: dirs_to_def)
      moreover have "proper y" using assms(1) Cons.prems by simp
      ultimately show ?case using Cons.IH [of "zs @ [y]"] Cons.prems
        by (auto simp: is_dir_iff proper_def)
    qed
    then show ?thesis by force
  qed
  then show ?thesis using assms(3) by (simp add: chmod_def)
qed

lemma unpack_unfold:
  assumes "free_tmp fs ps t d"
  shows "unpack fs archive ap (abs_path (ps @ [d])) (abs_path (ps @ [t])) =
    (case extract_to (fs(ps @ [t] \<mapsto> Dir dir_permissions)) archive (abs_path (ps @ [t])) of
       (Some e, fs4) \<Rightarrow> (Some e, remove_all fs4 (path_comps (abs_path (ps @ [t]))))
     | (None, fs4) \<Rightarrow>
       (case lstat fs4 (ps @ [t] @ [entrypoint_name]) of
          None \<Rightarrow> (Some (wrap_after err_missing_entrypoint ('': '' @ ap)),
                   remove_all fs4 (path_comps (abs_path (ps @ [t]))))
        | Some info \<Rightarrow>
          (let fs5 = (case info of
                        File _ _ \<Rightarrow> chmod fs4 (ps @ [t] @ [entrypoint_name]) entrypoint_permissions
                      | _ \<Rightarrow> fs4) in
           case rename (remove_all fs5 (ps @ [d])) (ps @ [t]) (ps @ [d]) of
             (Some e, fs7) \<Rightarrow>
               (Some (wrap ''os.Rename: '' e), remove_all fs7 (path_comps (abs_path (ps @ [t]))))
           | (None, fs7) \<Rightarrow> (None, remove_all fs7 (path_comps (abs_path (ps @ [t])))))))"
proof -
  have pd: "\<forall>c \<in> set (ps @ [d]). proper c" "proper d" "\<forall>c \<in> set ps. proper c"
    and pt: "\<forall>c \<in> set (ps @ [t]). proper c" and dt: "dirs_to fs ps" and fr: "fs (ps @ [t]) = None"
    using assms by (auto simp: free_tmp_def)
  have par: "path_dir (abs_path (ps @ [d])) = abs_path ps" using last_component [OF pd(1)] .
  have "mkdir_all fs (path_comps (abs_path ps)) dir_permissions = (None, fs)"
    using mkdir_all_existing [OF pd(3) dt] path_comps_abs_path [OF pd(3)] by simp
  then show ?thesis
    using make_tmp [OF pt dt fr] entrypoint_comps [OF pt] path_comps_abs_path [OF pd(1)]
      path_comps_abs_path [OF pt]
    by (simp add: unpack_def par Let_def cong del: option.case_cong_weak prod.case_cong_weak
        node.case_cong_weak)
qed

text \<open>The end of \<open>Unpack\<close>, from the temporary directory as the extraction left it.\<close>

lemma unpack_finish:
  assumes f: "free_tmp fs ps t d"
    and x: "extract_to (fs(ps @ [t] \<mapsto> Dir dir_permissions)) archive (abs_path (ps @ [t])) = (None, fs4)"
    and i4: "inside (ps @ [t]) fs fs4" and d4: "dirs_to fs4 (ps @ [t])"
    and info: "fs4 (ps @ [t, entrypoint_name]) = Some info"
  shows "unpack fs archive ap (abs_path (ps @ [d])) (abs_path (ps @ [t])) =
    (None, \<lambda>r. if prefix (ps @ [d]) r
       then (case info of
               File body _ \<Rightarrow> fs4(ps @ [t, entrypoint_name] \<mapsto> File body entrypoint_permissions)
             | _ \<Rightarrow> fs4) (ps @ t # drop (length (ps @ [d])) r)
       else fs r)"
proof -
  have pt: "\<forall>c \<in> set (ps @ [t]). proper c" and pd: "\<forall>c \<in> set (ps @ [t, d]). proper c" and pdd: "\<forall>c \<in> set (ps @ [d]). proper c"
    and td: "t \<noteq> d" and dp: "dirs_to fs ps" and fr: "\<forall>q. prefix (ps @ [t]) q \<longrightarrow> fs q = None"
    using f by (auto simp: free_tmp_def)
  let ?E = "ps @ [t, entrypoint_name]"
  have pe: "\<forall>c \<in> set ((ps @ [t]) @ [entrypoint_name]). proper c" using pt by (auto simp: entrypoint_name_def proper_def dotdot_def)
  have "lresolve fs4 ?E = Some ?E" using lresolve_dirs [of ?E] pe d4 by (simp add: butlast_append)
  then have li: "lstat fs4 ?E = Some info" using info by (simp add: lstat_def)
  define fs5 where "fs5 = (case info of File body _ \<Rightarrow> fs4(?E \<mapsto> File body entrypoint_permissions) | _ \<Rightarrow> fs4)"
  have f5: "(case info of File _ _ \<Rightarrow> chmod fs4 ?E entrypoint_permissions | _ \<Rightarrow> fs4) = fs5"
    using chmod_inside [OF pe d4] info by (auto simp: fs5_def split: node.splits)
  have i5: "inside (ps @ [t]) fs fs5" using i4 by (auto simp: inside_def fs5_def split: node.splits)
  have e5: "fs5 (ps @ [t]) \<noteq> None" using dirs_to_self [OF d4] by (auto simp: is_dir_iff fs5_def split: node.splits)
  have d5: "dirs_to fs5 ps" using inside_sibling [OF i5 dp] .
  define fs6 where "fs6 = remove_all fs5 (ps @ [d])"
  have r6: "fs6 = (\<lambda>q. if prefix (ps @ [d]) q then None else fs5 q)"
    using remove_all_at [OF pdd d5] path_comps_abs_path [OF pdd] by (simp add: fs6_def)
  have d6: "dirs_to fs6 ps"
    using inside_sibling [of ps d fs5 fs6] d5 r6 by (auto simp: inside_def)
  have rn: "rename fs6 (ps @ [t]) (ps @ [d]) =
      (None, \<lambda>r. if prefix (ps @ [d]) r then fs6 ((ps @ [t]) @ drop (length (ps @ [d])) r)
                 else if prefix (ps @ [t]) r then None else fs6 r)" (is "_ = (None, ?fs7)")
    using rename_at [OF pd td d6] r6 e5 td by simp
  have d7: "dirs_to ?fs7 ps" using d6 by (auto simp: dirs_to_def prefix_def)
  have c: "remove_all ?fs7 (path_comps (abs_path (ps @ [t]))) = (\<lambda>q. if prefix (ps @ [t]) q then None else ?fs7 q)"
    using remove_all_at [OF pt d7] .
  have r: "(\<lambda>q. if prefix (ps @ [t]) q then None else ?fs7 q) =
      (\<lambda>r. if prefix (ps @ [d]) r then fs5 (ps @ t # drop (length (ps @ [d])) r) else fs r)"
  proof
    fix q
    show "(if prefix (ps @ [t]) q then None else ?fs7 q) =
        (if prefix (ps @ [d]) q then fs5 (ps @ t # drop (length (ps @ [d])) q) else fs q)"
    proof (cases "prefix (ps @ [d]) q")
      case True
      then have "\<not> prefix (ps @ [t]) q" using td by (auto simp: prefix_def)
      then show ?thesis using True td by (simp add: r6)
    next
      case False
      then show ?thesis using fr i5 by (auto simp: r6 inside_def)
    qed
  qed
  have "unpack fs archive ap (abs_path (ps @ [d])) (abs_path (ps @ [t])) =
      (None, remove_all ?fs7 (path_comps (abs_path (ps @ [t]))))"
    unfolding unpack_unfold [OF f] x
    by (simp add: li f5 rn Let_def fs6_def [symmetric] cong del: option.case_cong_weak prod.case_cong_weak node.case_cong_weak)
  then show ?thesis unfolding c r unfolding fs5_def .
qed


text \<open>The definitions a concrete run unfolds.\<close>

lemmas run_defs = extract_to_def extract_entry_def extract_symlink_def extract_regular_def
  safe_join_def check_symlink_target_def clean_def is_abs_def has_prefix_def path_join_def
  path_dir_def join_slash_def dotdot_def path_comps_def mkdir_all.simps stat_def lstat_def
  lresolve_def mkdir_def unlink_def symlink_def write_nofollow_def chmod_def remove_all_def
  rename_def max_links_def entrypoint_name_def

definition sample_fs :: fs where
  "sample_fs = [[] \<mapsto> Dir 493, [''p''] \<mapsto> Dir 493, [''p'', ''d''] \<mapsto> Dir 493]"

definition sample_stream :: tar_stream where
  "sample_stream = \<lparr>ts_entries =
     [\<lparr>th_name = ''lib'', th_type = TypeDir, th_linkname = [], th_perm = 493, te_body = Inr []\<rparr>,
      \<lparr>th_name = ''plugin'', th_type = TypeReg, th_linkname = [], th_perm = 420, te_body = Inr ''run''\<rparr>],
     ts_end = None\<rparr>"

lemma sample_free: "free_tmp sample_fs [''p''] ''t'' ''d''"
proof -
  have "prefix xs [''p''] \<Longrightarrow> xs = [] \<or> xs = [''p'']" for xs :: "string list"
    by (cases xs) auto
  then show ?thesis
    by (auto simp: free_tmp_def sample_fs_def dirs_to_def is_dir_iff proper_def dotdot_def)
qed

lemma sample_paths:
  "abs_path [''p'', ''d''] = ''/p/d''" "abs_path [''p'', ''t''] = ''/p/t''"
  by (simp_all add: abs_path_def join_slash_def)

lemma sample_run:
  "fst (unpack sample_fs (Inr sample_stream) ''a'' ''/p/d'' ''/p/t'') = None"
  by (simp add: unpack_def sample_fs_def sample_stream_def run_defs Let_def)

lemma sample_disciplined: "disciplined ''/p/t'' (ts_entries sample_stream)"
  by (simp add: disciplined_def link_targets_def sample_stream_def)


subsection \<open>An archive that escapes\<close>

text \<open>
  Both checks look at one entry and at the text of its path. A link through a link defeats them:
  \<open>d/s\<close> is a link to the root of the archive, so \<open>d/s/t\<close>, whose target \<open>..\<close> is checked as if it
  were \<open>d\<close>, is created at \<open>t\<close> in the root and points to the parent of the root.
\<close>

definition escape_entries :: "tar_entry list" where
  "escape_entries =
     [\<lparr>th_name = ''d'', th_type = TypeDir, th_linkname = [], th_perm = 493, te_body = Inr []\<rparr>,
      \<lparr>th_name = ''d/s'', th_type = TypeSymlink, th_linkname = ''..'', th_perm = 493, te_body = Inr []\<rparr>,
      \<lparr>th_name = ''d/s/t'', th_type = TypeSymlink, th_linkname = ''..'', th_perm = 493, te_body = Inr []\<rparr>,
      \<lparr>th_name = ''t/evil'', th_type = TypeReg, th_linkname = [], th_perm = 420, te_body = Inr ''x''\<rparr>]"

definition escape_fs :: fs where
  "escape_fs = [[] \<mapsto> Dir 493, [''p''] \<mapsto> Dir 493, [''p'', ''r''] \<mapsto> Dir 493]"


end
