(* ===== verification/Cache.thy ===== *)
theory Cache
  imports Paths Domain "HOL-Library.List_Lexorder" "HOL-Library.Char_ord"
begin

text \<open>
  The cache of unpacked plugins (\<^verbatim>\<open>internal/adapters/registry/cache.go\<close>). The Go map of entries
  is an association list with distinct keys; Go iterates a map in a random order, which here is
  the order of the list, so a statement about every list is a statement about every order. Times
  and sizes are \<^typ>\<open>int\<close>. What is on disk is a tree of names; the directories removed are
  recorded in the state.

  The lemmas show that the accounting is exact after every operation, that eviction picks the
  least recently used entry, removes only what it must and never an entry younger than the
  minimum age, and that it ends with the cache below its limit or nothing left to evict.
\<close>

subsection \<open>State\<close>

definition min_eviction_age :: int where "min_eviction_age = 5 * 60 * 1000000000"

definition tmp_dir_name :: string where "tmp_dir_name = ''.tmp''"

record cache_options =
  co_max_bytes :: int
  co_min_age :: int

record cache_entry =
  ce_size :: int
  ce_last_used :: int

record plugin_cache =
  ca_root :: string
  ca_limit :: int
  ca_min_age :: int
  ca_entries :: "(string \<times> cache_entry) list"
  ca_total :: int
  ca_evictions :: nat
  ca_removed :: "string list"   \<comment> \<open>directories \<open>evict\<close> removed from disk\<close>

definition new_plugin_cache :: "string \<Rightarrow> cache_options \<Rightarrow> plugin_cache option" where
  "new_plugin_cache root opts =
     (if co_max_bytes opts \<le> 0 then None
      else Some \<lparr>ca_root = root, ca_limit = co_max_bytes opts,
                 ca_min_age = max (co_min_age opts) min_eviction_age,
                 ca_entries = [], ca_total = 0, ca_evictions = 0, ca_removed = []\<rparr>)"

subsection \<open>What is on disk\<close>

text \<open>
  A file with its size (\<^term>\<open>None\<close>: \<open>Info\<close> fails), a directory, or a directory that cannot be
  listed; the entries of a directory are in the order \<open>WalkDir\<close> visits them.
\<close>

datatype dtree = DFile string "int option" | DDir string "dtree list" | DBad string

fun dir_size_list :: "dtree list \<Rightarrow> int result" where
  "dir_size_list [] = Inr 0"
| "dir_size_list (DFile n None # ts) = Inl (plain_error (''stat '' @ n))"
| "dir_size_list (DFile n (Some s) # ts) =
     (case dir_size_list ts of Inl e \<Rightarrow> Inl e | Inr r \<Rightarrow> Inr (s + r))"
| "dir_size_list (DDir n cs # ts) =
     (case dir_size_list cs of
        Inl e \<Rightarrow> Inl e
      | Inr a \<Rightarrow> (case dir_size_list ts of Inl e \<Rightarrow> Inl e | Inr r \<Rightarrow> Inr (a + r)))"
| "dir_size_list (DBad n # ts) = Inl (plain_error (''open '' @ n))"

text \<open>\<open>dirSize\<close> of a path: \<^term>\<open>None\<close> when nothing is there.\<close>

definition dir_size :: "dtree option \<Rightarrow> int result" where
  "dir_size t = (case t of None \<Rightarrow> Inl (errors_new OsErrNotExist ''lstat: no such file or directory'')
                 | Some d \<Rightarrow> dir_size_list [d])"

text \<open>\<open>depth\<close> is the number of components between the root and the entries walked.\<close>

fun walk_versions :: "nat \<Rightarrow> string \<Rightarrow> dtree list \<Rightarrow> string list result" where
  "walk_versions depth path [] = Inr []"
| "walk_versions depth path (DFile n s # ts) = walk_versions depth path ts"
| "walk_versions depth path (DDir n cs # ts) =
     (if n = tmp_dir_name then walk_versions depth path ts
      else
        case (if depth < 2 then walk_versions (Suc depth) (path_join [path, n]) cs
              else Inr [path_join [path, n]]) of
          Inl e \<Rightarrow> Inl e
        | Inr here \<Rightarrow> (case walk_versions depth path ts of
                         Inl e \<Rightarrow> Inl e | Inr rest \<Rightarrow> Inr (here @ rest)))"
| "walk_versions depth path (DBad n # ts) =
     (if n = tmp_dir_name then walk_versions depth path ts
      else if depth < 2 then Inl (plain_error (''open '' @ path_join [path, n]))
      else (case walk_versions depth path ts of
              Inl e \<Rightarrow> Inl e | Inr rest \<Rightarrow> Inr (path_join [path, n] # rest)))"

definition version_dirs :: "plugin_cache \<Rightarrow> dtree option \<Rightarrow> string list result" where
  "version_dirs c disk =
     (case disk of
        None \<Rightarrow> Inr []
      | Some (DDir n cs) \<Rightarrow>
          (case walk_versions 0 (ca_root c) cs of Inl e \<Rightarrow> Inl e | Inr ds \<Rightarrow> Inr (sort ds))
      | Some (DFile n s) \<Rightarrow> Inr []
      | Some (DBad n) \<Rightarrow> Inl (plain_error (''open '' @ ca_root c)))"

subsection \<open>Operations\<close>

definition entry_set :: "string \<Rightarrow> cache_entry \<Rightarrow> (string \<times> cache_entry) list \<Rightarrow> (string \<times> cache_entry) list" where
  "entry_set k e es =
     (if map_of es k = None then es @ [(k, e)]
      else map (\<lambda>(k', e'). if k' = k then (k, e) else (k', e')) es)"

definition entry_delete :: "string \<Rightarrow> (string \<times> cache_entry) list \<Rightarrow> (string \<times> cache_entry) list" where
  "entry_delete k es = filter (\<lambda>(k', _). k' \<noteq> k) es"

definition touch :: "int \<Rightarrow> string \<Rightarrow> plugin_cache \<Rightarrow> plugin_cache" where
  "touch now dir c =
     (case map_of (ca_entries c) dir of
        None \<Rightarrow> c
      | Some entry \<Rightarrow> c\<lparr>ca_entries := entry_set dir (entry\<lparr>ce_last_used := now\<rparr>) (ca_entries c)\<rparr>)"

definition forget :: "string \<Rightarrow> plugin_cache \<Rightarrow> plugin_cache" where
  "forget dir c =
     (case map_of (ca_entries c) dir of
        None \<Rightarrow> c
      | Some entry \<Rightarrow>
          c\<lparr>ca_entries := entry_delete dir (ca_entries c), ca_total := ca_total c - ce_size entry\<rparr>)"

text \<open>One round of the loop over the map; the empty directory name means nothing found yet.\<close>

definition older ::
  "int \<Rightarrow> (string \<times> cache_entry) \<Rightarrow> (string \<times> int \<times> int) \<Rightarrow> (string \<times> int \<times> int)" where
  "older cutoff ke oldest =
     (let dir = fst ke; entry = snd ke in
      if ce_last_used entry > cutoff then oldest
      else if fst oldest = [] \<or> ce_last_used entry < fst (snd oldest)
      then (dir, ce_last_used entry, ce_size entry)
      else oldest)"

definition next_victim :: "int \<Rightarrow> plugin_cache \<Rightarrow> (string \<times> int) option" where
  "next_victim now c =
     (if ca_total c \<le> ca_limit c then None
      else
        let cutoff = now - ca_min_age c;
            oldest = fold (older cutoff) (ca_entries c) ([], 0, 0)
        in if fst oldest = [] then None else Some (fst oldest, snd (snd oldest)))"

definition over_limit :: "plugin_cache \<Rightarrow> bool" where
  "over_limit c \<longleftrightarrow> ca_total c > ca_limit c"

lemma fold_older_fst:
  "fst (fold (older cutoff) es o0) = fst o0 \<or> fst (fold (older cutoff) es o0) \<in> fst ` set es"
proof (induction es arbitrary: o0)
  case (Cons e es)
  have "fst (older cutoff e o0) = fst o0 \<or> fst (older cutoff e o0) = fst e"
    by (simp add: older_def Let_def)
  then show ?case using Cons.IH [of "older cutoff e o0"] by auto
qed simp

lemma next_victim_known: "next_victim now c = Some (dir, sz) \<Longrightarrow> dir \<in> fst ` set (ca_entries c)"
  using fold_older_fst [of "now - ca_min_age c" "ca_entries c" "([], 0, 0)"]
  by (auto simp: next_victim_def Let_def split: if_splits)

lemma forget_shrinks:
  assumes "dir \<in> fst ` set (ca_entries c)"
  shows "length (ca_entries (forget dir c)) < length (ca_entries c)"
proof -
  obtain e where e: "map_of (ca_entries c) dir = Some e"
    using assms by (metis map_of_eq_None_iff not_None_eq)
  obtain kv where "kv \<in> set (ca_entries c)" "fst kv = dir" using assms by auto
  then have "length (filter (\<lambda>(k', _). k' \<noteq> dir) (ca_entries c)) < length (ca_entries c)"
    by (intro length_filter_less [of kv]) auto
  then show ?thesis using e by (simp add: forget_def entry_delete_def)
qed

text \<open>
  The loop of \<open>evict\<close>. The clock is read once per round: \<open>now k\<close> is the reading of round \<open>k\<close>. A
  failing \<open>RemoveAll\<close> is logged and the entry forgotten all the same.
\<close>

function evict :: "(nat \<Rightarrow> int) \<Rightarrow> nat \<Rightarrow> plugin_cache \<Rightarrow> plugin_cache" where
  "evict now k c =
     (case next_victim (now k) c of
        None \<Rightarrow> c
      | Some (victim, sz) \<Rightarrow>
          evict now (Suc k)
            (let c' = forget victim (c\<lparr>ca_removed := victim # ca_removed c\<rparr>)
             in c'\<lparr>ca_evictions := Suc (ca_evictions c')\<rparr>))"
  by pat_completeness auto
termination
proof (relation "measure (\<lambda>(now, k, c). length (ca_entries c))", simp, simp)
  fix now :: "nat \<Rightarrow> int" and k c p and victim :: string and sz :: int
  assume "next_victim (now k) c = Some p" "(victim, sz) = p"
  then show "length (ca_entries (let c' = forget victim (c\<lparr>ca_removed := victim # ca_removed c\<rparr>)
               in c'\<lparr>ca_evictions := Suc (ca_evictions c')\<rparr>)) < length (ca_entries c)"
    using forget_shrinks [of victim "c\<lparr>ca_removed := victim # ca_removed c\<rparr>"]
      next_victim_known [of "now k" c victim sz] by (simp add: Let_def)
qed

declare evict.simps [simp del]

definition cache_add :: "(nat \<Rightarrow> int) \<Rightarrow> (string \<Rightarrow> dtree option) \<Rightarrow> string \<Rightarrow> plugin_cache \<Rightarrow> plugin_cache" where
  "cache_add now disk dir c =
     (case dir_size (disk dir) of
        Inl e \<Rightarrow> c
      | Inr sz \<Rightarrow>
          (let c1 = (case map_of (ca_entries c) dir of
                       Some previous \<Rightarrow> c\<lparr>ca_total := ca_total c - ce_size previous\<rparr>
                     | None \<Rightarrow> c);
               c2 = c1\<lparr>ca_entries := entry_set dir \<lparr>ce_size = sz, ce_last_used = now 0\<rparr> (ca_entries c1),
                       ca_total := ca_total c1 + sz\<rparr>
           in evict now 1 c2))"

text \<open>The scan of an existing cache, one critical section per directory.\<close>

definition warm_dir :: "int \<Rightarrow> (string \<Rightarrow> dtree option) \<Rightarrow> string \<Rightarrow> plugin_cache \<Rightarrow> plugin_cache" where
  "warm_dir now disk dir c =
     (case dir_size (disk dir) of
        Inl e \<Rightarrow> c
      | Inr sz \<Rightarrow>
          (if map_of (ca_entries c) dir = None then
             c\<lparr>ca_entries := entry_set dir \<lparr>ce_size = sz, ce_last_used = now - ca_min_age c\<rparr> (ca_entries c),
               ca_total := ca_total c + sz\<rparr>
           else c))"

text \<open>
  \<open>warm\<close>; the context may be cancelled while it scans: \<open>live\<close> is the number of directories it
  sees before that (\<^term>\<open>None\<close>: it is never cancelled).
\<close>

definition warm ::
  "(nat \<Rightarrow> int) \<Rightarrow> dtree option \<Rightarrow> (string \<Rightarrow> dtree option) \<Rightarrow> nat option \<Rightarrow> plugin_cache \<Rightarrow> plugin_cache" where
  "warm now root_tree disk live c =
     (case version_dirs c root_tree of
        Inl e \<Rightarrow> c
      | Inr dirs \<Rightarrow>
          (case live of
             Some n \<Rightarrow>
               if n < length dirs then fold (warm_dir (now 0) disk) (take n dirs) c
               else evict now 1 (fold (warm_dir (now 0) disk) dirs c)
           | None \<Rightarrow> evict now 1 (fold (warm_dir (now 0) disk) dirs c)))"

text \<open>Every method tolerates a nil receiver.\<close>

definition on_cache :: "(plugin_cache \<Rightarrow> plugin_cache) \<Rightarrow> plugin_cache option \<Rightarrow> plugin_cache option" where
  "on_cache f c = map_option f c"

subsection \<open>The accounting\<close>

definition total_size :: "(string \<times> cache_entry) list \<Rightarrow> int" where
  "total_size es = sum_list (map (\<lambda>(k, e). ce_size e) es)"

definition cache_inv :: "plugin_cache \<Rightarrow> bool" where
  "cache_inv c \<longleftrightarrow> distinct (map fst (ca_entries c)) \<and> [] \<notin> fst ` set (ca_entries c)
     \<and> ca_total c = total_size (ca_entries c)"

lemma entry_set_new: "map_of es k = None \<Longrightarrow> entry_set k e es = es @ [(k, e)]"
  by (simp add: entry_set_def)

lemma entry_set_keys:
  "map fst (entry_set k e es) = (if map_of es k = None then map fst es @ [k] else map fst es)"
  by (auto simp: entry_set_def)

lemma map_of_Some_split:
  assumes "map_of es k = Some v"
  obtains xs ys where "es = xs @ (k, v) # ys" "k \<notin> fst ` set xs"
  using assms
proof (induction es arbitrary: thesis)
  case (Cons a es)
  show ?case
  proof (cases "fst a = k")
    case True
    then have "a = (k, v)" using Cons.prems(2) by (cases a) auto
    then show ?thesis using Cons.prems(1) [of "[]" es] by simp
  next
    case False
    then have "map_of es k = Some v" using Cons.prems(2) by (cases a) auto
    then obtain xs ys where "es = xs @ (k, v) # ys" "k \<notin> fst ` set xs" using Cons.IH by blast
    then show ?thesis using Cons.prems(1) [of "a # xs" ys] False by auto
  qed
qed simp

lemma entry_set_known:
  assumes "distinct (map fst (xs @ (k, v) # ys))"
  shows "entry_set k e (xs @ (k, v) # ys) = xs @ (k, e) # ys"
proof -
  have "map (\<lambda>(k', e'). if k' = k then (k, e) else (k', e')) zs = zs" if "k \<notin> fst ` set zs" for zs
    using that by (induction zs) auto
  moreover have "k \<notin> fst ` set xs" "k \<notin> fst ` set ys" using assms by auto
  ultimately show ?thesis by (auto simp: entry_set_def map_of_eq_None_iff)
qed

lemma entry_delete_known:
  assumes "distinct (map fst (xs @ (k, v) # ys))"
  shows "entry_delete k (xs @ (k, v) # ys) = xs @ ys"
proof -
  have "filter (\<lambda>(k', _). k' \<noteq> k) zs = zs" if "k \<notin> fst ` set zs" for zs :: "(string \<times> cache_entry) list"
    using that by (induction zs) auto
  moreover have "k \<notin> fst ` set xs" "k \<notin> fst ` set ys" using assms by auto
  ultimately show ?thesis by (simp add: entry_delete_def)
qed

lemma total_size_simps [simp]:
  "total_size [] = 0" "total_size ((k, e) # es) = ce_size e + total_size es"
  "total_size (xs @ ys) = total_size xs + total_size ys"
  by (simp_all add: total_size_def)

lemma cache_inv_split:
  assumes "cache_inv c" "map_of (ca_entries c) k = Some v"
  obtains xs ys where "ca_entries c = xs @ (k, v) # ys" "distinct (map fst (xs @ (k, v) # ys))"
    "ca_total c = total_size xs + ce_size v + total_size ys"
    "[] \<notin> fst ` set xs" "[] \<notin> fst ` set ys" "k \<noteq> []"
proof -
  obtain xs ys where "ca_entries c = xs @ (k, v) # ys"
    using map_of_Some_split [OF assms(2)] by blast
  then show ?thesis using that [of xs ys] assms(1) by (auto simp: cache_inv_def image_Un)
qed

lemma touch_inv [inv_intros]: "cache_inv c \<Longrightarrow> cache_inv (touch now dir c)"
proof (cases "map_of (ca_entries c) dir")
  case (Some v)
  assume inv: "cache_inv c"
  have t: "touch now dir c =
      c\<lparr>ca_entries := entry_set dir (v\<lparr>ce_last_used := now\<rparr>) (ca_entries c)\<rparr>"
    using Some by (simp add: touch_def)
  show ?thesis
    unfolding t by (rule cache_inv_split [OF inv Some]) (auto simp: cache_inv_def entry_set_known)
qed (simp add: touch_def)

lemma forget_inv [inv_intros]: "cache_inv c \<Longrightarrow> cache_inv (forget dir c)"
proof (cases "map_of (ca_entries c) dir")
  case (Some v)
  assume inv: "cache_inv c"
  have t: "forget dir c =
      c\<lparr>ca_entries := entry_delete dir (ca_entries c), ca_total := ca_total c - ce_size v\<rparr>"
    using Some by (simp add: forget_def)
  show ?thesis
    unfolding t by (rule cache_inv_split [OF inv Some]) (auto simp: cache_inv_def entry_delete_known)
qed (simp add: forget_def)

lemma cache_inv_log [simp]:
  "cache_inv (c\<lparr>ca_removed := r\<rparr>) = cache_inv c" "cache_inv (c\<lparr>ca_evictions := n\<rparr>) = cache_inv c"
  by (simp_all add: cache_inv_def)

lemma evict_inv [inv_intros]: "cache_inv c \<Longrightarrow> cache_inv (evict now k c)"
proof (induction now k c rule: evict.induct)
  case (1 now k c)
  show ?case
    using "1.IH" "1.prems" forget_inv
    by (subst evict.simps) (auto simp: Let_def split: option.splits)
qed

lemma new_plugin_cache_inv: "new_plugin_cache root opts = Some c \<Longrightarrow> cache_inv c"
  by (auto simp: new_plugin_cache_def cache_inv_def split: if_splits)

lemma warm_dir_inv [inv_intros]: "cache_inv c \<Longrightarrow> dir \<noteq> [] \<Longrightarrow> cache_inv (warm_dir now disk dir c)"
  by (auto simp: warm_dir_def cache_inv_def entry_set_new map_of_eq_None_iff split: sum.splits)

lemma cache_add_inv [inv_intros]:
  assumes inv: "cache_inv c" and ne: "dir \<noteq> []"
  shows "cache_inv (cache_add now disk dir c)"
proof (cases "dir_size (disk dir)")
  case (Inr sz)
  let ?e = "\<lparr>ce_size = sz, ce_last_used = now 0\<rparr>"
  show ?thesis
  proof (cases "map_of (ca_entries c) dir")
    case None
    have t: "cache_add now disk dir c = evict now 1
        (c\<lparr>ca_entries := entry_set dir ?e (ca_entries c), ca_total := ca_total c + sz\<rparr>)"
      using Inr None by (simp add: cache_add_def Let_def)
    show ?thesis unfolding t
      using None inv ne
      by (intro evict_inv) (auto simp: entry_set_new map_of_eq_None_iff cache_inv_def)
  next
    case (Some v)
    have t: "cache_add now disk dir c = evict now 1
        (c\<lparr>ca_entries := entry_set dir ?e (ca_entries c), ca_total := ca_total c - ce_size v + sz\<rparr>)"
      using Inr Some by (simp add: cache_add_def Let_def)
    show ?thesis unfolding t
      by (rule cache_inv_split [OF inv Some])
        (intro evict_inv, auto simp: cache_inv_def entry_set_known)
  qed
qed (simp add: cache_add_def inv)

subsection \<open>Eviction\<close>

definition evictable :: "int \<Rightarrow> plugin_cache \<Rightarrow> (string \<times> cache_entry) \<Rightarrow> bool" where
  "evictable now c ke \<longleftrightarrow> ce_last_used (snd ke) \<le> now - ca_min_age c"

definition best :: "int \<Rightarrow> (string \<times> cache_entry) set \<Rightarrow> (string \<times> int \<times> int) \<Rightarrow> bool" where
  "best cutoff seen oldest \<longleftrightarrow>
     (if fst oldest = [] then \<forall>ke \<in> seen. ce_last_used (snd ke) > cutoff
      else (\<exists>e. (fst oldest, e) \<in> seen \<and> snd oldest = (ce_last_used e, ce_size e) \<and> ce_last_used e \<le> cutoff) \<and>
           (\<forall>ke \<in> seen. ce_last_used (snd ke) \<le> cutoff \<longrightarrow> fst (snd oldest) \<le> ce_last_used (snd ke)))"

lemma best_older:
  "best cutoff seen o0 \<Longrightarrow> fst ke \<noteq> [] \<Longrightarrow> best cutoff (insert ke seen) (older cutoff ke o0)"
proof (cases ke)
  fix d e assume b: "best cutoff seen o0" "fst ke \<noteq> []" and ke: "ke = (d, e)"
  show ?thesis
  proof (cases "ce_last_used e > cutoff")
    case True
    then have "older cutoff ke o0 = o0" by (simp add: older_def ke)
    then show ?thesis using b True ke by (auto simp: best_def)
  next
    case False
    show ?thesis
    proof (cases "fst o0 = [] \<or> ce_last_used e < fst (snd o0)")
      case True
      then have o: "older cutoff ke o0 = (d, ce_last_used e, ce_size e)"
        using False by (simp add: older_def ke)
      show ?thesis
        using b True False ke unfolding o best_def by (auto split: if_splits)
    next
      case same: False
      then have "older cutoff ke o0 = o0" using False by (simp add: older_def ke)
      then show ?thesis using b same False ke by (auto simp: best_def)
    qed
  qed
qed

lemma best_fold:
  "best cutoff seen o0 \<Longrightarrow> [] \<notin> fst ` set es \<Longrightarrow> best cutoff (seen \<union> set es) (fold (older cutoff) es o0)"
proof (induction es arbitrary: seen o0)
  case (Cons e es)
  have "best cutoff (insert e seen) (older cutoff e o0)"
    by (rule best_older [OF Cons.prems(1)]) (use Cons.prems(2) in auto)
  then show ?case using Cons.IH [of "insert e seen"] Cons.prems(2) by simp
qed simp

lemma best_entries:
  assumes "cache_inv c"
  shows "best cutoff (set (ca_entries c)) (fold (older cutoff) (ca_entries c) ([], 0, 0))"
  using best_fold [of cutoff "{}" "([], 0, 0)" "ca_entries c"] assms by (simp add: best_def cache_inv_def)

lemma next_victim_None:
  assumes "cache_inv c"
  shows "next_victim now c = None \<longleftrightarrow> \<not> over_limit c \<or> (\<forall>ke \<in> set (ca_entries c). \<not> evictable now c ke)"
  using best_entries [OF assms, of "now - ca_min_age c"]
  by (auto simp: next_victim_def over_limit_def best_def evictable_def Let_def not_le
      dest: bspec split: if_splits intro: rev_bexI)

lemma next_victim_Some:
  assumes "cache_inv c" "next_victim now c = Some (dir, sz)"
  obtains e where "map_of (ca_entries c) dir = Some e" "sz = ce_size e" "over_limit c"
    "evictable now c (dir, e)"
    "\<forall>ke \<in> set (ca_entries c). evictable now c ke \<longrightarrow> ce_last_used e \<le> ce_last_used (snd ke)"
proof -
  define o1 where "o1 = fold (older (now - ca_min_age c)) (ca_entries c) ([], 0, 0)"
  have b: "best (now - ca_min_age c) (set (ca_entries c)) o1"
    using best_entries [OF assms(1)] by (simp add: o1_def)
  have o: "over_limit c" "fst o1 \<noteq> []" "dir = fst o1" "sz = snd (snd o1)"
    using assms(2) by (auto simp: next_victim_def over_limit_def Let_def o1_def split: if_splits)
  then obtain e where e: "(dir, e) \<in> set (ca_entries c)" "snd o1 = (ce_last_used e, ce_size e)"
    "ce_last_used e \<le> now - ca_min_age c"
    using b by (auto simp: best_def)
  show ?thesis
  proof (rule that [of e])
    show "map_of (ca_entries c) dir = Some e" using e(1) assms(1) by (simp add: cache_inv_def)
  qed (use o e b in \<open>auto simp: best_def evictable_def\<close>)
qed

text \<open>
  What eviction does to the entries: some are removed, the rest stay; it stops at a reading of the
  clock where the cache fits or nothing is old enough, and everything removed was old enough.
\<close>

lemma forget_entries:
  assumes "cache_inv c" "map_of (ca_entries c) dir = Some e"
  shows "set (ca_entries (forget dir c)) = set (ca_entries c) - {(dir, e)}"
    and "ca_total (forget dir c) = ca_total c - ce_size e"
proof -
  have t: "forget dir c =
      c\<lparr>ca_entries := entry_delete dir (ca_entries c), ca_total := ca_total c - ce_size e\<rparr>"
    using assms(2) by (simp add: forget_def)
  show "ca_total (forget dir c) = ca_total c - ce_size e" by (simp add: t)
  show "set (ca_entries (forget dir c)) = set (ca_entries c) - {(dir, e)}"
  proof (rule cache_inv_split [OF assms])
    fix xs ys
    assume a: "ca_entries c = xs @ (dir, e) # ys" "distinct (map fst (xs @ (dir, e) # ys))"
    have n: "(dir, e) \<notin> set xs \<union> set ys" using a(2) by (auto simp: rev_image_eqI)
    have "set (ca_entries (forget dir c)) = set xs \<union> set ys"
      using entry_delete_known [OF a(2)] by (simp add: t a(1))
    moreover have "set (ca_entries c) = insert (dir, e) (set xs \<union> set ys)" by (simp add: a(1))
    ultimately show ?thesis using n by blast
  qed
qed

lemma forget_fields [simp]:
  "ca_limit (forget d c) = ca_limit c" "ca_min_age (forget d c) = ca_min_age c"
  "ca_removed (forget d c) = ca_removed c" "ca_evictions (forget d c) = ca_evictions c"
  "ca_root (forget d c) = ca_root c"
  by (simp_all add: forget_def split: option.splits)

text \<open>One round of the loop.\<close>

definition evict_one :: "string \<Rightarrow> plugin_cache \<Rightarrow> plugin_cache" where
  "evict_one victim c =
     (let c' = forget victim (c\<lparr>ca_removed := victim # ca_removed c\<rparr>)
      in c'\<lparr>ca_evictions := Suc (ca_evictions c')\<rparr>)"

lemma evict_unfold:
  "evict now k c = (case next_victim (now k) c of None \<Rightarrow> c
     | Some (victim, sz) \<Rightarrow> evict now (Suc k) (evict_one victim c))"
  unfolding evict_one_def by (rule evict.simps)

lemma evict_one_fields:
  assumes "cache_inv c" "map_of (ca_entries c) d = Some e"
  shows "cache_inv (evict_one d c)" "set (ca_entries (evict_one d c)) = set (ca_entries c) - {(d, e)}"
    "ca_total (evict_one d c) = ca_total c - ce_size e" "ca_limit (evict_one d c) = ca_limit c"
    "ca_min_age (evict_one d c) = ca_min_age c" "ca_removed (evict_one d c) = d # ca_removed c"
  using assms forget_entries [of "c\<lparr>ca_removed := d # ca_removed c\<rparr>" d e]
    forget_inv [of "c\<lparr>ca_removed := d # ca_removed c\<rparr>" d]
  by (simp_all add: evict_one_def Let_def)

lemma evict_fields: "cache_inv c \<Longrightarrow>
    ca_limit (evict now k c) = ca_limit c \<and> ca_min_age (evict now k c) = ca_min_age c \<and>
    set (ca_entries (evict now k c)) \<subseteq> set (ca_entries c)"
proof (induction now k c rule: evict.induct)
  case (1 now k c)
  show ?case
  proof (cases "next_victim (now k) c")
    case (Some p)
    obtain d sz where p: "p = (d, sz)" by (cases p)
    obtain e where e: "map_of (ca_entries c) d = Some e"
      using next_victim_Some [OF "1.prems" Some [unfolded p]] by metis
    note f = evict_one_fields [OF "1.prems" e]
    have u: "evict now k c = evict now (Suc k) (evict_one d c)"
      by (subst evict_unfold) (simp add: Some p)
    show ?thesis
      using "1.IH" [OF Some p [symmetric]] f unfolding evict_one_def [symmetric] u by auto
  qed (simp add: evict_unfold [of now k])
qed

text \<open>
  Eviction ends, keeps the accounting exact, and ends in the right place: at the last reading
  of the clock the cache is within its limit or no entry is old enough to go. It only removes
  entries, and an entry that is too recent at every reading of the clock is never removed.
\<close>

theorem evict_correct:
  assumes "cache_inv c"
  shows "cache_inv (evict now k c) \<and>
     (\<exists>j \<ge> k. \<not> over_limit (evict now k c) \<or>
        (\<forall>ke \<in> set (ca_entries (evict now k c)). \<not> evictable (now j) c ke)) \<and>
     set (ca_entries (evict now k c)) \<subseteq> set (ca_entries c) \<and>
     {ke \<in> set (ca_entries c). \<forall>j \<ge> k. \<not> evictable (now j) c ke} \<subseteq> set (ca_entries (evict now k c))"
  using assms
proof (induction now k c rule: evict.induct)
  case (1 now k c)
  show ?case
  proof (cases "next_victim (now k) c")
    case None
    then have "evict now k c = c" by (subst evict_unfold) simp
    moreover have "\<exists>j \<ge> k. \<not> over_limit c \<or> (\<forall>ke \<in> set (ca_entries c). \<not> evictable (now j) c ke)"
      using None next_victim_None [OF "1.prems"] by blast
    ultimately show ?thesis using "1.prems" by simp
  next
    case (Some p)
    obtain d sz where p: "p = (d, sz)" by (cases p)
    obtain e where e: "map_of (ca_entries c) d = Some e" "evictable (now k) c (d, e)"
      using next_victim_Some [OF "1.prems" Some [unfolded p]] by metis
    note f = evict_one_fields [OF "1.prems" e(1)]
    have u: "evict now k c = evict now (Suc k) (evict_one d c)"
      by (subst evict_unfold) (simp add: Some p)
    have ev: "evictable t (evict_one d c) ke = evictable t c ke" for t ke
      by (simp add: evictable_def f(5))
    have ih: "cache_inv (evict now (Suc k) (evict_one d c)) \<and>
      (\<exists>j \<ge> Suc k. \<not> over_limit (evict now (Suc k) (evict_one d c)) \<or>
        (\<forall>ke \<in> set (ca_entries (evict now (Suc k) (evict_one d c))). \<not> evictable (now j) c ke)) \<and>
      set (ca_entries (evict now (Suc k) (evict_one d c))) \<subseteq> set (ca_entries (evict_one d c)) \<and>
      {ke \<in> set (ca_entries (evict_one d c)). \<forall>j \<ge> Suc k. \<not> evictable (now j) c ke}
        \<subseteq> set (ca_entries (evict now (Suc k) (evict_one d c)))"
      using "1.IH" [OF Some p [symmetric]] f(1) unfolding evict_one_def [symmetric] ev by blast
    show ?thesis
      unfolding u
    proof (intro conjI)
      show "\<exists>j \<ge> k. \<not> over_limit (evict now (Suc k) (evict_one d c)) \<or>
        (\<forall>ke \<in> set (ca_entries (evict now (Suc k) (evict_one d c))). \<not> evictable (now j) c ke)"
        using ih Suc_leD by blast
      show "{ke \<in> set (ca_entries c). \<forall>j \<ge> k. \<not> evictable (now j) c ke}
        \<subseteq> set (ca_entries (evict now (Suc k) (evict_one d c)))"
        using ih f(2) e(2) Suc_leD by blast
    qed (use ih f(2) in blast)+
  qed
qed

text \<open>
  Eviction removes nothing it could keep: if it removed anything, the last directory it removed
  was needed, since with it the cache would still be over its limit.
\<close>

theorem evict_minimal:
  assumes "cache_inv c" "evict now k c \<noteq> c"
  shows "\<exists>(d, e) \<in> set (ca_entries c) - set (ca_entries (evict now k c)).
           ca_total (evict now k c) + ce_size e > ca_limit c"
  using assms
proof (induction now k c rule: evict.induct)
  case (1 now k c)
  show ?case
  proof (cases "next_victim (now k) c")
    case None
    then show ?thesis using "1.prems"(2) by (subst (asm) evict_unfold) simp
  next
    case (Some p)
    obtain d sz where p: "p = (d, sz)" by (cases p)
    obtain e where e: "map_of (ca_entries c) d = Some e" "over_limit c"
      using next_victim_Some [OF "1.prems"(1) Some [unfolded p]] by metis
    note f = evict_one_fields [OF "1.prems"(1) e(1)]
    have u: "evict now k c = evict now (Suc k) (evict_one d c)"
      by (subst evict_unfold) (simp add: Some p)
    show ?thesis
    proof (cases "evict now (Suc k) (evict_one d c) = evict_one d c")
      case True
      have "(d, e) \<in> set (ca_entries c) - set (ca_entries (evict_one d c))"
        using f(2) map_of_SomeD [OF e(1)] by blast
      moreover have "ca_total (evict_one d c) + ce_size e > ca_limit c"
        using f(3) e(2) by (simp add: over_limit_def)
      ultimately show ?thesis unfolding u True by auto
    next
      case False
      then have "\<exists>(d', e') \<in> set (ca_entries (evict_one d c)) - set (ca_entries (evict now (Suc k) (evict_one d c))).
          ca_total (evict now (Suc k) (evict_one d c)) + ce_size e' > ca_limit (evict_one d c)"
        using "1.IH" [OF Some p [symmetric]] f(1) unfolding evict_one_def [symmetric] by blast
      then show ?thesis unfolding u using f(2,4) by auto
    qed
  qed
qed

text \<open>
  The victim is the least recently used entry among those old enough, and there is a victim
  only while the cache is over its limit.
\<close>

theorem next_victim_lru:
  assumes "cache_inv c" "next_victim now c = Some (dir, sz)"
  shows "over_limit c \<and> (\<exists>e. map_of (ca_entries c) dir = Some e \<and> ce_size e = sz \<and> evictable now c (dir, e) \<and>
     (\<forall>ke \<in> set (ca_entries c). evictable now c ke \<longrightarrow> ce_last_used e \<le> ce_last_used (snd ke)))"
  using next_victim_Some [OF assms] by metis

lemma walk_versions_nonempty:
  "walk_versions n path ts = Inr ds \<Longrightarrow> path \<noteq> [] \<Longrightarrow> [] \<notin> set ds"
  by (induction n path ts arbitrary: ds rule: walk_versions.induct)
    (auto split: if_splits sum.splits)

lemma warm_dirs_inv: "cache_inv c \<Longrightarrow> [] \<notin> set dirs \<Longrightarrow> cache_inv (fold (warm_dir now disk) dirs c)"
proof (induction dirs arbitrary: c)
  case (Cons d dirs)
  then show ?case using warm_dir_inv [of c d] by auto
qed simp

lemma warm_inv [inv_intros]:
  assumes "cache_inv c" "ca_root c \<noteq> []"
  shows "cache_inv (warm now tree disk live c)"
proof (cases "version_dirs c tree")
  case (Inr dirs)
  have d: "[] \<notin> set dirs"
    using Inr assms(2) walk_versions_nonempty [of 0 "ca_root c"]
    by (auto simp: version_dirs_def split: option.splits dtree.splits sum.splits)
  then have "[] \<notin> set (take n dirs)" for n by (meson in_set_takeD)
  then show ?thesis
    using Inr d assms(1)
    by (auto simp: warm_def split: option.splits intro!: evict_inv warm_dirs_inv)
qed (simp add: warm_def assms)

text \<open>
  C17. The accounting is exact: every operation of the cache keeps the total equal to the sum of
  the sizes of its entries, one entry per directory.
\<close>

theorem cache_accounting:
  assumes "cache_inv c" "ca_root c \<noteq> []" "dir \<noteq> []"
  shows "cache_inv (touch t dir c) \<and> cache_inv (forget dir c) \<and> cache_inv (evict now k c) \<and>
         cache_inv (cache_add now disk dir c) \<and> cache_inv (warm now tree disk live c)"
  using assms by (intro conjI inv_intros)

subsection \<open>Concrete runs\<close>

definition sample_cache :: plugin_cache where
  "sample_cache = \<lparr>ca_root = ''/p'', ca_limit = 100, ca_min_age = 10,
     ca_entries = [(''/p/a'', \<lparr>ce_size = 60, ce_last_used = 5\<rparr>), (''/p/b'', \<lparr>ce_size = 50, ce_last_used = 3\<rparr>),
                   (''/p/c'', \<lparr>ce_size = 40, ce_last_used = 99\<rparr>)],
     ca_total = 150, ca_evictions = 0, ca_removed = []\<rparr>"

lemma sample_cache_inv: "cache_inv sample_cache"
  by (simp add: sample_cache_def cache_inv_def)

lemma sample_evict:
  "evict (\<lambda>_. 100) 0 sample_cache =
     sample_cache\<lparr>ca_entries := [(''/p/a'', \<lparr>ce_size = 60, ce_last_used = 5\<rparr>), (''/p/c'', \<lparr>ce_size = 40, ce_last_used = 99\<rparr>)],
       ca_total := 100, ca_evictions := 1, ca_removed := [''/p/b'']\<rparr>"
  by (simp add: evict.simps [of _ 0] evict.simps [of _ "Suc 0"] sample_cache_def next_victim_def
      older_def forget_def entry_delete_def Let_def)

theorem evict_correct_witness:
  "(''/p/c'', \<lparr>ce_size = 40, ce_last_used = 99\<rparr>) \<in> set (ca_entries (evict (\<lambda>_. 100) 0 sample_cache)) \<and>
   cache_inv (evict (\<lambda>_. 100) 0 sample_cache) \<and> \<not> over_limit (evict (\<lambda>_. 100) 0 sample_cache)"
proof -
  have "(''/p/c'', \<lparr>ce_size = 40, ce_last_used = 99\<rparr>)
      \<in> {ke \<in> set (ca_entries sample_cache). \<forall>j \<ge> (0::nat). \<not> evictable 100 sample_cache ke}"
    by (simp add: sample_cache_def evictable_def)
  moreover have "\<not> over_limit (evict (\<lambda>_. 100) 0 sample_cache)"
    unfolding sample_evict by (simp add: over_limit_def sample_cache_def)
  ultimately show ?thesis using evict_correct [OF sample_cache_inv, of "\<lambda>_. 100" 0] by blast
qed

theorem evict_minimal_witness:
  "\<exists>(d, e) \<in> set (ca_entries sample_cache) - set (ca_entries (evict (\<lambda>_. 100) 0 sample_cache)).
     ca_total (evict (\<lambda>_. 100) 0 sample_cache) + ce_size e > 100"
proof -
  have "evict (\<lambda>_. 100) 0 sample_cache \<noteq> sample_cache"
    unfolding sample_evict by (simp add: sample_cache_def)
  from evict_minimal [OF sample_cache_inv this] show ?thesis by (simp add: sample_cache_def)
qed

theorem next_victim_lru_witness:
  "next_victim 100 sample_cache = Some (''/p/b'', 50) \<and> over_limit sample_cache"
proof -
  have v: "next_victim 100 sample_cache = Some (''/p/b'', 50)"
    by (simp add: sample_cache_def next_victim_def older_def Let_def)
  show ?thesis using v next_victim_lru [OF sample_cache_inv v] by blast
qed

theorem cache_accounting_witness:
  "cache_inv (cache_add (\<lambda>_. 100) (\<lambda>_. Some (DDir ''x'' [DFile ''plugin'' (Some 7)])) ''/p/d'' sample_cache)"
  using cache_accounting [OF sample_cache_inv, of "''/p/d''"] by (simp add: sample_cache_def)

end
