(* ===== verification/Listing.thy ===== *)
theory Listing
  imports Domain
begin

text \<open>
  The contract of a plugin listing (\<open>core.Registry.List\<close> with \<open>PluginPage\<close>, \<^verbatim>\<open>internal/core/domain.go\<close>):
  with no page it returns every match in a strict order of keys; a page is the first \<open>size\<close>
  matches after a key. Its consequences are what a client that walks the pages relies on.
\<close>

definition after_key :: "(plugin_key \<Rightarrow> plugin_key \<Rightarrow> bool) \<Rightarrow> plugin_key option \<Rightarrow> plugin_info \<Rightarrow> bool" where
  "after_key lt k p = (case k of None \<Rightarrow> True | Some a \<Rightarrow> lt a (info_key p))"

locale listing =
  fixes ok :: "'st \<Rightarrow> bool"
    and list_page :: "'st \<Rightarrow> plugin_filter \<Rightarrow> plugin_page \<Rightarrow> plugin_info list"
    and lt :: "plugin_key \<Rightarrow> plugin_key \<Rightarrow> bool"
  assumes lt_trans: "lt a b \<Longrightarrow> lt b c \<Longrightarrow> lt a c"
    and lt_irrefl: "\<not> lt a a"
    and all_ordered: "ok st \<Longrightarrow> sorted_wrt (\<lambda>p q. lt (info_key p) (info_key q)) (list_page st f no_page)"
    and page_law: "ok st \<Longrightarrow> list_page st f pg =
       (let rest = filter (after_key lt (pg_after pg)) (list_page st f no_page)
        in if pg_size pg > 0 then take (nat (pg_size pg)) rest else rest)"
begin

definition all :: "'st \<Rightarrow> plugin_filter \<Rightarrow> plugin_info list" where
  "all st f = list_page st f no_page"

lemma after_sorted:
  assumes "sorted_wrt (\<lambda>p q. lt (info_key p) (info_key q)) (xs @ x # ys)"
  shows "filter (after_key lt (Some (info_key x))) (xs @ x # ys) = ys"
proof -
  have "filter (after_key lt (Some (info_key x))) xs = []"
  proof (unfold filter_empty_conv, intro ballI)
    fix y assume "y \<in> set xs"
    then have "lt (info_key y) (info_key x)" using assms by (simp add: sorted_wrt_append)
    then show "\<not> after_key lt (Some (info_key x)) y"
      using lt_trans lt_irrefl by (auto simp: after_key_def)
  qed
  moreover have "filter (after_key lt (Some (info_key x))) ys = ys"
    using assms by (auto simp: filter_id_conv after_key_def sorted_wrt_append)
  ultimately show ?thesis using lt_irrefl by (simp add: after_key_def)
qed

text \<open>Asking after a listed key continues right behind it.\<close>

lemma continue_after:
  assumes "ok st" "all st f = xs @ x # ys"
  shows "list_page st f \<lparr>pg_size = n, pg_after = Some (info_key x)\<rparr> =
         (if n > 0 then take (nat n) ys else ys)"
  using page_law [OF assms(1), of f "\<lparr>pg_size = n, pg_after = Some (info_key x)\<rparr>"]
    after_sorted [of xs x ys] all_ordered [OF assms(1), of f] assms(2)
  by (simp add: all_def Let_def)

lemma first_page:
  assumes "ok st"
  shows "list_page st f \<lparr>pg_size = n, pg_after = None\<rparr> = (if n > 0 then take (nat n) (all st f) else all st f)"
proof -
  have "filter (after_key lt None) xs = xs" for xs by (simp add: after_key_def)
  then show ?thesis
    using page_law [OF assms, of f "\<lparr>pg_size = n, pg_after = None\<rparr>"] by (simp add: all_def Let_def)
qed

lemma sorted_distinct:
  "sorted_wrt (\<lambda>p q. lt (info_key p) (info_key q)) ps \<Longrightarrow> distinct (map info_key ps)"
proof (induction ps)
  case (Cons p ps)
  have "info_key p \<notin> info_key ` set ps"
  proof
    assume "info_key p \<in> info_key ` set ps"
    then obtain q where q: "q \<in> set ps" "info_key p = info_key q" by blast
    then have "lt (info_key p) (info_key q)" using Cons.prems by simp
    then show False using q lt_irrefl by simp
  qed
  then show ?case using Cons by simp
qed simp

lemma all_distinct: "ok st \<Longrightarrow> distinct (map info_key (all st f))"
  by (simp add: all_def sorted_distinct all_ordered)

end

end
