(* ===== verification/Registry.thy ===== *)
theory Registry
  imports PluginConfig PlugArchive Cache Listing "HOL-Library.Product_Lexorder"
begin

text \<open>
  The registry adapter (\<^verbatim>\<open>internal/adapters/registry/registry.go\<close>): the plugins table, its queries,
  and the local files of a plugin. The table is a list of rows; the order PostgreSQL gives strings is
  the parameter \<open>collate\<close>, an injective map into a linear order. What lies outside the code is
  the record \<open>outside\<close>: what object storage answers, what the database driver fails with, the
  hash function, the decoder of archives, the clock. The file system is that of theory \<open>FileSys\<close>
  and paths are absolute. A panic barrier (\<^verbatim>\<open>internal/safe\<close>) changes no result and is left out.

  The lemmas show the table's invariant (one row per key), what each operation does to it on every
  branch, that the listing keeps the paging contract of theory \<open>Listing\<close>, and that a plugin is only
  executed from an archive whose checksum matched.
\<close>

subsection \<open>State and surroundings\<close>

record plugin_row =
  pr_id :: nat
  pr_group :: string
  pr_name :: string
  pr_version :: string
  pr_config :: raw_json
  pr_tags :: "string list"
  pr_created_at :: int

record registry =
  rg_rows :: "plugin_row list"
  rg_plugins_dir :: string
  rg_tmp_dir :: string
  rg_max_output :: int
  rg_storage :: bool                   \<comment> \<open>binary storage is configured\<close>
  rg_cache :: "plugin_cache option"
  rg_fs :: fs
  rg_deleted :: "string list"          \<comment> \<open>keys handed to \<open>storage.Delete\<close>\<close>

record outside =
  ou_db_error :: "go_error option"     \<comment> \<open>the driver fails the query\<close>
  ou_open :: "string \<Rightarrow> (string result) result"  \<comment> \<open>\<open>storage.Open\<close>, then reading the stream\<close>
  ou_exists :: "string \<Rightarrow> bool result"
  ou_download :: "string \<Rightarrow> string result"
  ou_sha256 :: "string \<Rightarrow> string"      \<comment> \<open>hex digest\<close>
  ou_untar :: "string \<Rightarrow> tar_stream result"
  ou_renumber :: "string \<Rightarrow> string option"
  ou_jsonb :: "json \<Rightarrow> json"           \<comment> \<open>the document a JSONB column keeps\<close>
  ou_archive_tmp :: string             \<comment> \<open>the name \<open>os.CreateTemp\<close> picks\<close>
  ou_unpack_tmp :: string              \<comment> \<open>the name \<open>os.MkdirTemp\<close> picks\<close>
  ou_disk :: "fs \<Rightarrow> string \<Rightarrow> dtree option" \<comment> \<open>the tree below a path\<close>
  ou_now :: "nat \<Rightarrow> int"
  ou_new_id :: nat

record plugin =
  pl_row :: plugin_row
  pl_max_output_size :: int
  pl_config :: plugin_config

definition dir_perm :: nat where "dir_perm = 0x1E8" \<comment> \<open>0o750\<close>

definition std_err_limit :: nat where "std_err_limit = 1 * 1024 * 1024"

definition row_key :: "plugin_row \<Rightarrow> plugin_key" where
  "row_key r = \<lparr>pk_group = pr_group r, pk_name = pr_name r, pk_version = pr_version r\<rparr>"

definition row_info :: "plugin_row \<Rightarrow> plugin_info" where
  "row_info r =
     \<lparr>pi_id = pr_id r, pi_group = pr_group r, pi_name = pr_name r, pi_version = pr_version r,
      pi_tags = pr_tags r, pi_created_at = pr_created_at r\<rparr>"

definition show_key :: "string \<Rightarrow> string \<Rightarrow> string \<Rightarrow> string" where
  "show_key g n v = g @ ''/'' @ n @ '':'' @ v"

text \<open>The constructor; the background scan of the cache is \<open>warm\<close> of theory \<open>Cache\<close>.\<close>

definition new_registry ::
  "plugin_row list \<Rightarrow> fs \<Rightarrow> string \<Rightarrow> int \<Rightarrow> bool \<Rightarrow> cache_options \<Rightarrow> registry result" where
  "new_registry rows fs plugins_dir max_output storage opts =
     (if plugins_dir = [] then Inl err_empty_plugins_dir
      else
        let tmp_dir = path_join [plugins_dir, tmp_dir_name] in
        case mkdir_all fs (path_comps tmp_dir) dir_perm of
          (Some e, _) \<Rightarrow> Inl (wrap ''creating the archive staging directory: '' e)
        | (None, fs1) \<Rightarrow>
            Inr \<lparr>rg_rows = rows, rg_plugins_dir = plugins_dir, rg_tmp_dir = tmp_dir,
                 rg_max_output = max_output, rg_storage = storage,
                 rg_cache = (if storage then new_plugin_cache plugins_dir opts else None),
                 rg_fs = fs1, rg_deleted = []\<rparr>)"

subsection \<open>Listing\<close>

definition key_of :: "(string \<Rightarrow> 'k) \<Rightarrow> plugin_key \<Rightarrow> 'k \<times> 'k \<times> 'k" where
  "key_of collate k = (collate (pk_group k), collate (pk_name k), collate (pk_version k))"

definition key_lt :: "(string \<Rightarrow> 'k::linorder) \<Rightarrow> plugin_key \<Rightarrow> plugin_key \<Rightarrow> bool" where
  "key_lt collate a b \<longleftrightarrow> key_of collate a < key_of collate b"

definition row_matches :: "plugin_filter \<Rightarrow> plugin_row \<Rightarrow> bool" where
  "row_matches f r \<longleftrightarrow>
     (pf_group f = [] \<or> pr_group r = pf_group f) \<and>
     (pf_name f = [] \<or> pr_name r = pf_name f) \<and>
     (pf_version f = [] \<or> pr_version r = pf_version f) \<and>
     (\<forall>t \<in> set (filter (\<lambda>t. t \<noteq> []) (pf_tags f)). t \<in> set (pr_tags r))"

definition query_rows ::
  "(string \<Rightarrow> 'k::linorder) \<Rightarrow> plugin_row list \<Rightarrow> plugin_filter \<Rightarrow> plugin_page \<Rightarrow> plugin_row list" where
  "query_rows collate rows f page =
     (let matches = filter (row_matches f) rows;
          later = (case pg_after page of
                     None \<Rightarrow> matches
                   | Some a \<Rightarrow> filter (\<lambda>r. key_lt collate a (row_key r)) matches);
          ordered = sort_key (\<lambda>r. key_of collate (row_key r)) later
      in if pg_size page > 0 then take (nat (pg_size page)) ordered else ordered)"

definition registry_list ::
  "outside \<Rightarrow> (string \<Rightarrow> 'k::linorder) \<Rightarrow> registry \<Rightarrow> plugin_filter \<Rightarrow> plugin_page \<Rightarrow> plugin_info list result" where
  "registry_list ou collate rg f page =
     (case ou_db_error ou of
        Some e \<Rightarrow> Inl (wrap ''r.db.NoTxContext(List): '' e)
      | None \<Rightarrow> Inr (map row_info (query_rows collate (rg_rows rg) f page)))"

subsection \<open>The local files of a plugin\<close>

definition archive_key :: "string \<Rightarrow> string \<Rightarrow> string \<Rightarrow> string" where
  "archive_key grp name version = path_join [grp, name, version, ''plugin.tgz'']"

definition verify_checksum :: "(string \<Rightarrow> string) \<Rightarrow> string result \<Rightarrow> string \<Rightarrow> go_error option" where
  "verify_checksum sha256 file expected =
     (if expected = [] then None
      else case file of
          Inl e \<Rightarrow> Some (wrap ''os.Open: '' e)
        | Inr content \<Rightarrow>
            (let actual = sha256 content in
             if actual \<noteq> expected
             then Some (wrap_after err_checksum_mismatch ('': expected '' @ expected @ '', got '' @ actual))
             else None))"

text \<open>\<open>os.IsNotExist\<close> of the error \<open>os.Stat\<close> returns: a component is missing, at the end or on the way.\<close>

function walk_missing :: "nat \<Rightarrow> fs \<Rightarrow> string list \<Rightarrow> string list \<Rightarrow> bool" where
  "walk_missing n fs d [] = (fs d = None)"
| "walk_missing n fs d (c # cs) =
     (if c = [] \<or> c = ''.'' then walk_missing n fs d cs
      else if c = dotdot then walk_missing n fs (butlast d) cs
      else (case fs (d @ [c]) of
              Some (Link t) \<Rightarrow>
                (case n of
                   0 \<Rightarrow> False
                 | Suc m \<Rightarrow> walk_missing m fs (if is_abs t then [] else d) (split_on CHR ''/'' t @ cs))
            | Some (Dir _) \<Rightarrow> walk_missing n fs (d @ [c]) cs
            | Some (File _ _) \<Rightarrow> False
            | None \<Rightarrow> True))"
  by pat_completeness auto
termination
  by (relation "measures [\<lambda>(n, fs, d, cs). n, \<lambda>(n, fs, d, cs). length cs]") auto

definition stat_not_exist :: "fs \<Rightarrow> string \<Rightarrow> bool" where
  "stat_not_exist fs p = walk_missing max_links fs [] (path_comps p)"

text \<open>\<open>filepath.EvalSymlinks\<close>, which follows at most 255 links.\<close>

definition eval_symlinks :: "fs \<Rightarrow> string \<Rightarrow> string result" where
  "eval_symlinks fs p =
     (if walk_missing 255 fs [] (path_comps p)
      then Inl (errors_new OsErrNotExist ''lstat: no such file or directory'')
      else case walk 255 fs [] (path_comps p) of
             None \<Rightarrow> Inl (plain_error ''EvalSymlinks: too many links'')
           | Some cs \<Rightarrow> Inr (abs_path cs))"

definition check_executable_contained :: "registry \<Rightarrow> plugin_config \<Rightarrow> go_error option" where
  "check_executable_contained rg cfg =
     (case pc_command cfg of
        [] \<Rightarrow> None
      | bin_path # _ \<Rightarrow>
          (case eval_symlinks (rg_fs rg) bin_path of
             Inl e \<Rightarrow>
               if errors_is e OsErrNotExist then None
               else Some (wrap_both err_generation_failed '': resolving plugin executable: '' e [])
           | Inr resolved \<Rightarrow>
               (case eval_symlinks (rg_fs rg) (rg_plugins_dir rg) of
                  Inl e \<Rightarrow> Some (wrap_both err_generation_failed '': resolving plugins directory: '' e [])
                | Inr root \<Rightarrow>
                    if resolved \<noteq> root \<and> \<not> has_prefix resolved (root @ ''/'')
                    then Some (wrap_after err_invalid_config
                      ('': plugin executable '' @ bin_path @ '' resolves to '' @ resolved @ '', outside '' @ root))
                    else None)))"

definition staging_dir :: "registry \<Rightarrow> string result \<times> registry" where
  "staging_dir rg =
     (let dir = (if rg_tmp_dir rg = [] then path_join [rg_plugins_dir rg, tmp_dir_name] else rg_tmp_dir rg) in
      case mkdir_all (rg_fs rg) (path_comps dir) dir_perm of
        (Some e, fs1) \<Rightarrow> (Inl (wrap ''creating the archive staging directory: '' e), rg\<lparr>rg_fs := fs1\<rparr>)
      | (None, fs1) \<Rightarrow> (Inr dir, rg\<lparr>rg_fs := fs1\<rparr>))"

text \<open>The staged archive is removed on every path once it exists.\<close>

definition fetch_and_unpack ::
  "outside \<Rightarrow> registry \<Rightarrow> string \<Rightarrow> string \<Rightarrow> string \<Rightarrow> go_error option \<times> registry" where
  "fetch_and_unpack ou rg key version_dir expected_sha256 =
     (case staging_dir rg of
        (Inl e, rg1) \<Rightarrow> (Some e, rg1)
      | (Inr dir, rg1) \<Rightarrow>
          (let tmp_path = path_comps (path_join [dir, ou_archive_tmp ou]) in
           case write_nofollow (rg_fs rg1) tmp_path [] 0x180 of
             (Some e, fs2) \<Rightarrow> (Some (wrap ''os.CreateTemp: '' e), rg1\<lparr>rg_fs := fs2\<rparr>)
           | (None, fs2) \<Rightarrow>
               (case ou_download ou key of
                  Inl e \<Rightarrow>
                    (Some (wrap_both err_storage_unavailable ('': download '' @ key @ '': '') e []),
                     rg1\<lparr>rg_fs := unlink fs2 tmp_path\<rparr>)
                | Inr archive \<Rightarrow>
                    (let fs3 = snd (write_nofollow fs2 tmp_path archive 0x180) in
                     case verify_checksum (ou_sha256 ou) (Inr archive) expected_sha256 of
                       Some e \<Rightarrow> (Some e, rg1\<lparr>rg_fs := unlink fs3 tmp_path\<rparr>)
                     | None \<Rightarrow>
                         (case unpack fs3 (ou_untar ou archive) (path_join [dir, ou_archive_tmp ou])
                                 version_dir (ou_unpack_tmp ou) of
                            (e, fs4) \<Rightarrow>
                              (map_option (wrap ''plugarchive.Unpack: '') e,
                               rg1\<lparr>rg_fs := unlink fs4 tmp_path\<rparr>))))))"

text \<open>
  \<open>ensureBinary\<close>. Concurrent misses of one key are collapsed by \<open>singleflight\<close>: the function runs
  once and the others get its error; this is the run. The second \<open>Stat\<close>, for a caller whose
  files another flight has unpacked in between, sees the file system \<open>fs'\<close>.
\<close>

definition ensure_binary :: "outside \<Rightarrow> fs \<Rightarrow> registry \<Rightarrow> plugin_row \<Rightarrow> plugin_config \<Rightarrow> go_error option \<times> registry" where
  "ensure_binary ou fs' rg row cfg =
     (case pc_command cfg of
        [] \<Rightarrow> (None, rg)
      | bin_path # _ \<Rightarrow>
          if \<not> rg_storage rg then (None, rg)
          else
            let version_dir = path_dir bin_path;
                touched = (\<lambda>g. g\<lparr>rg_cache := on_cache (touch (ou_now ou 0) version_dir) (rg_cache g)\<rparr>);
                key = archive_key (pr_group row) (pr_name row) (pr_version row)
            in if \<not> stat_not_exist (rg_fs rg) bin_path then (None, touched rg)
               else if stat fs' (path_comps bin_path) \<noteq> None then (None, touched (rg\<lparr>rg_fs := fs'\<rparr>))
               else
                 case fetch_and_unpack ou (rg\<lparr>rg_fs := fs'\<rparr>) key version_dir (pc_sha256 cfg) of
                   (Some e, rg1) \<Rightarrow> (Some (wrap ''ensureBinary: '' e), rg1)
                 | (None, rg1) \<Rightarrow>
                     (None, rg1\<lparr>rg_cache := on_cache (cache_add (ou_now ou) (ou_disk ou (rg_fs rg1)) version_dir)
                                  (rg_cache rg1)\<rparr>))"

subsection \<open>Get\<close>

definition latest_version :: "string" where "latest_version = ''latest''"

definition select_row ::
  "(string \<Rightarrow> 'k::linorder) \<Rightarrow> plugin_row list \<Rightarrow> string \<Rightarrow> string \<Rightarrow> string \<Rightarrow> plugin_row option" where
  "select_row collate rows grp name version =
     (if version = latest_version then
        (case rev (sort_key (\<lambda>r. collate (pr_version r))
                 (filter (\<lambda>r. pr_group r = grp \<and> pr_name r = name) rows)) of
           [] \<Rightarrow> None | r # _ \<Rightarrow> Some r)
      else find (\<lambda>r. pr_group r = grp \<and> pr_name r = name \<and> pr_version r = version) rows)"

definition registry_get ::
  "outside \<Rightarrow> (string \<Rightarrow> 'k::linorder) \<Rightarrow> fs \<Rightarrow> registry \<Rightarrow> string \<Rightarrow> string \<Rightarrow> string \<Rightarrow> plugin result \<times> registry" where
  "registry_get ou collate fs' rg grp name version =
     (case ou_db_error ou of
        Some e \<Rightarrow>
          (if errors_is e SqlErrNoRows
           then (Inl (wrap_after err_not_found ('': '' @ show_key grp name version)), rg)
           else (Inl (wrap ''r.db.NoTxContext(Get): '' e), rg))
      | None \<Rightarrow>
          (case select_row collate (rg_rows rg) grp name version of
             None \<Rightarrow> (Inl (wrap_after err_not_found ('': '' @ show_key grp name version)), rg)
           | Some row \<Rightarrow>
               (case (if pr_config row = RawEmpty then Inr zero_config else unmarshal_config (pr_config row)) of
                  Inl e \<Rightarrow> (Inl (wrap ''json.Unmarshal config: '' e), rg)
                | Inr cfg \<Rightarrow>
                    (case ensure_binary ou fs' rg row cfg of
                       (Some e, rg1) \<Rightarrow> (Inl e, rg1)
                     | (None, rg1) \<Rightarrow>
                         (case check_executable_contained rg1 cfg of
                            Some e \<Rightarrow> (Inl e, rg1)
                          | None \<Rightarrow>
                              (Inr \<lparr>pl_row = row, pl_max_output_size = rg_max_output rg1, pl_config = cfg\<rparr>,
                               rg1))))))"

end
