(* ===== verification/Paging.thy ===== *)
theory Paging
  imports Listing
begin

text \<open>
  Paging (\<open>Core.ListPlugins\<close> in \<^verbatim>\<open>internal/core/core.go\<close>): the page sizes, the cut that finds out with one
  entry more whether another page follows, and the client that walks the pages. Inside the
  \<open>listing\<close> contract the walk gives back the whole listing.
\<close>

definition default_page_size :: int where "default_page_size = 100"
definition max_page_size :: int where "max_page_size = 1000"

definition page_size :: "int \<Rightarrow> int" where
  "page_size n = (let s = (if n \<le> 0 then default_page_size else n)
                     in if s > max_page_size then max_page_size else s)"

text \<open>One row past the page tells whether there is a next one.\<close>

definition cut_page :: "nat \<Rightarrow> plugin_info list \<Rightarrow> plugin_list" where
  "cut_page n plugins =
     (if length plugins > n
      then \<lparr>pl_plugins = take n plugins, pl_next = Some (info_key (take n plugins ! (n - 1)))\<rparr>
      else \<lparr>pl_plugins = plugins, pl_next = None\<rparr>)"

text \<open>
  A client that asks for pages of \<open>n\<close> until there is no next one; the fuel bounds the number of
  pages, \<^term>\<open>None\<close> means it was not enough.
\<close>

fun page_walk ::
  "(plugin_page \<Rightarrow> plugin_list) \<Rightarrow> nat \<Rightarrow> int \<Rightarrow> plugin_key option \<Rightarrow> plugin_info list option" where
  "page_walk fetch 0 n after = None"
| "page_walk fetch (Suc fuel) n after =
     (let l = fetch \<lparr>pg_size = n, pg_after = after\<rparr> in
      case pl_next l of
        None \<Rightarrow> Some (pl_plugins l)
      | Some k \<Rightarrow> map_option (\<lambda>rest. pl_plugins l @ rest) (page_walk fetch fuel n (Some k)))"

lemma page_size_bounds: "1 \<le> page_size n" "page_size n \<le> 1000"
  by (auto simp: page_size_def default_page_size_def max_page_size_def Let_def)

context listing
begin

definition core_page :: "'st \<Rightarrow> plugin_filter \<Rightarrow> plugin_page \<Rightarrow> plugin_list" where
  "core_page st f pg =
     cut_page (nat (page_size (pg_size pg)))
       (list_page st f \<lparr>pg_size = page_size (pg_size pg) + 1, pg_after = pg_after pg\<rparr>)"

text \<open>A page shows what is left of the listing, up to its size, and says whether more is left.\<close>

lemma core_page_rest:
  assumes "ok st" "all st f = xs @ ys"
    and "after = (if xs = [] then None else Some (info_key (last xs)))"
  shows "core_page st f \<lparr>pg_size = n, pg_after = after\<rparr> = cut_page (nat (page_size n)) (take (Suc (nat (page_size n))) ys)"
proof -
  have s: "nat (page_size n + 1) = Suc (nat (page_size n))" "page_size n + 1 > 0"
    using page_size_bounds(1) [of n] by linarith+
  have "list_page st f \<lparr>pg_size = page_size n + 1, pg_after = after\<rparr> = take (Suc (nat (page_size n))) ys"
  proof (cases xs rule: rev_cases)
    case Nil
    then show ?thesis using first_page [OF assms(1), of f "page_size n + 1"] assms(2,3) s by simp
  next
    case (snoc zs z)
    then show ?thesis
      using continue_after [OF assms(1), of f zs z ys "page_size n + 1"] assms(2,3) s by simp
  qed
  then show ?thesis by (simp add: core_page_def)
qed

lemma core_walk:
  assumes "ok st"
  shows "all st f = xs @ ys \<Longrightarrow> length ys < fuel \<Longrightarrow>
    page_walk (core_page st f) fuel n (if xs = [] then None else Some (info_key (last xs))) = Some ys"
proof (induction fuel arbitrary: xs ys)
  case (Suc fuel)
  let ?s = "nat (page_size n)" and ?a = "if xs = [] then None else Some (info_key (last xs))"
  have pos: "?s \<ge> 1" using page_size_bounds(1) [of n] by linarith
  have p: "core_page st f \<lparr>pg_size = n, pg_after = ?a\<rparr> = cut_page ?s (take (Suc ?s) ys)"
    by (rule core_page_rest [OF assms Suc.prems(1)]) simp
  show ?case
  proof (cases "length ys > ?s")
    case False
    then show ?thesis by (simp add: p cut_page_def Let_def)
  next
    case True
    let ?k = "info_key (last (xs @ take ?s ys))"
    have ne: "take ?s ys \<noteq> []" using True pos by auto
    have lst: "last (xs @ take ?s ys) = take ?s ys ! (?s - 1)"
      using True ne last_conv_nth [OF ne] by simp
    have c: "cut_page ?s (take (Suc ?s) ys) = \<lparr>pl_plugins = take ?s ys, pl_next = Some ?k\<rparr>"
      using True unfolding lst by (simp add: cut_page_def min_def)
    have "page_walk (core_page st f) fuel n (if xs @ take ?s ys = [] then None else Some ?k) = Some (drop ?s ys)"
      using Suc.prems True pos by (intro Suc.IH) auto
    then have "page_walk (core_page st f) fuel n (Some ?k) = Some (drop ?s ys)" using ne by simp
    then show ?thesis by (simp add: p c Let_def)
  qed
qed simp

text \<open>Walking the pages gives the whole listing, whatever page size is asked for.\<close>

lemma core_walk_all:
  assumes "ok st" "length (all st f) < fuel"
  shows "page_walk (core_page st f) fuel n None = Some (all st f)"
  using core_walk [OF assms(1), of f "[]" "all st f" fuel n] assms(2) by simp

end

end
