(* ===== verification/RegistryReads.thy ===== *)
theory RegistryReads
  imports Registry Paging
begin

text \<open>
  What the reads of the registry adapter give: \<open>List\<close> keeps the paging contract of theory \<open>Listing\<close>
  for every collation, \<open>Get\<close> finds the row it is asked for (the greatest version for
  \<^verbatim>\<open>latest\<close>), and a binary is only unpacked from an archive whose checksum matched, into a
  place the executable is still found in.
\<close>

subsection \<open>Listing\<close>

definition rows_ok :: "(string \<Rightarrow> 'k::linorder) \<Rightarrow> plugin_row list \<Rightarrow> bool" where
  "rows_ok collate rows \<longleftrightarrow> distinct (map row_key rows) \<and> inj collate"

definition list_rows :: "(string \<Rightarrow> 'k::linorder) \<Rightarrow> plugin_row list \<Rightarrow> plugin_filter \<Rightarrow> plugin_page \<Rightarrow> plugin_info list" where
  "list_rows collate rows f page = map row_info (query_rows collate rows f page)"

lemma info_key_row_info [simp]: "info_key (row_info r) = row_key r"
  by (simp add: info_key_def row_info_def row_key_def)

lemma key_of_inj: "inj collate \<Longrightarrow> key_of collate a = key_of collate b \<Longrightarrow> a = b"
  by (auto simp: key_of_def inj_eq)

lemma filter_sort_key: "filter P (sort_key f xs) = sort_key f (filter P xs)"
  by (rule filter_sort)

lemma query_all: "query_rows collate rows f no_page =
    sort_key (\<lambda>r. key_of collate (row_key r)) (filter (row_matches f) rows)"
  by (simp add: query_rows_def no_page_def Let_def)

lemma query_page: "query_rows collate rows f pg =
    (let rest = filter (\<lambda>r. after_key (key_lt collate) (pg_after pg) (row_info r)) (query_rows collate rows f no_page)
     in if pg_size pg > 0 then take (nat (pg_size pg)) rest else rest)"
  unfolding query_all
  by (cases "pg_after pg") (simp_all add: query_rows_def after_key_def filter_sort_key Let_def)

lemma query_sorted:
  assumes "rows_ok collate rows"
  shows "sorted_wrt (\<lambda>p q. key_lt collate (row_key p) (row_key q)) (query_rows collate rows f no_page)"
proof -
  let ?k = "\<lambda>r. key_of collate (row_key r)"
  have d: "distinct (map ?k (filter (row_matches f) rows))"
  proof -
    have "inj_on row_key (set rows)" "distinct rows" "inj collate"
      using assms by (auto simp: rows_ok_def distinct_map)
    then have "inj_on ?k (set rows)" using key_of_inj unfolding inj_on_def by blast
    then show ?thesis using \<open>distinct rows\<close> by (auto simp: distinct_map inj_on_def)
  qed
  have "distinct (map ?k (query_rows collate rows f no_page))"
    using d by (simp add: query_all distinct_map distinct_sort set_sort)
  moreover have "sorted (map ?k (query_rows collate rows f no_page))"
    by (simp add: query_all)
  ultimately have "sorted_wrt (<) (map ?k (query_rows collate rows f no_page))"
    by (simp add: strict_sorted_iff)
  then show ?thesis by (simp add: sorted_wrt_map key_lt_def)
qed

interpretation reg: listing "rows_ok collate" "list_rows collate" "key_lt collate"
  for collate :: "string \<Rightarrow> 'k::linorder"
proof unfold_locales
  show "key_lt collate a c" if "key_lt collate a b" "key_lt collate b c" for a b c
    using that by (auto simp: key_lt_def)
  show "\<not> key_lt collate a a" for a by (simp add: key_lt_def)
  show "sorted_wrt (\<lambda>p q. key_lt collate (info_key p) (info_key q)) (list_rows collate st f no_page)"
    if "rows_ok collate st" for st f
    using query_sorted [OF that] by (simp add: list_rows_def sorted_wrt_map)
  show "list_rows collate st f pg = (let rest = filter (after_key (key_lt collate) (pg_after pg))
      (list_rows collate st f no_page) in if pg_size pg > 0 then take (nat (pg_size pg)) rest else rest)"
    if "rows_ok collate st" for st f pg
    using query_page [of collate st f pg]
    by (simp add: list_rows_def filter_map take_map Let_def comp_def)
qed

text \<open>
  The listing returns exactly the rows that match the filter, each once and in key order, and a
  page is the first rows of that listing behind the key it continues after.
\<close>

theorem list_exact:
  assumes "rows_ok collate (rg_rows rg)" "registry_list ou collate rg f page = Inr infos"
  shows "set infos \<subseteq> row_info ` {r \<in> set (rg_rows rg). row_matches f r} \<and>
    sorted_wrt (\<lambda>p q. key_lt collate (info_key p) (info_key q)) infos \<and>
    (page = no_page \<longrightarrow> set infos = row_info ` {r \<in> set (rg_rows rg). row_matches f r}) \<and>
    infos = (let rest = filter (after_key (key_lt collate) (pg_after page)) (list_rows collate (rg_rows rg) f no_page)
             in if pg_size page > 0 then take (nat (pg_size page)) rest else rest)"
proof -
  have i: "infos = list_rows collate (rg_rows rg) f page"
    using assms(2) by (auto simp: registry_list_def list_rows_def split: option.splits)
  have full: "set (list_rows collate (rg_rows rg) f no_page) = row_info ` {r \<in> set (rg_rows rg). row_matches f r}"
    by (simp add: list_rows_def query_all)
  note law = reg.page_law [OF assms(1), of f page]
  have sub: "\<exists>P n. infos = (if n > (0::int) then take (nat n) (filter P (list_rows collate (rg_rows rg) f no_page))
      else filter P (list_rows collate (rg_rows rg) f no_page))"
    using law by (auto simp: i Let_def)
  have "set infos \<subseteq> set (list_rows collate (rg_rows rg) f no_page)"
    using sub by (auto dest: in_set_takeD split: if_splits)
  moreover have "sorted_wrt (\<lambda>p q. key_lt collate (info_key p) (info_key q)) infos"
    using sub sorted_wrt_filter [OF reg.all_ordered [OF assms(1), of f]]
    by (metis (no_types, lifting) sorted_wrt_take)
  ultimately show ?thesis using law full by (simp add: i)
qed

subsection \<open>Finding a row\<close>

text \<open>
  A lookup by version finds the row with that key, if there is one; \<^verbatim>\<open>latest\<close> finds a row of
  that name whose version no other of its rows exceeds in the order of the collation.
\<close>

theorem select_row_correct:
  assumes "select_row collate rows grp name version = res"
  shows "(version \<noteq> latest_version \<longrightarrow>
      (case res of
         None \<Rightarrow> \<not> (\<exists>r \<in> set rows. row_key r = \<lparr>pk_group = grp, pk_name = name, pk_version = version\<rparr>)
       | Some r \<Rightarrow> r \<in> set rows \<and> row_key r = \<lparr>pk_group = grp, pk_name = name, pk_version = version\<rparr>)) \<and>
    (version = latest_version \<longrightarrow>
      (case res of
         None \<Rightarrow> \<not> (\<exists>r \<in> set rows. pr_group r = grp \<and> pr_name r = name)
       | Some r \<Rightarrow> r \<in> set rows \<and> pr_group r = grp \<and> pr_name r = name \<and>
           (\<forall>q \<in> set rows. pr_group q = grp \<and> pr_name q = name \<longrightarrow>
              collate (pr_version q) \<le> collate (pr_version r))))"
proof (cases "version = latest_version")
  case False
  then show ?thesis
    using assms by (auto simp: select_row_def row_key_def find_None_iff find_Some_iff split: option.splits)
next
  case True
  let ?f = "\<lambda>r. collate (pr_version r)"
  define s where "s = sort_key ?f (filter (\<lambda>r. pr_group r = grp \<and> pr_name r = name) rows)"
  have ss: "set s = {r \<in> set rows. pr_group r = grp \<and> pr_name r = name}" by (simp add: s_def)
  have so: "sorted (map ?f s)" by (simp add: s_def)
  show ?thesis
  proof (cases s rule: rev_cases)
    case Nil
    then have "res = None" using assms True by (simp add: select_row_def s_def)
    then show ?thesis using True ss Nil by auto
  next
    case (snoc xs r)
    then have r: "res = Some r" using assms True by (simp add: select_row_def s_def [symmetric])
    have "?f q \<le> ?f r" if "q \<in> set s" for q
      using that so snoc by (auto simp: sorted_append)
    moreover have "r \<in> set s" using snoc by simp
    ultimately show ?thesis using True ss r by auto
  qed
qed

text \<open>
  The latest version is the greatest as text, not as a version number: with the usual byte order,
  of 1.9.0 and 1.10.0 the former is latest.
\<close>

theorem latest_is_textual:
  "map_option pr_version
     (select_row (\<lambda>s. s) [\<lparr>pr_id = 1, pr_group = ''g'', pr_name = ''n'', pr_version = ''v1.9.0'', pr_config = RawEmpty,
                          pr_tags = [], pr_created_at = 0\<rparr>,
                        \<lparr>pr_id = 2, pr_group = ''g'', pr_name = ''n'', pr_version = ''v1.10.0'', pr_config = RawEmpty,
                          pr_tags = [], pr_created_at = 1\<rparr>] ''g'' ''n'' ''latest'') = Some ''v1.9.0''"
  by (simp add: select_row_def latest_version_def)

subsection \<open>What may be executed\<close>

lemma verify_checksum_None:
  "verify_checksum h (Inr c) expected = None \<longleftrightarrow> expected = [] \<or> h c = expected"
  by (simp add: verify_checksum_def Let_def)

text \<open>
  C2. An archive is unpacked only after its checksum matched the recorded one (an empty record means
  there is none): if the fetch succeeds the downloaded bytes have that checksum, and if they do
  not the fetch fails with a checksum mismatch and only the staging directory was written.
\<close>

theorem fetch_verified:
  assumes "fetch_and_unpack ou rg key version_dir expected = (e, rg')"
  shows "(e = None \<longrightarrow> (\<exists>archive. ou_download ou key = Inr archive \<and>
             (expected = [] \<or> ou_sha256 ou archive = expected))) \<and>
    (\<forall>archive. ou_download ou key = Inr archive \<longrightarrow> expected \<noteq> [] \<longrightarrow> ou_sha256 ou archive \<noteq> expected \<longrightarrow>
       e \<noteq> None \<and>
       (\<forall>dir rg1 fs2. staging_dir rg = (Inr dir, rg1) \<longrightarrow>
          write_nofollow (rg_fs rg1) (path_comps (path_join [dir, ou_archive_tmp ou])) [] 0x180 = (None, fs2) \<longrightarrow>
          errors_is (the e) ErrChecksumMismatch \<and>
          rg' = rg1\<lparr>rg_fs := unlink (snd (write_nofollow fs2
                   (path_comps (path_join [dir, ou_archive_tmp ou])) archive 0x180))
                 (path_comps (path_join [dir, ou_archive_tmp ou]))\<rparr>))"
proof -
  have mm: "errors_is (wrap_after err_checksum_mismatch q) ErrChecksumMismatch" for q
    by (simp add: err_checksum_mismatch_def)
  obtain d rg1 where s: "staging_dir rg = (d, rg1)" by fastforce
  show ?thesis
  proof (cases d)
    case (Inl x)
    then show ?thesis using assms s by (auto simp: fetch_and_unpack_def)
  next
    case (Inr dir)
    obtain w fs2 where w: "write_nofollow (rg_fs rg1) (path_comps (path_join [dir, ou_archive_tmp ou])) [] 0x180
        = (w, fs2)" by fastforce
    show ?thesis
    proof (cases w)
      case (Some x)
      then show ?thesis using assms s Inr w by (auto simp: fetch_and_unpack_def)
    next
      case None
      show ?thesis
      proof (cases "ou_download ou key")
        case (Inl x)
        then show ?thesis using assms s Inr w None by (auto simp: fetch_and_unpack_def)
      next
        case (Inr archive)
        have ver: "verify_checksum (ou_sha256 ou) (Inr archive) expected = None \<longleftrightarrow>
            expected = [] \<or> ou_sha256 ou archive = expected" by (rule verify_checksum_None)
        show ?thesis
        proof (cases "verify_checksum (ou_sha256 ou) (Inr archive) expected")
          case None
          then show ?thesis using ver Inr by auto
        next
          case (Some x)
          then have "errors_is x ErrChecksumMismatch"
            using mm by (auto simp: verify_checksum_def Let_def split: if_splits)
          then show ?thesis
            using assms s \<open>d = Inr dir\<close> w \<open>w = None\<close> Inr Some ver
            by (auto simp: fetch_and_unpack_def Let_def)
        qed
      qed
    qed
  qed
qed

text \<open>
  C3. A plugin that \<open>Get\<close> returns is the selected row with its decoded configuration, and its
  executable, if it is on disk, resolves through every link to a path inside the resolved plugins
  directory; a missing row, and only that, is reported as not found when the database answers.
\<close>

theorem get_contained:
  assumes "registry_get ou collate fs' rg grp name version = (res, rg')" "ou_db_error ou = None"
  shows "(\<forall>p. res = Inr p \<longrightarrow>
      select_row collate (rg_rows rg) grp name version = Some (pl_row p) \<and>
      (pr_config (pl_row p) \<noteq> RawEmpty \<longrightarrow> unmarshal_config (pr_config (pl_row p)) = Inr (pl_config p)) \<and>
      (\<forall>c0 args resolved. pc_command (pl_config p) = c0 # args \<longrightarrow>
         eval_symlinks (rg_fs rg') c0 = Inr resolved \<longrightarrow>
         (\<exists>root. eval_symlinks (rg_fs rg') (rg_plugins_dir rg') = Inr root \<and> within root resolved))) \<and>
    (select_row collate (rg_rows rg) grp name version = None \<longrightarrow>
       rg' = rg \<and> (\<exists>e. res = Inl e \<and> errors_is e ErrNotFound))"
proof (cases "select_row collate (rg_rows rg) grp name version")
  case None
  then show ?thesis
    using assms by (auto simp: registry_get_def err_not_found_def)
next
  case (Some row)
  show ?thesis
  proof (cases res)
    case (Inl e)
    then show ?thesis using Some by simp
  next
    case (Inr p)
    then obtain cfg where c: "(if pr_config row = RawEmpty then Inr zero_config else unmarshal_config (pr_config row))
        = (Inr cfg :: plugin_config result)"
      and e: "ensure_binary ou fs' rg row cfg = (None, rg')" "check_executable_contained rg' cfg = None"
      and p: "p = \<lparr>pl_row = row, pl_max_output_size = rg_max_output rg', pl_config = cfg\<rparr>"
      using assms Some by (auto simp: registry_get_def split: sum.splits prod.splits option.splits)
    have "\<exists>root. eval_symlinks (rg_fs rg') (rg_plugins_dir rg') = Inr root \<and> within root resolved"
      if "pc_command cfg = c0 # args" "eval_symlinks (rg_fs rg') c0 = Inr resolved" for c0 args resolved
      using e(2) that by (auto simp: check_executable_contained_def within_def split: sum.splits if_splits)
    moreover have "pr_config row \<noteq> RawEmpty \<longrightarrow> unmarshal_config (pr_config row) = Inr cfg" using c by auto
    ultimately show ?thesis using Some Inr p by auto
  qed
qed

subsection \<open>Concrete runs\<close>

definition sample_row :: "nat \<Rightarrow> string \<Rightarrow> string \<Rightarrow> string \<Rightarrow> plugin_row" where
  "sample_row i g n v = \<lparr>pr_id = i, pr_group = g, pr_name = n, pr_version = v,
     pr_config = RawDoc (JObj [(''command'', JArr [JStr ''/plugins/g/n/v1/plugin''])]),
     pr_tags = [''t''], pr_created_at = 0\<rparr>"

definition sample_outside :: outside where
  "sample_outside = \<lparr>ou_db_error = None, ou_open = (\<lambda>_. Inr (Inr ''bytes'')), ou_exists = (\<lambda>_. Inr True),
     ou_download = (\<lambda>_. Inr ''bytes''), ou_sha256 = (\<lambda>b. ''sum:'' @ b), ou_untar = (\<lambda>_. Inl (plain_error ''gzip'')),
     ou_renumber = Some, ou_jsonb = (\<lambda>j. j), ou_archive_tmp = ''a.tgz'', ou_unpack_tmp = ''/plugins/g/n/v1.tmp'',
     ou_disk = (\<lambda>_ _. None), ou_now = int, ou_new_id = 7\<rparr>"

definition sample_registry :: registry where
  "sample_registry = \<lparr>rg_rows = [sample_row 2 ''g'' ''n'' ''v2.0'', sample_row 1 ''g'' ''n'' ''v1.0''],
     rg_plugins_dir = ''/plugins'', rg_tmp_dir = ''/plugins/.tmp'', rg_max_output = 100, rg_storage = False,
     rg_cache = None, rg_fs = [[] \<mapsto> Dir 493, [''plugins''] \<mapsto> Dir 493], rg_deleted = []\<rparr>"

lemmas sample_defs = sample_row_def sample_outside_def sample_registry_def

lemma sample_rows_ok: "rows_ok (\<lambda>s. s) (rg_rows sample_registry)"
  by (simp add: rows_ok_def sample_defs row_key_def)

theorem list_exact_witness:
  "map pi_version (list_rows (\<lambda>s. s) (rg_rows sample_registry) no_filter no_page) = [''v1.0'', ''v2.0''] \<and>
   sorted_wrt (\<lambda>p q. key_lt (\<lambda>s. s) (info_key p) (info_key q))
     (list_rows (\<lambda>s. s) (rg_rows sample_registry) no_filter no_page)"
proof -
  have "registry_list sample_outside (\<lambda>s. s) sample_registry no_filter no_page =
      Inr (list_rows (\<lambda>s. s) (rg_rows sample_registry) no_filter no_page)"
    by (simp add: registry_list_def sample_outside_def list_rows_def)
  note list_exact [OF sample_rows_ok this]
  moreover have "map pi_version (list_rows (\<lambda>s. s) (rg_rows sample_registry) no_filter no_page) = [''v1.0'', ''v2.0'']"
    by (simp add: list_rows_def query_all sample_defs row_matches_def no_filter_def key_of_def row_key_def row_info_def)
  ultimately show ?thesis by blast
qed

theorem select_row_correct_witness:
  "map_option pr_id (select_row (\<lambda>s. s) (rg_rows sample_registry) ''g'' ''n'' ''latest'') = Some 2 \<and>
   select_row (\<lambda>s. s) (rg_rows sample_registry) ''g'' ''n'' ''v3.0'' = None \<and>
   \<not> (\<exists>r \<in> set (rg_rows sample_registry). row_key r = \<lparr>pk_group = ''g'', pk_name = ''n'', pk_version = ''v3.0''\<rparr>)"
proof -
  have n: "select_row (\<lambda>s. s) (rg_rows sample_registry) ''g'' ''n'' ''v3.0'' = None"
    by (simp add: select_row_def latest_version_def sample_defs)
  moreover have "map_option pr_id (select_row (\<lambda>s. s) (rg_rows sample_registry) ''g'' ''n'' ''latest'') = Some 2"
    by (simp add: select_row_def latest_version_def sample_defs)
  ultimately show ?thesis using select_row_correct [OF n] by (simp add: latest_version_def)
qed

theorem fetch_verified_witness:
  "\<exists>e. fst (fetch_and_unpack sample_outside sample_registry ''k'' ''/plugins/g/n/v1'' ''other'') = Some e \<and>
       errors_is e ErrChecksumMismatch"
proof -
  obtain e rg' where f: "fetch_and_unpack sample_outside sample_registry ''k'' ''/plugins/g/n/v1'' ''other'' = (e, rg')"
    by fastforce
  let ?fs = "[[] \<mapsto> Dir 493, [''plugins''] \<mapsto> Dir 493, [''plugins'', ''.tmp''] \<mapsto> Dir dir_perm]"
  have s: "staging_dir sample_registry = (Inr ''/plugins/.tmp'', sample_registry\<lparr>rg_fs := ?fs\<rparr>)"
    by (simp add: staging_dir_def sample_registry_def run_defs Let_def)
  have w: "write_nofollow ?fs (path_comps (path_join [''/plugins/.tmp'', ou_archive_tmp sample_outside])) [] 0x180 =
      (None, ?fs([''plugins'', ''.tmp'', ''a.tgz''] \<mapsto> File [] 0x180))"
    by (simp add: sample_outside_def run_defs)
  have "e \<noteq> None \<and> errors_is (the e) ErrChecksumMismatch"
    using fetch_verified [OF f] s w by (simp add: sample_outside_def)
  then show ?thesis using f by auto
qed

theorem get_contained_witness:
  "\<exists>e. fst (registry_get sample_outside (\<lambda>s. s) Map.empty sample_registry ''g'' ''n'' ''v9.0'') = Inl e \<and> errors_is e ErrNotFound"
proof -
  have n: "select_row (\<lambda>s. s) (rg_rows sample_registry) ''g'' ''n'' ''v9.0'' = None"
    by (simp add: select_row_def latest_version_def sample_defs)
  obtain res rg' where g: "registry_get sample_outside (\<lambda>s. s) Map.empty sample_registry ''g'' ''n'' ''v9.0'' = (res, rg')"
    by fastforce
  show ?thesis using get_contained [OF g] n g by (auto simp: sample_outside_def)
qed

end
