(* ===== verification/RegistryWrites.thy ===== *)
theory RegistryWrites
  imports Registry
begin

text \<open>
  The writes of the registry adapter (\<open>Create\<close>, \<open>Update\<close>, \<open>Delete\<close> of
  \<^verbatim>\<open>internal/adapters/registry/registry.go\<close>) and the checksum recorded with them. The table keeps one
  row per key because the insert fails on a duplicate; the lemmas show what each write does to the
  table and to everything else, on every branch.
\<close>

definition attach_archive_checksum ::
  "outside \<Rightarrow> string \<Rightarrow> string \<Rightarrow> string \<Rightarrow> raw_json \<Rightarrow> raw_json result option" where
  "attach_archive_checksum ou grp name version config =
     (let key = archive_key grp name version in
      case ou_open ou key of
        Inl e \<Rightarrow>
          (case ou_exists ou key of
             Inr False \<Rightarrow>
               Some (Inl (wrap_after err_binary_not_uploaded ('': '' @ key @ '' (run `easyp-svc plugins push` first)'')))
           | _ \<Rightarrow> Some (Inl (wrap_both err_storage_unavailable ('': open '' @ key @ '': '') e [])))
      | Inr (Inl e) \<Rightarrow> Some (Inl (wrap_both err_storage_unavailable ('': read '' @ key @ '': '') e []))
      | Inr (Inr content) \<Rightarrow>
          (case config_with_checksum (ou_renumber ou) config (ou_sha256 ou content) of
             None \<Rightarrow> None
           | Some (Inl e) \<Rightarrow> Some (Inl (wrap ''configWithChecksum: '' e))
           | Some (Inr c) \<Rightarrow> Some (Inr c)))"

definition stored_config :: "outside \<Rightarrow> raw_json \<Rightarrow> raw_json" where
  "stored_config ou config = (case config of RawDoc j \<Rightarrow> RawDoc (ou_jsonb ou j) | c \<Rightarrow> c)"

text \<open>The insert: a row with the same key makes PostgreSQL answer 23505.\<close>

definition insert_row ::
  "outside \<Rightarrow> registry \<Rightarrow> create_request \<Rightarrow> raw_json \<Rightarrow> plugin_info result \<times> registry" where
  "insert_row ou rg req config =
     (let row = \<lparr>pr_id = ou_new_id ou, pr_group = cr_group req, pr_name = cr_name req,
                 pr_version = cr_version req, pr_config = stored_config ou config,
                 pr_tags = cr_tags req, pr_created_at = ou_now ou 0\<rparr> in
      case ou_db_error ou of
        Some e \<Rightarrow> (Inl (wrap ''r.db.NoTxContext(Create): '' e), rg)
      | None \<Rightarrow>
          if row_key row \<in> row_key ` set (rg_rows rg)
          then (Inl (wrap_after err_already_exists
                  ('': '' @ show_key (cr_group req) (cr_name req) (cr_version req))), rg)
          else (Inr (row_info row), rg\<lparr>rg_rows := rg_rows rg @ [row]\<rparr>))"

text \<open>\<^term>\<open>None\<close>: the panic of a \<open>null\<close> document in \<open>configWithChecksum\<close>, which validation excludes.\<close>

definition registry_create ::
  "outside \<Rightarrow> registry \<Rightarrow> create_request \<Rightarrow> (plugin_info result \<times> registry) option" where
  "registry_create ou rg req =
     (case validate_config (cr_config req) (rg_plugins_dir rg) of
        Some e \<Rightarrow> Some (Inl (wrap ''ValidateConfig: '' e), rg)
      | None \<Rightarrow>
          if rg_storage rg then
            (case attach_archive_checksum ou (cr_group req) (cr_name req) (cr_version req) (cr_config req) of
               None \<Rightarrow> None
             | Some (Inl e) \<Rightarrow> Some (Inl (wrap ''r.attachArchiveChecksum: '' e), rg)
             | Some (Inr config) \<Rightarrow> Some (insert_row ou rg req config))
          else Some (insert_row ou rg req (cr_config req)))"

text \<open>The update statement writes the columns of the mask in the rows with the key.\<close>

definition set_columns :: "outside \<Rightarrow> update_request \<Rightarrow> raw_json \<Rightarrow> plugin_row \<Rightarrow> plugin_row" where
  "set_columns ou req config r =
     (let r1 = (if ur_update_config req then r\<lparr>pr_config := stored_config ou config\<rparr> else r)
      in if ur_update_tags req then r1\<lparr>pr_tags := ur_tags req\<rparr> else r1)"

definition update_key :: "update_request \<Rightarrow> plugin_key" where
  "update_key req = \<lparr>pk_group = ur_group req, pk_name = ur_name req, pk_version = ur_version req\<rparr>"

definition update_row ::
  "outside \<Rightarrow> registry \<Rightarrow> update_request \<Rightarrow> raw_json \<Rightarrow> plugin_info result \<times> registry" where
  "update_row ou rg req config =
     (case ou_db_error ou of
        Some e \<Rightarrow> (Inl (wrap ''r.db.NoTxContext(Update): '' e), rg)
      | None \<Rightarrow>
          (case find (\<lambda>r. row_key r = update_key req) (rg_rows rg) of
             None \<Rightarrow> (Inl (wrap_after err_not_found
                        ('': '' @ show_key (ur_group req) (ur_name req) (ur_version req))), rg)
           | Some r \<Rightarrow>
               (Inr (row_info (set_columns ou req config r)),
                rg\<lparr>rg_rows := map (\<lambda>r. if row_key r = update_key req then set_columns ou req config r else r)
                                (rg_rows rg)\<rparr>)))"

definition registry_update ::
  "outside \<Rightarrow> registry \<Rightarrow> update_request \<Rightarrow> (plugin_info result \<times> registry) option" where
  "registry_update ou rg req =
     (if \<not> ur_update_config req \<and> \<not> ur_update_tags req then
        Some (Inl (wrap_after err_invalid_config
          ('': update_mask selects no updatable field; the paths are config and tags'')), rg)
      else if ur_update_config req then
        (case validate_config (ur_config req) (rg_plugins_dir rg) of
           Some e \<Rightarrow> Some (Inl (wrap ''ValidateConfig: '' e), rg)
         | None \<Rightarrow>
             if rg_storage rg then
               (case attach_archive_checksum ou (ur_group req) (ur_name req) (ur_version req) (ur_config req) of
                  None \<Rightarrow> None
                | Some (Inl e) \<Rightarrow> Some (Inl (wrap ''r.attachArchiveChecksum: '' e), rg)
                | Some (Inr config) \<Rightarrow> Some (update_row ou rg req config))
             else Some (update_row ou rg req (ur_config req)))
      else Some (update_row ou rg req (ur_config req)))"

text \<open>
  \<open>cleanupBinary\<close>: best effort, so a failing deletion changes nothing in what follows. With storage
  configured but eviction disabled the cache is nil, which \<open>on_cache\<close> tolerates.
\<close>

definition cleanup_binary :: "registry \<Rightarrow> string \<Rightarrow> string \<Rightarrow> string \<Rightarrow> registry" where
  "cleanup_binary rg grp name version =
     (if \<not> rg_storage rg then rg
      else
        let key = archive_key grp name version;
            version_dir = path_join [rg_plugins_dir rg, grp, name, version]
        in rg\<lparr>rg_deleted := rg_deleted rg @ [key],
              rg_fs := remove_all (rg_fs rg) (path_comps version_dir),
              rg_cache := on_cache (forget version_dir) (rg_cache rg)\<rparr>)"

definition registry_delete ::
  "outside \<Rightarrow> registry \<Rightarrow> string \<Rightarrow> string \<Rightarrow> string \<Rightarrow> go_error option \<times> registry" where
  "registry_delete ou rg grp name version =
     (case ou_db_error ou of
        Some e \<Rightarrow> (Some (wrap ''db.NoTxContext: r.db.NoTxContext(Delete): '' e), rg)
      | None \<Rightarrow>
          (let kept = filter (\<lambda>r. row_key r \<noteq> \<lparr>pk_group = grp, pk_name = name, pk_version = version\<rparr>) (rg_rows rg)
           in if length kept = length (rg_rows rg)
              then (Some (wrap ''db.NoTxContext: '' (wrap_after err_not_found ('': '' @ show_key grp name version))), rg)
              else (None, cleanup_binary (rg\<lparr>rg_rows := kept\<rparr>) grp name version)))"

subsection \<open>The table's invariant\<close>

definition rows_unique :: "plugin_row list \<Rightarrow> bool" where
  "rows_unique rows \<longleftrightarrow> distinct (map row_key rows)"

definition lookup_row :: "registry \<Rightarrow> plugin_key \<Rightarrow> plugin_row option" where
  "lookup_row rg k = find (\<lambda>r. row_key r = k) (rg_rows rg)"

lemma set_columns_key [simp]: "row_key (set_columns ou req c r) = row_key r"
  by (simp add: set_columns_def row_key_def Let_def)

lemma update_rows_keys:
  "map row_key (map (\<lambda>r. if row_key r = k then set_columns ou req c r else r) rows) = map row_key rows"
  by simp

lemma cleanup_rows [simp]: "rg_rows (cleanup_binary rg g n v) = rg_rows rg"
  by (simp add: cleanup_binary_def Let_def)

lemma find_append: "find P (xs @ ys) = (case find P xs of None \<Rightarrow> find P ys | Some x \<Rightarrow> Some x)"
  by (induction xs) auto

lemma find_filter_key:
  "find (\<lambda>r. row_key r = k) (filter (\<lambda>r. row_key r \<noteq> j) rows) =
     (if k = j then None else find (\<lambda>r. row_key r = k) rows)"
  by (induction rows) auto

lemma find_map_columns:
  "find (\<lambda>r. row_key r = k) (map (\<lambda>r. if row_key r = j then set_columns ou req c r else r) rows) =
     map_option (\<lambda>r. if row_key r = j then set_columns ou req c r else r) (find (\<lambda>r. row_key r = k) rows)"
  by (induction rows) auto

text \<open>
  C10. Creating a plugin either fails and changes nothing, or adds exactly one row under a key that
  was free, with the tags of the request; the table keeps one row per key.
\<close>

theorem create_effect:
  assumes "registry_create ou rg req = Some (res, rg')" "rows_unique (rg_rows rg)"
  shows "rows_unique (rg_rows rg') \<and>
    (case res of
       Inl e \<Rightarrow> rg' = rg
     | Inr info \<Rightarrow>
         (\<exists>row. rg' = rg\<lparr>rg_rows := rg_rows rg @ [row]\<rparr> \<and> lookup_row rg (row_key row) = None \<and>
            (\<forall>k. lookup_row rg' k = (if k = row_key row then Some row else lookup_row rg k)) \<and>
            info = row_info row \<and> pr_tags row = cr_tags req \<and>
            row_key row = \<lparr>pk_group = cr_group req, pk_name = cr_name req, pk_version = cr_version req\<rparr>))"
proof -
  have ins: "rows_unique (rg_rows (snd (insert_row ou rg req c))) \<and>
    (case fst (insert_row ou rg req c) of
       Inl e \<Rightarrow> snd (insert_row ou rg req c) = rg
     | Inr info \<Rightarrow>
         (\<exists>row. snd (insert_row ou rg req c) = rg\<lparr>rg_rows := rg_rows rg @ [row]\<rparr> \<and> lookup_row rg (row_key row) = None \<and>
            (\<forall>k. lookup_row (snd (insert_row ou rg req c)) k =
               (if k = row_key row then Some row else lookup_row rg k)) \<and>
            info = row_info row \<and> pr_tags row = cr_tags req \<and>
            row_key row = \<lparr>pk_group = cr_group req, pk_name = cr_name req, pk_version = cr_version req\<rparr>))" for c
  proof -
    define row where "row = \<lparr>pr_id = ou_new_id ou, pr_group = cr_group req, pr_name = cr_name req,
       pr_version = cr_version req, pr_config = stored_config ou c,
       pr_tags = cr_tags req, pr_created_at = ou_now ou 0\<rparr>"
    show ?thesis
    proof (cases "ou_db_error ou = None \<and> row_key row \<notin> row_key ` set (rg_rows rg)")
      case False
      then show ?thesis using assms(2)
        by (auto simp: insert_row_def row_def Let_def split: option.splits)
    next
      case True
      then have i: "insert_row ou rg req c = (Inr (row_info row), rg\<lparr>rg_rows := rg_rows rg @ [row]\<rparr>)"
        by (simp add: insert_row_def row_def [symmetric] Let_def)
      have free: "lookup_row rg (row_key row) = None"
      proof -
        have "row_key r \<noteq> row_key row" if "r \<in> set (rg_rows rg)" for r
          using True that by (metis image_eqI)
        then show ?thesis by (simp add: lookup_row_def find_None_iff)
      qed
      have "lookup_row (rg\<lparr>rg_rows := rg_rows rg @ [row]\<rparr>) k =
          (if k = row_key row then Some row else lookup_row rg k)" for k
        using free by (auto simp: lookup_row_def find_append split: option.splits)
      moreover have "row_key row = \<lparr>pk_group = cr_group req, pk_name = cr_name req, pk_version = cr_version req\<rparr>"
        "pr_tags row = cr_tags req" by (simp_all add: row_def row_key_def)
      moreover have "rows_unique (rg_rows rg @ [row])" using True assms(2) by (auto simp: rows_unique_def)
      ultimately show ?thesis unfolding i using free by auto
    qed
  qed
  consider e where "res = Inl e" "rg' = rg" | c where "insert_row ou rg req c = (res, rg')"
    using assms(1) by (auto simp: registry_create_def split: option.splits sum.splits if_splits)
  then show ?thesis
  proof cases
    case 1
    then show ?thesis using assms(2) by simp
  next
    case (2 c)
    show ?thesis using ins [of c] unfolding 2 fst_conv snd_conv .
  qed
qed

text \<open>
  C11. An update touches exactly the columns its mask selects, in exactly the row with its key: an
  error leaves everything as it was, and after success every other row is the same and the row
  keeps its key, its id, its creation time and every column the mask leaves out.
\<close>

theorem update_effect:
  assumes "registry_update ou rg req = Some (res, rg')"
  shows "(case res of
       Inl e \<Rightarrow> rg' = rg
     | Inr info \<Rightarrow>
         (\<exists>r c. lookup_row rg (update_key req) = Some r \<and> rg' = rg\<lparr>rg_rows := rg_rows rg'\<rparr> \<and>
            map row_key (rg_rows rg') = map row_key (rg_rows rg) \<and>
            info = row_info (set_columns ou req c r) \<and>
            (\<forall>k. lookup_row rg' k =
               (if k = update_key req then Some (set_columns ou req c r) else lookup_row rg k)) \<and>
            pr_id (set_columns ou req c r) = pr_id r \<and>
            pr_created_at (set_columns ou req c r) = pr_created_at r \<and>
            pr_tags (set_columns ou req c r) = (if ur_update_tags req then ur_tags req else pr_tags r) \<and>
            (\<not> ur_update_config req \<longrightarrow> pr_config (set_columns ou req c r) = pr_config r)))"
proof -
  have up: "case fst (update_row ou rg req c) of
       Inl e \<Rightarrow> snd (update_row ou rg req c) = rg
     | Inr info \<Rightarrow>
         (\<exists>r. lookup_row rg (update_key req) = Some r \<and> info = row_info (set_columns ou req c r) \<and>
            snd (update_row ou rg req c) =
              rg\<lparr>rg_rows := map (\<lambda>r. if row_key r = update_key req then set_columns ou req c r else r) (rg_rows rg)\<rparr>)"
    for c by (auto simp: update_row_def lookup_row_def split: option.splits)
  consider e where "res = Inl e" "rg' = rg" | c where "update_row ou rg req c = (res, rg')"
    using assms by (auto simp: registry_update_def split: option.splits sum.splits if_splits)
  then show ?thesis
  proof cases
    case 1
    then show ?thesis by simp
  next
    case (2 c)
    show ?thesis
    proof (cases res)
      case (Inl e)
      then show ?thesis using up [of c] 2 by simp
    next
      case (Inr info)
      then obtain r where r: "lookup_row rg (update_key req) = Some r" "info = row_info (set_columns ou req c r)"
        "rg' = rg\<lparr>rg_rows := map (\<lambda>r. if row_key r = update_key req then set_columns ou req c r else r) (rg_rows rg)\<rparr>"
        using up [of c] 2 by auto
      have k: "row_key r = update_key req"
        using r(1) by (auto simp: lookup_row_def find_Some_iff)
      have "lookup_row rg' j = (if j = update_key req then Some (set_columns ou req c r) else lookup_row rg j)" for j
      proof (cases "lookup_row rg j")
        case None
        then show ?thesis using r by (auto simp: lookup_row_def find_map_columns)
      next
        case (Some q)
        then have "row_key q = j" by (auto simp: lookup_row_def find_Some_iff)
        then show ?thesis using Some r k by (auto simp: lookup_row_def find_map_columns)
      qed
      moreover have "map row_key (rg_rows rg') = map row_key (rg_rows rg)" using r(3) by simp
      moreover have "rg' = rg\<lparr>rg_rows := rg_rows rg'\<rparr>" using r(3) by simp
      ultimately show ?thesis using Inr r(1,2)
        by (auto intro!: exI [of _ r] exI [of _ c] simp: set_columns_def Let_def)
    qed
  qed
qed

text \<open>
  Deleting a plugin removes its row and no other; without object storage nothing else changes,
  and with it the archive's key is handed to the storage and the unpacked files are forgotten. A
  key without a row is reported as not found.
\<close>

theorem delete_effect:
  assumes "registry_delete ou rg grp name version = (e, rg')"
  shows "(e = None \<longleftrightarrow> ou_db_error ou = None \<and>
            lookup_row rg \<lparr>pk_group = grp, pk_name = name, pk_version = version\<rparr> \<noteq> None) \<and>
    (e \<noteq> None \<longrightarrow> rg' = rg) \<and>
    (ou_db_error ou = None \<longrightarrow> e \<noteq> None \<longrightarrow> errors_is (the e) ErrNotFound) \<and>
    (e = None \<longrightarrow>
       (\<forall>k. lookup_row rg' k =
          (if k = \<lparr>pk_group = grp, pk_name = name, pk_version = version\<rparr> then None else lookup_row rg k)) \<and>
       rg_deleted rg' = rg_deleted rg @ (if rg_storage rg then [archive_key grp name version] else []) \<and>
       (\<not> rg_storage rg \<longrightarrow> rg_fs rg' = rg_fs rg \<and> rg_cache rg' = rg_cache rg))"
proof -
  let ?k = "\<lparr>pk_group = grp, pk_name = name, pk_version = version\<rparr>"
  let ?kept = "filter (\<lambda>r. row_key r \<noteq> ?k) (rg_rows rg)"
  have len: "length ?kept = length (rg_rows rg) \<longleftrightarrow> lookup_row rg ?k = None"
    unfolding lookup_row_def find_None_iff
    by (metis (mono_tags, lifting) filter_True length_filter_less less_irrefl)
  have nf: "errors_is (wrap p (wrap_after err_not_found q)) ErrNotFound" for p q
    by (simp add: err_not_found_def)
  have lk: "lookup_row (cleanup_binary (rg\<lparr>rg_rows := ?kept\<rparr>) grp name version) k =
      (if k = ?k then None else lookup_row rg k)" for k
    by (simp add: lookup_row_def find_filter_key)
  show ?thesis
  proof (cases "ou_db_error ou = None \<and> lookup_row rg ?k \<noteq> None")
    case True
    then have "length ?kept \<noteq> length (rg_rows rg)" unfolding len by simp
    then have "e = None" "rg' = cleanup_binary (rg\<lparr>rg_rows := ?kept\<rparr>) grp name version"
      using assms True by (simp_all add: registry_delete_def Let_def split: if_splits)
    then show ?thesis using True lk by (simp add: cleanup_binary_def Let_def)
  next
    case False
    then have "e \<noteq> None" "rg' = rg" "ou_db_error ou = None \<longrightarrow> errors_is (the e) ErrNotFound"
      using assms len nf by (auto simp: registry_delete_def Let_def split: option.splits)
    then show ?thesis using False by auto
  qed
qed

subsection \<open>Concrete runs\<close>

definition write_outside :: outside where
  "write_outside = \<lparr>ou_db_error = None, ou_open = (\<lambda>_. Inr (Inr ''bytes'')), ou_exists = (\<lambda>_. Inr True),
     ou_download = (\<lambda>_. Inr ''bytes''), ou_sha256 = (\<lambda>b. ''sum:'' @ b), ou_untar = (\<lambda>_. Inl (plain_error ''gzip'')),
     ou_renumber = Some, ou_jsonb = (\<lambda>j. j), ou_archive_tmp = ''a.tgz'', ou_unpack_tmp = ''/plugins/x.tmp'',
     ou_disk = (\<lambda>_ _. None), ou_now = int, ou_new_id = 7\<rparr>"

definition write_registry :: registry where
  "write_registry = \<lparr>rg_rows = [\<lparr>pr_id = 1, pr_group = ''g'', pr_name = ''n'', pr_version = ''v1.0'',
       pr_config = RawEmpty, pr_tags = [''t''], pr_created_at = 0\<rparr>],
     rg_plugins_dir = ''/plugins'', rg_tmp_dir = ''/plugins/.tmp'', rg_max_output = 100, rg_storage = True,
     rg_cache = None, rg_fs = Map.empty, rg_deleted = []\<rparr>"

definition good_config :: raw_json where
  "good_config = RawDoc (JObj [(''command'', JArr [JStr ''/plugins/p''])])"

lemma good_config_valid: "validate_config good_config ''/plugins'' = None"
  by (simp add: good_config_def validate_config_def unmarshal_config_def decode_member_def field_of_def zero_config_def
      decode_string_def clean_def join_slash_def is_abs_def has_prefix_def dotdot_def)

theorem create_effect_witness:
  "\<exists>info rg'. registry_create write_outside write_registry
       \<lparr>cr_group = ''g'', cr_name = ''n'', cr_version = ''v2.0'', cr_config = good_config, cr_tags = [''u'']\<rparr> = Some (Inr info, rg') \<and>
     rows_unique (rg_rows rg') \<and> length (rg_rows rg') = 2"
proof -
  let ?req = "\<lparr>cr_group = ''g'', cr_name = ''n'', cr_version = ''v2.0'', cr_config = good_config, cr_tags = [''u'']\<rparr>"
  have "\<exists>info rg'. registry_create write_outside write_registry ?req = Some (Inr info, rg')"
    using good_config_valid
    by (simp add: registry_create_def attach_archive_checksum_def write_outside_def write_registry_def
        config_with_checksum_def good_config_def insert_row_def row_key_def Let_def)
  then obtain info rg' where c: "registry_create write_outside write_registry ?req = Some (Inr info, rg')" by blast
  have u: "rows_unique (rg_rows write_registry)" by (simp add: rows_unique_def write_registry_def)
  show ?thesis using create_effect [OF c u] c by (auto simp: write_registry_def)
qed

theorem update_effect_witness:
  "\<exists>info rg'. registry_update write_outside write_registry
       \<lparr>ur_group = ''g'', ur_name = ''n'', ur_version = ''v1.0'', ur_config = RawEmpty, ur_tags = [''z''],
        ur_update_config = False, ur_update_tags = True\<rparr> = Some (Inr info, rg') \<and>
     map row_key (rg_rows rg') = map row_key (rg_rows write_registry) \<and> rg' = write_registry\<lparr>rg_rows := rg_rows rg'\<rparr>"
proof -
  let ?req = "\<lparr>ur_group = ''g'', ur_name = ''n'', ur_version = ''v1.0'', ur_config = RawEmpty, ur_tags = [''z''],
        ur_update_config = False, ur_update_tags = True\<rparr>"
  have "\<exists>info rg'. registry_update write_outside write_registry ?req = Some (Inr info, rg')"
    by (simp add: registry_update_def update_row_def write_outside_def write_registry_def row_key_def update_key_def)
  then obtain info rg' where c: "registry_update write_outside write_registry ?req = Some (Inr info, rg')" by blast
  show ?thesis using update_effect [OF c] c by auto
qed

theorem delete_effect_witness:
  "\<exists>rg'. registry_delete write_outside write_registry ''g'' ''n'' ''v1.0'' = (None, rg') \<and>
     lookup_row rg' \<lparr>pk_group = ''g'', pk_name = ''n'', pk_version = ''v1.0''\<rparr> = None \<and>
     rg_deleted rg' = [archive_key ''g'' ''n'' ''v1.0'']"
proof -
  obtain e rg' where d: "registry_delete write_outside write_registry ''g'' ''n'' ''v1.0'' = (e, rg')" by fastforce
  have "e = None"
    using delete_effect [OF d] by (simp add: write_outside_def write_registry_def lookup_row_def row_key_def)
  then show ?thesis using delete_effect [OF d] d by (simp add: write_registry_def)
qed

end
