(* ===== verification/PluginRun.thy ===== *)
theory PluginRun
  imports Registry
begin

text \<open>
  Running a plugin (\<open>plugin.Generate\<close> and \<open>readPipes\<close> of
  \<^verbatim>\<open>internal/adapters/registry/registry.go\<close>). The child process is what the code sees of it: whether it
  starts, what its pipes deliver, how it ends, and the state of the context afterwards. The
  protobuf codec and the duration parser are parameters. The lemmas show that a response is only ever
  decoded from the complete output of a child that ended well, within the limit.
\<close>

record pipe =
  pi_data :: string                   \<comment> \<open>everything the child writes\<close>
  pi_error :: "go_error option"       \<comment> \<open>what reading ends with instead of EOF\<close>

datatype wait_outcome = WaitOk | WaitExit go_error | WaitOther go_error

record child =
  ch_stdout_pipe :: "go_error option"
  ch_stderr_pipe :: "go_error option"
  ch_start :: "go_error option"
  ch_stdout :: pipe
  ch_stderr :: pipe
  ch_wait :: wait_outcome
  ch_ctx :: "go_error option"

text \<open>What is handed to \<open>exec.CommandContext\<close>; the environment in some order of the map.\<close>

record command =
  cm_path :: string
  cm_args :: "string list"
  cm_env :: "string list"
  cm_stdin :: string

record 'resp codec =
  cd_marshal :: "string result"       \<comment> \<open>the marshalled request\<close>
  cd_unmarshal :: "string \<Rightarrow> 'resp result"
  cd_duration :: "string \<Rightarrow> int result"

text \<open>\<open>io.ReadAll(io.LimitReader(r, n))\<close>: past the limit the rest, and an error in it, is not seen.\<close>

definition read_limited :: "int \<Rightarrow> pipe \<Rightarrow> string result" where
  "read_limited n p =
     (if n \<le> 0 then Inr []
      else if int (length (pi_data p)) \<ge> n then Inr (take (nat n) (pi_data p))
      else case pi_error p of Some e \<Rightarrow> Inl e | None \<Rightarrow> Inr (pi_data p))"

definition read_pipes :: "pipe \<Rightarrow> pipe \<Rightarrow> int \<Rightarrow> (string \<times> string) result" where
  "read_pipes out err max_stdout =
     (case read_limited (max_stdout + 1) out of
        Inl e \<Rightarrow> Inl (wrap ''failed to read plugin stdout: '' e)
      | Inr stdout_data \<Rightarrow>
          (case read_limited (int std_err_limit) err of
             Inl e \<Rightarrow> Inl (wrap ''failed to read plugin stderr: '' e)
           | Inr stderr_data \<Rightarrow> Inr (stdout_data, stderr_data)))"

definition command_of :: "plugin_config \<Rightarrow> string \<Rightarrow> command" where
  "command_of cfg stdin =
     \<lparr>cm_path = hd (pc_command cfg), cm_args = tl (pc_command cfg),
      cm_env = map (\<lambda>(k, v). k @ ''='' @ v) (pc_env cfg), cm_stdin = stdin\<rparr>"

text \<open>The result and, if the plugin was started, the command that ran.\<close>

definition plugin_generate :: "plugin \<Rightarrow> 'resp codec \<Rightarrow> child \<Rightarrow> 'resp result \<times> command option" where
  "plugin_generate p cd ch =
     (case cd_marshal cd of
        Inl e \<Rightarrow> (Inl (wrap_both err_generation_failed '': proto.Marshal: '' e []), None)
      | Inr request_data \<Rightarrow>
      (if pc_command (pl_config p) = []
       then (Inl (wrap_after err_invalid_plugin_name '': plugin configuration has no command specified''), None)
       else
      (case (if pc_timeout (pl_config p) = [] then Inr 0 else cd_duration cd (pc_timeout (pl_config p))) of
        Inl e \<Rightarrow> (Inl (wrap_both err_generation_failed
                    ('': invalid plugin timeout '' @ pc_timeout (pl_config p) @ '': '') e []), None)
      | Inr _ \<Rightarrow>
      (case ch_stdout_pipe ch of
        Some e \<Rightarrow> (Inl (wrap_both err_generation_failed '': cmd.StdoutPipe: '' e []), None)
      | None \<Rightarrow>
      (case ch_stderr_pipe ch of
        Some e \<Rightarrow> (Inl (wrap_both err_generation_failed '': cmd.StderrPipe: '' e []), None)
      | None \<Rightarrow>
      (case ch_start ch of
        Some e \<Rightarrow>
          (if errors_is e ExecErrNotFound
           then (Inl (wrap_both err_not_found '': plugin binary not found: '' e []), None)
           else if errors_is e OsErrPermission
           then (Inl (wrap_both err_generation_failed '': permission denied to execute plugin: '' e []), None)
           else (Inl (wrap_both err_generation_failed '': cmd.Start: '' e []), None))
      | None \<Rightarrow>
      (let cmd = Some (command_of (pl_config p) request_data) in
       case read_pipes (ch_stdout ch) (ch_stderr ch) (pl_max_output_size p) of
        Inl e \<Rightarrow> (Inl e, cmd)
      | Inr (stdout_data, stderr_data) \<Rightarrow>
      (case ch_ctx ch of
        Some e \<Rightarrow> (Inl (wrap_both err_generation_failed '': context error: '' e []), cmd)
      | None \<Rightarrow>
      (if int (length stdout_data) > pl_max_output_size p
       then (Inl (wrap_after err_generation_failed
               ('': plugin execution failed: output limit exceeded (max '' @ int_text (pl_max_output_size p) @ '' bytes)'')), cmd)
       else
      (case ch_wait ch of
        WaitExit e \<Rightarrow>
          (Inl (wrap_both err_generation_failed '': plugin execution failed: '' e ('', stderr: '' @ stderr_data)), cmd)
      | WaitOther e \<Rightarrow>
          (if has_infix (msg e) ''not found'' \<or> has_infix (msg e) ''no such file''
           then (Inl (wrap_both err_not_found '': plugin binary not found: '' e []), cmd)
           else if has_infix (msg e) ''permission denied''
           then (Inl (wrap_both err_generation_failed '': permission denied to execute plugin: '' e []), cmd)
           else (Inl (wrap_both err_generation_failed '': plugin execution failed: '' e ('', stderr: '' @ stderr_data)), cmd))
      | WaitOk \<Rightarrow>
      (case cd_unmarshal cd stdout_data of
        Inl e \<Rightarrow> (Inl (wrap_both err_generation_failed '': proto.Unmarshal: '' e []), cmd)
      | Inr response \<Rightarrow> (Inr response, cmd))))))))))))"

subsection \<open>What a response stands for\<close>

lemma read_limited_complete:
  "read_limited (n + 1) p = Inr d \<Longrightarrow> int (length d) \<le> n \<Longrightarrow> 0 \<le> n \<Longrightarrow> d = pi_data p \<and> pi_error p = None"
  by (auto simp: read_limited_def split: if_splits option.splits)

text \<open>
  A response is the decoding of everything the child wrote, which fits the limit, and the child
  was the configured command, read without an error, ended well, and within its context; nothing is
  ever decoded from a truncated output.
\<close>

theorem response_complete:
  assumes "plugin_generate p cd ch = (Inr response, cmd)" "0 \<le> pl_max_output_size p"
  shows "cd_unmarshal cd (pi_data (ch_stdout ch)) = Inr response \<and>
    int (length (pi_data (ch_stdout ch))) \<le> pl_max_output_size p \<and> pi_error (ch_stdout ch) = None \<and>
    ch_wait ch = WaitOk \<and> ch_ctx ch = None \<and>
    (\<exists>c0 args input. pc_command (pl_config p) = c0 # args \<and> cd_marshal cd = Inr input \<and>
       cmd = Some \<lparr>cm_path = c0, cm_args = args, cm_env = map (\<lambda>(k, v). k @ ''='' @ v) (pc_env (pl_config p)),
                   cm_stdin = input\<rparr>)"
proof -
  obtain input where i: "cd_marshal cd = Inr input" and ne: "pc_command (pl_config p) \<noteq> []"
    and s: "ch_stdout_pipe ch = None" "ch_stderr_pipe ch = None" "ch_start ch = None"
    using assms(1) by (simp add: plugin_generate_def split: sum.splits if_splits option.splits)
  obtain d where t: "(if pc_timeout (pl_config p) = [] then Inr 0 else cd_duration cd (pc_timeout (pl_config p))) = (Inr d :: int result)"
    using assms(1) i ne by (simp add: plugin_generate_def split: sum.splits)
  obtain out err where r: "read_pipes (ch_stdout ch) (ch_stderr ch) (pl_max_output_size p) = Inr (out, err)"
    using assms(1) i ne s t by (auto simp: plugin_generate_def Let_def split: sum.splits prod.splits)
  have m: "ch_ctx ch = None" "int (length out) \<le> pl_max_output_size p" "ch_wait ch = WaitOk"
    "cd_unmarshal cd out = Inr response" "cmd = Some (command_of (pl_config p) input)"
    using assms(1) i ne s t r
    by (auto simp: plugin_generate_def Let_def split: option.splits if_splits wait_outcome.splits sum.splits)
  have "read_limited (pl_max_output_size p + 1) (ch_stdout ch) = Inr out"
    using r by (auto simp: read_pipes_def split: sum.splits)
  then have "out = pi_data (ch_stdout ch) \<and> pi_error (ch_stdout ch) = None"
    using read_limited_complete m(2) assms(2) by blast
  then show ?thesis using m i ne by (cases "pc_command (pl_config p)") (auto simp: command_of_def)
qed

text \<open>
  Every failure of a run is one the caller can classify: a configuration without a command, a
  missing binary, or a failed generation, unless reading a pipe itself failed.
\<close>

theorem run_failures_classified:
  assumes "plugin_generate p cd ch = (Inl e, cmd)"
    and "\<exists>d. read_pipes (ch_stdout ch) (ch_stderr ch) (pl_max_output_size p) = Inr d"
  shows "errors_is e ErrGenerationFailed \<or> errors_is e ErrNotFound \<or> errors_is e ErrInvalidPluginName"
proof -
  have g: "errors_is (wrap_both err_generation_failed a x b) ErrGenerationFailed"
    "errors_is (wrap_after err_generation_failed a) ErrGenerationFailed"
    "errors_is (wrap_both err_not_found a x b) ErrNotFound"
    "errors_is (wrap_after err_invalid_plugin_name a) ErrInvalidPluginName" for a b x
    by (simp_all add: err_generation_failed_def err_not_found_def err_invalid_plugin_name_def)
  show ?thesis
    using assms g unfolding plugin_generate_def Let_def
    by (simp split: sum.splits if_splits option.splits prod.splits wait_outcome.splits) (metis g)+
qed

subsection \<open>Concrete runs\<close>

definition sample_plugin :: plugin where
  "sample_plugin = \<lparr>pl_row = \<lparr>pr_id = 1, pr_group = ''g'', pr_name = ''n'', pr_version = ''v1.0'', pr_config = RawEmpty,
       pr_tags = [], pr_created_at = 0\<rparr>, pl_max_output_size = 4,
     pl_config = \<lparr>pc_command = [''/plugins/p'', ''-v''], pc_env = [(''A'', ''1'')], pc_timeout = [], pc_sha256 = []\<rparr>\<rparr>"

definition sample_codec :: "string codec" where
  "sample_codec = \<lparr>cd_marshal = Inr ''req'', cd_unmarshal = Inr, cd_duration = (\<lambda>_. Inr 0)\<rparr>"

definition sample_child :: "string \<Rightarrow> child" where
  "sample_child out = \<lparr>ch_stdout_pipe = None, ch_stderr_pipe = None, ch_start = None,
     ch_stdout = \<lparr>pi_data = out, pi_error = None\<rparr>, ch_stderr = \<lparr>pi_data = [], pi_error = None\<rparr>,
     ch_wait = WaitOk, ch_ctx = None\<rparr>"

lemmas run_sample_defs = sample_plugin_def sample_codec_def sample_child_def plugin_generate_def read_pipes_def
  read_limited_def std_err_limit_def

theorem response_complete_witness:
  "\<exists>cmd. plugin_generate sample_plugin sample_codec (sample_child ''code'') = (Inr ''code'', Some cmd) \<and>
     cm_env cmd = [''A=1''] \<and> cm_stdin cmd = ''req''"
proof -
  obtain cmd where g: "plugin_generate sample_plugin sample_codec (sample_child ''code'') = (Inr ''code'', cmd)"
    by (simp add: run_sample_defs Let_def)
  show ?thesis using response_complete [OF g] g by (auto simp: sample_plugin_def sample_codec_def)
qed

theorem run_failures_classified_witness:
  "\<exists>e cmd. plugin_generate sample_plugin sample_codec (sample_child ''codes'') = (Inl e, cmd) \<and>
     (errors_is e ErrGenerationFailed \<or> errors_is e ErrNotFound \<or> errors_is e ErrInvalidPluginName)"
proof -
  obtain e cmd where g: "plugin_generate sample_plugin sample_codec (sample_child ''codes'') = (Inl e, cmd)"
    by (simp add: run_sample_defs Let_def)
  have "\<exists>d. read_pipes (ch_stdout (sample_child ''codes'')) (ch_stderr (sample_child ''codes'')) (pl_max_output_size sample_plugin) = Inr d"
    by (simp add: run_sample_defs)
  then show ?thesis using run_failures_classified [OF g] g by blast
qed

end
