(* ===== verification/Pool.thy ===== *)
theory Pool
  imports Domain
begin

text \<open>
  The worker pool (\<^verbatim>\<open>internal/core/pool.go\<close>). Sequential parts are functions: the normalised
  configuration, the retries of a generation, the classification of its error. The concurrent
  parts are step relations over the requests in flight: \<open>gen_step\<close> for the limiter of running
  generations (the weighted semaphore of \<^verbatim>\<open>golang.org/x/sync\<close> grants a slot only while one is
  free, and may refuse \<open>TryAcquire\<close> at any time), \<open>pool_step\<close> for the job channel, the
  workers and \<open>Shutdown\<close>. Every atomic operation of the code is one step.

  The lemmas show that no more generations run than configured and no more wait than the queue
  holds, that an accepted job is answered exactly once and never lost while workers run, and
  that a \<open>Get\<close> racing with \<open>Shutdown\<close> can reach the send on the closed channel.
\<close>

subsection \<open>Configuration\<close>

definition default_generation_timeout :: int where "default_generation_timeout = 120 * 1000000000"
definition default_shutdown_timeout :: int where "default_shutdown_timeout = 30 * 1000000000"
definition default_max_concurrent_generations :: int where "default_max_concurrent_generations = 16"

record pool_config =
  wp_workers :: int
  wp_queue_size :: int
  wp_max_concurrent :: int
  wp_generation_timeout :: int
  wp_max_retries :: int
  wp_shutdown_timeout :: int

definition new_worker_pool :: "pool_config \<Rightarrow> pool_config" where
  "new_worker_pool cfg =
     (let c1 = (if wp_workers cfg < 1 then cfg\<lparr>wp_workers := 1\<rparr> else cfg);
          c2 = (if wp_queue_size c1 < 0 then c1\<lparr>wp_queue_size := 0\<rparr> else c1);
          c3 = (if wp_generation_timeout c2 \<le> 0
                then c2\<lparr>wp_generation_timeout := default_generation_timeout\<rparr> else c2);
          c4 = (if wp_shutdown_timeout c3 \<le> 0
                then c3\<lparr>wp_shutdown_timeout := default_shutdown_timeout\<rparr> else c3)
      in if wp_max_concurrent c4 < 1
         then c4\<lparr>wp_max_concurrent := default_max_concurrent_generations\<rparr> else c4)"

subsection \<open>The limiter of running generations\<close>

text \<open>Where a request is in \<open>acquire\<close> and after it.\<close>

datatype gen_phase =
    GIdle          \<comment> \<open>before \<open>TryAcquire\<close>\<close>
  | GTried         \<comment> \<open>\<open>TryAcquire\<close> failed\<close>
  | GBacking       \<comment> \<open>counted as waiting beyond the queue, about to be uncounted\<close>
  | GWaiting       \<comment> \<open>blocked in \<open>slots.Acquire\<close>\<close>
  | GGranted       \<comment> \<open>\<open>Acquire\<close> returned, still counted as waiting\<close>
  | GGaveUp        \<comment> \<open>\<open>Acquire\<close> returned an error, still counted as waiting\<close>
  | GRunning       \<comment> \<open>holds a slot\<close>
  | GOverloaded    \<comment> \<open>\<open>ErrServerOverloaded\<close>\<close>
  | GCancelled     \<comment> \<open>"waiting for a generation slot: ..."\<close>
  | GDone

record gen_limiter =
  gl_slots :: nat                \<comment> \<open>capacity of the semaphore\<close>
  gl_queue :: int
  gl_waiting :: int              \<comment> \<open>the atomic counter\<close>
  gl_active :: int               \<comment> \<open>the gauge\<close>
  gl_rejected :: nat
  gl_phases :: "gen_phase list"  \<comment> \<open>one request each\<close>

definition count_phase :: "gen_phase list \<Rightarrow> gen_phase \<Rightarrow> nat" where
  "count_phase ps p = length (filter (\<lambda>q. q = p) ps)"

definition slots_held :: "gen_limiter \<Rightarrow> nat" where
  "slots_held g = count_phase (gl_phases g) GRunning + count_phase (gl_phases g) GGranted"

definition new_gen_limiter :: "pool_config \<Rightarrow> nat \<Rightarrow> gen_limiter" where
  "new_gen_limiter cfg requests =
     \<lparr>gl_slots = nat (wp_max_concurrent cfg), gl_queue = wp_queue_size cfg, gl_waiting = 0, gl_active = 0,
      gl_rejected = 0, gl_phases = replicate requests GIdle\<rparr>"

definition goto :: "gen_limiter \<Rightarrow> nat \<Rightarrow> gen_phase \<Rightarrow> gen_limiter" where
  "goto g i p = g\<lparr>gl_phases := (gl_phases g)[i := p]\<rparr>"

inductive gen_step :: "gen_limiter \<Rightarrow> gen_limiter \<Rightarrow> bool" where
  try_ok: "i < length (gl_phases g) \<Longrightarrow> gl_phases g ! i = GIdle \<Longrightarrow> slots_held g < gl_slots g \<Longrightarrow>
    gen_step g ((goto g i GRunning)\<lparr>gl_active := gl_active g + 1\<rparr>)"
| try_fails: "i < length (gl_phases g) \<Longrightarrow> gl_phases g ! i = GIdle \<Longrightarrow>
    gen_step g (goto g i GTried)"
| queue_up: "i < length (gl_phases g) \<Longrightarrow> gl_phases g ! i = GTried \<Longrightarrow> gl_waiting g + 1 \<le> gl_queue g \<Longrightarrow>
    gen_step g ((goto g i GWaiting)\<lparr>gl_waiting := gl_waiting g + 1\<rparr>)"
| queue_full: "i < length (gl_phases g) \<Longrightarrow> gl_phases g ! i = GTried \<Longrightarrow> gl_waiting g + 1 > gl_queue g \<Longrightarrow>
    gen_step g ((goto g i GBacking)\<lparr>gl_waiting := gl_waiting g + 1\<rparr>)"
| back_off: "i < length (gl_phases g) \<Longrightarrow> gl_phases g ! i = GBacking \<Longrightarrow>
    gen_step g ((goto g i GOverloaded)\<lparr>gl_waiting := gl_waiting g - 1, gl_rejected := gl_rejected g + 1\<rparr>)"
| grant: "i < length (gl_phases g) \<Longrightarrow> gl_phases g ! i = GWaiting \<Longrightarrow> slots_held g < gl_slots g \<Longrightarrow>
    gen_step g (goto g i GGranted)"
| give_up: "i < length (gl_phases g) \<Longrightarrow> gl_phases g ! i = GWaiting \<Longrightarrow> gen_step g (goto g i GGaveUp)"
| leave_queue: "i < length (gl_phases g) \<Longrightarrow> gl_phases g ! i = GGranted \<Longrightarrow>
    gen_step g ((goto g i GRunning)\<lparr>gl_waiting := gl_waiting g - 1, gl_active := gl_active g + 1\<rparr>)"
| leave_failed: "i < length (gl_phases g) \<Longrightarrow> gl_phases g ! i = GGaveUp \<Longrightarrow>
    gen_step g ((goto g i GCancelled)\<lparr>gl_waiting := gl_waiting g - 1\<rparr>)"
| release: "i < length (gl_phases g) \<Longrightarrow> gl_phases g ! i = GRunning \<Longrightarrow>
    gen_step g ((goto g i GDone)\<lparr>gl_active := gl_active g - 1\<rparr>)"

inductive gen_reach :: "gen_limiter \<Rightarrow> gen_limiter \<Rightarrow> bool" for g0 where
  gen_start: "gen_reach g0 g0"
| gen_next: "gen_reach g0 g \<Longrightarrow> gen_step g g' \<Longrightarrow> gen_reach g0 g'"

subsection \<open>Retries\<close>

definition is_transient :: "go_error \<Rightarrow> bool" where
  "is_transient e =
     (if errors_is e DeadlineExceeded then False
      else let m = map to_lower (msg e) in
        has_infix m ''connection refused'' \<or> has_infix m ''temporary failure'')"

record 'resp gen_result =
  gr_resp :: "'resp option"
  gr_err :: "go_error option"
  gr_calls :: nat          \<comment> \<open>runs of the plugin\<close>
  gr_retries :: nat        \<comment> \<open>retries counted\<close>

text \<open>
  The loop from \<open>attempt\<close> on: \<open>run k\<close> is what the plugin returns when it is run the \<open>k\<close>-th time,
  \<open>ctx_err k\<close> the state of the caller's context before that.
\<close>

function attempts ::
  "int \<Rightarrow> (nat \<Rightarrow> 'resp result) \<Rightarrow> (nat \<Rightarrow> go_error option) \<Rightarrow> nat \<Rightarrow> 'resp gen_result \<Rightarrow> 'resp gen_result" where
  "attempts max_attempts run ctx_err attempt acc =
     (if int attempt > max_attempts then acc
      else case ctx_err attempt of
          Some e \<Rightarrow> acc\<lparr>gr_resp := None, gr_err := Some e\<rparr>
        | None \<Rightarrow>
            (case run attempt of
               Inr resp \<Rightarrow> acc\<lparr>gr_resp := Some resp, gr_err := None, gr_calls := gr_calls acc + 1\<rparr>
             | Inl e \<Rightarrow>
                 let acc1 = acc\<lparr>gr_resp := None, gr_err := Some e, gr_calls := gr_calls acc + 1\<rparr> in
                 if \<not> is_transient e \<or> int attempt = max_attempts then acc1
                 else attempts max_attempts run ctx_err (Suc attempt)
                        (acc1\<lparr>gr_retries := gr_retries acc1 + 1\<rparr>)))"
  by pat_completeness auto
termination
  by (relation "measure (\<lambda>(m, run, ctx, k, acc). nat (m + 1 - int k))") auto

declare attempts.simps [simp del]

definition generate_with_retries ::
  "pool_config \<Rightarrow> (nat \<Rightarrow> 'resp result) \<Rightarrow> (nat \<Rightarrow> go_error option) \<Rightarrow> 'resp gen_result" where
  "generate_with_retries cfg run ctx_err =
     attempts (wp_max_retries cfg + 1) run ctx_err 1 \<lparr>gr_resp = None, gr_err = None, gr_calls = 0, gr_retries = 0\<rparr>"

text \<open>\<open>poolPlugin.Generate\<close>: the error class counted, if any; \<open>acquired\<close> is what \<open>acquire\<close> returned.\<close>

definition pool_generate ::
  "pool_config \<Rightarrow> go_error option \<Rightarrow> (nat \<Rightarrow> 'resp result) \<Rightarrow> (nat \<Rightarrow> go_error option) \<Rightarrow> go_error option
   \<Rightarrow> 'resp gen_result \<times> string option" where
  "pool_generate cfg acquired run ctx_err ctx_err_after =
     (case acquired of
        Some e \<Rightarrow> (\<lparr>gr_resp = None, gr_err = Some e, gr_calls = 0, gr_retries = 0\<rparr>, None)
      | None \<Rightarrow>
          (let r = generate_with_retries cfg run ctx_err in
           (r, case gr_err r of
                 None \<Rightarrow> None
               | Some e \<Rightarrow> if ctx_err_after \<noteq> None then None
                           else Some (if is_transient e then ''transient'' else ''permanent''))))"

subsection \<open>The job queue\<close>

datatype 'a job_phase =
    PNew | PChecked          \<comment> \<open>before and after reading \<open>closed\<close>\<close>
  | PWaiting                 \<comment> \<open>the job was accepted\<close>
  | PDone 'a | PGone         \<comment> \<open>answered; the caller's context ended first\<close>
  | PRejected | PShutdown    \<comment> \<open>\<open>ErrServerOverloaded\<close>, \<open>ErrShuttingDown\<close>\<close>
  | PPanic                   \<comment> \<open>send on the closed channel\<close>

record 'a pool =
  po_workers :: nat
  po_queue_size :: nat
  po_queue :: "nat list"
  po_busy :: "nat list"                  \<comment> \<open>jobs a worker is processing\<close>
  po_closed :: bool                      \<comment> \<open>the atomic flag\<close>
  po_chan_closed :: bool
  po_phase :: "nat \<Rightarrow> 'a job_phase"
  po_answer :: "nat \<Rightarrow> 'a list"          \<comment> \<open>everything ever sent on the request's result channel\<close>
  po_jobs_total :: nat
  po_rejected_total :: nat

definition new_pool :: "nat \<Rightarrow> nat \<Rightarrow> 'a pool" where
  "new_pool workers queue_size =
     \<lparr>po_workers = workers, po_queue_size = queue_size, po_queue = [], po_busy = [], po_closed = False,
      po_chan_closed = False, po_phase = (\<lambda>_. PNew), po_answer = (\<lambda>_. []), po_jobs_total = 0,
      po_rejected_total = 0\<rparr>"

definition set_phase :: "'a pool \<Rightarrow> nat \<Rightarrow> 'a job_phase \<Rightarrow> 'a pool" where
  "set_phase s r p = s\<lparr>po_phase := (po_phase s)(r := p)\<rparr>"

text \<open>
  \<open>Get\<close>: \<open>load\<close>, then \<open>send\<close>, \<open>handoff\<close> to a worker blocked on an empty channel, \<open>reject\<close> or
  \<open>send_closed\<close>, then \<open>receive\<close> or \<open>cancel\<close>. A worker: \<open>take\<close>, \<open>answer\<close> (a panic below is
  answered too). \<open>Shutdown\<close>: \<open>set_closed\<close>, \<open>close_chan\<close>.
\<close>

inductive pool_step :: "'a pool \<Rightarrow> 'a pool \<Rightarrow> bool" where
  load_closed: "po_phase s r = PNew \<Longrightarrow> po_closed s \<Longrightarrow> pool_step s (set_phase s r PShutdown)"
| load_open: "po_phase s r = PNew \<Longrightarrow> \<not> po_closed s \<Longrightarrow> pool_step s (set_phase s r PChecked)"
| send: "po_phase s r = PChecked \<Longrightarrow> \<not> po_chan_closed s \<Longrightarrow> length (po_queue s) < po_queue_size s \<Longrightarrow>
    pool_step s ((set_phase s r PWaiting)\<lparr>po_queue := po_queue s @ [r], po_jobs_total := po_jobs_total s + 1\<rparr>)"
| handoff: "po_phase s r = PChecked \<Longrightarrow> \<not> po_chan_closed s \<Longrightarrow> po_queue s = [] \<Longrightarrow>
    length (po_busy s) < po_workers s \<Longrightarrow>
    pool_step s ((set_phase s r PWaiting)\<lparr>po_busy := r # po_busy s, po_jobs_total := po_jobs_total s + 1\<rparr>)"
| reject: "po_phase s r = PChecked \<Longrightarrow> \<not> po_chan_closed s \<Longrightarrow> length (po_queue s) \<ge> po_queue_size s \<Longrightarrow>
    pool_step s ((set_phase s r PRejected)\<lparr>po_rejected_total := po_rejected_total s + 1\<rparr>)"
| send_closed: "po_phase s r = PChecked \<Longrightarrow> po_chan_closed s \<Longrightarrow> pool_step s (set_phase s r PPanic)"
| take: "po_queue s = r # q \<Longrightarrow> length (po_busy s) < po_workers s \<Longrightarrow>
    pool_step s (s\<lparr>po_queue := q, po_busy := r # po_busy s\<rparr>)"
| answer: "r \<in> set (po_busy s) \<Longrightarrow>
    pool_step s (s\<lparr>po_busy := remove1 r (po_busy s), po_answer := (po_answer s)(r := po_answer s r @ [x])\<rparr>)"
| receive: "po_phase s r = PWaiting \<Longrightarrow> po_answer s r = x # rest \<Longrightarrow> pool_step s (set_phase s r (PDone x))"
| cancel: "po_phase s r = PWaiting \<Longrightarrow> pool_step s (set_phase s r PGone)"
| set_closed: "pool_step s (s\<lparr>po_closed := True\<rparr>)"
| close_chan: "po_closed s \<Longrightarrow> \<not> po_chan_closed s \<Longrightarrow> pool_step s (s\<lparr>po_chan_closed := True\<rparr>)"

inductive pool_reach :: "'a pool \<Rightarrow> 'a pool \<Rightarrow> bool" for s0 where
  pool_start: "pool_reach s0 s0"
| pool_next: "pool_reach s0 s \<Longrightarrow> pool_step s s' \<Longrightarrow> pool_reach s0 s'"

text \<open>\<open>Shutdown\<close> returns the number of jobs left in the channel when its timeout runs out first.\<close>

definition shutdown_lost :: "'a pool \<Rightarrow> bool \<Rightarrow> nat" where
  "shutdown_lost s workers_done = (if workers_done then 0 else length (po_queue s))"

subsection \<open>The limiter never runs or queues more than configured\<close>

lemma count_phase_update:
  "i < length ps \<Longrightarrow> int (count_phase (ps[i := p]) q) =
     int (count_phase ps q) - (if ps ! i = q then 1 else 0) + (if p = q then 1 else 0)"
proof (induction ps arbitrary: i)
  case (Cons a ps)
  have c: "int (count_phase (x # xs) q) = (if x = q then 1 else 0) + int (count_phase xs q)" for x xs
    by (simp add: count_phase_def)
  show ?case using Cons by (cases i) (simp_all add: c)
qed simp

lemma count_phase_nonneg: "i < length ps \<Longrightarrow> ps ! i = q \<Longrightarrow> int (count_phase ps q) \<ge> 1"
proof -
  assume "i < length ps" "ps ! i = q"
  then have "q \<in> set (filter (\<lambda>r. r = q) ps)" using nth_mem by fastforce
  then have "count_phase ps q > 0" unfolding count_phase_def by (rule length_pos_if_in_set)
  then show ?thesis by simp
qed

definition gen_inv :: "gen_limiter \<Rightarrow> bool" where
  "gen_inv g \<longleftrightarrow>
     slots_held g \<le> gl_slots g \<and> 0 \<le> gl_queue g \<and>
     gl_waiting g = int (count_phase (gl_phases g) GWaiting) + int (count_phase (gl_phases g) GGranted)
       + int (count_phase (gl_phases g) GGaveUp) + int (count_phase (gl_phases g) GBacking) \<and>
     int (count_phase (gl_phases g) GWaiting) + int (count_phase (gl_phases g) GGranted)
       + int (count_phase (gl_phases g) GGaveUp) \<le> gl_queue g \<and>
     gl_active g = int (count_phase (gl_phases g) GRunning)"

lemma slots_held_int: "int (slots_held g) =
    int (count_phase (gl_phases g) GRunning) + int (count_phase (gl_phases g) GGranted)"
  by (simp add: slots_held_def)

lemma gen_step_inv: "gen_step g g' \<Longrightarrow> gen_inv g \<Longrightarrow> gen_inv g' \<and> gl_slots g' = gl_slots g \<and> gl_queue g' = gl_queue g"
  by (induction rule: gen_step.induct)
    (auto simp: gen_inv_def goto_def count_phase_update of_nat_le_iff [symmetric, where ?'a = int]
      of_nat_less_iff [symmetric, where ?'a = int] slots_held_int
      simp del: of_nat_le_iff of_nat_less_iff)

lemma gen_reach_inv:
  "gen_reach g0 g \<Longrightarrow> gen_inv g0 \<Longrightarrow> gen_inv g \<and> gl_slots g = gl_slots g0 \<and> gl_queue g = gl_queue g0"
  by (induction rule: gen_reach.induct) (use gen_step_inv in auto)

lemma new_gen_inv: "gen_inv (new_gen_limiter (new_worker_pool cfg) n)"
  by (auto simp: gen_inv_def new_gen_limiter_def slots_held_def count_phase_def new_worker_pool_def Let_def)

text \<open>
  C15. Whatever the interleaving, the limiter never lets more generations run than configured, never
  keeps more requests queued for a slot than the queue holds, and its gauge of active generations
  is exact; with normalised configuration the limits are at least one slot and a queue of zero.
\<close>

theorem generations_bounded:
  assumes "gen_reach (new_gen_limiter (new_worker_pool cfg) n) g"
  shows "int (count_phase (gl_phases g) GRunning) \<le> wp_max_concurrent (new_worker_pool cfg) \<and>
    int (count_phase (gl_phases g) GWaiting) \<le> wp_queue_size (new_worker_pool cfg) \<and>
    gl_active g = int (count_phase (gl_phases g) GRunning) \<and>
    1 \<le> wp_max_concurrent (new_worker_pool cfg) \<and> 0 \<le> wp_queue_size (new_worker_pool cfg)"
proof -
  have i: "gen_inv g" "gl_slots g = nat (wp_max_concurrent (new_worker_pool cfg))"
    "gl_queue g = wp_queue_size (new_worker_pool cfg)"
    using gen_reach_inv [OF assms new_gen_inv] by (auto simp: new_gen_limiter_def)
  have c: "1 \<le> wp_max_concurrent (new_worker_pool cfg)" "0 \<le> wp_queue_size (new_worker_pool cfg)"
    by (auto simp: new_worker_pool_def default_max_concurrent_generations_def Let_def)
  then show ?thesis using i by (auto simp: gen_inv_def slots_held_def)
qed

subsection \<open>Retries\<close>

lemma attempts_calls:
  "1 \<le> k \<Longrightarrow> int k \<le> m + 1 \<Longrightarrow> gr_calls acc = k - 1 \<Longrightarrow> gr_retries acc = k - 1 \<Longrightarrow>
     int (gr_calls (attempts m run ctx k acc)) \<le> m \<and>
     (\<forall>j. k \<le> j \<longrightarrow> j < gr_calls (attempts m run ctx k acc) \<longrightarrow> (\<exists>e. run j = Inl e \<and> is_transient e))"
proof (induction m run ctx k acc rule: attempts.induct)
  case (1 m run ctx k acc)
  show ?case
  proof (cases "int k \<le> m \<and> ctx k = None")
    case False
    then show ?thesis using "1.prems" by (subst (1 2) attempts.simps) (auto split: option.splits)
  next
    case True
    show ?thesis
    proof (cases "run k")
      case (Inr r)
      then show ?thesis using True "1.prems" by (subst (1 2) attempts.simps) auto
    next
      case (Inl e)
      show ?thesis
      proof (cases "is_transient e \<and> int k \<noteq> m")
        case False
        then show ?thesis using True Inl "1.prems" by (subst (1 2) attempts.simps) (auto simp: Let_def)
      next
        case ret: True
        let ?acc = "acc\<lparr>gr_resp := None, gr_err := Some e, gr_calls := gr_calls acc + 1,
                        gr_retries := gr_retries acc + 1\<rparr>"
        have u: "attempts m run ctx k acc = attempts m run ctx (Suc k) ?acc"
          using True Inl ret by (subst attempts.simps) (simp add: Let_def)
        have ih: "int (gr_calls (attempts m run ctx (Suc k) ?acc)) \<le> m \<and>
          (\<forall>j. Suc k \<le> j \<longrightarrow> j < gr_calls (attempts m run ctx (Suc k) ?acc) \<longrightarrow> (\<exists>e. run j = Inl e \<and> is_transient e))"
          using "1.IH" [OF _ _ Inl refl] True ret "1.prems" by simp
        show ?thesis unfolding u using ih Inl ret by (metis le_neq_implies_less Suc_leI)
      qed
    qed
  qed
qed

text \<open>The answer the retries from attempt \<open>k\<close> on must give to a caller who stays.\<close>

definition outcome_ok :: "int \<Rightarrow> (nat \<Rightarrow> 'resp result) \<Rightarrow> nat \<Rightarrow> 'resp gen_result \<Rightarrow> bool" where
  "outcome_ok m run k res \<longleftrightarrow>
     (case gr_resp res of
        Some r \<Rightarrow> gr_err res = None \<and>
           (\<exists>j \<ge> k. int j \<le> m \<and> run j = Inr r \<and> (\<forall>i. k \<le> i \<and> i < j \<longrightarrow> (\<exists>e. run i = Inl e \<and> is_transient e)))
      | None \<Rightarrow>
           (\<exists>e j. gr_err res = Some e \<and> k \<le> j \<and> run j = Inl e \<and> (is_transient e \<longrightarrow> int j = m)))"

lemma outcome_ok_Suc:
  assumes "outcome_ok m run (Suc k) res" "run k = Inl e" "is_transient e"
  shows "outcome_ok m run k res"
proof (cases "gr_resp res")
  case None
  then obtain e' j where "gr_err res = Some e'" "Suc k \<le> j" "run j = Inl e'" "is_transient e' \<longrightarrow> int j = m"
    using assms(1) by (auto simp: outcome_ok_def)
  then have "\<exists>e j. gr_err res = Some e \<and> k \<le> j \<and> run j = Inl e \<and> (is_transient e \<longrightarrow> int j = m)"
    using Suc_leD by blast
  then show ?thesis using None by (simp add: outcome_ok_def)
next
  case (Some r)
  then obtain j where j: "gr_err res = None" "Suc k \<le> j" "int j \<le> m" "run j = Inr r"
    "\<forall>i. Suc k \<le> i \<and> i < j \<longrightarrow> (\<exists>e. run i = Inl e \<and> is_transient e)"
    using assms(1) by (auto simp: outcome_ok_def)
  have "\<exists>e. run i = Inl e \<and> is_transient e" if "k \<le> i" "i < j" for i
    using that j(5) assms(2,3) by (cases "i = k") auto
  then have "\<exists>j \<ge> k. int j \<le> m \<and> run j = Inr r \<and> (\<forall>i. k \<le> i \<and> i < j \<longrightarrow> (\<exists>e. run i = Inl e \<and> is_transient e))"
    using j Suc_leD by (intro exI [of _ j]) blast
  then show ?thesis using Some j(1) by (simp add: outcome_ok_def)
qed

lemma attempts_result:
  "1 \<le> k \<Longrightarrow> int k \<le> m \<Longrightarrow> (\<And>j. ctx j = None) \<Longrightarrow> outcome_ok m run k (attempts m run ctx k acc)"
proof (induction m run ctx k acc rule: attempts.induct)
  case (1 m run ctx k acc)
  have c: "ctx k = None" by (rule "1.prems"(3))
  show ?case
  proof (cases "run k")
    case (Inr r)
    have "attempts m run ctx k acc = acc\<lparr>gr_resp := Some r, gr_err := None, gr_calls := gr_calls acc + 1\<rparr>"
      using Inr c "1.prems"(2) by (subst attempts.simps) simp
    then show ?thesis using Inr "1.prems"(2) by (auto simp: outcome_ok_def)
  next
    case (Inl e)
    show ?thesis
    proof (cases "is_transient e \<and> int k \<noteq> m")
      case False
      have "attempts m run ctx k acc = acc\<lparr>gr_resp := None, gr_err := Some e, gr_calls := gr_calls acc + 1\<rparr>"
        using Inl c "1.prems"(2) False by (subst attempts.simps) (simp add: Let_def)
      then show ?thesis using Inl False by (auto simp: outcome_ok_def)
    next
      case True
      let ?acc = "acc\<lparr>gr_resp := None, gr_err := Some e, gr_calls := gr_calls acc + 1,
                      gr_retries := gr_retries acc + 1\<rparr>"
      have u: "attempts m run ctx k acc = attempts m run ctx (Suc k) ?acc"
        using True Inl c "1.prems"(2) by (subst attempts.simps) (simp add: Let_def)
      have "outcome_ok m run (Suc k) (attempts m run ctx (Suc k) ?acc)"
      proof -
        have n: "\<not> m < int k" "\<not> (\<not> is_transient e \<or> int k = m)" using True "1.prems"(2) by auto
        have k: "1 \<le> Suc k" "int (Suc k) \<le> m" using True "1.prems"(1,2) by auto
        show ?thesis using "1.IH" [OF n(1) c Inl refl n(2) k "1.prems"(3)] by simp
      qed
      then show ?thesis unfolding u using outcome_ok_Suc Inl True by blast
    qed
  qed
qed

text \<open>
  C14. With a configuration that allows at least one attempt, a generation runs the plugin at most
  once plus the configured retries, and (as long as the caller stays) it answers with the first
  success after only transient failures, or with a failure that is permanent or the last allowed.
\<close>

theorem retries_correct:
  assumes "0 \<le> wp_max_retries cfg"
  shows "int (gr_calls (generate_with_retries cfg run ctx)) \<le> wp_max_retries cfg + 1 \<and>
    ((\<forall>j. ctx j = None) \<longrightarrow> outcome_ok (wp_max_retries cfg + 1) run 1 (generate_with_retries cfg run ctx))"
proof -
  let ?acc = "\<lparr>gr_resp = None, gr_err = None, gr_calls = 0, gr_retries = 0\<rparr>"
  have "int (gr_calls (attempts (wp_max_retries cfg + 1) run ctx 1 ?acc)) \<le> wp_max_retries cfg + 1"
    using attempts_calls [of 1 "wp_max_retries cfg + 1" ?acc run ctx] assms by simp
  moreover have "outcome_ok (wp_max_retries cfg + 1) run 1 (attempts (wp_max_retries cfg + 1) run ctx 1 ?acc)"
    if "\<forall>j. ctx j = None"
    using attempts_result [of 1 "wp_max_retries cfg + 1" ctx run ?acc] that assms by simp
  ultimately show ?thesis by (simp add: generate_with_retries_def)
qed

text \<open>
  Without that condition nothing runs and the caller gets neither a response nor an error: a
  negative number of retries is an empty success.
\<close>

theorem negative_retries_empty_success:
  "wp_max_retries cfg < 0 \<Longrightarrow>
     generate_with_retries cfg run ctx = \<lparr>gr_resp = None, gr_err = None, gr_calls = 0, gr_retries = 0\<rparr>"
  by (simp add: generate_with_retries_def attempts.simps)

subsection \<open>Accepted jobs are answered once and never lost\<close>

definition job_ok :: "'a pool \<Rightarrow> nat \<Rightarrow> bool" where
  "job_ok s r \<longleftrightarrow>
     (if r \<in> set (po_queue s @ po_busy s)
      then (po_phase s r = PWaiting \<or> po_phase s r = PGone) \<and> po_answer s r = []
      else case po_phase s r of
             PWaiting \<Rightarrow> length (po_answer s r) = 1
           | PDone x \<Rightarrow> po_answer s r = [x]
           | PGone \<Rightarrow> length (po_answer s r) = 1
           | _ \<Rightarrow> po_answer s r = [])"

definition pool_inv :: "'a pool \<Rightarrow> bool" where
  "pool_inv s \<longleftrightarrow>
     length (po_queue s) \<le> po_queue_size s \<and> length (po_busy s) \<le> po_workers s \<and>
     distinct (po_queue s @ po_busy s) \<and> (\<forall>r. job_ok s r) \<and> (po_chan_closed s \<longrightarrow> po_closed s)"

text \<open>Requests other than the one that moves keep their state when the lists agree on them.\<close>

lemma job_ok_frame:
  assumes "job_ok s q" "po_phase s' q = po_phase s q" "po_answer s' q = po_answer s q"
    and "q \<in> set (po_queue s' @ po_busy s') \<longleftrightarrow> q \<in> set (po_queue s @ po_busy s)"
  shows "job_ok s' q"
  using assms(1) unfolding job_ok_def assms(2-4) .

text \<open>Before its job is accepted a request can move to any phase without an answer.\<close>

lemma unaccepted_moves:
  assumes "pool_inv s" "po_phase s r = PNew \<or> po_phase s r = PChecked"
    and "p = PChecked \<or> p = PShutdown \<or> p = PRejected \<or> p = PPanic"
  shows "job_ok (set_phase s r p) q"
proof (cases "q = r")
  case True
  have "job_ok s r" using assms(1) by (simp add: pool_inv_def)
  then have "r \<notin> set (po_queue s @ po_busy s)" "po_answer s r = []"
    using assms(2) by (auto simp: job_ok_def split: if_splits)
  then show ?thesis using True assms(3) by (auto simp: job_ok_def set_phase_def)
next
  case False
  have "job_ok s q" using assms(1) by (simp add: pool_inv_def)
  then show ?thesis by (rule job_ok_frame) (use False in \<open>auto simp: set_phase_def\<close>)
qed

lemma pool_step_inv: "pool_step s s' \<Longrightarrow> pool_inv s \<Longrightarrow> pool_inv s'"
proof (induction rule: pool_step.induct)
  case (send s r)
  have "job_ok s r" using send by (simp add: pool_inv_def)
  then have n: "r \<notin> set (po_queue s @ po_busy s)" "po_answer s r = []"
    using send(1) by (auto simp: job_ok_def split: if_splits)
  have "job_ok ((set_phase s r PWaiting)\<lparr>po_queue := po_queue s @ [r], po_jobs_total := po_jobs_total s + 1\<rparr>) q" for q
  proof (cases "q = r")
    case True
    then show ?thesis using n by (simp add: job_ok_def set_phase_def)
  next
    case False
    have "job_ok s q" using send by (simp add: pool_inv_def)
    then show ?thesis by (rule job_ok_frame) (use False in \<open>auto simp: set_phase_def\<close>)
  qed
  then show ?case using send n by (simp add: pool_inv_def set_phase_def)
next
  case (handoff s r)
  have "job_ok s r" using handoff by (simp add: pool_inv_def)
  then have n: "r \<notin> set (po_queue s @ po_busy s)" "po_answer s r = []"
    using handoff(1) by (auto simp: job_ok_def split: if_splits)
  have "job_ok ((set_phase s r PWaiting)\<lparr>po_busy := r # po_busy s, po_jobs_total := po_jobs_total s + 1\<rparr>) q" for q
  proof (cases "q = r")
    case True
    then show ?thesis using n by (simp add: job_ok_def set_phase_def)
  next
    case False
    have "job_ok s q" using handoff by (simp add: pool_inv_def)
    then show ?thesis by (rule job_ok_frame) (use False in \<open>auto simp: set_phase_def\<close>)
  qed
  then show ?case using handoff n by (simp add: pool_inv_def set_phase_def)
next
  case (take s r q)
  have "job_ok (s\<lparr>po_queue := q, po_busy := r # po_busy s\<rparr>) x" for x
  proof -
    have "job_ok s x" using take by (simp add: pool_inv_def)
    then show ?thesis by (rule job_ok_frame) (use take(1) in auto)
  qed
  then show ?case using take by (auto simp: pool_inv_def)
next
  case (answer r s x)
  have r: "job_ok s r" "distinct (po_queue s @ po_busy s)" using answer by (simp_all add: pool_inv_def)
  then have n: "po_answer s r = []" "po_phase s r = PWaiting \<or> po_phase s r = PGone" "r \<notin> set (po_queue s)"
    using answer(1) by (auto simp: job_ok_def)
  have "job_ok (s\<lparr>po_busy := remove1 r (po_busy s), po_answer := (po_answer s)(r := po_answer s r @ [x])\<rparr>) q" for q
  proof (cases "q = r")
    case True
    then show ?thesis using n r(2) by (auto simp: job_ok_def)
  next
    case False
    have "job_ok s q" using answer by (simp add: pool_inv_def)
    then show ?thesis by (rule job_ok_frame) (use False in auto)
  qed
  moreover have "length (remove1 r (po_busy s)) \<le> po_workers s"
    using answer by (auto simp: pool_inv_def length_remove1)
  ultimately show ?case using answer by (auto simp: pool_inv_def dest: notin_set_remove1 in_set_remove1 [THEN iffD1])
next
  case (receive s r x rest)
  have r: "job_ok s r" using receive by (simp add: pool_inv_def)
  then have n: "r \<notin> set (po_queue s @ po_busy s)" "po_answer s r = [x]"
    using receive(1,2) by (auto simp: job_ok_def split: if_splits)
  have "job_ok (set_phase s r (PDone x)) q" for q
  proof (cases "q = r")
    case True
    then show ?thesis using n by (simp add: job_ok_def set_phase_def)
  next
    case False
    have "job_ok s q" using receive by (simp add: pool_inv_def)
    then show ?thesis by (rule job_ok_frame) (use False in \<open>auto simp: set_phase_def\<close>)
  qed
  then show ?case using receive by (simp add: pool_inv_def set_phase_def)
next
  case (cancel s r)
  have r: "job_ok s r" using cancel by (simp add: pool_inv_def)
  have "job_ok (set_phase s r PGone) q" for q
  proof (cases "q = r")
    case True
    then show ?thesis using r cancel(1) by (auto simp: job_ok_def set_phase_def split: if_splits)
  next
    case False
    have "job_ok s q" using cancel by (simp add: pool_inv_def)
    then show ?thesis by (rule job_ok_frame) (use False in \<open>auto simp: set_phase_def\<close>)
  qed
  then show ?case using cancel by (simp add: pool_inv_def set_phase_def)
next
  case (load_closed s r)
  then show ?case using unaccepted_moves [of s r PShutdown] by (auto simp: pool_inv_def set_phase_def)
next
  case (load_open s r)
  then show ?case using unaccepted_moves [of s r PChecked] by (auto simp: pool_inv_def set_phase_def)
next
  case (reject s r)
  have "job_ok ((set_phase s r PRejected)\<lparr>po_rejected_total := po_rejected_total s + 1\<rparr>) q" for q
    by (rule job_ok_frame [OF unaccepted_moves [of s r PRejected q]]) (use reject in auto)
  then show ?case using reject by (simp add: pool_inv_def set_phase_def)
next
  case (send_closed s r)
  then show ?case using unaccepted_moves [of s r PPanic] by (auto simp: pool_inv_def set_phase_def)
next
  case (set_closed s)
  have "job_ok s q \<Longrightarrow> job_ok (s\<lparr>po_closed := True\<rparr>) q" for q by (erule job_ok_frame) simp_all
  then show ?case using set_closed by (simp add: pool_inv_def)
next
  case (close_chan s)
  have "job_ok s q \<Longrightarrow> job_ok (s\<lparr>po_chan_closed := True\<rparr>) q" for q by (erule job_ok_frame) simp_all
  then show ?case using close_chan by (simp add: pool_inv_def)
qed

lemma new_pool_inv: "pool_inv (new_pool w q)"
  by (simp add: pool_inv_def job_ok_def new_pool_def)

lemma pool_reach_inv:
  "pool_reach s0 s \<Longrightarrow> pool_inv s0 \<Longrightarrow> pool_inv s"
  by (induction rule: pool_reach.induct) (auto dest: pool_step_inv)

lemma pool_step_fixed: "pool_step s s' \<Longrightarrow> po_workers s' = po_workers s \<and> po_queue_size s' = po_queue_size s"
  by (induction rule: pool_step.induct) (simp_all add: set_phase_def)

lemma pool_reach_fixed: "pool_reach s0 s \<Longrightarrow> po_workers s = po_workers s0 \<and> po_queue_size s = po_queue_size s0"
  by (induction rule: pool_reach.induct) (auto dest: pool_step_fixed)


text \<open>
  \<open>Get\<close> reads the closed flag and sends on the channel in two steps, and \<open>Shutdown\<close> can close
  the channel between them: the send then panics.
\<close>

theorem get_races_shutdown:
  "\<exists>s. pool_reach (new_pool 1 1 :: nat pool) s \<and> po_phase s 0 = PPanic"
proof -
  let ?s0 = "new_pool 1 1 :: nat pool"
  let ?s1 = "set_phase ?s0 0 PChecked"
  let ?s2 = "?s1\<lparr>po_closed := True\<rparr>"
  let ?s3 = "?s2\<lparr>po_chan_closed := True\<rparr>"
  have "pool_step ?s0 ?s1" by (rule load_open) (simp_all add: new_pool_def)
  moreover have "pool_step ?s1 ?s2" by (rule set_closed)
  moreover have "pool_step ?s2 ?s3" by (rule close_chan) (simp_all add: new_pool_def set_phase_def)
  moreover have "pool_step ?s3 (set_phase ?s3 0 PPanic)" by (rule send_closed) (simp_all add: set_phase_def)
  ultimately have "pool_reach ?s0 (set_phase ?s3 0 PPanic)" by (meson pool_start pool_next)
  then show ?thesis by (intro exI [of _ "set_phase ?s3 0 PPanic"]) (simp add: set_phase_def)
qed

subsection \<open>Concrete runs\<close>

definition sample_pool_config :: pool_config where
  "sample_pool_config = \<lparr>wp_workers = 0, wp_queue_size = -1, wp_max_concurrent = 1, wp_generation_timeout = 0,
     wp_max_retries = 2, wp_shutdown_timeout = -5\<rparr>"

theorem generations_bounded_witness:
  "\<exists>g. gen_reach (new_gen_limiter (new_worker_pool sample_pool_config) 2) g \<and>
     count_phase (gl_phases g) GRunning = 1 \<and> gl_active g = 1 \<and> 1 \<le> wp_max_concurrent (new_worker_pool sample_pool_config)"
proof -
  let ?g0 = "new_gen_limiter (new_worker_pool sample_pool_config) 2"
  let ?g1 = "(goto ?g0 0 GRunning)\<lparr>gl_active := gl_active ?g0 + 1\<rparr>"
  have "gen_step ?g0 ?g1"
    by (rule try_ok)
      (simp_all add: new_gen_limiter_def slots_held_def count_phase_def new_worker_pool_def sample_pool_config_def Let_def)
  then have r: "gen_reach ?g0 ?g1" by (meson gen_start gen_next)
  have "count_phase (gl_phases ?g1) GRunning = 1"
    by (simp add: new_gen_limiter_def goto_def count_phase_def numeral_2_eq_2)
  then show ?thesis using generations_bounded [OF r] r by auto
qed

definition flaky :: "nat \<Rightarrow> string result" where
  "flaky k = (if k < 3 then Inl (plain_error ''dial: Connection Refused'') else Inr ''code'')"

theorem retries_correct_witness:
  "outcome_ok 3 flaky 1 (generate_with_retries sample_pool_config flaky (\<lambda>_. None)) \<and>
   gr_resp (generate_with_retries sample_pool_config flaky (\<lambda>_. None)) = Some ''code''"
proof -
  have "outcome_ok 3 flaky 1 (generate_with_retries sample_pool_config flaky (\<lambda>_. None))"
    using retries_correct [of sample_pool_config flaky "\<lambda>_. None"] by (simp add: sample_pool_config_def)
  moreover have "is_transient (plain_error ''dial: Connection Refused'')"
    by (simp add: is_transient_def plain_error_def errors_is_def to_lower_def has_prefix_def char_of_def bit_0)
  with calculation have "gr_resp (generate_with_retries sample_pool_config flaky (\<lambda>_. None)) = Some ''code''"
    by (auto simp: outcome_ok_def flaky_def split: option.splits if_splits)
  ultimately show ?thesis by blast
qed

theorem negative_retries_empty_success_witness:
  "gr_err (generate_with_retries (sample_pool_config\<lparr>wp_max_retries := -1\<rparr>) flaky (\<lambda>_. None)) = None"
  using negative_retries_empty_success [of "sample_pool_config\<lparr>wp_max_retries := -1\<rparr>" flaky "\<lambda>_. None"] by simp


end
