(* ===== verification/Core.thy ===== *)
theory Core
  imports Paging
begin

text \<open>
  The core (\<^verbatim>\<open>internal/core/core.go\<close>): the five operations of the service over a registry, a feature
  gate and an audit sink. The registry and the plugin behind it are the record \<open>reg_iface\<close> of
  their operations, over a state \<^typ>\<open>'r\<close> they thread through; a missing gate or sink is \<^term>\<open>None\<close>.
  What the operations report, the counted operations and the calls of the sink, is part of the state.

  The lemmas show that every operation reports exactly once, with the outcome it returns; that a
  denied, malformed or over-limit request never reaches the registry. The paging of
  \<open>ListPlugins\<close> is in theory \<open>Paging\<close>.
\<close>

subsection \<open>Collaborators and state\<close>

record ('r, 'p, 'req, 'resp) reg_iface =
  ri_get :: "'r \<Rightarrow> string \<Rightarrow> string \<Rightarrow> string \<Rightarrow> 'p result \<times> 'r"
  ri_list :: "'r \<Rightarrow> plugin_filter \<Rightarrow> plugin_page \<Rightarrow> plugin_info list result \<times> 'r"
  ri_create :: "'r \<Rightarrow> create_request \<Rightarrow> plugin_info result \<times> 'r"
  ri_update :: "'r \<Rightarrow> update_request \<Rightarrow> plugin_info result \<times> 'r"
  ri_delete :: "'r \<Rightarrow> string \<Rightarrow> string \<Rightarrow> string \<Rightarrow> go_error option \<times> 'r"
  ri_generate :: "'r \<Rightarrow> 'p \<Rightarrow> 'req \<Rightarrow> 'resp result \<times> 'r"
  ri_info :: "'p \<Rightarrow> plugin_info"
  ri_file_count :: "'resp \<Rightarrow> nat"
  ri_metrics :: "plugin_info \<Rightarrow> go_error option"   \<comment> \<open>\<open>metrics.GenerateCode\<close>\<close>

record gate =
  ga_enabled :: "feature \<Rightarrow> bool"
  ga_max_plugins :: int

datatype sink_call = SinkSend audit_entry | SinkSkipped

record 'r core_state =
  cs_registry :: 'r
  cs_gate :: "gate option"
  cs_sink :: bool                                    \<comment> \<open>a sink is configured\<close>
  cs_calls :: "sink_call list"
  cs_counted :: "(operation \<times> audit_status) list"

text \<open>What a call takes from its surroundings: the context, the clock and a fresh id.\<close>

record call =
  ca_ctx :: req_context
  ca_start :: int
  ca_finish :: int
  ca_created :: int
  ca_id :: nat

subsection \<open>Names and versions\<close>

definition plugin_name_parts :: nat where "plugin_name_parts = 2"

definition get_group :: "string \<Rightarrow> string result" where
  "get_group plugin_name =
     (let parts = split_on CHR ''/'' plugin_name in
      if length parts \<noteq> plugin_name_parts
      then Inl (wrap_after err_invalid_plugin_name ('': '' @ plugin_name))
      else Inr (parts ! 0))"

definition get_name_and_version :: "string \<Rightarrow> (string \<times> string) result" where
  "get_name_and_version plugin_name =
     (let parts = split_on CHR ''/'' plugin_name in
      if length parts \<noteq> plugin_name_parts
      then Inl (wrap_after err_invalid_plugin_name ('': '' @ plugin_name))
      else
        let name_version = split_on CHR '':'' (parts ! 1) in
        if length name_version \<noteq> plugin_name_parts
        then Inl (wrap_after err_invalid_plugin_name ('': '' @ plugin_name))
        else Inr (name_version ! 0, name_version ! 1))"

text \<open>\<^verbatim>\<open>^[a-z][a-z0-9-]*$\<close> and \<^verbatim>\<open>^v\d+\.\d+(\.\d+)?$\<close>.\<close>

definition name_matches :: "string \<Rightarrow> bool" where
  "name_matches s =
     (case s of [] \<Rightarrow> False
      | c # cs \<Rightarrow> is_lower c \<and> (\<forall>d \<in> set cs. is_lower d \<or> is_digit d \<or> d = CHR ''-''))"

definition all_digits :: "string \<Rightarrow> bool" where
  "all_digits s \<longleftrightarrow> s \<noteq> [] \<and> (\<forall>c \<in> set s. is_digit c)"

definition version_matches :: "string \<Rightarrow> bool" where
  "version_matches s =
     (case s of [] \<Rightarrow> False
      | c # cs \<Rightarrow> c = CHR ''v'' \<and>
          (let parts = split_on CHR ''.'' cs in
           (length parts = 2 \<or> length parts = 3) \<and> (\<forall>p \<in> set parts. all_digits p)))"

definition validate_group_name :: "string \<Rightarrow> string \<Rightarrow> go_error option" where
  "validate_group_name grp name =
     (if \<not> name_matches grp then Some (wrap_after err_invalid_plugin_name ('': invalid group '' @ quoted grp))
      else if \<not> name_matches name then Some (wrap_after err_invalid_plugin_name ('': invalid name '' @ quoted name))
      else None)"

definition validate_version :: "string \<Rightarrow> go_error option" where
  "validate_version version =
     (if version \<noteq> ''latest'' \<and> \<not> version_matches version
      then Some (wrap_after err_invalid_plugin_name ('': invalid version '' @ quoted version))
      else None)"

subsection \<open>Audit\<close>

definition error_codes :: "(sentinel \<times> string) list" where
  "error_codes =
     [(ErrNotFound, ''NOT_FOUND''), (ErrInvalidPluginName, ''INVALID_PLUGIN_NAME''),
      (ErrGenerationFailed, ''GENERATION_FAILED''), (ErrServerOverloaded, ''SERVER_OVERLOADED''),
      (ErrShuttingDown, ''SHUTTING_DOWN''), (ErrAlreadyExists, ''ALREADY_EXISTS''),
      (ErrMaxPluginsExceeded, ''MAX_PLUGINS_EXCEEDED''), (ErrFeatureDenied, ''FEATURE_DENIED''),
      (ErrStorageUnavailable, ''STORAGE_UNAVAILABLE''), (ErrBinaryNotUploaded, ''BINARY_NOT_UPLOADED'')]"

definition error_code :: "go_error \<Rightarrow> string" where
  "error_code e =
     (case find (\<lambda>(s, c). errors_is e s) error_codes of Some (s, c) \<Rightarrow> c | None \<Rightarrow> ''INTERNAL'')"

definition send_audit :: "'r core_state \<Rightarrow> audit_entry \<Rightarrow> 'r core_state" where
  "send_audit c entry =
     (let c1 = c\<lparr>cs_counted := cs_counted c @ [(ae_operation entry, ae_status entry)]\<rparr> in
      if \<not> cs_sink c1 then c1
      else (case cs_gate c1 of
              Some g \<Rightarrow> if \<not> ga_enabled g FeatureAudit then c1\<lparr>cs_calls := cs_calls c1 @ [SinkSkipped]\<rparr>
                        else c1\<lparr>cs_calls := cs_calls c1 @ [SinkSend entry]\<rparr>
            | None \<Rightarrow> c1\<lparr>cs_calls := cs_calls c1 @ [SinkSend entry]\<rparr>))"

definition milliseconds :: "int \<Rightarrow> int" where
  "milliseconds d = (if d < 0 then - ((- d) div 1000000) else d div 1000000)"

definition audit_success ::
  "'r core_state \<Rightarrow> call \<Rightarrow> operation \<Rightarrow> string \<Rightarrow> (string \<rightharpoonup> meta_value) \<Rightarrow> 'r core_state" where
  "audit_success c call op plugin_name metadata =
     send_audit c
       \<lparr>ae_id = ca_id call, ae_operation = op, ae_plugin_name = plugin_name,
        ae_caller = caller_ip_from_context (ca_ctx call), ae_status = AuditSuccess,
        ae_error_code = [], ae_error_message = [],
        ae_duration_ms = milliseconds (ca_finish call - ca_start call),
        ae_metadata = metadata(''actor'' \<mapsto> MetaString (actor_from_context (ca_ctx call))),
        ae_created_at = ca_created call\<rparr>"

definition audit_error ::
  "'r core_state \<Rightarrow> call \<Rightarrow> operation \<Rightarrow> string \<Rightarrow> go_error \<Rightarrow> 'r core_state" where
  "audit_error c call op plugin_name e =
     send_audit c
       \<lparr>ae_id = ca_id call, ae_operation = op, ae_plugin_name = plugin_name,
        ae_caller = caller_ip_from_context (ca_ctx call), ae_status = AuditError,
        ae_error_code = error_code e, ae_error_message = msg e,
        ae_duration_ms = milliseconds (ca_finish call - ca_start call),
        ae_metadata = [''actor'' \<mapsto> MetaString (actor_from_context (ca_ctx call))],
        ae_created_at = ca_created call\<rparr>"

subsection \<open>Gate\<close>

definition check_feature :: "'r core_state \<Rightarrow> feature \<Rightarrow> go_error option" where
  "check_feature c f =
     (case cs_gate c of
        None \<Rightarrow> None
      | Some g \<Rightarrow> if ga_enabled g f then None
                  else Some (wrap_after err_feature_denied ('': feature '' @ feature_string f)))"

definition max_plugins :: "'r core_state \<Rightarrow> int" where
  "max_plugins c = (case cs_gate c of None \<Rightarrow> license_unlimited | Some g \<Rightarrow> ga_max_plugins g)"

subsection \<open>Operations\<close>

definition core_generate ::
  "('r, 'p, 'req, 'resp) reg_iface \<Rightarrow> 'r core_state \<Rightarrow> call \<Rightarrow> string \<Rightarrow> 'req \<Rightarrow> 'resp result \<times> 'r core_state" where
  "core_generate ri c call plugin_name payload =
     (case get_group plugin_name of
        Inl e \<Rightarrow> (Inl (wrap ''getGroup: '' e), audit_error c call GENERATE_CODE plugin_name e)
      | Inr grp \<Rightarrow>
     (case get_name_and_version plugin_name of
        Inl e \<Rightarrow> (Inl (wrap ''getNameAndVersion: '' e), audit_error c call GENERATE_CODE plugin_name e)
      | Inr (name, version) \<Rightarrow>
     (case ri_get ri (cs_registry c) grp name version of
        (Inl e, r1) \<Rightarrow>
          (Inl (wrap ''c.registry.Get: '' e),
           audit_error (c\<lparr>cs_registry := r1\<rparr>) call GENERATE_CODE plugin_name e)
      | (Inr p, r1) \<Rightarrow>
     (case ri_generate ri r1 p payload of
        (Inl e, r2) \<Rightarrow>
          (Inl (wrap ''plugin.Generate: '' e),
           audit_error (c\<lparr>cs_registry := r2\<rparr>) call GENERATE_CODE plugin_name e)
      | (Inr code, r2) \<Rightarrow>
     (case ri_metrics ri (ri_info ri p) of
        Some e \<Rightarrow>
          (Inl (wrap ''c.metrics.GenerateCode: '' e),
           audit_error (c\<lparr>cs_registry := r2\<rparr>) call GENERATE_CODE plugin_name e)
      | None \<Rightarrow>
          (Inr code,
           audit_success (c\<lparr>cs_registry := r2\<rparr>) call GENERATE_CODE plugin_name
             [''file_count'' \<mapsto> MetaInt (int (ri_file_count ri code))]))))))"

definition core_list_plugins ::
  "('r, 'p, 'req, 'resp) reg_iface \<Rightarrow> 'r core_state \<Rightarrow> call \<Rightarrow> plugin_filter \<Rightarrow> plugin_page
   \<Rightarrow> plugin_list result \<times> 'r core_state" where
  "core_list_plugins ri c call f page =
     (let n = page_size (pg_size page);
          probe = \<lparr>pg_size = n + 1, pg_after = pg_after page\<rparr> in
      case ri_list ri (cs_registry c) f probe of
        (Inl e, r1) \<Rightarrow>
          (Inl (wrap ''c.registry.List: '' e), audit_error (c\<lparr>cs_registry := r1\<rparr>) call LIST_PLUGINS [] e)
      | (Inr plugins, r1) \<Rightarrow>
          (let l = cut_page (nat n) plugins in
           (Inr l,
            audit_success (c\<lparr>cs_registry := r1\<rparr>) call LIST_PLUGINS []
              [''plugin_count'' \<mapsto> MetaInt (int (length (pl_plugins l)))])))"

definition plugin_name_of :: "string \<Rightarrow> string \<Rightarrow> string \<Rightarrow> string" where
  "plugin_name_of grp name version = grp @ ''/'' @ name @ '':'' @ version"

definition core_create_plugin ::
  "('r, 'p, 'req, 'resp) reg_iface \<Rightarrow> 'r core_state \<Rightarrow> call \<Rightarrow> create_request
   \<Rightarrow> plugin_info result \<times> 'r core_state" where
  "core_create_plugin ri c call req =
     (let plugin_name = plugin_name_of (cr_group req) (cr_name req) (cr_version req) in
      case check_feature c FeaturePluginCRUD of
        Some e \<Rightarrow> (Inl e, audit_error c call CREATE_PLUGIN plugin_name e)
      | None \<Rightarrow>
      (case validate_group_name (cr_group req) (cr_name req) of
        Some e \<Rightarrow> (Inl e, audit_error c call CREATE_PLUGIN plugin_name e)
      | None \<Rightarrow>
      (case validate_version (cr_version req) of
        Some e \<Rightarrow> (Inl e, audit_error c call CREATE_PLUGIN plugin_name e)
      | None \<Rightarrow>
      (let limit = max_plugins c;
           create = (\<lambda>c1. case ri_create ri (cs_registry c1) req of
                (Inl e, r2) \<Rightarrow>
                  (Inl (wrap ''c.registry.Create: '' e),
                   audit_error (c1\<lparr>cs_registry := r2\<rparr>) call CREATE_PLUGIN plugin_name e)
              | (Inr info, r2) \<Rightarrow>
                  (Inr info, audit_success (c1\<lparr>cs_registry := r2\<rparr>) call CREATE_PLUGIN plugin_name Map.empty))
       in if limit \<ge> 0 then
            (case ri_list ri (cs_registry c) no_filter no_page of
               (Inl e, r1) \<Rightarrow>
                 (Inl (wrap ''c.registry.List: '' e),
                  audit_error (c\<lparr>cs_registry := r1\<rparr>) call CREATE_PLUGIN plugin_name e)
             | (Inr plugins, r1) \<Rightarrow>
                 if int (length plugins) \<ge> limit then
                   (let e = wrap_after err_max_plugins_exceeded
                        ('': current '' @ int_text (int (length plugins)) @ '', limit '' @ int_text limit)
                    in (Inl e, audit_error (c\<lparr>cs_registry := r1\<rparr>) call CREATE_PLUGIN plugin_name e))
                 else create (c\<lparr>cs_registry := r1\<rparr>))
          else create c))))"

definition core_update_plugin ::
  "('r, 'p, 'req, 'resp) reg_iface \<Rightarrow> 'r core_state \<Rightarrow> call \<Rightarrow> update_request
   \<Rightarrow> plugin_info result \<times> 'r core_state" where
  "core_update_plugin ri c call req =
     (let plugin_name = plugin_name_of (ur_group req) (ur_name req) (ur_version req) in
      case check_feature c FeaturePluginCRUD of
        Some e \<Rightarrow> (Inl e, audit_error c call UPDATE_PLUGIN plugin_name e)
      | None \<Rightarrow>
      (case validate_group_name (ur_group req) (ur_name req) of
        Some e \<Rightarrow> (Inl e, audit_error c call UPDATE_PLUGIN plugin_name e)
      | None \<Rightarrow>
      (case validate_version (ur_version req) of
        Some e \<Rightarrow> (Inl e, audit_error c call UPDATE_PLUGIN plugin_name e)
      | None \<Rightarrow>
      (case ri_update ri (cs_registry c) req of
        (Inl e, r1) \<Rightarrow>
          (Inl (wrap ''c.registry.Update: '' e),
           audit_error (c\<lparr>cs_registry := r1\<rparr>) call UPDATE_PLUGIN plugin_name e)
      | (Inr info, r1) \<Rightarrow>
          (Inr info, audit_success (c\<lparr>cs_registry := r1\<rparr>) call UPDATE_PLUGIN plugin_name Map.empty)))))"

definition core_delete_plugin ::
  "('r, 'p, 'req, 'resp) reg_iface \<Rightarrow> 'r core_state \<Rightarrow> call \<Rightarrow> string \<Rightarrow> string \<Rightarrow> string
   \<Rightarrow> go_error option \<times> 'r core_state" where
  "core_delete_plugin ri c call grp name version =
     (let plugin_name = plugin_name_of grp name version in
      case check_feature c FeaturePluginCRUD of
        Some e \<Rightarrow> (Some e, audit_error c call DELETE_PLUGIN plugin_name e)
      | None \<Rightarrow>
      (case ri_delete ri (cs_registry c) grp name version of
        (Some e, r1) \<Rightarrow>
          (Some (wrap ''c.registry.Delete: '' e),
           audit_error (c\<lparr>cs_registry := r1\<rparr>) call DELETE_PLUGIN plugin_name e)
      | (None, r1) \<Rightarrow>
          (None, audit_success (c\<lparr>cs_registry := r1\<rparr>) call DELETE_PLUGIN plugin_name Map.empty)))"

subsection \<open>Reporting\<close>

definition status_of :: "bool \<Rightarrow> audit_status" where
  "status_of ok = (if ok then AuditSuccess else AuditError)"

text \<open>From \<open>c\<close> to \<open>c'\<close> one operation was reported: counted once, and at most one call of the sink.\<close>

definition reported :: "operation \<Rightarrow> bool \<Rightarrow> 'r core_state \<Rightarrow> 'r core_state \<Rightarrow> bool" where
  "reported op ok c c' \<longleftrightarrow>
     cs_gate c' = cs_gate c \<and> cs_sink c' = cs_sink c \<and>
     cs_counted c' = cs_counted c @ [(op, status_of ok)] \<and>
     (if \<not> cs_sink c then cs_calls c' = cs_calls c
      else if check_feature c FeatureAudit \<noteq> None then cs_calls c' = cs_calls c @ [SinkSkipped]
      else \<exists>e. cs_calls c' = cs_calls c @ [SinkSend e] \<and> ae_operation e = op \<and> ae_status e = status_of ok)"

lemma send_audit_reported:
  "ae_operation e = op \<Longrightarrow> ae_status e = status_of ok \<Longrightarrow>
     reported op ok c (send_audit (c\<lparr>cs_registry := r\<rparr>) e)"
  by (cases "cs_gate c") (auto simp: reported_def send_audit_def check_feature_def Let_def)

lemma send_audit_reported0:
  "ae_operation e = op \<Longrightarrow> ae_status e = status_of ok \<Longrightarrow> reported op ok c (send_audit c e)"
  using send_audit_reported [of e op ok c "cs_registry c"] by simp

lemma audit_reported [simp]:
  "reported op True c (audit_success (c\<lparr>cs_registry := r\<rparr>) call op n m)"
  "reported op False c (audit_error (c\<lparr>cs_registry := r\<rparr>) call op n e)"
  "reported op False c (audit_error c call op n e)"
  "reported op True c (audit_success c call op n m)"
  by (auto simp: audit_success_def audit_error_def status_of_def
      intro!: send_audit_reported send_audit_reported0)

lemma generate_reported:
  "reported GENERATE_CODE (is_ok (fst (core_generate ri c call pn payload))) c (snd (core_generate ri c call pn payload))"
  by (simp add: core_generate_def is_ok_def split: sum.split prod.split option.split)

lemma list_reported:
  "reported LIST_PLUGINS (is_ok (fst (core_list_plugins ri c call f page))) c (snd (core_list_plugins ri c call f page))"
  by (simp add: core_list_plugins_def is_ok_def Let_def split: sum.split prod.split)

lemma create_reported:
  "reported CREATE_PLUGIN (is_ok (fst (core_create_plugin ri c call creq))) c (snd (core_create_plugin ri c call creq))"
  by (simp add: core_create_plugin_def is_ok_def Let_def split: sum.split prod.split option.split)

lemma update_reported:
  "reported UPDATE_PLUGIN (is_ok (fst (core_update_plugin ri c call ureq))) c (snd (core_update_plugin ri c call ureq))"
  by (simp add: core_update_plugin_def is_ok_def Let_def split: sum.split prod.split option.split)

lemma delete_reported:
  "reported DELETE_PLUGIN (fst (core_delete_plugin ri c call g n v) = None) c (snd (core_delete_plugin ri c call g n v))"
  by (simp add: core_delete_plugin_def Let_def split: prod.split option.split)

lemmas operation_reported = generate_reported list_reported create_reported update_reported delete_reported

text \<open>From \<open>c\<close> to \<open>c'\<close> what reached the sink is of this operation, under the caller and the actor of the call.\<close>

definition logged :: "operation \<Rightarrow> req_context \<Rightarrow> 'r core_state \<Rightarrow> 'r core_state \<Rightarrow> bool" where
  "logged op ctx c c' \<longleftrightarrow> (\<exists>new. cs_calls c' = cs_calls c @ new \<and>
     (\<forall>e. SinkSend e \<in> set new \<longrightarrow>
        ae_operation e = op \<and> ae_caller e = caller_ip_from_context ctx \<and>
        ae_metadata e ''actor'' = Some (MetaString (actor_from_context ctx))))"

lemma logged_refl [simp]: "logged op ctx c c"
  by (simp add: logged_def)

lemma send_audit_logged:
  "ae_operation e = op \<Longrightarrow> ae_caller e = caller_ip_from_context ctx \<Longrightarrow>
     ae_metadata e ''actor'' = Some (MetaString (actor_from_context ctx)) \<Longrightarrow>
     logged op ctx c (send_audit (c\<lparr>cs_registry := r\<rparr>) e)"
  by (cases "cs_gate c") (auto simp: logged_def send_audit_def Let_def)

lemma audit_logged [simp]:
  "logged op (ca_ctx call) c (audit_success (c\<lparr>cs_registry := r\<rparr>) call op n m)"
  "logged op (ca_ctx call) c (audit_error (c\<lparr>cs_registry := r\<rparr>) call op n e)"
  by (auto simp: audit_success_def audit_error_def intro!: send_audit_logged)

lemma audit_logged0 [simp]:
  "logged op (ca_ctx call) c (audit_success c call op n m)"
  "logged op (ca_ctx call) c (audit_error c call op n e)"
  using audit_logged [of op call c "cs_registry c"] by simp_all

lemma operation_logged:
  "logged GENERATE_CODE (ca_ctx call) c (snd (core_generate ri c call pn payload))"
  "logged LIST_PLUGINS (ca_ctx call) c (snd (core_list_plugins ri c call f page))"
  "logged CREATE_PLUGIN (ca_ctx call) c (snd (core_create_plugin ri c call creq))"
  "logged UPDATE_PLUGIN (ca_ctx call) c (snd (core_update_plugin ri c call ureq))"
  "logged DELETE_PLUGIN (ca_ctx call) c (snd (core_delete_plugin ri c call g n v))"
  by (simp_all add: core_generate_def core_list_plugins_def core_create_plugin_def core_update_plugin_def
      core_delete_plugin_def Let_def split: sum.split prod.split option.split)

text \<open>
  Every operation of the core reports exactly once, on every branch: it is counted once, with the
  status of the result it returns, and reaches the audit sink once, as the entry or, without the
  audit feature, as skipped.
\<close>

theorem reports_once:
  "reported GENERATE_CODE (is_ok (fst (core_generate ri c call pn payload))) c (snd (core_generate ri c call pn payload)) \<and>
   reported LIST_PLUGINS (is_ok (fst (core_list_plugins ri c call f page))) c (snd (core_list_plugins ri c call f page)) \<and>
   reported CREATE_PLUGIN (is_ok (fst (core_create_plugin ri c call creq))) c (snd (core_create_plugin ri c call creq)) \<and>
   reported UPDATE_PLUGIN (is_ok (fst (core_update_plugin ri c call ureq))) c (snd (core_update_plugin ri c call ureq)) \<and>
   reported DELETE_PLUGIN (fst (core_delete_plugin ri c call g n v) = None) c (snd (core_delete_plugin ri c call g n v))"
  by (intro conjI operation_reported)

subsection \<open>Guards\<close>

lemma send_audit_registry [simp]: "cs_registry (send_audit c e) = cs_registry c"
  by (simp add: send_audit_def Let_def split: option.split)

lemma audit_registry [simp]:
  "cs_registry (audit_success c call op n m) = cs_registry c"
  "cs_registry (audit_error c call op n e) = cs_registry c"
  by (simp_all add: audit_success_def audit_error_def)

text \<open>
  C13. A plugin is registered only if the feature is licensed, the group, the name and the version are
  well formed, and fewer plugins than the limit are registered at that moment; in every other case
  the registry's \<open>Create\<close> is not reached.
\<close>

theorem create_guarded:
  assumes "core_create_plugin ri c call req = (res, c')"
  shows "(is_ok res \<longrightarrow>
      check_feature c FeaturePluginCRUD = None \<and> name_matches (cr_group req) \<and> name_matches (cr_name req) \<and>
      (cr_version req = ''latest'' \<or> version_matches (cr_version req)) \<and>
      (max_plugins c \<ge> 0 \<longrightarrow>
         (\<exists>ps r1. ri_list ri (cs_registry c) no_filter no_page = (Inr ps, r1) \<and> int (length ps) < max_plugins c))) \<and>
    ((check_feature c FeaturePluginCRUD \<noteq> None \<or> \<not> name_matches (cr_group req) \<or> \<not> name_matches (cr_name req) \<or>
      (cr_version req \<noteq> ''latest'' \<and> \<not> version_matches (cr_version req))) \<longrightarrow>
      \<not> is_ok res \<and> cs_registry c' = cs_registry c) \<and>
    (\<forall>ps r1. max_plugins c \<ge> 0 \<longrightarrow> ri_list ri (cs_registry c) no_filter no_page = (Inr ps, r1) \<longrightarrow>
       int (length ps) \<ge> max_plugins c \<longrightarrow> check_feature c FeaturePluginCRUD = None \<longrightarrow>
       name_matches (cr_group req) \<longrightarrow> name_matches (cr_name req) \<longrightarrow>
       (cr_version req = ''latest'' \<or> version_matches (cr_version req)) \<longrightarrow>
       (\<exists>e. res = Inl e \<and> errors_is e ErrMaxPluginsExceeded) \<and> cs_registry c' = r1)"
proof -
  define guard where "guard \<longleftrightarrow> check_feature c FeaturePluginCRUD = None \<and> name_matches (cr_group req) \<and>
      name_matches (cr_name req) \<and> (cr_version req = ''latest'' \<or> version_matches (cr_version req))"
  have g: "validate_group_name (cr_group req) (cr_name req) = None \<longleftrightarrow> name_matches (cr_group req) \<and> name_matches (cr_name req)"
    "validate_version (cr_version req) = None \<longleftrightarrow> cr_version req = ''latest'' \<or> version_matches (cr_version req)"
    by (auto simp: validate_group_name_def validate_version_def)
  show ?thesis
  proof (cases guard)
    case False
    then have "\<not> is_ok res \<and> cs_registry c' = cs_registry c"
      using assms g by (auto simp: guard_def core_create_plugin_def is_ok_def Let_def split: option.splits)
    then show ?thesis using False by (auto simp: guard_def)
  next
    case True
    then have gu: "check_feature c FeaturePluginCRUD = None"
      "validate_group_name (cr_group req) (cr_name req) = None" "validate_version (cr_version req) = None"
      using g by (auto simp: guard_def)
    show ?thesis
    proof (cases "max_plugins c \<ge> 0")
      case False
      then show ?thesis using True by (auto simp: guard_def)
    next
      case lim: True
      obtain l r1 where l: "ri_list ri (cs_registry c) no_filter no_page = (l, r1)" by fastforce
      show ?thesis
      proof (cases l)
        case (Inl e)
        then have "\<not> is_ok res"
          using assms gu lim l by (auto simp: core_create_plugin_def is_ok_def Let_def)
        then show ?thesis using True l Inl by (auto simp: guard_def)
      next
        case (Inr ps)
        show ?thesis
        proof (cases "int (length ps) \<ge> max_plugins c")
          case over: True
          then have "(\<exists>e. res = Inl e \<and> errors_is e ErrMaxPluginsExceeded) \<and> cs_registry c' = r1"
            using assms gu lim l Inr
            by (auto simp: core_create_plugin_def Let_def err_max_plugins_exceeded_def)
          then show ?thesis using True l Inr over by (auto simp: guard_def is_ok_def)
        next
          case False
          then show ?thesis using True l Inr by (auto simp: guard_def)
        qed
      qed
    qed
  qed
qed

subsection \<open>Names and error codes\<close>

text \<open>
  The name of a generation request splits into exactly the group, the name and the version it
  was put together from; a request name with more or fewer separators is refused.
\<close>

theorem plugin_name_round_trip:
  assumes "CHR ''/'' \<notin> set g \<union> set n \<union> set v" "CHR '':'' \<notin> set n \<union> set v"
  shows "get_group (plugin_name_of g n v) = Inr g \<and> get_name_and_version (plugin_name_of g n v) = Inr (n, v)"
proof -
  have "split_on CHR ''/'' (g @ CHR ''/'' # (n @ '':'' @ v)) = [g, n @ '':'' @ v]"
    using assms by (simp add: split_on_append split_on_no_sep)
  moreover have "split_on CHR '':'' (n @ CHR '':'' # v) = [n, v]"
    using assms by (simp add: split_on_append split_on_no_sep)
  ultimately show ?thesis
    by (simp add: get_group_def get_name_and_version_def plugin_name_of_def plugin_name_parts_def)
qed

theorem plugin_name_round_trip_witness:
  "get_group ''protocolbuffers/go:v1.36.10'' = Inr ''protocolbuffers'' \<and>
   get_name_and_version ''protocolbuffers/go:v1.36.10'' = Inr (''go'', ''v1.36.10'')"
  using plugin_name_round_trip [of "''protocolbuffers''" "''go''" "''v1.36.10''"]
  by (simp add: plugin_name_of_def)

text \<open>
  An invalid configuration, which the API reports as such, is audited as an internal error: the
  table of codes has no entry for it.
\<close>

theorem invalid_config_audited_internal:
  "error_code (wrap_after err_invalid_config detail) = ''INTERNAL''"
  by (simp add: error_code_def error_codes_def err_invalid_config_def)

text \<open>A request the gate denies is audited as denied.\<close>

lemma feature_denied_code: "check_feature c f = Some e \<Longrightarrow> error_code e = ''FEATURE_DENIED''"
  by (auto simp: check_feature_def error_code_def error_codes_def err_feature_denied_def split: option.splits if_splits)

text \<open>
  Update and delete reach the registry only with the feature licensed (and, for update, a well
  formed key), and then return what the registry returned.
\<close>

theorem update_delete_guarded:
  "(check_feature c FeaturePluginCRUD \<noteq> None \<longrightarrow>
      cs_registry (snd (core_update_plugin ri c call req)) = cs_registry c \<and>
      cs_registry (snd (core_delete_plugin ri c call g n v)) = cs_registry c \<and>
      (\<exists>e. fst (core_update_plugin ri c call req) = Inl e \<and> error_code e = ''FEATURE_DENIED'') \<and>
      (\<exists>e. fst (core_delete_plugin ri c call g n v) = Some e \<and> error_code e = ''FEATURE_DENIED'')) \<and>
   (check_feature c FeaturePluginCRUD = None \<longrightarrow>
      cs_registry (snd (core_delete_plugin ri c call g n v)) = snd (ri_delete ri (cs_registry c) g n v) \<and>
      (fst (core_delete_plugin ri c call g n v) = None \<longleftrightarrow> fst (ri_delete ri (cs_registry c) g n v) = None) \<and>
      (name_matches (ur_group req) \<and> name_matches (ur_name req) \<and> version_matches (ur_version req) \<longrightarrow>
         cs_registry (snd (core_update_plugin ri c call req)) = snd (ri_update ri (cs_registry c) req) \<and>
         (is_ok (fst (core_update_plugin ri c call req)) \<longleftrightarrow> is_ok (fst (ri_update ri (cs_registry c) req)))))"
proof (cases "check_feature c FeaturePluginCRUD")
  case None
  have "cs_registry (snd (core_delete_plugin ri c call g n v)) = snd (ri_delete ri (cs_registry c) g n v) \<and>
      (fst (core_delete_plugin ri c call g n v) = None \<longleftrightarrow> fst (ri_delete ri (cs_registry c) g n v) = None)"
    using None by (cases "ri_delete ri (cs_registry c) g n v") (simp add: core_delete_plugin_def Let_def split: option.splits)
  moreover have "cs_registry (snd (core_update_plugin ri c call req)) = snd (ri_update ri (cs_registry c) req) \<and>
      (is_ok (fst (core_update_plugin ri c call req)) \<longleftrightarrow> is_ok (fst (ri_update ri (cs_registry c) req)))"
    if "name_matches (ur_group req)" "name_matches (ur_name req)" "version_matches (ur_version req)"
    using None that by (cases "ri_update ri (cs_registry c) req")
      (simp add: core_update_plugin_def validate_group_name_def validate_version_def Let_def is_ok_def split: sum.splits)
  ultimately show ?thesis using None by simp
next
  case (Some e)
  then show ?thesis using feature_denied_code [OF Some]
    by (simp add: core_update_plugin_def core_delete_plugin_def Let_def)
qed

subsection \<open>Concrete runs\<close>

definition sample_iface :: "(nat, nat, unit, nat) reg_iface" where
  "sample_iface =
     \<lparr>ri_get = (\<lambda>r g n v. (Inr 0, r)), ri_list = (\<lambda>r f pg. (Inr [], r)),
      ri_create = (\<lambda>r req. (Inr \<lparr>pi_id = r, pi_group = cr_group req, pi_name = cr_name req,
         pi_version = cr_version req, pi_tags = [], pi_created_at = 0\<rparr>, Suc r)),
      ri_update = (\<lambda>r req. (Inl err_not_found, r)), ri_delete = (\<lambda>r g n v. (None, r - 1)),
      ri_generate = (\<lambda>r p q. (Inr 3, r)),
      ri_info = (\<lambda>p. \<lparr>pi_id = 0, pi_group = [], pi_name = [], pi_version = [], pi_tags = [], pi_created_at = 0\<rparr>),
      ri_file_count = id, ri_metrics = (\<lambda>i. None)\<rparr>"

definition sample_core :: "nat core_state" where
  "sample_core = \<lparr>cs_registry = 0, cs_gate = Some \<lparr>ga_enabled = (\<lambda>f. f = FeaturePluginCRUD), ga_max_plugins = 10\<rparr>,
     cs_sink = True, cs_calls = [], cs_counted = []\<rparr>"

definition sample_call :: call where
  "sample_call = \<lparr>ca_ctx = \<lparr>ctx_caller_ip = None, ctx_actor = None\<rparr>, ca_start = 0, ca_finish = 0, ca_created = 0, ca_id = 1\<rparr>"

definition sample_create :: create_request where
  "sample_create = \<lparr>cr_group = ''g'', cr_name = ''n'', cr_version = ''v1.0'', cr_config = RawEmpty, cr_tags = []\<rparr>"

theorem create_guarded_witness:
  "\<exists>res c'. core_create_plugin sample_iface sample_core sample_call sample_create = (res, c') \<and> is_ok res \<and>
     cs_registry c' = 1 \<and> version_matches (cr_version sample_create)"
proof -
  obtain res c' where r: "core_create_plugin sample_iface sample_core sample_call sample_create = (res, c')" by fastforce
  have "is_ok res \<and> cs_registry c' = 1"
    using r by (auto simp: core_create_plugin_def sample_iface_def sample_core_def sample_create_def check_feature_def
        validate_group_name_def validate_version_def name_matches_def version_matches_def all_digits_def is_lower_def
        is_digit_def max_plugins_def is_ok_def)
  moreover from this create_guarded [OF r] have "cr_version sample_create = ''latest'' \<or> version_matches (cr_version sample_create)"
    by blast
  ultimately show ?thesis using r by (auto simp: sample_create_def)
qed

theorem update_delete_guarded_witness:
  "fst (core_delete_plugin sample_iface sample_core sample_call ''g'' ''n'' ''v1'') = None"
proof -
  have "check_feature sample_core FeaturePluginCRUD = None" by (simp add: check_feature_def sample_core_def)
  then have "(fst (core_delete_plugin sample_iface sample_core sample_call ''g'' ''n'' ''v1'') = None \<longleftrightarrow>
      fst (ri_delete sample_iface (cs_registry sample_core) ''g'' ''n'' ''v1'') = None)"
    using update_delete_guarded [of sample_core sample_iface sample_call _ "''g''" "''n''" "''v1''"] by blast
  then show ?thesis by (simp add: sample_iface_def)
qed

end
