(* ===== verification/Service.thy ===== *)
theory Service
  imports RegistryReads RegistryWrites PluginRun Pool Core
begin

text \<open>
  The service as it is wired at startup (\<^verbatim>\<open>cmd/easyp-svc/start.go\<close>): the core over the worker pool over the
  registry. What a request meets outside the program is its \<open>surroundings\<close>; a run of the service is
  a sequence of requests, each with its own. The lemmas follow the plugins table through such a run.
\<close>

record ('req, 'resp) surroundings =
  sr_outside :: outside
  sr_fs :: fs                                \<comment> \<open>the file system another flight left behind\<close>
  sr_refused :: "go_error option"            \<comment> \<open>the pool's queue refuses the job, or the caller leaves it\<close>
  sr_no_slot :: "go_error option"            \<comment> \<open>\<open>acquire\<close> of the generation limiter fails\<close>
  sr_codec :: "'req \<Rightarrow> 'resp codec"
  sr_child :: "nat \<Rightarrow> child"                  \<comment> \<open>the process of the \<open>k\<close>-th attempt\<close>
  sr_ctx :: "nat \<Rightarrow> go_error option"          \<comment> \<open>the caller's context before it\<close>
  sr_ctx_after :: "go_error option"
  sr_file_count :: "'resp \<Rightarrow> nat"
  sr_metrics :: "plugin_info \<Rightarrow> go_error option"

text \<open>
  \<open>Create\<close> and \<open>Update\<close> do not panic (\<open>create_total\<close>, \<open>update_total\<close> below), so the error
  in their last branches never shows.
\<close>

definition or_panic :: "registry \<Rightarrow> ('a result \<times> registry) option \<Rightarrow> 'a result \<times> registry" where
  "or_panic rg r = (case r of Some x \<Rightarrow> x | None \<Rightarrow> (Inl (plain_error ''panic''), rg))"

definition pooled_generate ::
  "('req, 'resp) surroundings \<Rightarrow> pool_config \<Rightarrow> plugin \<Rightarrow> 'req \<Rightarrow> 'resp option result" where
  "pooled_generate sr cfg p req =
     (let r = fst (pool_generate cfg (sr_no_slot sr)
                (\<lambda>k. fst (plugin_generate p (sr_codec sr req) (sr_child sr k))) (sr_ctx sr) (sr_ctx_after sr))
      in case gr_err r of Some e \<Rightarrow> Inl e | None \<Rightarrow> Inr (gr_resp r))"

definition service_iface ::
  "('req, 'resp) surroundings \<Rightarrow> (string \<Rightarrow> 'k::linorder) \<Rightarrow> pool_config
   \<Rightarrow> (registry, plugin, 'req, 'resp option) reg_iface" where
  "service_iface sr collate cfg =
     \<lparr>ri_get = (\<lambda>rg g n v. case sr_refused sr of
                   Some e \<Rightarrow> (Inl e, rg) | None \<Rightarrow> registry_get (sr_outside sr) collate (sr_fs sr) rg g n v),
      ri_list = (\<lambda>rg f pg. (registry_list (sr_outside sr) collate rg f pg, rg)),
      ri_create = (\<lambda>rg req. or_panic rg (registry_create (sr_outside sr) rg req)),
      ri_update = (\<lambda>rg req. or_panic rg (registry_update (sr_outside sr) rg req)),
      ri_delete = registry_delete (sr_outside sr),
      ri_generate = (\<lambda>rg p req. (pooled_generate sr cfg p req, rg)),
      ri_info = (\<lambda>p. row_info (pl_row p)),
      ri_file_count = (\<lambda>r. case r of None \<Rightarrow> 0 | Some x \<Rightarrow> sr_file_count sr x),
      ri_metrics = sr_metrics sr\<rparr>"

datatype 'req request =
    Generate call string 'req
  | ListPlugins call plugin_filter plugin_page
  | CreatePlugin call create_request
  | UpdatePlugin call update_request
  | DeletePlugin call string string string

fun serve ::
  "(string \<Rightarrow> 'k::linorder) \<Rightarrow> pool_config \<Rightarrow> ('req, 'resp) surroundings \<times> 'req request
   \<Rightarrow> registry core_state \<Rightarrow> registry core_state" where
  "serve collate cfg (sr, Generate call pn payload) c = snd (core_generate (service_iface sr collate cfg) c call pn payload)"
| "serve collate cfg (sr, ListPlugins call f pg) c = snd (core_list_plugins (service_iface sr collate cfg) c call f pg)"
| "serve collate cfg (sr, CreatePlugin call req) c = snd (core_create_plugin (service_iface sr collate cfg) c call req)"
| "serve collate cfg (sr, UpdatePlugin call req) c = snd (core_update_plugin (service_iface sr collate cfg) c call req)"
| "serve collate cfg (sr, DeletePlugin call g n v) c = snd (core_delete_plugin (service_iface sr collate cfg) c call g n v)"

definition serve_all ::
  "(string \<Rightarrow> 'k::linorder) \<Rightarrow> pool_config \<Rightarrow> (('req, 'resp) surroundings \<times> 'req request) list
   \<Rightarrow> registry core_state \<Rightarrow> registry core_state" where
  "serve_all collate cfg steps c = fold (serve collate cfg) steps c"

subsection \<open>The registry below\<close>

text \<open>A document that validates is an object, so taking the checksum never writes into a nil map.\<close>

lemma config_with_checksum_total:
  assumes "validate_config config dir = None"
  shows "config_with_checksum renumber config digest \<noteq> None"
proof -
  have "config \<noteq> RawDoc JNull"
    using assms by (auto simp: validate_config_def unmarshal_config_def zero_config_def)
  then show ?thesis by (auto simp: config_with_checksum_def split: raw_json.split json.split option.split)
qed

lemma attach_total:
  assumes "validate_config config dir = None"
  shows "attach_archive_checksum ou g n v config \<noteq> None"
  using config_with_checksum_total [OF assms]
  by (simp add: attach_archive_checksum_def Let_def split: option.split sum.split bool.split)
    (metis option.distinct(1))

lemma create_total: "registry_create ou rg req \<noteq> None"
  using attach_total [of "cr_config req" "rg_plugins_dir rg"]
  by (simp add: registry_create_def split: option.split sum.split) (metis option.distinct(1))

lemma update_total: "registry_update ou rg req \<noteq> None"
  using attach_total [of "ur_config req" "rg_plugins_dir rg"]
  by (simp add: registry_update_def split: option.split sum.split) (metis option.distinct(1))

lemma staging_dir_rows [simp]: "rg_rows (snd (staging_dir rg)) = rg_rows rg"
  by (simp add: staging_dir_def Let_def split: prod.split option.split)

lemma fetch_rows [simp]: "rg_rows (snd (fetch_and_unpack ou rg k d s)) = rg_rows rg"
  using staging_dir_rows [of rg]
  by (auto simp: fetch_and_unpack_def Let_def simp del: staging_dir_rows split: prod.split option.split sum.split)

lemma ensure_rows [simp]: "rg_rows (snd (ensure_binary ou fs' rg row cfg)) = rg_rows rg"
  using fetch_rows [of ou "rg\<lparr>rg_fs := fs'\<rparr>" "archive_key (pr_group row) (pr_name row) (pr_version row)"]
  by (auto simp: ensure_binary_def Let_def simp del: fetch_rows split: list.split prod.split option.split)
     (metis snd_conv)+

lemma get_rows [simp]: "rg_rows (snd (registry_get ou collate fs' rg g n v)) = rg_rows rg"
proof -
  have "rg_rows rg1 = rg_rows rg" if "ensure_binary ou fs' rg row cfg = (e, rg1)" for row cfg e rg1
    using ensure_rows [of ou fs' rg row cfg] that by simp
  then show ?thesis
    by (auto simp: registry_get_def split: option.split sum.split prod.split)
qed

lemma create_rows:
  assumes "or_panic rg (registry_create ou rg req) = (res, rg')"
  obtains "rg_rows rg' = rg_rows rg"
  | row where "rg_rows rg' = rg_rows rg @ [row]" "row_key row \<notin> row_key ` set (rg_rows rg)"
proof -
  have "rg_rows rg' = rg_rows rg \<or>
      (\<exists>row. rg_rows rg' = rg_rows rg @ [row] \<and> row_key row \<notin> row_key ` set (rg_rows rg))"
  proof (cases "registry_create ou rg req")
    case None
    then show ?thesis using create_total by blast
  next
    case (Some x)
    then consider "rg' = rg" | c where "insert_row ou rg req c = (res, rg')"
      using assms by (auto simp: or_panic_def registry_create_def split: option.splits sum.splits if_splits)
    then show ?thesis
      by cases (auto simp: insert_row_def Let_def split: option.splits if_splits)
  qed
  then show ?thesis using that by blast
qed

lemma update_rows:
  assumes "or_panic rg (registry_update ou rg req) = (res, rg')"
  shows "map row_key (rg_rows rg') = map row_key (rg_rows rg)"
proof (cases "registry_update ou rg req")
  case None
  then show ?thesis using update_total by blast
next
  case (Some x)
  then consider "rg' = rg" | c where "update_row ou rg req c = (res, rg')"
    using assms by (auto simp: or_panic_def registry_update_def split: option.splits sum.splits if_splits)
  then show ?thesis
    by cases (auto simp: update_row_def split: option.splits)
qed

lemma delete_rows:
  "rg_rows (snd (registry_delete ou rg g n v)) =
     (if ou_db_error ou \<noteq> None then rg_rows rg
      else filter (\<lambda>r. row_key r \<noteq> \<lparr>pk_group = g, pk_name = n, pk_version = v\<rparr>) (rg_rows rg))"
proof -
  let ?kept = "filter (\<lambda>r. row_key r \<noteq> \<lparr>pk_group = g, pk_name = n, pk_version = v\<rparr>) (rg_rows rg)"
  have "?kept = rg_rows rg" if "length ?kept = length (rg_rows rg)"
    using that by (metis filter_True length_filter_less nless_le)
  then show ?thesis
    by (cases "length ?kept = length (rg_rows rg)")
      (simp_all add: registry_delete_def cleanup_binary_def Let_def split: option.split)
qed

subsection \<open>A run of the service\<close>

text \<open>What every request keeps: one row per key, and no more rows than the licence allows.\<close>

definition table_ok :: "registry core_state \<Rightarrow> bool" where
  "table_ok c \<longleftrightarrow> rows_unique (rg_rows (cs_registry c)) \<and>
     int (length (rg_rows (cs_registry c))) \<le> max_plugins c"

lemma reported_keeps:
  "reported op k c c' \<Longrightarrow> max_plugins c' = max_plugins c \<and> cs_sink c' = cs_sink c \<and>
     length (cs_counted c') = Suc (length (cs_counted c)) \<and>
     length (cs_calls c') = length (cs_calls c) + (if cs_sink c then 1 else 0)"
  by (auto simp: reported_def max_plugins_def split: if_splits)

lemma serve_reported: "\<exists>op k. reported op k c (serve collate cfg step c)"
proof (induction collate cfg step c rule: serve.induct)
  case (1 collate cfg sr call pn payload c)
  show ?case unfolding serve.simps by (rule exI)+ (rule generate_reported)
next
  case (2 collate cfg sr call f pg c)
  show ?case unfolding serve.simps by (rule exI)+ (rule list_reported)
next
  case (3 collate cfg sr call req c)
  show ?case unfolding serve.simps by (rule exI)+ (rule create_reported)
next
  case (4 collate cfg sr call req c)
  show ?case unfolding serve.simps by (rule exI)+ (rule update_reported)
next
  case (5 collate cfg sr call g n v c)
  show ?case unfolding serve.simps by (rule exI)+ (rule delete_reported)
qed

lemma generate_registry:
  "rg_rows (cs_registry (snd (core_generate (service_iface sr collate cfg) c call pn payload))) =
     rg_rows (cs_registry c)"
proof -
  have "rg_rows r1 = rg_rows rg" if "ri_get (service_iface sr collate cfg) rg g n v = (x, r1)" for rg g n v x r1
  proof (cases "sr_refused sr")
    case None
    then have "registry_get (sr_outside sr) collate (sr_fs sr) rg g n v = (x, r1)"
      using that by (simp add: service_iface_def)
    then show ?thesis using get_rows [of "sr_outside sr" collate "sr_fs sr" rg g n v] by (metis snd_conv)
  next
    case (Some e)
    then show ?thesis using that by (simp add: service_iface_def)
  qed
  moreover have "r2 = r1" if "ri_generate (service_iface sr collate cfg) r1 p payload = (y, r2)" for r1 p y r2
    using that by (simp add: service_iface_def)
  ultimately show ?thesis
    by (fastforce simp: core_generate_def split: sum.split prod.split option.split)
qed

text \<open>Where a creation leaves the registry, for any registry below.\<close>

lemma create_reaches:
  obtains "cs_registry (snd (core_create_plugin ri c call req)) = cs_registry c"
  | l r1 where "ri_list ri (cs_registry c) no_filter no_page = (l, r1)"
      "cs_registry (snd (core_create_plugin ri c call req)) = r1"
  | res where "max_plugins c < 0"
      "ri_create ri (cs_registry c) req = (res, cs_registry (snd (core_create_plugin ri c call req)))"
  | ps r1 res where "ri_list ri (cs_registry c) no_filter no_page = (Inr ps, r1)"
      "int (length ps) < max_plugins c"
      "ri_create ri r1 req = (res, cs_registry (snd (core_create_plugin ri c call req)))"
proof -
  let ?rg' = "cs_registry (snd (core_create_plugin ri c call req))"
  consider "check_feature c FeaturePluginCRUD \<noteq> None" | "validate_group_name (cr_group req) (cr_name req) \<noteq> None"
    | "validate_version (cr_version req) \<noteq> None"
    | "check_feature c FeaturePluginCRUD = None" "validate_group_name (cr_group req) (cr_name req) = None"
      "validate_version (cr_version req) = None" by blast
  then show ?thesis
  proof cases
    case 4
    note guards = 4
    show ?thesis
    proof (cases "max_plugins c \<ge> 0")
      case False
      obtain res r2 where r: "ri_create ri (cs_registry c) req = (res, r2)" by fastforce
      then have "?rg' = r2" using guards False
        by (simp add: core_create_plugin_def Let_def split: sum.split)
      then show ?thesis using that(3) False r by simp
    next
      case True
      obtain l r1 where l: "ri_list ri (cs_registry c) no_filter no_page = (l, r1)" by fastforce
      obtain res r2 where r: "ri_create ri r1 req = (res, r2)" by fastforce
      show ?thesis
      proof (cases "\<exists>ps. l = Inr ps \<and> int (length ps) < max_plugins c")
        case False
        then have "?rg' = r1" using guards True l
          by (auto simp: core_create_plugin_def Let_def split: sum.split)
        then show ?thesis using that(2) l by simp
      next
        case fits: True
        then obtain ps where ps: "l = Inr ps" "int (length ps) < max_plugins c" by blast
        then have "?rg' = r2" using guards True l r
          by (simp add: core_create_plugin_def Let_def split: sum.split)
        then show ?thesis using that(4) l ps r by simp
      qed
    qed
  qed (use that(1) in \<open>auto simp: core_create_plugin_def Let_def split: option.split\<close>)
qed

lemma create_registry:
  assumes "rows_unique (rg_rows (cs_registry c))"
  shows "let rows = rg_rows (cs_registry c);
             rows' = rg_rows (cs_registry (snd (core_create_plugin (service_iface sr collate cfg) c call req)))
         in rows_unique rows' \<and> (max_plugins c \<ge> 0 \<longrightarrow> int (length rows) \<le> max_plugins c \<longrightarrow>
              int (length rows') \<le> max_plugins c)"
proof -
  let ?ri = "service_iface sr collate cfg" and ?rg = "cs_registry c"
  let ?rg' = "cs_registry (snd (core_create_plugin ?ri c call req))"
  have list: "ri_list ?ri ?rg no_filter no_page = (l, r1) \<Longrightarrow> r1 = ?rg \<and>
      (\<forall>ps. l = Inr ps \<longrightarrow> length ps = length (rg_rows ?rg))" for l r1
    by (auto simp: service_iface_def registry_list_def query_all row_matches_def no_filter_def split: option.splits)
  have "?rg' = ?rg \<or> (\<exists>res. ri_create ?ri ?rg req = (res, ?rg') \<and>
      (max_plugins c \<ge> 0 \<longrightarrow> int (length (rg_rows ?rg)) < max_plugins c))"
  proof (rule create_reaches [of ?ri c call req])
    fix l r1 assume "ri_list ?ri ?rg no_filter no_page = (l, r1)" "?rg' = r1"
    then show ?thesis using list by blast
  next
    fix ps r1 res assume "ri_list ?ri ?rg no_filter no_page = (Inr ps, r1)" "int (length ps) < max_plugins c"
      "ri_create ?ri r1 req = (res, ?rg')"
    then show ?thesis using list by metis
  qed auto
  then consider "?rg' = ?rg"
    | res where "ri_create ?ri ?rg req = (res, ?rg')"
        "max_plugins c \<ge> 0 \<longrightarrow> int (length (rg_rows ?rg)) < max_plugins c" by blast
  then show ?thesis
  proof cases
    case 1
    then show ?thesis using assms by (simp add: Let_def)
  next
    case (2 res)
    then have "or_panic ?rg (registry_create (sr_outside sr) ?rg req) = (res, ?rg')"
      by (simp add: service_iface_def)
    then show ?thesis
      by (rule create_rows) (use 2 assms in \<open>auto simp: Let_def rows_unique_def\<close>)
  qed
qed

lemma update_registry:
  "map row_key (rg_rows (cs_registry (snd (core_update_plugin (service_iface sr collate cfg) c call req)))) =
     map row_key (rg_rows (cs_registry c))"
proof -
  obtain res rg' where r: "or_panic (cs_registry c) (registry_update (sr_outside sr) (cs_registry c) req) = (res, rg')"
    by fastforce
  have "cs_registry (snd (core_update_plugin (service_iface sr collate cfg) c call req)) \<in> {cs_registry c, rg'}"
    using r by (simp add: core_update_plugin_def service_iface_def Let_def split: option.split sum.split)
  then show ?thesis using update_rows [OF r] by auto
qed

lemma delete_registry:
  "\<exists>P. rg_rows (cs_registry (snd (core_delete_plugin (service_iface sr collate cfg) c call g n v))) =
     filter P (rg_rows (cs_registry c))"
proof -
  obtain res rg' where r: "registry_delete (sr_outside sr) (cs_registry c) g n v = (res, rg')" by fastforce
  have "cs_registry (snd (core_delete_plugin (service_iface sr collate cfg) c call g n v)) \<in> {cs_registry c, rg'}"
    using r by (simp add: core_delete_plugin_def service_iface_def Let_def split: option.split)
  moreover have "\<exists>P. rg_rows rg' = filter P (rg_rows (cs_registry c))"
    using delete_rows [of "sr_outside sr" "cs_registry c" g n v] r by (auto intro: exI [of _ "\<lambda>_. True"])
  moreover have "\<exists>P. rg_rows (cs_registry c) = filter P (rg_rows (cs_registry c))"
    by (rule exI [of _ "\<lambda>_. True"]) simp
  ultimately show ?thesis by auto
qed

lemma list_registry [simp]:
  "cs_registry (snd (core_list_plugins (service_iface sr collate cfg) c call f pg)) = cs_registry c"
  by (simp add: core_list_plugins_def service_iface_def Let_def split: sum.split)

lemma serve_table:
  assumes "table_ok c" "max_plugins c \<ge> 0"
  shows "table_ok (serve collate cfg step c)"
proof -
  let ?c' = "serve collate cfg step c"
  have m: "max_plugins ?c' = max_plugins c" using serve_reported reported_keeps by metis
  have "rows_unique (rg_rows (cs_registry ?c')) \<and> int (length (rg_rows (cs_registry ?c'))) \<le> max_plugins c"
    using assms unfolding table_ok_def
  proof (induction collate cfg step c rule: serve.induct)
    case (3 collate cfg sr call req c)
    then show ?case using create_registry [of c sr collate cfg call req] by (simp add: Let_def)
  next
    case (4 collate cfg sr call req c)
    then show ?case using update_registry [of sr collate cfg c call req]
      by (simp add: rows_unique_def) (metis length_map)
  next
    case (5 collate cfg sr call g n v c)
    obtain P where "rg_rows (cs_registry (serve collate cfg (sr, DeletePlugin call g n v) c)) =
        filter P (rg_rows (cs_registry c))"
      using delete_registry [of sr collate cfg c call g n v] by auto
    moreover have "int (length (filter P (rg_rows (cs_registry c)))) \<le> max_plugins c"
      using length_filter_le [of P "rg_rows (cs_registry c)"] 5 by linarith
    ultimately show ?case using 5 by (simp add: rows_unique_def distinct_map_filter)
  qed (simp_all add: generate_registry)
  then show ?thesis by (simp add: table_ok_def m)
qed


subsection \<open>What a client sees\<close>

text \<open>One page, as the client of \<open>ListPlugins\<close> receives it; the empty last page stands for an error.\<close>

definition fetch_page ::
  "('req, 'resp) surroundings \<Rightarrow> (string \<Rightarrow> 'k::linorder) \<Rightarrow> pool_config \<Rightarrow> registry core_state \<Rightarrow> call
   \<Rightarrow> plugin_filter \<Rightarrow> plugin_page \<Rightarrow> plugin_list" where
  "fetch_page sr collate cfg c call f pg =
     (case fst (core_list_plugins (service_iface sr collate cfg) c call f pg) of
        Inl e \<Rightarrow> \<lparr>pl_plugins = [], pl_next = None\<rparr> | Inr l \<Rightarrow> l)"

lemma fetch_page_core:
  assumes "ou_db_error (sr_outside sr) = None"
  shows "fetch_page sr collate cfg c call f = listing.core_page (list_rows collate) (rg_rows (cs_registry c)) f"
  using assms
  by (intro ext) (simp add: fetch_page_def core_list_plugins_def service_iface_def registry_list_def
      reg.core_page_def list_rows_def Let_def)

text \<open>
  A client that follows the pages of the listing, whatever page size it asks for, receives every
  plugin that matches its filter exactly once, in the order of the keys, and then the last page.
\<close>

theorem page_walk_complete:
  assumes "ou_db_error (sr_outside sr) = None" "rows_unique (rg_rows (cs_registry c))" "inj collate"
    and "length (rg_rows (cs_registry c)) < fuel"
  shows "page_walk (fetch_page sr collate cfg c call f) fuel n None =
      Some (map row_info (sort_key (\<lambda>r. key_of collate (row_key r)) (filter (row_matches f) (rg_rows (cs_registry c)))))"
proof -
  have ok: "rows_ok collate (rg_rows (cs_registry c))"
    using assms(2,3) by (simp add: rows_ok_def rows_unique_def)
  have all: "listing.all (list_rows collate) (rg_rows (cs_registry c)) f =
      map row_info (sort_key (\<lambda>r. key_of collate (row_key r)) (filter (row_matches f) (rg_rows (cs_registry c))))"
    by (simp add: reg.all_def list_rows_def query_all)
  have "length (listing.all (list_rows collate) (rg_rows (cs_registry c)) f) < fuel"
    using le_less_trans [OF length_filter_le [of "row_matches f" "rg_rows (cs_registry c)"] assms(4)]
    by (simp add: all)
  from reg.core_walk_all [OF ok this, of n] show ?thesis
    unfolding all fetch_page_core [OF assms(1)] .
qed

text \<open>What a successful creation does to the table.\<close>

lemma created_row:
  assumes "core_create_plugin (service_iface sr collate cfg) c call req = (Inr info, c')"
  obtains row where "rg_rows (cs_registry c') = rg_rows (cs_registry c) @ [row]" "row_info row = info"
    "row_key row = \<lparr>pk_group = cr_group req, pk_name = cr_name req, pk_version = cr_version req\<rparr>"
    "row_key row \<notin> row_key ` set (rg_rows (cs_registry c))" "pr_tags row = cr_tags req"
proof -
  let ?ri = "service_iface sr collate cfg" and ?rg = "cs_registry c"
  have "r1 = ?rg" if "ri_list ?ri ?rg no_filter no_page = (l, r1)" for l r1
    using that by (simp add: service_iface_def)
  then have "ri_create ?ri ?rg req = (Inr info, cs_registry c')"
    using assms by (auto simp: core_create_plugin_def Let_def split: option.splits sum.splits prod.splits if_splits)
  then have "or_panic ?rg (registry_create (sr_outside sr) ?rg req) = (Inr info, cs_registry c')"
    by (simp add: service_iface_def)
  then obtain config where i: "insert_row (sr_outside sr) ?rg req config = (Inr info, cs_registry c')"
    by (auto simp: or_panic_def registry_create_def split: option.splits sum.splits if_splits)
  let ?row = "\<lparr>pr_id = ou_new_id (sr_outside sr), pr_group = cr_group req, pr_name = cr_name req,
      pr_version = cr_version req, pr_config = stored_config (sr_outside sr) config, pr_tags = cr_tags req,
      pr_created_at = ou_now (sr_outside sr) 0\<rparr>"
  have "cs_registry c' = ?rg\<lparr>rg_rows := rg_rows ?rg @ [?row]\<rparr>" "row_info ?row = info"
    "row_key ?row \<notin> row_key ` set (rg_rows ?rg)"
    using i by (auto simp: insert_row_def Let_def split: option.splits if_splits)
  then show ?thesis by (intro that [of ?row]) (simp_all add: row_key_def)
qed

text \<open>
  A plugin that was registered is found: it is in the listing, and a lookup of its version finds
  its row and no other, with the identity that was returned.
\<close>

theorem created_is_found:
  assumes "core_create_plugin (service_iface sr collate cfg) c call req = (Inr info, c')"
    and "rows_unique (rg_rows (cs_registry c))" "cr_version req \<noteq> latest_version"
  shows "\<exists>row. select_row collate (rg_rows (cs_registry c')) (cr_group req) (cr_name req) (cr_version req) = Some row \<and>
    row_info row = info \<and> pr_tags row = cr_tags req \<and>
    info \<in> set (list_rows collate (rg_rows (cs_registry c')) no_filter no_page) \<and>
    (\<forall>r \<in> set (rg_rows (cs_registry c')). row_key r = row_key row \<longrightarrow> r = row)"
proof -
  obtain row where row: "rg_rows (cs_registry c') = rg_rows (cs_registry c) @ [row]" "row_info row = info"
    "row_key row = \<lparr>pk_group = cr_group req, pk_name = cr_name req, pk_version = cr_version req\<rparr>"
    "row_key row \<notin> row_key ` set (rg_rows (cs_registry c))" "pr_tags row = cr_tags req"
    by (rule created_row [OF assms(1)])
  let ?P = "\<lambda>r. pr_group r = cr_group req \<and> pr_name r = cr_name req \<and> pr_version r = cr_version req"
  have P: "?P r \<longleftrightarrow> row_key r = row_key row" for r
    unfolding row(3) by (auto simp: row_key_def)
  have "find ?P (rg_rows (cs_registry c)) = None"
    unfolding find_None_iff using row(4) P by (metis image_eqI)
  moreover have "find ?P (xs @ [row]) = Some row" if "find ?P xs = None" for xs
    using that P [of row] by (induction xs) (auto split: if_splits)
  ultimately have "select_row collate (rg_rows (cs_registry c')) (cr_group req) (cr_name req) (cr_version req) = Some row"
    using assms(3) by (simp add: select_row_def row(1))
  moreover have "info \<in> set (list_rows collate (rg_rows (cs_registry c')) no_filter no_page)"
    using row(1,2) by (simp add: list_rows_def query_all row_matches_def no_filter_def)
  moreover have "\<forall>r \<in> set (rg_rows (cs_registry c')). row_key r = row_key row \<longrightarrow> r = row"
    using row(1,4) by (metis Un_iff empty_iff image_eqI insert_iff list.set set_append)
  ultimately show ?thesis using row(2,5) by blast
qed

subsection \<open>Concrete runs\<close>

definition sample_surroundings :: "(unit, nat) surroundings" where
  "sample_surroundings =
     \<lparr>sr_outside = write_outside, sr_fs = Map.empty, sr_refused = None, sr_no_slot = None,
      sr_codec = (\<lambda>_. \<lparr>cd_marshal = Inr [], cd_unmarshal = (\<lambda>s. Inr (length s)), cd_duration = (\<lambda>_. Inr 0)\<rparr>),
      sr_child = (\<lambda>_. \<lparr>ch_stdout_pipe = None, ch_stderr_pipe = None, ch_start = None,
         ch_stdout = \<lparr>pi_data = [], pi_error = None\<rparr>, ch_stderr = \<lparr>pi_data = [], pi_error = None\<rparr>,
         ch_wait = WaitOk, ch_ctx = None\<rparr>),
      sr_ctx = (\<lambda>_. None), sr_ctx_after = None, sr_file_count = id, sr_metrics = (\<lambda>_. None)\<rparr>"

definition sample_service :: "registry core_state" where
  "sample_service =
     \<lparr>cs_registry = write_registry\<lparr>rg_storage := False\<rparr>,
      cs_gate = Some \<lparr>ga_enabled = (\<lambda>_. True), ga_max_plugins = 2\<rparr>, cs_sink = True, cs_calls = [], cs_counted = []\<rparr>"

definition sample_request :: create_request where
  "sample_request = \<lparr>cr_group = ''g'', cr_name = ''n'', cr_version = ''v2.0'', cr_config = good_config, cr_tags = [''u'']\<rparr>"

lemmas sample_service_defs = sample_surroundings_def sample_service_def write_registry_def write_outside_def


theorem page_walk_complete_witness:
  "page_walk (fetch_page sample_surroundings (\<lambda>s. s) sample_pool_config
       (sample_service\<lparr>cs_registry := sample_registry\<rparr>) sample_call no_filter) 3 1 None =
     Some (map row_info [sample_row 1 ''g'' ''n'' ''v1.0'', sample_row 2 ''g'' ''n'' ''v2.0''])"
proof -
  let ?c = "sample_service\<lparr>cs_registry := sample_registry\<rparr>"
  have a: "ou_db_error (sr_outside sample_surroundings) = None" "rows_unique (rg_rows (cs_registry ?c))"
    "inj (\<lambda>s::string. s)" "length (rg_rows (cs_registry ?c)) < 3"
    by (simp_all add: sample_service_defs sample_defs rows_unique_def row_key_def)
  show ?thesis
    unfolding page_walk_complete [OF a]
    by (simp add: sample_defs row_matches_def no_filter_def key_of_def row_key_def)
qed

theorem created_is_found_witness:
  "\<exists>info c'. core_create_plugin (service_iface sample_surroundings (\<lambda>s. s) sample_pool_config) sample_service
       sample_call sample_request = (Inr info, c') \<and>
     (\<exists>row. select_row (\<lambda>s. s) (rg_rows (cs_registry c')) ''g'' ''n'' ''v2.0'' = Some row \<and> row_info row = info)"
proof -
  let ?rg = "write_registry\<lparr>rg_storage := False\<rparr>"
  have "\<exists>info rg'. registry_create write_outside ?rg sample_request = Some (Inr info, rg')"
    using good_config_valid
    by (simp add: registry_create_def write_outside_def write_registry_def sample_request_def
        insert_row_def row_key_def Let_def)
  then obtain info rg' where r: "registry_create write_outside ?rg sample_request = Some (Inr info, rg')" by blast
  let ?ri = "service_iface sample_surroundings (\<lambda>s. s) sample_pool_config"
  obtain ps where l: "ri_list ?ri (cs_registry sample_service) no_filter no_page = (Inr ps, ?rg)" "length ps = 1"
    by (simp add: service_iface_def registry_list_def sample_service_defs query_all row_matches_def no_filter_def)
  have c: "ri_create ?ri ?rg sample_request = (Inr info, rg')"
    using r by (simp add: service_iface_def sample_surroundings_def or_panic_def)
  have g: "check_feature sample_service FeaturePluginCRUD = None" "max_plugins sample_service = 2"
    "validate_group_name (cr_group sample_request) (cr_name sample_request) = None"
    "validate_version (cr_version sample_request) = None"
    by (simp_all add: check_feature_def max_plugins_def sample_service_def sample_request_def validate_group_name_def
        name_matches_def validate_version_def version_matches_def all_digits_def is_lower_def is_digit_def)
  obtain c' where d: "core_create_plugin ?ri sample_service sample_call sample_request = (Inr info, c')"
    using l c g by (simp add: core_create_plugin_def Let_def)
  have u: "rows_unique (rg_rows (cs_registry sample_service))"
    by (simp add: sample_service_defs rows_unique_def)
  have v: "cr_version sample_request \<noteq> latest_version" by (simp add: sample_request_def latest_version_def)
  show ?thesis using created_is_found [OF d u v] d by (auto simp: sample_request_def)
qed

end
