(* ===== verification/Auth.thy ===== *)
theory Auth
  imports Domain
begin

text \<open>
  Authentication of the mutating calls: the configured tokens (\<^verbatim>\<open>internal/config/auth.go\<close>), the static
  token authenticator (\<^verbatim>\<open>internal/auth/static.go\<close>), the interceptors for credentials and for licensed
  methods (\<^verbatim>\<open>internal/api/auth_interceptor.go\<close>, \<^verbatim>\<open>internal/api/license_interceptor.go\<close>). SHA-256 is a
  parameter. The lemmas show that a validated token list authenticates exactly its tokens, that no
  method outside the public list reaches its handler without one, and that the environment encoding
  of a token list reads back.
\<close>

subsection \<open>Hexadecimal\<close>

text \<open>\<open>hex.DecodeString\<close>: \<^term>\<open>None\<close> for an odd length or a character that is no hex digit.\<close>

fun hex_decode :: "string \<Rightarrow> string option" where
  "hex_decode [] = Some []"
| "hex_decode [c] = None"
| "hex_decode (a # b # s) =
     (case (hex_value a, hex_value b, hex_decode s) of
        (Some x, Some y, Some r) \<Rightarrow> Some (char_of (16 * x + y) # r)
      | _ \<Rightarrow> None)"

subsection \<open>The configured tokens\<close>

record write_token =
  wt_name :: string
  wt_sha256 :: string

definition sha256_hex_length :: nat where "sha256_hex_length = 64"

text \<open>The sentinels of the section are plain errors: nothing tests for them.\<close>

definition err_token_name_required :: go_error where
  "err_token_name_required = plain_error ''auth.write_tokens: name is required''"
definition err_token_hash_required :: go_error where
  "err_token_hash_required = plain_error ''auth.write_tokens: sha256 is required''"
definition err_token_hash_malformed :: go_error where
  "err_token_hash_malformed = plain_error ''auth.write_tokens: sha256 must be 64 hex characters''"
definition err_token_name_duplicate :: go_error where
  "err_token_name_duplicate = plain_error ''auth.write_tokens: duplicate name''"
definition err_token_malformed_env :: go_error where
  "err_token_malformed_env = plain_error ''auth.write_tokens: expected name=sha256 pairs separated by commas''"

fun decode_pairs :: "string list \<Rightarrow> write_token list result" where
  "decode_pairs [] = Inr []"
| "decode_pairs (pair # pairs) =
     (case cut_at CHR ''='' (trim_space pair) of
        None \<Rightarrow> Inl (wrap_after err_token_malformed_env ('': got '' @ quoted pair))
      | Some (name, digest) \<Rightarrow>
          (case decode_pairs pairs of
             Inl e \<Rightarrow> Inl e
           | Inr ts \<Rightarrow> Inr (\<lparr>wt_name = trim_space name, wt_sha256 = trim_space digest\<rparr> # ts)))"

definition env_decode :: "string \<Rightarrow> write_token list result" where
  "env_decode val =
     (let trimmed = trim_space val in
      if trimmed = [] then Inr [] else decode_pairs (split_on CHR '','' trimmed))"

fun validate_tokens :: "nat \<Rightarrow> string set \<Rightarrow> write_token list \<Rightarrow> go_error option" where
  "validate_tokens idx seen [] = None"
| "validate_tokens idx seen (t # ts) =
     (if wt_name t = [] then Some (wrap_after err_token_name_required ('' (entry '' @ nat_digits idx @ '')''))
      else if wt_sha256 t = [] then Some (wrap_after err_token_hash_required ('' ('' @ wt_name t @ '')''))
      else if length (wt_sha256 t) \<noteq> sha256_hex_length
      then Some (wrap_after err_token_hash_malformed
             ('', got '' @ nat_digits (length (wt_sha256 t)) @ '' ('' @ wt_name t @ '')''))
      else case hex_decode (wt_sha256 t) of
          None \<Rightarrow> Some (wrap_both err_token_hash_malformed ('' ('' @ wt_name t @ ''): '')
                         (plain_error ''encoding/hex: invalid byte'') [])
        | Some d \<Rightarrow>
            if wt_name t \<in> seen then Some (wrap_after err_token_name_duplicate ('': '' @ wt_name t))
            else validate_tokens (Suc idx) (insert (wt_name t) seen) ts)"

definition validate_auth :: "write_token list \<Rightarrow> go_error option" where
  "validate_auth tokens = validate_tokens 0 {} tokens"

subsection \<open>The authenticator\<close>

definition err_no_credentials :: go_error where
  "err_no_credentials = errors_new ErrNoCredentials ''auth: no credentials presented''"
definition err_unknown_token :: go_error where
  "err_unknown_token = errors_new ErrUnknownToken ''auth: token not recognised''"

record actor =
  ac_name :: string
  ac_kind :: string

definition kind_token :: string where "kind_token = ''token''"
definition authorization_key :: string where "authorization_key = ''authorization''"
definition bearer_prefix :: string where "bearer_prefix = ''bearer ''"

record hashed_token =
  ht_name :: string
  ht_digest :: string

fun new_authenticator :: "write_token list \<Rightarrow> hashed_token list" where
  "new_authenticator [] = []"
| "new_authenticator (t # ts) =
     (case hex_decode (wt_sha256 t) of
        None \<Rightarrow> new_authenticator ts
      | Some d \<Rightarrow> \<lparr>ht_name = wt_name t, ht_digest = d\<rparr> # new_authenticator ts)"

definition auth_empty :: "hashed_token list \<Rightarrow> bool" where
  "auth_empty a \<longleftrightarrow> length a = 0"

text \<open>Metadata maps a lower-case key to the values sent under it, in order.\<close>

type_synonym metadata = "string \<Rightarrow> string list"

definition bearer_token :: "metadata \<Rightarrow> string option" where
  "bearer_token md =
     (case md authorization_key of
        [] \<Rightarrow> None
      | raw # _ \<Rightarrow>
          if length raw \<le> length bearer_prefix
             \<or> map to_lower (take (length bearer_prefix) raw) \<noteq> bearer_prefix then None
          else
            let token = trim_space (drop (length bearer_prefix) raw)
            in if token = [] then None else Some token)"

text \<open>Every candidate is compared; a later match replaces an earlier one.\<close>

definition match_tokens :: "string \<Rightarrow> hashed_token list \<Rightarrow> string" where
  "match_tokens digest tokens = fold (\<lambda>t matched. if ht_digest t = digest then ht_name t else matched) tokens []"

definition authenticate :: "(string \<Rightarrow> string) \<Rightarrow> hashed_token list \<Rightarrow> metadata \<Rightarrow> actor result" where
  "authenticate sha256 tokens md =
     (case bearer_token md of
        None \<Rightarrow> Inl err_no_credentials
      | Some presented \<Rightarrow>
          (let matched = match_tokens (sha256 presented) tokens in
           if matched = [] then Inl err_unknown_token
           else Inr \<lparr>ac_name = matched, ac_kind = kind_token\<rparr>))"

subsection \<open>The interceptors\<close>

datatype code =
    OK | CanceledCode | InvalidArgument | DeadlineExceededCode | NotFound | AlreadyExists | PermissionDenied
  | ResourceExhausted | FailedPrecondition | InternalCode | Unavailable | Unauthenticated

record status =
  st_code :: code
  st_message :: string
  st_reason :: "string option"       \<comment> \<open>of the attached \<open>ErrorInfo\<close>\<close>

definition method_generate_code :: string where "method_generate_code = ''/easyp.generator.v1.GeneratorAPI/GenerateCode''"
definition method_plugins :: string where "method_plugins = ''/easyp.generator.v1.GeneratorAPI/Plugins''"
definition method_create_plugin :: string where "method_create_plugin = ''/easyp.generator.v1.GeneratorAPI/CreatePlugin''"
definition method_update_plugin :: string where "method_update_plugin = ''/easyp.generator.v1.GeneratorAPI/UpdatePlugin''"
definition method_delete_plugin :: string where "method_delete_plugin = ''/easyp.generator.v1.GeneratorAPI/DeletePlugin''"
definition method_health_check :: string where "method_health_check = ''/grpc.health.v1.Health/Check''"
definition method_health_watch :: string where "method_health_watch = ''/grpc.health.v1.Health/Watch''"

lemmas method_defs = method_generate_code_def method_plugins_def method_create_plugin_def
  method_update_plugin_def method_delete_plugin_def method_health_check_def method_health_watch_def

record auth_interceptor =
  ai_tokens :: "hashed_token list"
  ai_public :: "string list"
  ai_no_credentials :: nat            \<comment> \<open>the failure counter, by reason\<close>
  ai_unknown_token :: nat

definition new_auth_interceptor :: "hashed_token list \<Rightarrow> auth_interceptor" where
  "new_auth_interceptor tokens =
     \<lparr>ai_tokens = tokens,
      ai_public = [method_generate_code, method_plugins, method_health_check, method_health_watch],
      ai_no_credentials = 0, ai_unknown_token = 0\<rparr>"

definition auth_reject :: "auth_interceptor \<Rightarrow> go_error \<Rightarrow> auth_interceptor" where
  "auth_reject ai e =
     (if errors_is e ErrNoCredentials then ai\<lparr>ai_no_credentials := Suc (ai_no_credentials ai)\<rparr>
      else ai\<lparr>ai_unknown_token := Suc (ai_unknown_token ai)\<rparr>)"

definition authorize ::
  "(string \<Rightarrow> string) \<Rightarrow> auth_interceptor \<Rightarrow> req_context \<Rightarrow> metadata \<Rightarrow> string
   \<Rightarrow> (status + req_context) \<times> auth_interceptor" where
  "authorize sha256 ai ctx md full_method =
     (if full_method \<in> set (ai_public ai) then (Inr ctx, ai)
      else case authenticate sha256 (ai_tokens ai) md of
          Inl e \<Rightarrow>
            (Inl \<lparr>st_code = Unauthenticated, st_message = ''valid credentials are required for '' @ full_method,
                  st_reason = None\<rparr>, auth_reject ai e)
        | Inr a \<Rightarrow> (Inr (with_actor ctx (ac_name a)), ai))"

text \<open>
  The interceptor around a handler, for unary and streaming calls alike; \<open>refuse\<close> is how the chain ends
  with a status.
\<close>

definition auth_intercept ::
  "(string \<Rightarrow> string) \<Rightarrow> auth_interceptor \<Rightarrow> req_context \<Rightarrow> metadata \<Rightarrow> string
   \<Rightarrow> (status \<Rightarrow> 'a) \<Rightarrow> (req_context \<Rightarrow> 'a) \<Rightarrow> 'a \<times> auth_interceptor" where
  "auth_intercept sha256 ai ctx md full_method refuse handler =
     (case authorize sha256 ai ctx md full_method of
        (Inl st, ai1) \<Rightarrow> (refuse st, ai1)
      | (Inr ctx1, ai1) \<Rightarrow> (handler ctx1, ai1))"

type_synonym method_features = "string \<rightharpoonup> feature"

definition register_method_feature :: "method_features \<Rightarrow> string \<Rightarrow> feature \<Rightarrow> method_features" where
  "register_method_feature mf full_method f = mf(full_method \<mapsto> f)"

definition license_check :: "(feature \<Rightarrow> bool) \<Rightarrow> method_features \<Rightarrow> string \<Rightarrow> status option" where
  "license_check enabled mf full_method =
     (case mf full_method of
        None \<Rightarrow> None
      | Some f \<Rightarrow>
          if enabled f then None
          else Some \<lparr>st_code = PermissionDenied,
                     st_message = ''feature '' @ feature_string f @ '' requires enterprise license'', st_reason = None\<rparr>)"

definition license_intercept ::
  "(feature \<Rightarrow> bool) \<Rightarrow> method_features \<Rightarrow> string \<Rightarrow> req_context \<Rightarrow> (status \<Rightarrow> 'a) \<Rightarrow> (req_context \<Rightarrow> 'a) \<Rightarrow> 'a" where
  "license_intercept enabled mf full_method ctx refuse handler =
     (case license_check enabled mf full_method of Some st \<Rightarrow> refuse st | None \<Rightarrow> handler ctx)"

subsection \<open>Validated tokens\<close>

lemma validate_tokens_each:
  "validate_tokens i seen tokens = None \<Longrightarrow> t \<in> set tokens \<Longrightarrow>
     wt_name t \<noteq> [] \<and> wt_sha256 t \<noteq> [] \<and> (\<exists>d. hex_decode (wt_sha256 t) = Some d)"
  by (induction i seen tokens rule: validate_tokens.induct) (auto split: if_splits option.splits)

lemma validated_token:
  "validate_auth tokens = None \<Longrightarrow> t \<in> set tokens \<Longrightarrow>
     wt_name t \<noteq> [] \<and> wt_sha256 t \<noteq> [] \<and> (\<exists>d. hex_decode (wt_sha256 t) = Some d)"
  unfolding validate_auth_def by (rule validate_tokens_each)

lemma match_fold:
  "fold (\<lambda>t m. if ht_digest t = d then ht_name t else m) (new_authenticator tokens) m0 =
     (case filter (\<lambda>w. hex_decode (wt_sha256 w) = Some d) tokens of [] \<Rightarrow> m0 | w # ws \<Rightarrow> wt_name (last (w # ws)))"
  by (induction tokens arbitrary: m0) (auto split: option.split list.split)

text \<open>The authenticator over validated tokens: the last token with the digest of what was presented.\<close>

lemma authenticate_validated:
  assumes "validate_auth tokens = None"
  shows "authenticate sha256 (new_authenticator tokens) md =
     (case bearer_token md of
        None \<Rightarrow> Inl err_no_credentials
      | Some t \<Rightarrow>
          (case filter (\<lambda>w. hex_decode (wt_sha256 w) = Some (sha256 t)) tokens of
             [] \<Rightarrow> Inl err_unknown_token
           | w # ws \<Rightarrow> Inr \<lparr>ac_name = wt_name (last (w # ws)), ac_kind = kind_token\<rparr>))"
proof (cases "bearer_token md")
  case (Some t)
  show ?thesis
  proof (cases "filter (\<lambda>w. hex_decode (wt_sha256 w) = Some (sha256 t)) tokens")
    case Nil
    then show ?thesis using Some by (simp add: authenticate_def match_tokens_def match_fold)
  next
    case (Cons w ws)
    have "last (w # ws) \<in> set (filter (\<lambda>w. hex_decode (wt_sha256 w) = Some (sha256 t)) tokens)"
      unfolding Cons by (rule last_in_set) simp
    then have "wt_name (last (w # ws)) \<noteq> []" using validated_token [OF assms] by simp
    then show ?thesis using Some Cons by (simp add: authenticate_def match_tokens_def match_fold)
  qed
qed (simp add: authenticate_def)

text \<open>What becomes of a call of a protected method, in any state of the interceptor.\<close>

lemma authorize_protected:
  assumes "validate_auth tokens = None" "ai_tokens ai = new_authenticator tokens" "m \<notin> set (ai_public ai)"
    and "authorize sha256 ai ctx md m = (r, ai')"
  shows "(\<exists>t w. bearer_token md = Some t \<and> w \<in> set tokens \<and> hex_decode (wt_sha256 w) = Some (sha256 t) \<and>
        r = Inr (with_actor ctx (wt_name w)) \<and> ai' = ai \<and> actor_from_context (with_actor ctx (wt_name w)) = wt_name w) \<or>
    ((\<exists>st. r = Inl st \<and> st_code st = Unauthenticated) \<and>
     ai_no_credentials ai' + ai_unknown_token ai' = Suc (ai_no_credentials ai + ai_unknown_token ai) \<and>
     (\<forall>t w. bearer_token md = Some t \<longrightarrow> w \<in> set tokens \<longrightarrow> hex_decode (wt_sha256 w) \<noteq> Some (sha256 t)))"
proof (cases "authenticate sha256 (new_authenticator tokens) md")
  case (Inl e)
  then have "(\<exists>st. r = Inl st \<and> st_code st = Unauthenticated) \<and> ai' = auth_reject ai e"
    using assms(2,3,4) by (auto simp: authorize_def)
  moreover have "hex_decode (wt_sha256 w) \<noteq> Some (sha256 t)" if "bearer_token md = Some t" "w \<in> set tokens" for t w
    using Inl that unfolding authenticate_validated [OF assms(1)]
    by (auto simp: filter_empty_conv split: list.splits)
  ultimately show ?thesis by (auto simp: auth_reject_def)
next
  case (Inr a)
  then obtain t w ws where t: "bearer_token md = Some t"
    and f: "filter (\<lambda>w. hex_decode (wt_sha256 w) = Some (sha256 t)) tokens = w # ws" and a: "ac_name a = wt_name (last (w # ws))"
    unfolding authenticate_validated [OF assms(1)] by (auto split: option.splits list.splits)
  let ?l = "last (w # ws)"
  have "?l \<in> set (filter (\<lambda>w. hex_decode (wt_sha256 w) = Some (sha256 t)) tokens)"
    unfolding f by (rule last_in_set) simp
  then have l: "?l \<in> set tokens" "hex_decode (wt_sha256 ?l) = Some (sha256 t)" by simp_all
  moreover have "r = Inr (with_actor ctx (wt_name ?l)) \<and> ai' = ai"
    using assms(2,3,4) Inr a by (auto simp: authorize_def)
  moreover have "actor_from_context (with_actor ctx (wt_name ?l)) = wt_name ?l"
    using validated_token [OF assms(1) l(1)] by (simp add: actor_from_context_def with_actor_def)
  ultimately show ?thesis using t by blast
qed

text \<open>
  A method that is not one of the four public ones reaches its handler only with a configured
  token, and then under the name of that token; otherwise the caller is told it is unauthenticated,
  the failure is counted, and no configured token has the digest of what it presented.
\<close>

theorem writes_protected:
  assumes "validate_auth tokens = None"
    and "m \<notin> {method_generate_code, method_plugins, method_health_check, method_health_watch}"
    and "auth_intercept sha256 (new_auth_interceptor (new_authenticator tokens)) ctx md m Inl handler = (res, ai)"
  shows "(\<exists>t w. bearer_token md = Some t \<and> w \<in> set tokens \<and> hex_decode (wt_sha256 w) = Some (sha256 t) \<and>
        res = handler (with_actor ctx (wt_name w)) \<and> actor_from_context (with_actor ctx (wt_name w)) = wt_name w) \<or>
    ((\<exists>st. res = Inl st \<and> st_code st = Unauthenticated) \<and> ai_no_credentials ai + ai_unknown_token ai = 1 \<and>
     (\<forall>t w. bearer_token md = Some t \<longrightarrow> w \<in> set tokens \<longrightarrow> hex_decode (wt_sha256 w) \<noteq> Some (sha256 t)))"
proof -
  let ?ai = "new_auth_interceptor (new_authenticator tokens)"
  obtain r ai' where r: "authorize sha256 ?ai ctx md m = (r, ai')" by fastforce
  have ai: "ai_tokens ?ai = new_authenticator tokens" "m \<notin> set (ai_public ?ai)"
    "ai_no_credentials ?ai = 0" "ai_unknown_token ?ai = 0"
    using assms(2) by (simp_all add: new_auth_interceptor_def)
  show ?thesis using authorize_protected [OF assms(1) ai(1,2) r] assms(3) r ai(3,4)
    by (auto simp: auth_intercept_def)
qed

subsection \<open>The environment encoding\<close>

definition env_pair :: "write_token \<Rightarrow> string" where
  "env_pair t = wt_name t @ ''='' @ wt_sha256 t"

definition env_encode :: "write_token list \<Rightarrow> string" where
  "env_encode ts = join_with '','' (map env_pair ts)"

lemma hex_decode_chars: "hex_decode s = Some d \<Longrightarrow> c \<in> set s \<Longrightarrow> hex_value c \<noteq> None"
  by (induction s arbitrary: d rule: hex_decode.induct) (auto split: option.splits)

lemma hex_value_plain: "hex_value c \<noteq> None \<Longrightarrow> \<not> is_space c \<and> c \<noteq> CHR '','' \<and> c \<noteq> CHR ''=''"
  by (auto simp: hex_value_def is_space_def Let_def split: if_splits)

text \<open>A token the encoding can carry: nothing in it is taken for a separator or trimmed away.\<close>

definition encodable :: "write_token \<Rightarrow> bool" where
  "encodable t \<longleftrightarrow> wt_name t \<noteq> [] \<and> wt_sha256 t \<noteq> [] \<and> hex_decode (wt_sha256 t) \<noteq> None \<and>
     trim_space (wt_name t) = wt_name t \<and> CHR '','' \<notin> set (wt_name t) \<and> CHR ''='' \<notin> set (wt_name t)"

lemma env_pair_ok:
  assumes "encodable t"
  shows "trim_space (env_pair t) = env_pair t" "CHR '','' \<notin> set (env_pair t)" "env_pair t \<noteq> []"
    "\<not> is_space (hd (env_pair t))" "\<not> is_space (last (env_pair t))"
    "cut_at CHR ''='' (env_pair t) = Some (wt_name t, wt_sha256 t)"
    "trim_space (wt_sha256 t) = wt_sha256 t" "trim_space (wt_name t) = wt_name t"
proof -
  have h: "\<not> is_space c \<and> c \<noteq> CHR '','' \<and> c \<noteq> CHR ''=''" if "c \<in> set (wt_sha256 t)" for c
    using assms that hex_decode_chars hex_value_plain by (metis encodable_def option.exhaust)
  show ne: "env_pair t \<noteq> []" by (simp add: env_pair_def)
  show hd: "\<not> is_space (hd (env_pair t))"
    using assms trim_space_hd(1) [of "wt_name t"] by (simp add: env_pair_def encodable_def)
  show l: "\<not> is_space (last (env_pair t))"
    using assms h [of "last (wt_sha256 t)"] by (simp add: env_pair_def encodable_def)
  show "trim_space (env_pair t) = env_pair t" by (rule trim_space_edges [OF ne hd l])
  show "CHR '','' \<notin> set (env_pair t)" using assms h by (auto simp: env_pair_def encodable_def)
  show "trim_space (wt_sha256 t) = wt_sha256 t" using h by (intro trim_space_id) blast
  show "trim_space (wt_name t) = wt_name t" using assms by (simp add: encodable_def)
  have "CHR ''='' \<notin> set a \<Longrightarrow> cut_at CHR ''='' (a @ CHR ''='' # b) = Some (a, b)" for a b
    by (induction a) auto
  then show "cut_at CHR ''='' (env_pair t) = Some (wt_name t, wt_sha256 t)"
    using assms by (simp add: env_pair_def encodable_def)
qed

lemma decode_pairs_encoded: "\<forall>t \<in> set ts. encodable t \<Longrightarrow> decode_pairs (map env_pair ts) = Inr ts"
  using env_pair_ok by (induction ts) simp_all

lemma join_edges:
  assumes "\<forall>p \<in> set ps. p \<noteq> [] \<and> \<not> is_space (hd p) \<and> \<not> is_space (last p)" "ps \<noteq> []"
  shows "join_with '','' ps \<noteq> [] \<and> \<not> is_space (hd (join_with '','' ps)) \<and> \<not> is_space (last (join_with '','' ps))"
  using assms by (induction "'',''" ps rule: join_with.induct) auto

text \<open>
  The environment encoding of a token list reads back to the list it was written from, whenever
  no name contains a separator or outer white space.
\<close>

theorem env_round_trip:
  assumes "\<forall>t \<in> set ts. encodable t"
  shows "env_decode (env_encode ts) = Inr ts"
proof (cases "ts = []")
  case True
  then show ?thesis by (simp add: env_decode_def env_encode_def)
next
  case False
  let ?s = "env_encode ts"
  have e: "\<forall>p \<in> set (map env_pair ts). p \<noteq> [] \<and> \<not> is_space (hd p) \<and> \<not> is_space (last p)"
    using assms env_pair_ok by simp
  have s: "?s \<noteq> [] \<and> \<not> is_space (hd ?s) \<and> \<not> is_space (last ?s)"
    using join_edges [OF e] False by (simp add: env_encode_def)
  then have "trim_space ?s = ?s" using trim_space_edges by blast
  moreover have "split_on CHR '','' ?s = map env_pair ts"
    unfolding env_encode_def using assms env_pair_ok(2) False by (intro split_join_on) simp_all
  ultimately show ?thesis using s decode_pairs_encoded [OF assms] by (simp add: env_decode_def)
qed

subsection \<open>Concrete runs\<close>

definition sample_token :: write_token where
  "sample_token = \<lparr>wt_name = ''ci bot'', wt_sha256 = replicate 64 CHR ''a''\<rparr>"

lemma hex_decode_as: "hex_decode (replicate (2 * n) CHR ''a'') = Some (replicate n (char_of (170 :: nat)))"
  by (induction n) (simp_all add: hex_value_def)

lemma sample_digest: "hex_decode (wt_sha256 sample_token) = Some (replicate 32 (char_of (170 :: nat)))"
  using hex_decode_as [of 32] by (simp add: sample_token_def)

lemma sample_valid: "validate_auth [sample_token] = None"
  using sample_digest by (simp add: validate_auth_def sample_token_def sha256_hex_length_def)

theorem writes_protected_witness:
  "fst (auth_intercept (\<lambda>_. replicate 32 (char_of (170 :: nat))) (new_auth_interceptor (new_authenticator [sample_token]))
      \<lparr>ctx_caller_ip = None, ctx_actor = None\<rparr> (\<lambda>k. if k = ''authorization'' then [''Bearer secret''] else [])
      method_delete_plugin Inl (\<lambda>ctx. Inr (actor_from_context ctx))) = Inr ''ci bot''"
proof -
  let ?sha = "\<lambda>_::string. replicate 32 (char_of (170 :: nat))"
  let ?md = "\<lambda>k. if k = ''authorization'' then [''Bearer secret''] else []"
  let ?ctx = "\<lparr>ctx_caller_ip = None, ctx_actor = None\<rparr>"
  have m: "method_delete_plugin \<notin> {method_generate_code, method_plugins, method_health_check, method_health_watch}"
    by (simp add: method_defs)
  have b: "bearer_token ?md = Some ''secret''"
    by (simp add: bearer_token_def authorization_key_def bearer_prefix_def to_lower_def trim_space_def trim_left_def
        is_space_def char_of_def bit_0)
  obtain res ai where r: "auth_intercept ?sha (new_auth_interceptor (new_authenticator [sample_token])) ?ctx ?md
      method_delete_plugin Inl (\<lambda>ctx. Inr (actor_from_context ctx)) = (res, ai)" by fastforce
  have "res = Inr (wt_name sample_token)"
    using writes_protected [OF sample_valid m r] b sample_digest by auto
  then show ?thesis using r by (simp add: sample_token_def)
qed

theorem env_round_trip_witness:
  "env_decode (env_encode [sample_token, sample_token]) = Inr [sample_token, sample_token]"
proof -
  have "encodable sample_token"
    using sample_digest unfolding encodable_def
    by (simp add: sample_token_def trim_space_def trim_left_def is_space_def)
  then show ?thesis by (intro env_round_trip) simp
qed

end
