(* ===== verification/Json.thy ===== *)
theory Json
  imports Domain
begin

text \<open>
  The text of JSON documents, as \<^verbatim>\<open>encoding/json\<close> reads and writes it where the source hands it bytes from
  outside (\<^verbatim>\<open>internal/api/pagetoken.go\<close>): UTF-8, string literals with their escapes, values nested up to
  the decoder's limit. The lemmas show that a written string literal is read back.
\<close>

subsection \<open>UTF-8\<close>

definition byte :: "char \<Rightarrow> nat" where "byte c = of_char c"

definition byte_in :: "nat \<Rightarrow> nat \<Rightarrow> string \<Rightarrow> nat \<Rightarrow> bool" where
  "byte_in lo hi s i \<longleftrightarrow> i < length s \<and> lo \<le> byte (s ! i) \<and> byte (s ! i) \<le> hi"

text \<open>The length of the encoded character a string starts with; 0 when it is not a valid one.\<close>

definition rune_len :: "string \<Rightarrow> nat" where
  "rune_len s =
     (case s of [] \<Rightarrow> 0
      | c # r \<Rightarrow>
          let b = byte c in
          if b < 128 then 1
          else if b < 194 then 0
          else if b \<le> 223 then (if byte_in 128 191 r 0 then 2 else 0)
          else if b \<le> 239 then
            (if byte_in (if b = 224 then 160 else 128) (if b = 237 then 159 else 191) r 0 \<and> byte_in 128 191 r 1
             then 3 else 0)
          else if b \<le> 244 then
            (if byte_in (if b = 240 then 144 else 128) (if b = 244 then 143 else 191) r 0 \<and> byte_in 128 191 r 1
                \<and> byte_in 128 191 r 2
             then 4 else 0)
          else 0)"

definition bytes_of :: "nat list \<Rightarrow> string" where "bytes_of = map char_of"

definition replacement_rune :: string where "replacement_rune = bytes_of [239, 191, 189]"

definition encode_rune :: "nat \<Rightarrow> string" where
  "encode_rune u =
     (if u < 128 then bytes_of [u]
      else if u < 2048 then bytes_of [192 + u div 64, 128 + u mod 64]
      else if 55296 \<le> u \<and> u < 57344 \<or> u > 1114111 then replacement_rune
      else if u < 65536 then bytes_of [224 + u div 4096, 128 + u div 64 mod 64, 128 + u mod 64]
      else bytes_of [240 + u div 262144, 128 + u div 4096 mod 64, 128 + u div 64 mod 64, 128 + u mod 64])"

fun utf8_valid :: "string \<Rightarrow> bool" where
  "utf8_valid [] = True"
| "utf8_valid (c # s) = (let k = rune_len (c # s) in k > 0 \<and> utf8_valid (drop (k - 1) s))"

declare utf8_valid.simps(2) [simp del]

subsection \<open>Writing a string literal\<close>

definition backslash :: char where "backslash = CHR 0x5C"
definition quote_mark :: char where "quote_mark = CHR 0x22"

definition hex_digit :: "nat \<Rightarrow> char" where
  "hex_digit d = (if d < 10 then char_of (48 + d) else char_of (87 + d))"

definition json_char :: "char \<Rightarrow> string" where
  "json_char c =
     (let b = byte c in
      if c = quote_mark \<or> c = backslash then [backslash, c]
      else if b = 8 then [backslash, CHR ''b'']
      else if b = 12 then [backslash, CHR ''f'']
      else if b = 10 then [backslash, CHR ''n'']
      else if b = 13 then [backslash, CHR ''r'']
      else if b = 9 then [backslash, CHR ''t'']
      else if b < 32 \<or> c = CHR ''<'' \<or> c = CHR ''>'' \<or> c = CHR ''&''
      then backslash # ''u00'' @ [hex_digit (b div 16), hex_digit (b mod 16)]
      else [c])"

fun json_body :: "string \<Rightarrow> string" where
  "json_body [] = []"
| "json_body (c # s) =
     (if byte c < 128 then json_char c @ json_body s
      else
        let k = rune_len (c # s) in
        if k = 0 then backslash # ''ufffd'' @ json_body s
        else (let r = take k (c # s) in
              if r = bytes_of [226, 128, 168] then backslash # ''u2028''
              else if r = bytes_of [226, 128, 169] then backslash # ''u2029'' else r)
             @ json_body (drop (k - 1) s))"

declare json_body.simps(2) [simp del]

definition json_quote :: "string \<Rightarrow> string" where
  "json_quote s = quote_mark # json_body s @ [quote_mark]"

subsection \<open>Reading\<close>

definition json_space :: "char \<Rightarrow> bool" where
  "json_space c \<longleftrightarrow> c = CHR '' '' \<or> c = CHR 0x09 \<or> c = CHR 0x0D \<or> c = CHR 0x0A"

definition skip_space :: "string \<Rightarrow> string" where "skip_space s = dropWhile json_space s"

definition hex4 :: "string \<Rightarrow> nat option" where
  "hex4 s =
     (case s of
        a # b # c # d # r \<Rightarrow>
          (case (hex_value a, hex_value b, hex_value c, hex_value d) of
             (Some w, Some x, Some y, Some z) \<Rightarrow> Some (((w * 16 + x) * 16 + y) * 16 + z)
           | _ \<Rightarrow> None)
      | _ \<Rightarrow> None)"

text \<open>What follows a backslash: the bytes it stands for and the rest. Two halves of a surrogate pair are one character.\<close>

definition low_half :: "string \<Rightarrow> nat option" where
  "low_half s = (if has_prefix s [backslash, CHR ''u''] then hex4 (drop 2 s) else None)"

definition parse_escape :: "string \<Rightarrow> (string \<times> string) option" where
  "parse_escape s =
     (case s of [] \<Rightarrow> None
      | c # r \<Rightarrow>
          if c = quote_mark \<or> c = backslash \<or> c = CHR ''/'' then Some ([c], r)
          else if c = CHR ''b'' then Some (bytes_of [8], r)
          else if c = CHR ''f'' then Some (bytes_of [12], r)
          else if c = CHR ''n'' then Some (bytes_of [10], r)
          else if c = CHR ''r'' then Some (bytes_of [13], r)
          else if c = CHR ''t'' then Some (bytes_of [9], r)
          else if c = CHR ''u'' then
            (case hex4 r of
               None \<Rightarrow> None
             | Some u \<Rightarrow>
                 (let r4 = drop 4 r in
                  if 55296 \<le> u \<and> u < 57344 then
                    (case low_half r4 of
                       Some l \<Rightarrow>
                         if u < 56320 \<and> 56320 \<le> l \<and> l < 57344
                         then Some (encode_rune (65536 + (u - 55296) * 1024 + (l - 56320)), drop 6 r4)
                         else Some (replacement_rune, r4)
                     | None \<Rightarrow> Some (replacement_rune, r4))
                  else Some (encode_rune u, r4)))
          else None)"

text \<open>The characters up to the closing quotation mark; the fuel bounds their number.\<close>

fun parse_chars :: "nat \<Rightarrow> string \<Rightarrow> (string \<times> string) option" where
  "parse_chars 0 s = None"
| "parse_chars (Suc n) [] = None"
| "parse_chars (Suc n) (c # s) =
     (if c = quote_mark then Some ([], s)
      else if byte c < 32 then None
      else if c = backslash then
        (case parse_escape s of None \<Rightarrow> None
         | Some (out, r) \<Rightarrow> map_option (\<lambda>(t, r'). (out @ t, r')) (parse_chars n r))
      else
        let k = rune_len (c # s) in
        if k = 0 then map_option (\<lambda>(t, r'). (replacement_rune @ t, r')) (parse_chars n s)
        else map_option (\<lambda>(t, r'). (take k (c # s) @ t, r')) (parse_chars n (drop (k - 1) s)))"

declare parse_chars.simps(3) [simp del]

text \<open>A number: sign, integer part without leading zeros, fraction, exponent.\<close>

definition parse_digits :: "string \<Rightarrow> (string \<times> string) option" where
  "parse_digits s = (let ds = takeWhile is_digit s in if ds = [] then None else Some (ds, dropWhile is_digit s))"

definition parse_sign :: "char set \<Rightarrow> string \<Rightarrow> string \<times> string" where
  "parse_sign signs s = (case s of c # r \<Rightarrow> if c \<in> signs then ([c], r) else ([], s) | [] \<Rightarrow> ([], []))"

definition parse_fraction :: "string \<Rightarrow> (string \<times> string) option" where
  "parse_fraction s =
     (case s of
        c # r \<Rightarrow> if c = CHR ''.'' then map_option (\<lambda>(ds, t). (c # ds, t)) (parse_digits r) else Some ([], s)
      | [] \<Rightarrow> Some ([], []))"

definition parse_exponent :: "string \<Rightarrow> (string \<times> string) option" where
  "parse_exponent s =
     (case s of
        c # r \<Rightarrow>
          if c = CHR ''e'' \<or> c = CHR ''E'' then
            (let (sg, r1) = parse_sign {CHR ''+'', CHR ''-''} r
             in map_option (\<lambda>(ds, t). (c # sg @ ds, t)) (parse_digits r1))
          else Some ([], s)
      | [] \<Rightarrow> Some ([], []))"

definition parse_integer :: "string \<Rightarrow> (string \<times> string) option" where
  "parse_integer s =
     (case s of c # r \<Rightarrow> if c = CHR ''0'' then Some ([c], r) else parse_digits s | [] \<Rightarrow> None)"

definition parse_number :: "string \<Rightarrow> (string \<times> string) option" where
  "parse_number s =
     (let (sg, s1) = parse_sign {CHR ''-''} s in
      case parse_integer s1 of None \<Rightarrow> None
      | Some (i, s2) \<Rightarrow>
          (case parse_fraction s2 of None \<Rightarrow> None
           | Some (f, s3) \<Rightarrow>
               (case parse_exponent s3 of None \<Rightarrow> None
                | Some (e, s4) \<Rightarrow> Some (sg @ i @ f @ e, s4))))"

definition max_nesting_depth :: nat where "max_nesting_depth = 10000"

text \<open>The rest behind a given character, white space skipped before it.\<close>

definition expect :: "char \<Rightarrow> string \<Rightarrow> string option" where
  "expect c s = (case skip_space s of [] \<Rightarrow> None | x # r \<Rightarrow> if x = c then Some r else None)"

text \<open>
  Values below \<open>d\<close> open arrays and objects. The fuel bounds the number of characters; a document of
  \<open>n\<close> bytes needs no more than \<open>n + 1\<close>.
\<close>

fun parse_value :: "nat \<Rightarrow> nat \<Rightarrow> string \<Rightarrow> (json \<times> string) option"
  and parse_elements :: "nat \<Rightarrow> nat \<Rightarrow> string \<Rightarrow> (json list \<times> string) option"
  and parse_members :: "nat \<Rightarrow> nat \<Rightarrow> string \<Rightarrow> ((string \<times> json) list \<times> string) option" where
  "parse_value 0 d s = None"
| "parse_value (Suc n) d s =
     (case skip_space s of
        [] \<Rightarrow> None
      | c # r \<Rightarrow>
          if c = quote_mark then map_option (\<lambda>(t, r'). (JStr t, r')) (parse_chars n r)
          else if c = CHR ''{'' then
            (if d \<ge> max_nesting_depth then None
             else case expect CHR ''}'' r of
               Some r' \<Rightarrow> Some (JObj [], r')
             | None \<Rightarrow> map_option (\<lambda>(ms, r'). (JObj ms, r')) (parse_members n (Suc d) r))
          else if c = CHR ''['' then
            (if d \<ge> max_nesting_depth then None
             else case expect CHR '']'' r of
               Some r' \<Rightarrow> Some (JArr [], r')
             | None \<Rightarrow> map_option (\<lambda>(es, r'). (JArr es, r')) (parse_elements n (Suc d) r))
          else if has_prefix (c # r) ''true'' then Some (JBool True, drop 3 r)
          else if has_prefix (c # r) ''false'' then Some (JBool False, drop 4 r)
          else if has_prefix (c # r) ''null'' then Some (JNull, drop 3 r)
          else map_option (\<lambda>(t, r'). (JNum t, r')) (parse_number (c # r)))"
| "parse_elements 0 d s = None"
| "parse_elements (Suc n) d s =
     (case parse_value n d s of
        None \<Rightarrow> None
      | Some (j, r) \<Rightarrow>
          (case expect CHR '','' r of
             Some r' \<Rightarrow> map_option (\<lambda>(js, r''). (j # js, r'')) (parse_elements n d r')
           | None \<Rightarrow> map_option (\<lambda>r'. ([j], r')) (expect CHR '']'' r)))"
| "parse_members 0 d s = None"
| "parse_members (Suc n) d s =
     (case expect quote_mark s of
        None \<Rightarrow> None
      | Some r \<Rightarrow>
          (case parse_chars n r of
             None \<Rightarrow> None
           | Some (k, r1) \<Rightarrow>
               (case expect CHR '':'' r1 of
                  None \<Rightarrow> None
                | Some r2 \<Rightarrow>
                    (case parse_value n d r2 of
                       None \<Rightarrow> None
                     | Some (j, r3) \<Rightarrow>
                         (case expect CHR '','' r3 of
                            Some r4 \<Rightarrow> map_option (\<lambda>(ms, r5). ((k, j) # ms, r5)) (parse_members n d r4)
                          | None \<Rightarrow> map_option (\<lambda>r4. ([(k, j)], r4)) (expect CHR ''}'' r3))))))"

declare parse_value.simps(2) [simp del] parse_elements.simps(2) [simp del] parse_members.simps(2) [simp del]

definition json_parse :: "string \<Rightarrow> json option" where
  "json_parse s =
     (case parse_value (Suc (length s)) 0 s of
        Some (j, r) \<Rightarrow> if skip_space r = [] then Some j else None
      | None \<Rightarrow> None)"

subsection \<open>The fuel is enough\<close>

lemma skip_space_shorter: "length (skip_space s) \<le> length s"
  unfolding skip_space_def by (rule length_dropWhile_le)

lemma expect_shorter: "expect c s = Some r \<Longrightarrow> length r < length s"
  using skip_space_shorter [of s] by (auto simp: expect_def split: list.splits if_splits)

lemma parse_escape_shorter: "parse_escape s = Some (out, r) \<Longrightarrow> length r < length s"
  by (auto simp: parse_escape_def Let_def split: list.splits if_splits option.splits)

lemma byte_in_length: "byte_in lo hi s i \<Longrightarrow> i < length s"
  by (simp add: byte_in_def)

lemma rune_len_le: "rune_len s \<le> length s"
  by (cases s) (auto simp: rune_len_def Let_def Suc_le_eq dest!: byte_in_length)

lemma parse_chars_fuel:
  "parse_chars n s = Some (t, r) \<Longrightarrow>
     length r < length s \<and> (\<forall>m \<ge> length s - length r. parse_chars m s = Some (t, r))"
proof (induction n s arbitrary: t r rule: parse_chars.induct)
  case (3 n c s)
  show ?case
  proof (intro conjI allI impI)
    have step: "\<exists>u s' o'. length s' \<le> length s \<and> parse_chars n s' = Some (u, r) \<and>
        (\<forall>m. parse_chars (Suc m) (c # s) = map_option (\<lambda>(t, r'). (o' @ t, r')) (parse_chars m s')) \<and> t = o' @ u \<and>
        length r < length s' \<and> (\<forall>m \<ge> length s' - length r. parse_chars m s' = Some (u, r))"
      if q: "c \<noteq> quote_mark"
    proof (cases "c = backslash")
      case True
      then obtain out s' where e: "parse_escape s = Some (out, s')"
        using 3(4) q by (auto simp: parse_chars.simps(3) split: if_splits option.splits)
      then obtain u where u: "parse_chars n s' = Some (u, r)" "t = out @ u"
        using 3(4) q True by (auto simp: parse_chars.simps(3) split: if_splits)
      have b: "\<not> byte c < 32" using 3(4) q by (auto simp: parse_chars.simps(3) split: if_splits)
      have "length r < length s' \<and> (\<forall>m \<ge> length s' - length r. parse_chars m s' = Some (u, r))"
        using 3(1) [OF q b True e _ u(1)] e by auto
      then show ?thesis using parse_escape_shorter [OF e] u e q b True
        by (intro exI [of _ u] exI [of _ s'] exI [of _ out] conjI) (auto simp: parse_chars.simps(3))
    next
      case False
      have b: "\<not> byte c < 32" using 3(4) q by (auto simp: parse_chars.simps(3) split: if_splits)
      show ?thesis
      proof (cases "rune_len (c # s) = 0")
        case True
        then obtain u where u: "parse_chars n s = Some (u, r)" "t = replacement_rune @ u"
          using 3(4) q b False by (auto simp: parse_chars.simps(3) Let_def)
        show ?thesis using 3(2) [OF q b False refl True u(1)] u q b False True
          by (intro exI [of _ u] exI [of _ s] exI [of _ replacement_rune] conjI) (auto simp: parse_chars.simps(3) Let_def)
      next
        case k: False
        let ?k = "rune_len (c # s)"
        obtain u where u: "parse_chars n (drop (?k - 1) s) = Some (u, r)" "t = take ?k (c # s) @ u"
          using 3(4) q b False k by (auto simp: parse_chars.simps(3) Let_def)
        show ?thesis using 3(3) [OF q b False refl k u(1)] u q b False k
          by (intro exI [of _ u] exI [of _ "drop (?k - 1) s"] exI [of _ "take ?k (c # s)"] conjI)
            (auto simp: parse_chars.simps(3) Let_def)
      qed
    qed
    show "length r < length (c # s)"
      using step 3(4) by (cases "c = quote_mark") (fastforce simp: parse_chars.simps(3))+
    fix m assume m: "length (c # s) - length r \<le> m"
    show "parse_chars m (c # s) = Some (t, r)"
    proof (cases "c = quote_mark")
      case True
      then show ?thesis using 3(4) m by (cases m) (auto simp: parse_chars.simps(3))
    next
      case False
      then obtain u s' o' where s: "length s' \<le> length s"
        "\<And>m. parse_chars (Suc m) (c # s) = map_option (\<lambda>(t, r'). (o' @ t, r')) (parse_chars m s')"
        "t = o' @ u" "length r < length s'" "\<forall>m \<ge> length s' - length r. parse_chars m s' = Some (u, r)"
        using step by blast
      then obtain m' where "m = Suc m'" "length s' - length r \<le> m'" using m by (cases m) auto
      then show ?thesis using s by simp
    qed
  qed
qed auto

lemma parse_digits_shorter: "parse_digits s = Some (t, r) \<Longrightarrow> length r < length s"
  by (cases s) (auto simp: parse_digits_def Let_def le_imp_less_Suc length_dropWhile_le split: if_splits)

lemma parse_number_shorter:
  assumes "parse_number s = Some (t, r)" shows "length r < length s"
proof -
  obtain sg s1 where sg: "parse_sign {CHR ''-''} s = (sg, s1)" by fastforce
  then obtain i s2 f s3 e where n: "parse_integer s1 = Some (i, s2)" "parse_fraction s2 = Some (f, s3)"
      "parse_exponent s3 = Some (e, r)"
    using assms by (auto simp: parse_number_def split: option.splits)
  have "length s1 \<le> length s" using sg by (auto simp: parse_sign_def split: list.splits if_splits)
  moreover have "length s2 < length s1"
    using n(1) by (auto simp: parse_integer_def dest: parse_digits_shorter split: list.splits if_splits)
  moreover have "length s3 \<le> length s2"
    using n(2) by (fastforce simp: parse_fraction_def dest: parse_digits_shorter split: list.splits if_splits)
  moreover have "length r \<le> length s3"
    using n(3) by (fastforce simp: parse_exponent_def parse_sign_def dest: parse_digits_shorter split: list.splits if_splits prod.splits)
  ultimately show ?thesis by simp
qed

lemma Suc_of_less: "k < m \<Longrightarrow> \<exists>m'. m = Suc m' \<and> k \<le> m'"
  by (cases m) auto

text \<open>
  A value that parses with any fuel parses with every fuel above the number of bytes it takes, to the
  same result; so \<open>json_parse\<close> never rejects a text for want of fuel.
\<close>

abbreviation (input) enough :: "(nat \<Rightarrow> ('a \<times> string) option) \<Rightarrow> string \<Rightarrow> 'a \<times> string \<Rightarrow> bool" where
  "enough p s x \<equiv> length (snd x) < length s \<and> (\<forall>m > length s - length (snd x). p m = Some x)"

lemma parse_fuel:
  "parse_value n d s = Some x \<Longrightarrow> enough (\<lambda>m. parse_value m d s) s x"
  "parse_elements n d s = Some y \<Longrightarrow> enough (\<lambda>m. parse_elements m d s) s y"
  "parse_members n d s = Some z \<Longrightarrow> enough (\<lambda>m. parse_members m d s) s z"
proof (induction n d s and n d s and n d s arbitrary: x and y and z
    rule: parse_value_parse_elements_parse_members.induct)
  case (2 n d s)
  obtain c r where s: "skip_space s = c # r" using 2(3) by (auto simp: parse_value.simps(2) split: list.splits)
  have l: "length r < length s" using skip_space_shorter [of s] by (simp add: s)
  note val = parse_value.simps(2) s
  consider "c = quote_mark" | "c \<noteq> quote_mark" "c = CHR ''{''" | "c \<noteq> quote_mark" "c \<noteq> CHR ''{''" "c = CHR ''[''"
    | "c \<noteq> quote_mark" "c \<noteq> CHR ''{''" "c \<noteq> CHR ''[''" by blast
  then show ?case
  proof cases
    case 1
    then obtain t r' where t: "parse_chars n r = Some (t, r')" "x = (JStr t, r')"
      using 2(3) by (auto simp: val)
    show ?thesis using parse_chars_fuel [OF t(1)] l 1 t(2) by (auto simp: val dest!: Suc_of_less)
  next
    case 4
    have "parse_value m d s = Some x" if "m > 0" for m
      using that 2(3) 4 by (cases m) (auto simp: val)
    moreover have "length (snd x) < length s"
      using 2(3) 4 l by (auto simp: val dest: parse_number_shorter split: if_splits)
    ultimately show ?thesis by simp
  next
    case b: 2
    then have d: "\<not> d \<ge> max_nesting_depth" using 2(3) by (auto simp: val split: if_splits)
    show ?thesis
    proof (cases "expect CHR ''}'' r")
      case (Some r')
      then show ?thesis using 2(3) b d l expect_shorter [OF Some] by (auto simp: val dest!: Suc_of_less)
    next
      case None
      then obtain ms r' where t: "parse_members n (Suc d) r = Some (ms, r')" "x = (JObj ms, r')"
        using 2(3) b d by (auto simp: val)
      show ?thesis using 2(1) [OF s b(1,2) d None t(1)] l b d None t(2) by (auto simp: val dest!: Suc_of_less)
    qed
  next
    case b: 3
    then have d: "\<not> d \<ge> max_nesting_depth" using 2(3) by (auto simp: val split: if_splits)
    show ?thesis
    proof (cases "expect CHR '']'' r")
      case (Some r')
      then show ?thesis using 2(3) b d l expect_shorter [OF Some] by (auto simp: val dest!: Suc_of_less)
    next
      case None
      then obtain ms r' where t: "parse_elements n (Suc d) r = Some (ms, r')" "x = (JArr ms, r')"
        using 2(3) b d by (auto simp: val)
      show ?thesis using 2(2) [OF s b d None t(1)] l b d None t(2) by (auto simp: val dest!: Suc_of_less)
    qed
  qed
next
  case (4 n d s)
  note val = parse_elements.simps(2)
  obtain j r where v: "parse_value n d s = Some (j, r)" using 4(3) by (auto simp: val split: option.splits)
  note fv = 4(1) [OF v]
  show ?case
  proof (cases "expect CHR '','' r")
    case None
    then obtain r' where "expect CHR '']'' r = Some r'" "y = ([j], r')" using 4(3) v by (auto simp: val)
    then show ?thesis using fv None expect_shorter [of "CHR '']''" r r'] by (auto simp: val dest!: Suc_of_less)
  next
    case (Some r')
    then obtain js r'' where e: "parse_elements n d r' = Some (js, r'')" "y = (j # js, r'')"
      using 4(3) v by (auto simp: val)
    show ?thesis using fv 4(2) [OF v refl Some e(1)] Some expect_shorter [OF Some] e(2)
      by (auto simp: val dest!: Suc_of_less)
  qed
next
  case (6 n d s)
  note val = parse_members.simps(2)
  obtain r k r1 where k: "expect quote_mark s = Some r" "parse_chars n r = Some (k, r1)"
    using 6(3) by (auto simp: val split: option.splits)
  then obtain r2 j r3 where v: "expect CHR '':'' r1 = Some r2" "parse_value n d r2 = Some (j, r3)"
    using 6(3) by (auto simp: val split: option.splits)
  note fv = 6(1) [OF k(1,2) refl v]
  note l = expect_shorter [OF k(1)] parse_chars_fuel [OF k(2)] expect_shorter [OF v(1)]
  show ?case
  proof (cases "expect CHR '','' r3")
    case None
    then obtain r' where "expect CHR ''}'' r3 = Some r'" "z = ([(k, j)], r')" using 6(3) k v by (auto simp: val)
    then show ?thesis using fv None l k v expect_shorter [of "CHR ''}''" r3 r'] by (auto simp: val dest!: Suc_of_less)
  next
    case (Some r')
    then obtain ms r'' where e: "parse_members n d r' = Some (ms, r'')" "z = ((k, j) # ms, r'')"
      using 6(3) k v by (auto simp: val)
    show ?thesis using fv 6(2) [OF k(1,2) refl v refl Some e(1)] Some l k v expect_shorter [OF Some] e(2)
      by (auto simp: val dest!: Suc_of_less)
  qed
qed simp_all

lemma json_parse_complete:
  assumes "parse_value n 0 s = Some (j, r)" "skip_space r = []" shows "json_parse s = Some j"
proof -
  have "parse_value (Suc (length s)) 0 s = Some (j, r)" using parse_fuel(1) [OF assms(1)] by simp
  then show ?thesis using assms(2) by (simp add: json_parse_def)
qed

subsection \<open>A written string is read back\<close>

lemma byte_char_of [simp]: "b < 256 \<Longrightarrow> byte (char_of b) = b"
  by (simp add: byte_def take_bit_eq_mod)

lemma char_of_byte [simp]: "char_of (byte c) = c"
  by (simp add: byte_def)

lemma byte_less: "byte c < 256"
  unfolding byte_def using of_char_mod_256 [of c, where ?'a = nat] by (metis mod_less_divisor zero_less_numeral)

lemma hex_value_digit: "d < 16 \<Longrightarrow> hex_value (hex_digit d) = Some d"
  by (auto simp: hex_value_def hex_digit_def Let_def take_bit_eq_mod)

lemma hex_digit_not: "d < 16 \<Longrightarrow> hex_digit d \<noteq> quote_mark"
  using hex_value_digit [of d] by (auto simp: quote_mark_def hex_value_def)

lemma rune_len_append:
  assumes "rune_len s = k" "k > 0" shows "rune_len (take k s @ t) = k"
proof (cases s)
  case (Cons c r)
  define r' where "r' = take (k - 1) r @ t"
  have in_r: "byte_in lo hi r' i = byte_in lo hi r i" if "i < k - 1" for lo hi i
    using that rune_len_le [of s] assms(1) Cons by (simp add: byte_in_def nth_append r'_def) linarith
  let ?b = "byte c"
  consider "k = 1" "?b < 128" | "k = 2" "194 \<le> ?b" "?b \<le> 223" | "k = 3" "224 \<le> ?b" "?b \<le> 239"
    | "k = 4" "240 \<le> ?b" "?b \<le> 244"
    using assms by (auto simp: rune_len_def Cons Let_def split: if_splits)
  then have "rune_len (c # r') = rune_len (c # r)"
    by cases (simp_all add: rune_len_def in_r Let_def)
  then show ?thesis using assms Cons by (cases k) (simp_all add: r'_def)
qed (use assms in \<open>simp add: rune_len_def\<close>)

lemma parse_chars_rune:
  assumes "rune_len (c # s) = k" "k > 0" "byte c \<ge> 128"
  shows "parse_chars (Suc n) (take k (c # s) @ t) = map_option (\<lambda>(u, r). (take k (c # s) @ u, r)) (parse_chars n t)"
proof -
  obtain j where k: "k = Suc j" using assms(2) by (cases k) auto
  have c: "c \<noteq> quote_mark" "c \<noteq> backslash" "\<not> byte c < 32"
    using assms(3) by (auto simp: quote_mark_def backslash_def byte_def)
  have r: "rune_len (c # take j s @ t) = k" using rune_len_append [OF assms(1,2), of t] by (simp add: k)
  have "j \<le> length s" using rune_len_le [of "c # s"] assms(1) k by simp
  then show ?thesis using c r by (simp add: k parse_chars.simps(3) Let_def)
qed

lemma escape_chars:
  "parse_escape s = Some (out, r) \<Longrightarrow>
     parse_chars (Suc n) (backslash # s) = map_option (\<lambda>(u, r). (out @ u, r)) (parse_chars n r)"
  by (simp add: parse_chars.simps(3) quote_mark_def backslash_def byte_def)

lemma escape_u:
  assumes "hex4 (take 4 r) = Some u" "\<not> (55296 \<le> u \<and> u < 57344)" "length r \<ge> 4"
  shows "parse_escape (CHR ''u'' # r) = Some (encode_rune u, drop 4 r)"
proof -
  obtain a b c d q where "r = a # b # c # d # q"
    using assms(3) by (auto simp: numeral_eq_Suc Suc_le_length_iff)
  then show ?thesis using assms(1,2)
    by (auto simp: parse_escape_def hex4_def Let_def quote_mark_def backslash_def split: option.splits)
qed

lemma parse_json_char:
  assumes "byte c < 128"
  shows "parse_chars (Suc n) (json_char c @ t) = map_option (\<lambda>(u, r). (c # u, r)) (parse_chars n t)"
proof -
  let ?b = "byte c"
  have one: "parse_escape (x # t) = Some ([c], t) \<Longrightarrow> json_char c = [backslash, x] \<Longrightarrow> ?thesis" for x
    using escape_chars [of "x # t" "[c]" t n] by simp
  have c: "bytes_of [?b] = [c]" by (simp add: bytes_of_def)
  consider "c = quote_mark \<or> c = backslash" | "c \<noteq> quote_mark" "c \<noteq> backslash" "?b \<in> {8, 12, 10, 13, 9}"
    | "json_char c = backslash # ''u00'' @ [hex_digit (?b div 16), hex_digit (?b mod 16)]"
    | "json_char c = [c]" "c \<noteq> quote_mark" "c \<noteq> backslash" "\<not> ?b < 32"
  proof (cases "c = quote_mark \<or> c = backslash \<or> ?b \<in> {8, 12, 10, 13, 9}")
    case True
    then show ?thesis using that(1,2) by blast
  next
    case False
    then have "json_char c = (if ?b < 32 \<or> c = CHR ''<'' \<or> c = CHR ''>'' \<or> c = CHR ''&''
        then backslash # ''u00'' @ [hex_digit (?b div 16), hex_digit (?b mod 16)] else [c])"
      by (simp add: json_char_def Let_def)
    then show ?thesis using that(3,4) False
      by (cases "?b < 32 \<or> c = CHR ''<'' \<or> c = CHR ''>'' \<or> c = CHR ''&''") auto
  qed
  then show ?thesis
  proof cases
    case 1
    then show ?thesis by (intro one [of c]) (auto simp: parse_escape_def json_char_def)
  next
    case 2
    then show ?thesis
      by (intro one [of "if ?b = 8 then CHR ''b'' else if ?b = 12 then CHR ''f'' else if ?b = 10 then CHR ''n''
            else if ?b = 13 then CHR ''r'' else CHR ''t''"])
        (use c in \<open>auto simp: parse_escape_def json_char_def Let_def quote_mark_def backslash_def\<close>)
  next
    case 3
    let ?h = "[CHR ''0'', CHR ''0'', hex_digit (?b div 16), hex_digit (?b mod 16)]"
    have "hex4 ?h = Some ?b"
      using assms by (simp add: hex4_def hex_value_digit hex_value_def [of "CHR ''0''"] Let_def)
    then have "parse_escape (CHR ''u'' # ?h @ t) = Some (encode_rune ?b, t)"
      using escape_u [of "?h @ t" ?b] assms by simp
    then show ?thesis using escape_chars [of "CHR ''u'' # ?h @ t" "encode_rune ?b" t n] 3 assms c
      by (simp add: encode_rune_def)
  next
    case 4
    then show ?thesis using assms by (simp add: parse_chars.simps(3) rune_len_def Let_def)
  qed
qed

lemma separator_runes:
  "encode_rune 8232 = bytes_of [226, 128, 168]" "encode_rune 8233 = bytes_of [226, 128, 169]"
  by (simp_all add: encode_rune_def)

lemma parse_json_body:
  "utf8_valid s \<Longrightarrow> length s < n \<Longrightarrow> parse_chars n (json_body s @ quote_mark # t) = Some (s, t)"
proof (induction s arbitrary: n rule: utf8_valid.induct)
  case 1
  then show ?case by (cases n) (simp_all add: parse_chars.simps(3))
next
  case (2 c s)
  let ?k = "rune_len (c # s)"
  obtain m where n: "n = Suc m" "length s < m" using 2(3) by (cases n) auto
  have v: "?k > 0" "utf8_valid (drop (?k - 1) s)" using 2(2) by (simp_all add: utf8_valid.simps(2) Let_def)
  have IH: "parse_chars m (json_body (drop (?k - 1) s) @ quote_mark # t) = Some (drop (?k - 1) s, t)"
    using 2(1) [OF refl v(2)] n(2) by simp
  have whole: "take ?k (c # s) @ drop (?k - 1) s = c # s" using v(1) by (cases ?k) auto
  show ?case
  proof (cases "byte c < 128")
    case True
    then have "?k = 1" by (simp add: rune_len_def)
    then show ?thesis using IH parse_json_char [OF True] n(1) True by (simp add: json_body.simps(2))
  next
    case False
    let ?r = "take ?k (c # s)"
    have sep: "parse_chars n (backslash # e @ json_body (drop (?k - 1) s) @ quote_mark # t) = Some (c # s, t)"
      if "e = ''u2028'' \<and> ?r = bytes_of [226, 128, 168] \<or> e = ''u2029'' \<and> ?r = bytes_of [226, 128, 169]" for e
    proof -
      have "parse_escape (e @ u) = Some (?r, u)" for u
        using that escape_u [of "''2028'' @ u" 8232] escape_u [of "''2029'' @ u" 8233]
        by (auto simp: hex4_def hex_value_def separator_runes)
      then show ?thesis using escape_chars IH whole n(1) by simp
    qed
    show ?thesis
    proof (cases "?r = bytes_of [226, 128, 168] \<or> ?r = bytes_of [226, 128, 169]")
      case True
      then show ?thesis using sep [of "''u2028''"] sep [of "''u2029''"] False v(1)
        by (auto simp: json_body.simps(2) Let_def)
    next
      case plain: False
      then have "json_body (c # s) = ?r @ json_body (drop (?k - 1) s)"
        using False v(1) by (simp add: json_body.simps(2) Let_def)
      then show ?thesis using parse_chars_rune [OF refl v(1)] IH whole n(1) False by simp
    qed
  qed
qed

text \<open>One member with a string value, followed by another or by the closing brace.\<close>

lemma expect_here: "\<not> json_space c \<Longrightarrow> expect x (c # r) = (if x = c then Some r else None)"
  by (auto simp: expect_def skip_space_def)

lemma parse_quoted:
  "utf8_valid s \<Longrightarrow> length s < n \<Longrightarrow> parse_value (Suc n) d (json_quote s @ t) = Some (JStr s, t)"
  by (simp add: parse_value.simps(2) json_quote_def skip_space_def json_space_def quote_mark_def parse_json_body
      [unfolded quote_mark_def])

lemma parse_member:
  assumes "utf8_valid f" "utf8_valid s" "length f \<le> n" "length s < n"
  shows "parse_members (Suc (Suc n)) d (json_quote f @ CHR '':'' # json_quote s @ CHR '','' # t) =
      map_option (\<lambda>(ms, r). ((f, JStr s) # ms, r)) (parse_members (Suc n) d t)"
    and "parse_members (Suc (Suc n)) d (json_quote f @ CHR '':'' # json_quote s @ CHR ''}'' # t) = Some ([(f, JStr s)], t)"
proof -
  have "expect quote_mark (json_quote f @ u) = Some (json_body f @ quote_mark # u)" for u
    by (simp add: json_quote_def expect_here json_space_def quote_mark_def)
  moreover have "parse_chars (Suc n) (json_body f @ quote_mark # u) = Some (f, u)" for u
    using parse_json_body [of f "Suc n"] assms by simp
  ultimately show "parse_members (Suc (Suc n)) d (json_quote f @ CHR '':'' # json_quote s @ CHR '','' # t) =
      map_option (\<lambda>(ms, r). ((f, JStr s) # ms, r)) (parse_members (Suc n) d t)"
    and "parse_members (Suc (Suc n)) d (json_quote f @ CHR '':'' # json_quote s @ CHR ''}'' # t) = Some ([(f, JStr s)], t)"
    using parse_quoted [OF assms(2,4)] by (simp_all add: parse_members.simps(2) expect_here json_space_def)
qed

end
