(* ===== verification/PageToken.thy ===== *)
theory PageToken
  imports PluginConfig Json
begin

text \<open>
  Page tokens (\<^verbatim>\<open>internal/api/pagetoken.go\<close>): a listing key as JSON in unpadded base64url. The lemmas show
  that a token reads back as the key it was made of, whatever valid UTF-8 the key holds, that it
  is never the empty token of the first page, and that it survives the trimming of a request field.

  The texts of the library's own decoding errors are abbreviated.
\<close>

subsection \<open>base64url without padding\<close>

definition b64_char :: "nat \<Rightarrow> char" where
  "b64_char n =
     (if n < 26 then char_of (65 + n)
      else if n < 52 then char_of (71 + n)
      else if n < 62 then char_of (n - 4)
      else if n = 62 then CHR ''-'' else CHR ''_'')"

definition b64_value :: "char \<Rightarrow> nat option" where
  "b64_value c =
     (let b = byte c in
      if 65 \<le> b \<and> b \<le> 90 then Some (b - 65)
      else if 97 \<le> b \<and> b \<le> 122 then Some (b - 71)
      else if 48 \<le> b \<and> b \<le> 57 then Some (b + 4)
      else if c = CHR ''-'' then Some 62
      else if c = CHR ''_'' then Some 63
      else None)"

fun b64_encode :: "string \<Rightarrow> string" where
  "b64_encode [] = []"
| "b64_encode [x] = [b64_char (byte x div 4), b64_char (byte x mod 4 * 16)]"
| "b64_encode [x, y] =
     [b64_char (byte x div 4), b64_char (byte x mod 4 * 16 + byte y div 16), b64_char (byte y mod 16 * 4)]"
| "b64_encode (x # y # z # s) =
     [b64_char (byte x div 4), b64_char (byte x mod 4 * 16 + byte y div 16),
      b64_char (byte y mod 16 * 4 + byte z div 64), b64_char (byte z mod 64)] @ b64_encode s"

text \<open>Groups of four sextets; what is left over may be two or three, its spare low bits are dropped.\<close>

fun b64_bytes :: "nat list \<Rightarrow> string option" where
  "b64_bytes [] = Some []"
| "b64_bytes [a] = None"
| "b64_bytes [a, b] = Some [char_of (a * 4 + b div 16)]"
| "b64_bytes [a, b, c] = Some [char_of (a * 4 + b div 16), char_of (b mod 16 * 16 + c div 4)]"
| "b64_bytes (a # b # c # d # r) =
     map_option (\<lambda>s. [char_of (a * 4 + b div 16), char_of (b mod 16 * 16 + c div 4), char_of (c mod 4 * 64 + d)] @ s)
       (b64_bytes r)"

fun b64_sextets :: "string \<Rightarrow> nat list option" where
  "b64_sextets [] = Some []"
| "b64_sextets (c # s) =
     (case (b64_value c, b64_sextets s) of (Some v, Some vs) \<Rightarrow> Some (v # vs) | _ \<Rightarrow> None)"

text \<open>The decoder skips line breaks wherever they stand.\<close>

definition b64_decode :: "string \<Rightarrow> string option" where
  "b64_decode s =
     (case b64_sextets (filter (\<lambda>c. c \<noteq> CHR 0x0A \<and> c \<noteq> CHR 0x0D) s) of None \<Rightarrow> None | Some vs \<Rightarrow> b64_bytes vs)"

subsection \<open>Tokens\<close>

definition err_bad_page_token :: go_error where
  "err_bad_page_token = errors_new ErrBadPageToken ''page_token is not one this server issued''"

text \<open>\<open>json.Marshal(pageTokenKey)\<close>.\<close>

definition token_json :: "plugin_key \<Rightarrow> string" where
  "token_json k =
     CHR ''{'' # json_quote ''g'' @ '':'' @ json_quote (pk_group k) @ '','' @ json_quote ''n'' @ '':'' @ json_quote (pk_name k)
     @ '','' @ json_quote ''v'' @ '':'' @ json_quote (pk_version k) @ ''}''"

definition encode_page_token :: "plugin_key option \<Rightarrow> string" where
  "encode_page_token key = (case key of None \<Rightarrow> [] | Some k \<Rightarrow> b64_encode (token_json k))"

definition token_field :: "string \<Rightarrow> string option" where
  "token_field k =
     (let names = [''g'', ''n'', ''v''] in
      if k \<in> set names then Some k else find (\<lambda>n. fold_name n = fold_name k) names)"

text \<open>A member of the wrong type is an error; the decoder goes on and reports it at the end.\<close>

fun token_members :: "plugin_key \<Rightarrow> (string \<times> json) list \<Rightarrow> plugin_key option" where
  "token_members key [] = Some key"
| "token_members key ((k, j) # ms) =
     (case token_field k of
        None \<Rightarrow> token_members key ms
      | Some f \<Rightarrow>
          (case j of
             JNull \<Rightarrow> token_members key ms
           | JStr s \<Rightarrow>
               token_members (if f = ''g'' then key\<lparr>pk_group := s\<rparr>
                              else if f = ''n'' then key\<lparr>pk_name := s\<rparr> else key\<lparr>pk_version := s\<rparr>) ms
           | _ \<Rightarrow> None))"

definition zero_key :: plugin_key where
  "zero_key = \<lparr>pk_group = [], pk_name = [], pk_version = []\<rparr>"

definition unmarshal_token :: "string \<Rightarrow> plugin_key option" where
  "unmarshal_token raw =
     (case json_parse raw of
        Some JNull \<Rightarrow> Some zero_key
      | Some (JObj ms) \<Rightarrow> token_members zero_key ms
      | _ \<Rightarrow> None)"

definition decode_page_token :: "string \<Rightarrow> plugin_key option result" where
  "decode_page_token token =
     (if token = [] then Inr None
      else case b64_decode token of
          None \<Rightarrow> Inl (wrap_both err_bad_page_token '': '' (plain_error ''illegal base64 data'') [])
        | Some raw \<Rightarrow>
            (case unmarshal_token raw of
               None \<Rightarrow> Inl (wrap_both err_bad_page_token '': '' (plain_error ''invalid JSON'') [])
             | Some key \<Rightarrow> Inr (Some key)))"

subsection \<open>base64 reads back\<close>

lemma b64_value_char [simp]: "n < 64 \<Longrightarrow> b64_value (b64_char n) = Some n"
  by (auto simp: b64_value_def b64_char_def Let_def byte_def take_bit_eq_mod)

lemma regroup2:
  fixes x y :: nat
  assumes "x < 256" "y < 256"
  shows "x div 4 * 4 + (x mod 4 * 16 + y div 16) div 16 = x" "x mod 4 * 16 + y div 16 < 64"
    and "(x mod 4 * 16 + y div 16) mod 16 = y div 16" "x div 4 < 64"
proof -
  have y: "y div 16 < 16" using less_mult_imp_div_less [of y 16 16] assms(2) by simp
  have "x mod 4 < 4" by simp
  then have "x mod 4 * 16 \<le> 48" by linarith
  then show "x mod 4 * 16 + y div 16 < 64" using y by linarith
  have "(x mod 4 * 16 + y div 16) div 16 = x mod 4" using y by simp
  then show "x div 4 * 4 + (x mod 4 * 16 + y div 16) div 16 = x" by simp
  show "(x mod 4 * 16 + y div 16) mod 16 = y div 16" using y by simp
  show "x div 4 < 64" using less_mult_imp_div_less [of x 64 4] assms(1) by simp
qed

lemma regroup3:
  fixes y z :: nat
  assumes "y < 256" "z < 256"
  shows "y div 16 * 16 + (y mod 16 * 4 + z div 64) div 4 = y" "y mod 16 * 4 + z div 64 < 64"
    and "(y mod 16 * 4 + z div 64) mod 4 * 64 + z mod 64 = z" "z mod 64 < 64"
proof -
  have z: "z div 64 < 4" using less_mult_imp_div_less [of z 4 64] assms(2) by simp
  have "y mod 16 < 16" by simp
  then have "y mod 16 * 4 \<le> 60" by linarith
  then show "y mod 16 * 4 + z div 64 < 64" using z by linarith
  have "(y mod 16 * 4 + z div 64) div 4 = y mod 16" "(y mod 16 * 4 + z div 64) mod 4 = z div 64" using z by simp_all
  then show "y div 16 * 16 + (y mod 16 * 4 + z div 64) div 4 = y" "(y mod 16 * 4 + z div 64) mod 4 * 64 + z mod 64 = z"
    by simp_all
  show "z mod 64 < 64" by simp
qed

lemma spare_bits:
  fixes x :: nat
  assumes "x < 256"
  shows "x div 4 * 4 + x mod 4 * 16 div 16 = x" "x mod 4 * 16 < 64" "x mod 4 * 16 mod 16 = 0" "x div 4 < 64"
    and "x div 16 * 16 + x mod 16 * 4 div 4 = x" "x mod 16 * 4 < 64"
  using assms regroup2 [of x 0] regroup3 [of x 0] by simp_all

text \<open>What was encoded comes back, and every character of it is one the decoder keeps.\<close>

lemma b64_round: "\<exists>vs. b64_sextets (b64_encode s) = Some vs \<and> b64_bytes vs = Some s"
proof (induction s rule: b64_encode.induct)
  case (2 x)
  then show ?case using spare_bits [OF byte_less [of x]] by simp
next
  case (3 x y)
  then show ?case using regroup2 [OF byte_less [of x] byte_less [of y]] spare_bits [OF byte_less [of y]] by simp
next
  case (4 x y z s)
  then show ?case using regroup2 [OF byte_less [of x] byte_less [of y]] regroup3 [OF byte_less [of y] byte_less [of z]]
    by auto
qed simp

lemma b64_value_space: "is_space c \<Longrightarrow> b64_value c = None"
  by (auto simp: is_space_def b64_value_def byte_def)

lemma b64_char_plain: "n < 64 \<Longrightarrow> \<not> is_space (b64_char n)"
  using b64_value_char [of n] b64_value_space by force

lemma b64_encode_plain: "c \<in> set (b64_encode s) \<Longrightarrow> \<not> is_space c"
proof (induction s rule: b64_encode.induct)
  case (2 x)
  then show ?case using spare_bits [OF byte_less [of x]] b64_char_plain by auto
next
  case (3 x y)
  then show ?case
    using regroup2 [OF byte_less [of x] byte_less [of y]] spare_bits [OF byte_less [of y]] b64_char_plain by auto
next
  case (4 x y z s)
  then show ?case
    using regroup2 [OF byte_less [of x] byte_less [of y]] regroup3 [OF byte_less [of y] byte_less [of z]] b64_char_plain
    by auto
qed simp

lemma b64_encode_Nil [simp]: "b64_encode s = [] \<longleftrightarrow> s = []"
  by (cases s rule: b64_encode.cases) simp_all

lemma b64_decode_encode [simp]: "b64_decode (b64_encode s) = Some s"
proof -
  have "filter (\<lambda>c. c \<noteq> CHR 0x0A \<and> c \<noteq> CHR 0x0D) (b64_encode s) = b64_encode s"
    using b64_encode_plain by (auto simp: filter_id_conv is_space_def)
  then show ?thesis using b64_round [of s] by (auto simp: b64_decode_def)
qed

subsection \<open>Tokens read back\<close>

definition utf8_key :: "plugin_key \<Rightarrow> bool" where
  "utf8_key k \<longleftrightarrow> utf8_valid (pk_group k) \<and> utf8_valid (pk_name k) \<and> utf8_valid (pk_version k)"

lemma utf8_letters: "utf8_valid ''g''" "utf8_valid ''n''" "utf8_valid ''v''"
  by (simp_all add: utf8_valid.simps(2) rune_len_def byte_def)

lemma unmarshal_token_json:
  assumes "utf8_key k" shows "unmarshal_token (token_json k) = Some k"
proof -
  let ?n = "Suc (length (pk_group k) + length (pk_name k) + length (pk_version k))"
  let ?ms = "[(''g'', JStr (pk_group k)), (''n'', JStr (pk_name k)), (''v'', JStr (pk_version k))]"
  have v: "utf8_valid (pk_group k)" "utf8_valid (pk_name k)" "utf8_valid (pk_version k)"
    using assms by (simp_all add: utf8_key_def)
  have ms: "parse_members (Suc (Suc (Suc (Suc ?n)))) 1 (tl (token_json k)) = Some (?ms, [])"
    using parse_member(1) [OF utf8_letters(1) v(1), of "Suc (Suc ?n)"]
      parse_member(1) [OF utf8_letters(2) v(2), of "Suc ?n"] parse_member(2) [OF utf8_letters(3) v(3), of ?n "1" "[]"]
    by (simp add: token_json_def)
  have o: "token_json k = CHR ''{'' # tl (token_json k)" "expect CHR ''}'' (tl (token_json k)) = None"
    by (simp_all add: token_json_def json_quote_def expect_here json_space_def quote_mark_def)
  have "parse_value (Suc (Suc (Suc (Suc (Suc ?n))))) 0 (CHR ''{'' # tl (token_json k)) = Some (JObj ?ms, [])"
    using ms o(2) by (simp add: parse_value.simps(2) skip_space_def json_space_def quote_mark_def max_nesting_depth_def)
  then have "json_parse (token_json k) = Some (JObj ?ms)"
    using json_parse_complete o(1) by (simp add: skip_space_def)
  then show ?thesis by (simp add: unmarshal_token_def token_field_def zero_key_def)
qed

lemma page_token_back:
  assumes "utf8_key k"
  shows "decode_page_token (trim_space (encode_page_token (Some k))) = Inr (Some k) \<and>
    encode_page_token (Some k) \<noteq> [] \<and> decode_page_token (encode_page_token None) = Inr None"
proof (intro conjI)
  show ne: "encode_page_token (Some k) \<noteq> []"
    by (simp add: encode_page_token_def token_json_def b64_encode_Nil)
  have "trim_space (encode_page_token (Some k)) = encode_page_token (Some k)"
    by (rule trim_space_id) (use b64_encode_plain in \<open>auto simp: encode_page_token_def\<close>)
  then show "decode_page_token (trim_space (encode_page_token (Some k))) = Inr (Some k)"
    using ne unmarshal_token_json [OF assms] by (simp add: decode_page_token_def encode_page_token_def)
  show "decode_page_token (encode_page_token None) = Inr None"
    by (simp add: encode_page_token_def decode_page_token_def)
qed

text \<open>
  C34. A page token reads back as the key of the page it continues, for every key of valid UTF-8; it is never
  empty, which would ask for the first page again, and the trimming of the request field leaves it
  alone.
\<close>

theorem page_token_round_trip:
  assumes "utf8_key k"
  shows "decode_page_token (trim_space (encode_page_token (Some k))) = Inr (Some k) \<and>
    encode_page_token (Some k) \<noteq> [] \<and> decode_page_token (encode_page_token None) = Inr None"
  by (rule page_token_back [OF assms])

text \<open>Every refusal is the sentinel of the package.\<close>

lemma bad_token: "decode_page_token t = Inl e \<Longrightarrow> errors_is e ErrBadPageToken"
  by (auto simp: decode_page_token_def err_bad_page_token_def split: if_splits option.splits)

theorem page_token_round_trip_witness:
  "decode_page_token (trim_space (encode_page_token (Some \<lparr>pk_group = ''grpc'', pk_name = ''a<b'', pk_version = ''v1.5.1''\<rparr>))) =
     Inr (Some \<lparr>pk_group = ''grpc'', pk_name = ''a<b'', pk_version = ''v1.5.1''\<rparr>)"
proof -
  have "utf8_key \<lparr>pk_group = ''grpc'', pk_name = ''a<b'', pk_version = ''v1.5.1''\<rparr>"
    by (simp add: utf8_key_def utf8_valid.simps(2) rune_len_def byte_def)
  then show ?thesis using page_token_round_trip by blast
qed

end
