(* ===== verification/Api.thy ===== *)
theory Api
  imports Core Auth PageToken
begin

text \<open>
  The handlers of the gRPC service (\<^verbatim>\<open>internal/api/api.go\<close>, \<^verbatim>\<open>internal/api/plugins_list.go\<close>), the MCP tool
  beside them (\<^verbatim>\<open>internal/api/mcp_tools.go\<close>), and the conversion of an error into the status a client sees
  (\<^verbatim>\<open>internal/grpchelper/grpc_codes.go\<close>). Requests are records of the values the generated getters
  return; \<open>protojson.Marshal\<close> of a configuration is a parameter.

  The lemmas give the classification of every error under the wrapping of the layers above it,
  the message a client is shown, and the fields an update selects.
\<close>

subsection \<open>Status errors\<close>

definition code_string :: "code \<Rightarrow> string" where
  "code_string c =
     (case c of OK \<Rightarrow> ''OK'' | CanceledCode \<Rightarrow> ''Canceled'' | InvalidArgument \<Rightarrow> ''InvalidArgument''
      | DeadlineExceededCode \<Rightarrow> ''DeadlineExceeded'' | NotFound \<Rightarrow> ''NotFound'' | AlreadyExists \<Rightarrow> ''AlreadyExists''
      | PermissionDenied \<Rightarrow> ''PermissionDenied'' | ResourceExhausted \<Rightarrow> ''ResourceExhausted''
      | FailedPrecondition \<Rightarrow> ''FailedPrecondition'' | InternalCode \<Rightarrow> ''Internal'' | Unavailable \<Rightarrow> ''Unavailable''
      | Unauthenticated \<Rightarrow> ''Unauthenticated'')"

text \<open>\<open>status.Error(code, text)\<close> as an error: no sentinel of the service is in its chain.\<close>

definition status_error :: "code \<Rightarrow> string \<Rightarrow> go_error" where
  "status_error c m = plain_error (''rpc error: code = '' @ code_string c @ '' desc = '' @ m)"

subsection \<open>Classification\<close>

definition error_classes :: "(sentinel \<times> code \<times> string) list" where
  "error_classes =
     [(ErrNotFound, NotFound, ''NOT_FOUND''),
      (ErrInvalidPluginName, InvalidArgument, ''INVALID_PLUGIN_NAME''),
      (ErrInvalidConfig, InvalidArgument, ''INVALID_CONFIG''),
      (ErrGenerationFailed, InternalCode, ''GENERATION_FAILED''),
      (ErrServerOverloaded, ResourceExhausted, ''SERVER_OVERLOADED''),
      (ErrAlreadyExists, AlreadyExists, ''ALREADY_EXISTS''),
      (ErrMaxPluginsExceeded, ResourceExhausted, ''MAX_PLUGINS_EXCEEDED''),
      (ErrShuttingDown, Unavailable, ''SHUTTING_DOWN''),
      (ErrStorageUnavailable, Unavailable, ''STORAGE_UNAVAILABLE''),
      (ErrBinaryNotUploaded, FailedPrecondition, ''BINARY_NOT_UPLOADED''),
      (ErrFeatureDenied, PermissionDenied, ''FEATURE_DENIED''),
      (DeadlineExceeded, DeadlineExceededCode, ''DEADLINE_EXCEEDED''),
      (Canceled, CanceledCode, ''CANCELED'')]"

definition classify :: "go_error \<Rightarrow> code \<times> string" where
  "classify e =
     (case find (\<lambda>(s, _). errors_is e s) error_classes of Some (s, c) \<Rightarrow> c | None \<Rightarrow> (InternalCode, ''INTERNAL''))"

text \<open>One leading \<^verbatim>\<open>identifier: \<close> segment of a message.\<close>

definition site_start :: "char \<Rightarrow> bool" where
  "site_start c \<longleftrightarrow> is_upper c \<or> is_lower c \<or> c = CHR ''_'' \<or> c = CHR ''(''"

definition site_char :: "char \<Rightarrow> bool" where
  "site_char c \<longleftrightarrow> is_upper c \<or> is_lower c \<or> is_digit c \<or> c \<in> set ''_.*()[]''"

definition strip_call_site :: "string \<Rightarrow> string" where
  "strip_call_site m =
     (case m of [] \<Rightarrow> []
      | c # s \<Rightarrow>
          (let r = dropWhile site_char s in
           if site_start c \<and> has_prefix r '': '' then drop 2 r else m))"

lemma strip_shorter: "strip_call_site m \<noteq> m \<Longrightarrow> length (strip_call_site m) < length m"
proof (cases m)
  case (Cons c s)
  assume "strip_call_site m \<noteq> m"
  then have "strip_call_site m = drop 2 (dropWhile site_char s)"
    using Cons by (auto simp: strip_call_site_def Let_def split: if_splits)
  moreover have "length (dropWhile site_char s) \<le> length s" by (rule length_dropWhile_le)
  ultimately show ?thesis using Cons by simp
qed (simp add: strip_call_site_def)

function client_text :: "string \<Rightarrow> string" where
  "client_text m = (let trimmed = strip_call_site m in if trimmed = m then m else client_text trimmed)"
  by auto
termination by (relation "measure length") (auto intro: strip_shorter)

declare client_text.simps [simp del]

definition client_message :: "go_error \<Rightarrow> string" where
  "client_message e = client_text (msg e)"

definition error_to_status :: "go_error option \<Rightarrow> status" where
  "error_to_status e =
     (case e of
        None \<Rightarrow> \<lparr>st_code = OK, st_message = [], st_reason = None\<rparr>
      | Some e \<Rightarrow>
          (let (c, reason) = classify e
           in \<lparr>st_code = c, st_message = client_message e, st_reason = Some reason\<rparr>))"

text \<open>The converter around a handler: whatever error the handler returns is classified, a status error too.\<close>

definition convert_codes :: "'a result \<times> 'c \<Rightarrow> (status + 'a) \<times> 'c" where
  "convert_codes rc =
     (case rc of (Inl e, c) \<Rightarrow> (Inl (error_to_status (Some e)), c) | (Inr a, c) \<Rightarrow> (Inr a, c))"

subsection \<open>Requests and responses\<close>

record plugins_request =
  pq_group :: string
  pq_name :: string
  pq_version :: string
  pq_tags :: "string list"
  pq_page_size :: "32 word"
  pq_page_token :: string

record plugin_msg =
  pm_id :: nat
  pm_group :: string
  pm_name :: string
  pm_version :: string
  pm_tags :: "string list"
  pm_seconds :: int
  pm_nanos :: int

record plugins_response =
  pp_plugins :: "plugin_msg list"
  pp_next_page_token :: string

record 'cfg create_msg =
  cm_group :: string
  cm_name :: string
  cm_version :: string
  cm_config :: "'cfg option"
  cm_tags :: "string list"

record 'cfg update_msg =
  um_group :: string
  um_name :: string
  um_version :: string
  um_config :: "'cfg option"
  um_tags :: "string list"
  um_mask :: "string list"           \<comment> \<open>the paths; none for an absent mask\<close>

definition plugin_info_to_proto :: "plugin_info \<Rightarrow> plugin_msg" where
  "plugin_info_to_proto p =
     \<lparr>pm_id = pi_id p, pm_group = pi_group p, pm_name = pi_name p, pm_version = pi_version p, pm_tags = pi_tags p,
      pm_seconds = pi_created_at p div 1000000000, pm_nanos = pi_created_at p mod 1000000000\<rparr>"

definition compact_strings :: "string list \<Rightarrow> string list" where
  "compact_strings values = filter (\<lambda>v. v \<noteq> []) (map trim_space values)"

subsection \<open>Handlers\<close>

definition api_generate ::
  "('r, 'p, 'req, 'resp) reg_iface \<Rightarrow> 'r core_state \<Rightarrow> call \<Rightarrow> string \<Rightarrow> 'req \<Rightarrow> 'resp result \<times> 'r core_state" where
  "api_generate ri c call plugin_name payload =
     (case core_generate ri c call plugin_name payload of
        (Inl e, c1) \<Rightarrow> (Inl (wrap ''api.app.Generate: '' e), c1)
      | (Inr resp, c1) \<Rightarrow> (Inr resp, c1))"

definition request_filter :: "plugins_request \<Rightarrow> plugin_filter" where
  "request_filter req =
     \<lparr>pf_group = trim_space (pq_group req), pf_name = trim_space (pq_name req),
      pf_version = trim_space (pq_version req), pf_tags = compact_strings (pq_tags req)\<rparr>"

definition list_plugins ::
  "('r, 'p, 'req, 'resp) reg_iface \<Rightarrow> 'r core_state \<Rightarrow> call \<Rightarrow> plugins_request
   \<Rightarrow> plugins_response result \<times> 'r core_state" where
  "list_plugins ri c call req =
     (case decode_page_token (trim_space (pq_page_token req)) of
        Inl e \<Rightarrow> (Inl e, c)
      | Inr after \<Rightarrow>
          (let page = \<lparr>pg_size = uint (pq_page_size req), pg_after = after\<rparr> in
           case core_list_plugins ri c call (request_filter req) page of
             (Inl e, c1) \<Rightarrow> (Inl (wrap ''ListPlugins: '' e), c1)
           | (Inr l, c1) \<Rightarrow>
               (Inr \<lparr>pp_plugins = map plugin_info_to_proto (pl_plugins l),
                     pp_next_page_token = encode_page_token (pl_next l)\<rparr>, c1)))"

definition api_plugins ::
  "('r, 'p, 'req, 'resp) reg_iface \<Rightarrow> 'r core_state \<Rightarrow> call \<Rightarrow> plugins_request
   \<Rightarrow> plugins_response result \<times> 'r core_state" where
  "api_plugins ri c call req =
     (case list_plugins ri c call req of
        (Inl e, c1) \<Rightarrow>
          if errors_is e ErrBadPageToken then (Inl (status_error InvalidArgument (msg e)), c1)
          else (Inl (wrap ''api.app.ListPlugins: '' e), c1)
      | (Inr resp, c1) \<Rightarrow> (Inr resp, c1))"

text \<open>The MCP tool: no service behind it means an empty listing.\<close>

definition tool_plugins ::
  "('r, 'p, 'req, 'resp) reg_iface \<Rightarrow> 'r core_state option \<Rightarrow> call \<Rightarrow> plugins_request
   \<Rightarrow> plugins_response result \<times> 'r core_state option" where
  "tool_plugins ri svc call req =
     (case svc of
        None \<Rightarrow> (Inr \<lparr>pp_plugins = [], pp_next_page_token = []\<rparr>, None)
      | Some c \<Rightarrow> (case list_plugins ri c call req of (r, c1) \<Rightarrow> (r, Some c1)))"

definition config_json :: "('cfg \<Rightarrow> raw_json result) \<Rightarrow> 'cfg option \<Rightarrow> raw_json result" where
  "config_json marshal config =
     (case config of
        None \<Rightarrow> Inr RawEmpty
      | Some cfg \<Rightarrow> (case marshal cfg of Inl e \<Rightarrow> Inl (wrap ''protojson.Marshal config: '' e) | Inr b \<Rightarrow> Inr b))"

definition api_create ::
  "('cfg \<Rightarrow> raw_json result) \<Rightarrow> ('r, 'p, 'req, 'resp) reg_iface \<Rightarrow> 'r core_state \<Rightarrow> call \<Rightarrow> 'cfg create_msg
   \<Rightarrow> plugin_msg result \<times> 'r core_state" where
  "api_create marshal ri c call req =
     (case config_json marshal (cm_config req) of
        Inl e \<Rightarrow> (Inl e, c)
      | Inr config \<Rightarrow>
          (case core_create_plugin ri c call
                  \<lparr>cr_group = trim_space (cm_group req), cr_name = trim_space (cm_name req),
                   cr_version = trim_space (cm_version req), cr_config = config, cr_tags = compact_strings (cm_tags req)\<rparr> of
             (Inl e, c1) \<Rightarrow> (Inl (wrap ''api.app.CreatePlugin: '' e), c1)
           | (Inr info, c1) \<Rightarrow> (Inr (plugin_info_to_proto info), c1)))"

definition unknown_path :: "string \<Rightarrow> go_error" where
  "unknown_path path =
     status_error InvalidArgument
       (''update_mask: unknown path '' @ quoted path @ ''; the paths are '' @ quoted ''config'' @ '' and '' @ quoted ''tags'')"

fun mask_paths :: "bool \<Rightarrow> bool \<Rightarrow> string list \<Rightarrow> (bool \<times> bool) result" where
  "mask_paths update_config update_tags [] = Inr (update_config, update_tags)"
| "mask_paths update_config update_tags (path # paths) =
     (let p = trim_space path in
      if p = ''config'' then mask_paths True update_tags paths
      else if p = ''tags'' then mask_paths update_config True paths
      else Inl (unknown_path path))"

definition update_mask_fields :: "string list \<Rightarrow> (bool \<times> bool) result" where
  "update_mask_fields paths = (if length paths = 0 then Inr (True, True) else mask_paths False False paths)"

definition api_update ::
  "('cfg \<Rightarrow> raw_json result) \<Rightarrow> ('r, 'p, 'req, 'resp) reg_iface \<Rightarrow> 'r core_state \<Rightarrow> call \<Rightarrow> 'cfg update_msg
   \<Rightarrow> plugin_msg result \<times> 'r core_state" where
  "api_update marshal ri c call req =
     (case config_json marshal (um_config req) of
        Inl e \<Rightarrow> (Inl e, c)
      | Inr config \<Rightarrow>
     (case update_mask_fields (um_mask req) of
        Inl e \<Rightarrow> (Inl e, c)
      | Inr (update_config, update_tags) \<Rightarrow>
          (case core_update_plugin ri c call
                  \<lparr>ur_group = trim_space (um_group req), ur_name = trim_space (um_name req),
                   ur_version = trim_space (um_version req), ur_config = config, ur_tags = compact_strings (um_tags req),
                   ur_update_config = update_config, ur_update_tags = update_tags\<rparr> of
             (Inl e, c1) \<Rightarrow> (Inl (wrap ''api.app.UpdatePlugin: '' e), c1)
           | (Inr info, c1) \<Rightarrow> (Inr (plugin_info_to_proto info), c1))))"

definition api_delete ::
  "('r, 'p, 'req, 'resp) reg_iface \<Rightarrow> 'r core_state \<Rightarrow> call \<Rightarrow> string \<Rightarrow> string \<Rightarrow> string
   \<Rightarrow> unit result \<times> 'r core_state" where
  "api_delete ri c call grp name version =
     (case core_delete_plugin ri c call (trim_space grp) (trim_space name) (trim_space version) of
        (Some e, c1) \<Rightarrow> (Inl (wrap ''api.app.DeletePlugin: '' e), c1)
      | (None, c1) \<Rightarrow> (Inr (), c1))"

subsection \<open>What a client is told\<close>

lemma classify_wrapped [simp]:
  "classify (wrap p e) = classify e" "classify (wrap_after e q) = classify e"
  by (simp_all add: classify_def)

lemma client_text_stop: "strip_call_site m = m \<Longrightarrow> client_text m = m"
  by (subst client_text.simps) (simp add: Let_def)

lemma client_text_strip: "client_text (strip_call_site m) = client_text m"
  using client_text.simps [of m] by (auto simp: Let_def split: if_splits)

lemma strip_client_text [simp]: "strip_call_site (client_text m) = client_text m"
proof (induction m rule: client_text.induct)
  case (1 m)
  then show ?case by (cases "strip_call_site m = m") (auto simp: client_text_stop client_text_strip)
qed

text \<open>A call site is what the layers put before an error: \<^verbatim>\<open>api.app.Generate\<close>, \<^verbatim>\<open>(*Registry).Update\<close>.\<close>

definition call_site :: "string \<Rightarrow> bool" where
  "call_site s \<longleftrightarrow> s \<noteq> [] \<and> site_start (hd s) \<and> list_all site_char (tl s)"

lemma client_text_site:
  assumes "call_site s" shows "client_text (s @ '': '' @ m) = client_text m"
proof -
  obtain c t where s: "s = c # t" "site_start c" "list_all site_char t"
    using assms by (cases s) (auto simp: call_site_def)
  have "\<not> site_char CHR '':''" by (simp add: site_char_def is_upper_def is_lower_def is_digit_def)
  then have "dropWhile site_char (t @ '': '' @ m) = '': '' @ m"
    using s(3) by (subst dropWhile_append2) (auto simp: list_all_iff)
  then have "strip_call_site (s @ '': '' @ m) = m"
    using s by (simp add: strip_call_site_def has_prefix_def)
  then show ?thesis using client_text_strip [of "s @ '': '' @ m"] by simp
qed

definition wrap_sites :: "string list \<Rightarrow> go_error \<Rightarrow> go_error" where
  "wrap_sites sites e = foldr (\<lambda>s. wrap (s @ '': '')) sites e"

lemma wrap_sites_simps [simp]:
  "wrap_sites [] e = e" "wrap_sites (s # sites) e = wrap (s @ '': '') (wrap_sites sites e)"
  by (simp_all add: wrap_sites_def)

lemma wrap_sites_text:
  "list_all call_site sites \<Longrightarrow> client_text (msg (wrap_sites sites e)) = client_text (msg e)"
proof (induction sites)
  case (Cons s sites)
  then show ?case using client_text_site [of s "msg (wrap_sites sites e)"] by (simp add: wrap_def)
qed simp

lemma wrap_sites_class: "classify (wrap_sites sites e) = classify e"
  by (induction sites) simp_all


text \<open>
  The reason a client is given and the code in the audit log are the same for every error with one
  classified sentinel in its chain, except three: an invalid configuration, a deadline and a
  cancellation are told to the client as such and audited as \<^verbatim>\<open>INTERNAL\<close>.
\<close>

theorem audit_agrees:
  assumes "s \<in> fst ` set error_classes" "\<forall>t \<in> fst ` set error_classes. errors_is e t \<longleftrightarrow> t = s"
  shows "error_code e = (if s \<in> {ErrInvalidConfig, DeadlineExceeded, Canceled} then ''INTERNAL'' else snd (classify e)) \<and>
    (s \<in> {ErrInvalidConfig, DeadlineExceeded, Canceled} \<longrightarrow> snd (classify e) \<noteq> error_code e)"
proof -
  have e: "errors_is e ErrNotFound = (ErrNotFound = s)" "errors_is e ErrInvalidPluginName = (ErrInvalidPluginName = s)"
    "errors_is e ErrInvalidConfig = (ErrInvalidConfig = s)" "errors_is e ErrGenerationFailed = (ErrGenerationFailed = s)"
    "errors_is e ErrServerOverloaded = (ErrServerOverloaded = s)" "errors_is e ErrAlreadyExists = (ErrAlreadyExists = s)"
    "errors_is e ErrMaxPluginsExceeded = (ErrMaxPluginsExceeded = s)" "errors_is e ErrShuttingDown = (ErrShuttingDown = s)"
    "errors_is e ErrStorageUnavailable = (ErrStorageUnavailable = s)"
    "errors_is e ErrBinaryNotUploaded = (ErrBinaryNotUploaded = s)" "errors_is e ErrFeatureDenied = (ErrFeatureDenied = s)"
    "errors_is e DeadlineExceeded = (DeadlineExceeded = s)" "errors_is e Canceled = (Canceled = s)"
    using assms(2) by (simp_all add: error_classes_def)
  have "s \<in> {ErrNotFound, ErrInvalidPluginName, ErrInvalidConfig, ErrGenerationFailed, ErrServerOverloaded,
      ErrAlreadyExists, ErrMaxPluginsExceeded, ErrShuttingDown, ErrStorageUnavailable, ErrBinaryNotUploaded,
      ErrFeatureDenied, DeadlineExceeded, Canceled}"
    using assms(1) by (auto simp: error_classes_def)
  then show ?thesis by (auto simp: error_code_def classify_def error_codes_def error_classes_def e)
qed

subsection \<open>The fields of an update\<close>

definition mask_ok :: "string list \<Rightarrow> bool" where
  "mask_ok paths \<longleftrightarrow> (\<forall>p \<in> set paths. trim_space p = ''config'' \<or> trim_space p = ''tags'')"

lemma mask_paths_ok:
  "mask_ok paths \<Longrightarrow> mask_paths uc ut paths =
     Inr (uc \<or> ''config'' \<in> trim_space ` set paths, ut \<or> ''tags'' \<in> trim_space ` set paths)"
  by (induction uc ut paths rule: mask_paths.induct) (auto simp: mask_ok_def)

lemma mask_paths_bad:
  "\<not> mask_ok paths \<Longrightarrow> \<exists>p \<in> set paths. mask_paths uc ut paths = Inl (unknown_path p)"
  by (induction paths arbitrary: uc ut) (auto simp: mask_ok_def Let_def)

lemma update_mask:
  "update_mask_fields paths =
     (if paths = [] then Inr (True, True)
      else if mask_ok paths then Inr (''config'' \<in> trim_space ` set paths, ''tags'' \<in> trim_space ` set paths)
      else mask_paths False False paths)"
  by (simp add: update_mask_fields_def mask_paths_ok)

lemma status_error_class [simp]: "classify (status_error c m) = (InternalCode, ''INTERNAL'')"
  by (simp add: status_error_def classify_def error_classes_def)

text \<open>
  A request that names what the server does not know is the caller's mistake, and the handlers
  build an \<open>InvalidArgument\<close> status for it; but they run inside the converter, which classifies
  that status as an error without a sentinel. So a broken page token and an unknown path in an
  update mask both reach the client as \<open>Internal\<close>, with nothing changed and nothing reported.
\<close>

theorem own_status_lost:
  "(\<forall>e. decode_page_token (trim_space (pq_page_token req)) = Inl e \<longrightarrow>
      (\<exists>st. convert_codes (api_plugins ri c call req) = (Inl st, c) \<and> st_code st = InternalCode \<and> st_reason st = Some ''INTERNAL'')) \<and>
   (\<forall>config. config_json marshal (um_config ureq) = Inr config \<longrightarrow> um_mask ureq \<noteq> [] \<longrightarrow> \<not> mask_ok (um_mask ureq) \<longrightarrow>
      (\<exists>st. convert_codes (api_update marshal ri c call ureq) = (Inl st, c) \<and> st_code st = InternalCode \<and>
        st_reason st = Some ''INTERNAL''))"
proof (intro conjI allI impI)
  fix e assume "decode_page_token (trim_space (pq_page_token req)) = Inl e"
  then show "\<exists>st. convert_codes (api_plugins ri c call req) = (Inl st, c) \<and> st_code st = InternalCode \<and> st_reason st = Some ''INTERNAL''"
    using bad_token by (simp add: api_plugins_def list_plugins_def convert_codes_def error_to_status_def Let_def)
next
  fix config assume "config_json marshal (um_config ureq) = Inr config" "um_mask ureq \<noteq> []" "\<not> mask_ok (um_mask ureq)"
  then show "\<exists>st. convert_codes (api_update marshal ri c call ureq) = (Inl st, c) \<and> st_code st = InternalCode \<and>
      st_reason st = Some ''INTERNAL''"
    using mask_paths_bad [of "um_mask ureq" False False]
    by (auto simp: api_update_def update_mask unknown_path_def convert_codes_def error_to_status_def Let_def)
qed

subsection \<open>Concrete runs\<close>


theorem audit_agrees_witness:
  "error_code (wrap ''c.registry.Create: '' err_empty_command) = ''INTERNAL'' \<and>
   snd (classify (wrap ''c.registry.Create: '' err_empty_command)) = ''INVALID_CONFIG''"
proof -
  let ?e = "wrap ''c.registry.Create: '' err_empty_command"
  have "ErrInvalidConfig \<in> fst ` set error_classes" by (simp add: error_classes_def)
  moreover have "\<forall>t \<in> fst ` set error_classes. errors_is ?e t \<longleftrightarrow> t = ErrInvalidConfig"
    by (simp add: error_classes_def err_empty_command_def errors_is_def wrap_def)
  ultimately have "error_code ?e = ''INTERNAL''" using audit_agrees by fastforce
  then show ?thesis by (simp add: classify_def error_classes_def err_empty_command_def errors_is_def)
qed

theorem own_status_lost_witness:
  "\<exists>st. convert_codes (api_plugins sample_iface sample_core sample_call
       \<lparr>pq_group = [], pq_name = [], pq_version = [], pq_tags = [], pq_page_size = 0, pq_page_token = ''%%%''\<rparr>) =
         (Inl st, sample_core) \<and> st_code st = InternalCode"
proof -
  let ?req = "\<lparr>pq_group = [], pq_name = [], pq_version = [], pq_tags = [], pq_page_size = 0, pq_page_token = ''%%%''\<rparr>"
  have "trim_space ''%%%'' = ''%%%''" by (simp add: trim_space_edges is_space_def)
  then obtain e where "decode_page_token (trim_space (pq_page_token ?req)) = Inl e"
    by (simp add: decode_page_token_def b64_decode_def b64_value_def byte_def)
  then show ?thesis using own_status_lost [of ?req sample_iface sample_core sample_call] by blast
qed

end
