(* ===== verification/Callers.thy ===== *)
theory Callers
  imports Domain
begin

text \<open>
  Who is calling: \<open>net.SplitHostPort\<close>, the address the server's chain puts into the context
  (\<open>extractCallerIP\<close>, \<^verbatim>\<open>internal/grpchelper/server.go\<close>) and the key of the limiters
  (\<open>PeerIPExtractor\<close>, \<^verbatim>\<open>internal/ratelimiter/extractor.go\<close>). The address a trusted proxy's headers yield
  (\<^verbatim>\<open>go-grpc-middleware/realip\<close>) is a parameter. The lemmas show that both forms of an address
  lose their port, and that the key of a caller never depends on it.
\<close>

subsection \<open>Splitting host and port\<close>

definition addr_error :: "string \<Rightarrow> string \<Rightarrow> go_error" where
  "addr_error addr why = plain_error (''address '' @ addr @ '': '' @ why)"

text \<open>The last colon of a string: what stands before it and behind it.\<close>

fun cut_last :: "'a \<Rightarrow> 'a list \<Rightarrow> ('a list \<times> 'a list) option" where
  "cut_last c [] = None"
| "cut_last c (x # xs) =
     (case cut_last c xs of
        Some (a, b) \<Rightarrow> Some (x # a, b)
      | None \<Rightarrow> if x = c then Some ([], xs) else None)"

definition split_host_port :: "string \<Rightarrow> (string \<times> string) result" where
  "split_host_port hostport =
     (case cut_last CHR '':'' hostport of
        None \<Rightarrow> Inl (addr_error hostport ''missing port in address'')
      | Some (before, port) \<Rightarrow>
          if hd hostport = CHR ''['' then
            (case cut_at CHR '']'' hostport of
               None \<Rightarrow> Inl (addr_error hostport ''missing ']' in address'')
             | Some (opened, rest) \<Rightarrow>
                 if rest = [] then Inl (addr_error hostport ''missing port in address'')
                 else if opened @ '']'' \<noteq> before then
                   (if hd rest = CHR '':'' then Inl (addr_error hostport ''too many colons in address'')
                    else Inl (addr_error hostport ''missing port in address''))
                 else if CHR ''['' \<in> set (tl hostport) then Inl (addr_error hostport ''unexpected '[' in address'')
                 else if CHR '']'' \<in> set rest then Inl (addr_error hostport ''unexpected ']' in address'')
                 else Inr (tl opened, port))
          else if CHR '':'' \<in> set before then Inl (addr_error hostport ''too many colons in address'')
          else if CHR ''['' \<in> set hostport then Inl (addr_error hostport ''unexpected '[' in address'')
          else if CHR '']'' \<in> set hostport then Inl (addr_error hostport ''unexpected ']' in address'')
          else Inr (before, port))"

subsection \<open>The caller\<close>

definition caller_ip_unknown :: string where "caller_ip_unknown = ''unknown''"

text \<open>\<open>real_ip\<close>: the valid address of a trusted proxy's headers; \<open>peer\<close>: the connecting address.\<close>

definition extract_caller_ip :: "string option \<Rightarrow> string option \<Rightarrow> string" where
  "extract_caller_ip real_ip peer =
     (case real_ip of
        Some ip \<Rightarrow> ip
      | None \<Rightarrow>
          (case peer of
             None \<Rightarrow> caller_ip_unknown
           | Some addr \<Rightarrow> (case split_host_port addr of Inl _ \<Rightarrow> addr | Inr (host, _) \<Rightarrow> host)))"

definition grpc_caller_ip_unknown :: string where "grpc_caller_ip_unknown = ''unknown''"

definition peer_ip_extractor :: "string option \<Rightarrow> req_context \<Rightarrow> string" where
  "peer_ip_extractor peer ctx =
     (let ip = caller_ip_from_context ctx in
      if ip \<noteq> [] \<and> ip \<noteq> grpc_caller_ip_unknown then ip
      else case peer of
          None \<Rightarrow> []
        | Some addr \<Rightarrow> (case split_host_port addr of Inl _ \<Rightarrow> addr | Inr (host, _) \<Rightarrow> host))"

subsection \<open>The port is lost\<close>

lemma cut_last_absent: "c \<notin> set s \<Longrightarrow> cut_last c s = None"
  by (induction s) auto

lemma cut_last_append: "c \<notin> set b \<Longrightarrow> cut_last c (a @ c # b) = Some (a, b)"
  by (induction a) (simp_all add: cut_last_absent)

lemma cut_at_first: "c \<notin> set a \<Longrightarrow> cut_at c (a @ c # b) = Some (a, b)"
  by (induction a) auto

text \<open>A plain host has neither colons nor brackets, an IPv6 address no brackets.\<close>

lemma split_plain:
  assumes "CHR '':'' \<notin> set host" "CHR ''['' \<notin> set host" "CHR '']'' \<notin> set host" "list_all is_digit port"
  shows "split_host_port (host @ '':'' @ port) = Inr (host, port)"
proof -
  have p: "c \<notin> set port" if "\<not> is_digit c" for c using assms(4) that by (auto simp: list_all_iff)
  have d: "\<not> is_digit CHR '':''" "\<not> is_digit CHR ''[''" "\<not> is_digit CHR '']''" by (simp_all add: is_digit_def)
  have "hd (host @ '':'' @ port) \<noteq> CHR ''[''" using assms(2) by (cases host) auto
  then show ?thesis using assms(1,2,3) p [OF d(1)] p [OF d(2)] p [OF d(3)]
    by (simp add: split_host_port_def cut_last_append)
qed

lemma split_brackets:
  assumes "CHR ''['' \<notin> set host" "CHR '']'' \<notin> set host" "list_all is_digit port"
  shows "split_host_port (CHR ''['' # host @ '']:'' @ port) = Inr (host, port)"
proof -
  have p: "c \<notin> set port" if "\<not> is_digit c" for c using assms(3) that by (auto simp: list_all_iff)
  have d: "\<not> is_digit CHR '':''" "\<not> is_digit CHR ''[''" "\<not> is_digit CHR '']''" by (simp_all add: is_digit_def)
  have "cut_last CHR '':'' (CHR ''['' # host @ '']:'' @ port) = Some (CHR ''['' # host @ '']'', port)"
    using cut_last_append [OF p [OF d(1)], of "CHR ''['' # host @ '']''"] by simp
  moreover have "cut_at CHR '']'' (CHR ''['' # host @ '']:'' @ port) = Some (CHR ''['' # host, '':'' @ port)"
    using cut_at_first [of "CHR '']''" "CHR ''['' # host" "'':'' @ port"] assms(2) by simp
  ultimately show ?thesis using assms(1) p [OF d(2)] p [OF d(3)] by (simp add: split_host_port_def)
qed

text \<open>
  Two connections from one address are one caller: whatever ports they come from, they are given the
  same address in the context, without a port, and the same key by the limiters; and a proxy's
  address, when there is one, is used instead of either.
\<close>

theorem caller_without_port:
  assumes "host \<noteq> []" "host \<noteq> ''unknown''" "CHR ''['' \<notin> set host" "CHR '']'' \<notin> set host" "list_all is_digit port"
    and "addr = (if CHR '':'' \<in> set host then CHR ''['' # host @ '']:'' @ port else host @ '':'' @ port)"
  shows "extract_caller_ip None (Some addr) = host \<and> extract_caller_ip (Some ip) (Some addr) = ip \<and>
    peer_ip_extractor (Some addr) (with_caller_ip ctx (extract_caller_ip None (Some addr))) = host"
proof -
  have "split_host_port addr = Inr (host, port)"
    using split_plain [OF _ assms(3,4,5)] split_brackets [OF assms(3,4,5)] assms(6) by auto
  then show ?thesis using assms(1,2)
    by (simp add: extract_caller_ip_def peer_ip_extractor_def with_caller_ip_def caller_ip_from_context_def
        grpc_caller_ip_unknown_def)
qed

theorem caller_without_port_witness:
  "extract_caller_ip None (Some ''[::1]:50051'') = ''::1'' \<and>
   peer_ip_extractor (Some ''[::1]:50051'')
     (with_caller_ip \<lparr>ctx_caller_ip = None, ctx_actor = None\<rparr> (extract_caller_ip None (Some ''[::1]:50051''))) = ''::1''"
proof -
  have d: "list_all is_digit ''50051''" by (simp add: is_digit_def)
  have p: "''::1'' \<noteq> []" "''::1'' \<noteq> ''unknown''" "CHR ''['' \<notin> set ''::1''" "CHR '']'' \<notin> set ''::1''"
    "''[::1]:50051'' = (if CHR '':'' \<in> set ''::1'' then CHR ''['' # ''::1'' @ '']:'' @ ''50051'' else ''::1'' @ '':'' @ ''50051'')"
    by simp_all
  show ?thesis using caller_without_port [OF p(1,2,3,4) d p(5)] by blast
qed

end
