(* ===== verification/RateLimiter.thy ===== *)
theory RateLimiter
  imports Complex_Main Callers "HOL-Library.AList" "HOL-Library.Multiset"
begin

text \<open>
  The limiters per client (\<^verbatim>\<open>internal/ratelimiter\<close>): how many requests a client may have in flight
  (\<open>ConcurrencyLimiter\<close>) and how many per second (\<open>RateLimiter\<close>, over the token bucket of
  \<^verbatim>\<open>golang.org/x/time/rate\<close>, a parameter). A map under the limiter's mutex is an association list with
  distinct keys, and every critical section one step. The contract of a limiter that hands out
  slots is the locale \<open>slot_limiter\<close>, whose lemmas follow a whole run of arrivals and departures.
\<close>

subsection \<open>The contract of a slot limiter\<close>

datatype slot_event = Arrive string | Leave string

fun drive ::
  "('s \<Rightarrow> string \<Rightarrow> 's option) \<Rightarrow> ('s \<Rightarrow> string \<Rightarrow> 's) \<Rightarrow> slot_event list \<Rightarrow> 's \<times> string multiset
   \<Rightarrow> 's \<times> string multiset" where
  "drive acq rel [] sh = sh"
| "drive acq rel (Arrive k # es) (s, h) =
     (case acq s k of None \<Rightarrow> drive acq rel es (s, h) | Some s' \<Rightarrow> drive acq rel es (s', add_mset k h))"
| "drive acq rel (Leave k # es) (s, h) =
     (if k \<in># h then drive acq rel es (rel s k, h - {#k#}) else drive acq rel es (s, h))"

locale slot_limiter =
  fixes ok :: "'s \<Rightarrow> bool"
    and held :: "'s \<Rightarrow> string \<Rightarrow> int"
    and limit :: "'s \<Rightarrow> int"
    and acq :: "'s \<Rightarrow> string \<Rightarrow> 's option"
    and rel :: "'s \<Rightarrow> string \<Rightarrow> 's"
  assumes acq_law: "ok s \<Longrightarrow> acq s k = Some s' \<Longrightarrow>
      ok s' \<and> limit s' = limit s \<and> held s k < limit s \<and> held s' = (held s)(k := held s k + 1)"
    and acq_refuses: "ok s \<Longrightarrow> acq s k = None \<Longrightarrow> held s k \<ge> limit s"
    and rel_law: "ok s \<Longrightarrow> held s k > 0 \<Longrightarrow>
      ok (rel s k) \<and> limit (rel s k) = limit s \<and> held (rel s k) = (held s)(k := held s k - 1)"
begin

definition accounts :: "'s \<Rightarrow> string multiset \<Rightarrow> bool" where
  "accounts s h \<longleftrightarrow> ok s \<and> (\<forall>k. held s k = int (count h k)) \<and> (\<forall>k. int (count h k) \<le> max 0 (limit s))"

text \<open>Whatever arrives and leaves, what is held is what is in flight, and no client exceeds the limit.\<close>

lemma drive_accounts:
  "accounts s h \<Longrightarrow> drive acq rel es (s, h) = (s', h') \<Longrightarrow> accounts s' h' \<and> limit s' = limit s"
proof (induction es arbitrary: s h)
  case (Cons e es)
  show ?case
  proof (cases e)
    case (Arrive k)
    show ?thesis
    proof (cases "acq s k")
      case None
      then show ?thesis using Cons Arrive by simp
    next
      case (Some s1)
      have l: "ok s1" "limit s1 = limit s" "held s k < limit s" "held s1 = (held s)(k := held s k + 1)"
        using acq_law [OF _ Some] Cons.prems(1) by (auto simp: accounts_def)
      then have "accounts s1 (add_mset k h)"
        using Cons.prems(1) by (auto simp: accounts_def)
      then show ?thesis using Cons.IH Cons.prems(2) Arrive Some l(2) by fastforce
    qed
  next
    case (Leave k)
    show ?thesis
    proof (cases "k \<in># h")
      case True
      then have pos: "held s k > 0" using Cons.prems(1) by (simp add: accounts_def)
      have l: "ok (rel s k)" "limit (rel s k) = limit s" "held (rel s k) = (held s)(k := held s k - 1)"
        using rel_law [OF _ pos] Cons.prems(1) by (auto simp: accounts_def)
      have "count (h - {#k#}) j \<le> count h j" for j by (simp add: count_diff)
      then have "int (count (h - {#k#}) j) \<le> max 0 (limit s)" for j
        using Cons.prems(1) by (meson accounts_def of_nat_mono order_trans)
      then have "accounts (rel s k) (h - {#k#})"
        using Cons.prems(1) l True by (auto simp: accounts_def of_nat_diff Suc_le_eq)
      then show ?thesis using Cons.IH Cons.prems(2) Leave True l(2) by fastforce
    next
      case False
      then show ?thesis using Cons Leave by simp
    qed
  qed
qed simp

text \<open>A client below its limit is never refused.\<close>

lemma not_refused: "accounts s h \<Longrightarrow> int (count h k) < limit s \<Longrightarrow> acq s k \<noteq> None"
  using acq_refuses [of s k] by (force simp: accounts_def)

end

subsection \<open>The concurrency limiter\<close>

record conc_limiter =
  cc_limit :: int
  cc_gate :: "bool option"                 \<comment> \<open>whether the gate, if any, enables rate limiting\<close>
  cc_in_flight :: "(string \<times> int) list"
  cc_rejected :: nat
  cc_active :: int                         \<comment> \<open>the gauge\<close>

definition new_conc_limiter :: "int \<Rightarrow> bool option \<Rightarrow> conc_limiter" where
  "new_conc_limiter limit gate =
     \<lparr>cc_limit = limit, cc_gate = gate, cc_in_flight = [], cc_rejected = 0, cc_active = 0\<rparr>"

definition in_flight :: "conc_limiter \<Rightarrow> string \<Rightarrow> int" where
  "in_flight c k = (case map_of (cc_in_flight c) k of Some n \<Rightarrow> n | None \<Rightarrow> 0)"

text \<open>\<open>None\<close>: refused; \<open>Some None\<close>: admitted without a slot; \<open>Some (Some k)\<close>: a slot of client \<open>k\<close>.\<close>

definition take_slot :: "conc_limiter \<Rightarrow> string \<Rightarrow> conc_limiter option" where
  "take_slot c key =
     (if in_flight c key \<ge> cc_limit c then None
      else let m = AList.update key (in_flight c key + 1) (cc_in_flight c)
           in Some (c\<lparr>cc_in_flight := m, cc_active := int (length m)\<rparr>))"

definition conc_acquire :: "conc_limiter \<Rightarrow> string \<Rightarrow> (string option \<times> conc_limiter) option" where
  "conc_acquire c key =
     (if cc_limit c \<le> 0 then Some (None, c)
      else if cc_gate c = Some False then Some (None, c)
      else if key = [] then Some (None, c)
      else map_option (\<lambda>c'. (Some key, c')) (take_slot c key))"

definition conc_release :: "conc_limiter \<Rightarrow> string \<Rightarrow> conc_limiter" where
  "conc_release c key =
     (let n = in_flight c key - 1;
          m = AList.update key n (cc_in_flight c);
          m' = (if n \<le> 0 then AList.delete key m else m)
      in c\<lparr>cc_in_flight := m', cc_active := int (length m')\<rparr>)"

definition conc_reject :: "conc_limiter \<Rightarrow> conc_limiter" where
  "conc_reject c = c\<lparr>cc_rejected := cc_rejected c + 1\<rparr>"

text \<open>The unary interceptor around a handler that changes the limiter's state by \<open>f\<close> while it runs.\<close>

definition intercept :: "conc_limiter \<Rightarrow> string \<Rightarrow> (conc_limiter \<Rightarrow> 'a \<times> conc_limiter) \<Rightarrow> 'a option \<times> conc_limiter" where
  "intercept c key handler =
     (case conc_acquire c key of
        None \<Rightarrow> (None, conc_reject c)
      | Some (slot, c1) \<Rightarrow>
          (let (r, c2) = handler c1
           in (Some r, case slot of None \<Rightarrow> c2 | Some k \<Rightarrow> conc_release c2 k)))"

definition conc_ok :: "conc_limiter \<Rightarrow> bool" where
  "conc_ok c \<longleftrightarrow> distinct (map fst (cc_in_flight c)) \<and> (\<forall>(k, n) \<in> set (cc_in_flight c). n > 0) \<and>
     cc_active c = int (length (cc_in_flight c))"

lemma in_flight_update: "in_flight (c\<lparr>cc_in_flight := AList.update k n m, cc_active := a\<rparr>) =
    (\<lambda>j. if j = k then n else (case map_of m j of Some n \<Rightarrow> n | None \<Rightarrow> 0))"
  by (auto simp: in_flight_def update_conv')

lemma in_flight_reject: "in_flight (conc_reject c) = in_flight c"
  by (rule ext) (simp add: in_flight_def conc_reject_def)

lemma update_positive:
  "\<forall>(k, n) \<in> set m. n > 0 \<Longrightarrow> (n::int) > 0 \<Longrightarrow> \<forall>(k, n) \<in> set (AList.update k n m). n > 0"
  by (induction m) auto

interpretation conc: slot_limiter conc_ok in_flight cc_limit take_slot conc_release
proof unfold_locales
  fix s k s' assume ok: "conc_ok s" and t: "take_slot s k = Some s'"
  have lt: "in_flight s k < cc_limit s" using t by (auto simp: take_slot_def split: if_splits)
  then have s': "s' = s\<lparr>cc_in_flight := AList.update k (in_flight s k + 1) (cc_in_flight s),
      cc_active := int (length (AList.update k (in_flight s k + 1) (cc_in_flight s)))\<rparr>"
    using t by (simp add: take_slot_def Let_def)
  have pos: "in_flight s k + 1 > 0"
    using ok by (auto simp: in_flight_def conc_ok_def split: option.splits dest: map_of_SomeD)
  have "\<forall>(k, n) \<in> set (AList.update k (in_flight s k + 1) (cc_in_flight s)). n > 0"
  proof -
    have "\<forall>(k, n) \<in> set (cc_in_flight s). n > 0" using ok by (simp add: conc_ok_def)
    from update_positive [OF this pos] show ?thesis .
  qed
  then have "conc_ok s'" using ok by (simp add: s' conc_ok_def distinct_update)
  moreover have "in_flight s' = (in_flight s)(k := in_flight s k + 1)"
    unfolding s' in_flight_update by (auto simp: in_flight_def)
  ultimately show "conc_ok s' \<and> cc_limit s' = cc_limit s \<and> in_flight s k < cc_limit s \<and>
      in_flight s' = (in_flight s)(k := in_flight s k + 1)"
    using lt by (simp add: s')
next
  fix s k assume "conc_ok s" "take_slot s k = None"
  then show "cc_limit s \<le> in_flight s k" by (auto simp: take_slot_def Let_def split: if_splits)
next
  fix s k assume ok: "conc_ok s" and pos: "in_flight s k > 0"
  let ?n = "in_flight s k - 1"
  let ?m = "AList.update k ?n (cc_in_flight s)"
  show "conc_ok (conc_release s k) \<and> cc_limit (conc_release s k) = cc_limit s \<and>
      in_flight (conc_release s k) = (in_flight s)(k := ?n)"
  proof (cases "?n \<le> 0")
    case True
    then have z: "?n = 0" using pos by simp
    have r: "conc_release s k = s\<lparr>cc_in_flight := AList.delete k ?m, cc_active := int (length (AList.delete k ?m))\<rparr>"
      using True by (simp add: conc_release_def Let_def)
    have d: "AList.delete k ?m = AList.delete k (cc_in_flight s)" by (rule AList.delete_update_same)
    have "\<forall>(j, n) \<in> set (AList.delete k (cc_in_flight s)). n > 0"
      using ok by (auto simp: conc_ok_def AList.delete_eq)
    then have "conc_ok (conc_release s k)" using ok by (simp add: r d conc_ok_def distinct_delete)
    moreover have "in_flight (conc_release s k) = (in_flight s)(k := ?n)"
      unfolding r d z by (auto simp: in_flight_def delete_conv' update_conv' fun_eq_iff)
    ultimately show ?thesis by (simp add: r)
  next
    case False
    have r: "conc_release s k = s\<lparr>cc_in_flight := ?m, cc_active := int (length ?m)\<rparr>"
      using False by (simp add: conc_release_def Let_def)
    have "conc_ok (conc_release s k)"
      using ok update_positive [of "cc_in_flight s" ?n k] False by (auto simp: r conc_ok_def distinct_update)
    moreover have "in_flight (conc_release s k) = (in_flight s)(k := ?n)"
      unfolding r in_flight_update by (auto simp: in_flight_def)
    ultimately show ?thesis by (simp add: r)
  qed
qed

text \<open>
  C27. Whatever the order of arrivals and departures, the concurrency limiter holds for every client
  exactly as many slots as that client has requests in flight, never more than the limit, refuses
  only a client that is at it, remembers only clients in flight, and its gauge counts them.
\<close>

theorem concurrency_accounts:
  assumes "0 < limit" "drive take_slot conc_release es (new_conc_limiter limit gate, {#}) = (c, h)"
  shows "(\<forall>k. in_flight c k = int (count h k) \<and> int (count h k) \<le> limit) \<and>
    (\<forall>k. take_slot c k = None \<longleftrightarrow> int (count h k) = limit) \<and>
    set (map fst (cc_in_flight c)) = set_mset h \<and> cc_active c = int (card (set_mset h))"
proof -
  have "conc.accounts (new_conc_limiter limit gate) {#}"
    by (simp add: conc.accounts_def new_conc_limiter_def conc_ok_def in_flight_def)
  then have a: "conc.accounts c h" "cc_limit c = limit"
    using conc.drive_accounts [OF _ assms(2)] by (auto simp: new_conc_limiter_def)
  then have ok: "conc_ok c" and fl: "\<And>k. in_flight c k = int (count h k)" and le: "\<And>k. int (count h k) \<le> limit"
    using assms(1) by (auto simp: conc.accounts_def max_def)
  have "take_slot c k = None \<longleftrightarrow> int (count h k) = limit" for k
    using conc.not_refused [OF a(1), of k] le [of k] fl [of k] a(2) by (auto simp: take_slot_def Let_def)
  moreover have keys: "set (map fst (cc_in_flight c)) = set_mset h"
  proof (rule set_eqI)
    fix k
    have "k \<in> set (map fst (cc_in_flight c)) \<longleftrightarrow> map_of (cc_in_flight c) k \<noteq> None"
      by (simp add: map_of_eq_None_iff)
    also have "\<dots> \<longleftrightarrow> in_flight c k > 0"
      using ok by (auto simp: in_flight_def conc_ok_def split: option.splits dest!: map_of_SomeD)
    finally show "k \<in> set (map fst (cc_in_flight c)) \<longleftrightarrow> k \<in># h" using fl [of k] by simp
  qed
  moreover have "cc_active c = int (card (set_mset h))"
    using ok distinct_card [of "map fst (cc_in_flight c)"] keys by (simp add: conc_ok_def)
  ultimately show ?thesis using fl le by blast
qed

theorem concurrency_accounts_witness:
  "\<exists>c h. drive take_slot conc_release [Arrive ''a'', Arrive ''a'', Arrive ''b'', Arrive ''a'', Leave ''b'']
       (new_conc_limiter 2 None, {#}) = (c, h) \<and> in_flight c ''a'' = 2 \<and> cc_active c = int (card (set_mset h)) \<and> count h ''b'' = 0"
proof -
  obtain c h where d: "drive take_slot conc_release [Arrive ''a'', Arrive ''a'', Arrive ''b'', Arrive ''a'', Leave ''b'']
       (new_conc_limiter 2 None, {#}) = (c, h)" by fastforce
  have "(0::int) < 2" by simp
  note concurrency_accounts [OF this d]
  moreover have "count h ''a'' = 2 \<and> count h ''b'' = 0"
    using d by (auto simp: take_slot_def conc_release_def new_conc_limiter_def in_flight_def Let_def)
  ultimately show ?thesis using d by simp
qed

lemma intercept_slots:
  assumes "conc_ok c" "\<And>c'. conc_ok c' \<Longrightarrow> conc_ok (snd (f c')) \<and> in_flight (snd (f c')) = in_flight c'"
  shows "in_flight (snd (intercept c key f)) = in_flight c \<and>
    (fst (intercept c key f) = None \<longleftrightarrow>
       cc_limit c > 0 \<and> cc_gate c \<noteq> Some False \<and> key \<noteq> [] \<and> in_flight c key \<ge> cc_limit c)"
proof (cases "cc_limit c > 0 \<and> cc_gate c \<noteq> Some False \<and> key \<noteq> []")
  case False
  then have a: "conc_acquire c key = Some (None, c)" by (auto simp: conc_acquire_def)
  show ?thesis using assms(2) [OF assms(1)] False
    by (auto simp: intercept_def a split: prod.splits)
next
  case lim: True
  show ?thesis
  proof (cases "take_slot c key")
    case None
    then have "conc_acquire c key = None" using lim by (auto simp: conc_acquire_def)
    then show ?thesis
      using lim conc.acq_refuses [OF assms(1) None] by (simp add: intercept_def in_flight_reject)
  next
    case (Some c1)
    then have a: "conc_acquire c key = Some (Some key, c1)" using lim by (auto simp: conc_acquire_def)
    have l: "conc_ok c1" "in_flight c key < cc_limit c" "in_flight c1 = (in_flight c)(key := in_flight c key + 1)"
      using conc.acq_law [OF assms(1) Some] by auto
    obtain r c2 where f: "f c1 = (r, c2)" by fastforce
    then have c2: "conc_ok c2" "in_flight c2 = in_flight c1" using assms(2) [OF l(1)] by auto
    have nn: "in_flight c key \<ge> 0"
      using assms(1) by (auto simp: in_flight_def conc_ok_def split: option.splits dest!: map_of_SomeD)
    then have "in_flight c2 key > 0" using c2(2) l(3) by simp
    then have "in_flight (conc_release c2 key) = (in_flight c2)(key := in_flight c2 key - 1)"
      using conc.rel_law [OF c2(1)] by blast
    also have "\<dots> = in_flight c" using c2(2) l(3) by auto
    finally show ?thesis using l(2) by (simp add: intercept_def a f)
  qed
qed

text \<open>
  The interceptor gives back exactly the slot it took: around a handler that leaves the client's
  slots as it found them, an admitted request leaves them as before, and a refused one never
  runs the handler and only counts the refusal.
\<close>

theorem intercept_balanced:
  assumes "conc_ok c" "\<And>c'. conc_ok c' \<Longrightarrow> conc_ok (snd (f c')) \<and> in_flight (snd (f c')) = in_flight c'"
  shows "in_flight (snd (intercept c key f)) = in_flight c \<and>
    (fst (intercept c key f) = None \<longleftrightarrow>
       cc_limit c > 0 \<and> cc_gate c \<noteq> Some False \<and> key \<noteq> [] \<and> in_flight c key \<ge> cc_limit c)"
  by (rule intercept_slots [OF assms])

theorem intercept_balanced_witness:
  "in_flight (snd (intercept (new_conc_limiter 1 None) ''a'' (\<lambda>c. ((), c)))) = in_flight (new_conc_limiter 1 None)"
proof -
  have "conc_ok (new_conc_limiter 1 None)" by (simp add: conc_ok_def new_conc_limiter_def)
  from intercept_balanced [OF this, of "\<lambda>c. ((), c)" "''a''"] show ?thesis by simp
qed

subsection \<open>The rate limiter\<close>

record rate_config =
  rc_requests_per_second :: rat
  rc_burst :: int
  rc_cleanup_interval :: int

definition default_config :: rate_config where
  "default_config = \<lparr>rc_requests_per_second = 10, rc_burst = 20, rc_cleanup_interval = 10 * 60 * 1000000000\<rparr>"

definition set_default :: "rate_config \<Rightarrow> rate_config \<times> string list" where
  "set_default c =
     (let (c1, r1) = (if rc_cleanup_interval c \<le> 0
                      then (c\<lparr>rc_cleanup_interval := rc_cleanup_interval default_config\<rparr>, [''cleanup_interval''])
                      else (c, []));
          (c2, r2) = (if rc_requests_per_second c1 \<le> 0
                      then (c1\<lparr>rc_requests_per_second := rc_requests_per_second default_config\<rparr>,
                            r1 @ [''requests_per_second''])
                      else (c1, r1))
      in if rc_burst c2 \<le> 0 then (c2\<lparr>rc_burst := rc_burst default_config\<rparr>, r2 @ [''burst'']) else (c2, r2))"

text \<open>A token bucket: a new one, \<open>Allow\<close> at a time, and the headers it yields afterwards.\<close>

record 'b bucket_ops =
  bo_new :: "rat \<Rightarrow> int \<Rightarrow> 'b"
  bo_allow :: "'b \<Rightarrow> int \<Rightarrow> bool \<times> 'b"
  bo_headers :: "'b \<Rightarrow> int \<Rightarrow> (string \<times> int) list"

record 'b client_bucket =
  cb_limiter :: 'b
  cb_last_seen :: int

record 'b rate_limiter =
  rl_cfg :: rate_config
  rl_gate :: "bool option"
  rl_buckets :: "(string \<times> 'b client_bucket) list"
  rl_allowed :: nat
  rl_denied :: nat
  rl_active :: int

datatype limit_outcome =
    LimitSkipped                              \<comment> \<open>nil without consulting a bucket\<close>
  | LimitAllowed "(string \<times> int) list"
  | LimitDenied "(string \<times> int) list"       \<comment> \<open>\<open>RESOURCE_EXHAUSTED\<close>\<close>

definition new_rate_limiter :: "rate_config \<Rightarrow> bool option \<Rightarrow> 'b rate_limiter" where
  "new_rate_limiter cfg gate =
     \<lparr>rl_cfg = fst (set_default cfg), rl_gate = gate, rl_buckets = [], rl_allowed = 0, rl_denied = 0, rl_active = 0\<rparr>"

definition rate_limit ::
  "'b bucket_ops \<Rightarrow> 'b rate_limiter \<Rightarrow> int \<Rightarrow> string \<Rightarrow> limit_outcome \<times> 'b rate_limiter" where
  "rate_limit bo rl now key =
     (if rl_gate rl = Some False then (LimitSkipped, rl)
      else if key = [] then (LimitSkipped, rl)
      else
        let fresh = \<lparr>cb_limiter = bo_new bo (rc_requests_per_second (rl_cfg rl)) (rc_burst (rl_cfg rl)),
                     cb_last_seen = now\<rparr>;
            (bucket, rl1) = (case map_of (rl_buckets rl) key of
                               Some b \<Rightarrow> (b, rl)
                             | None \<Rightarrow> (fresh, rl\<lparr>rl_active := rl_active rl + 1\<rparr>));
            (allowed, limiter) = bo_allow bo (cb_limiter bucket) now;
            headers = bo_headers bo limiter now;
            rl2 = rl1\<lparr>rl_buckets := AList.update key \<lparr>cb_limiter = limiter, cb_last_seen = now\<rparr> (rl_buckets rl1)\<rparr>
        in if allowed then (LimitAllowed headers, rl2\<lparr>rl_allowed := rl_allowed rl2 + 1\<rparr>)
           else (LimitDenied headers, rl2\<lparr>rl_denied := rl_denied rl2 + 1\<rparr>))"

definition cleanup :: "'b rate_limiter \<Rightarrow> int \<Rightarrow> 'b rate_limiter" where
  "cleanup rl now =
     (let kept = filter (\<lambda>(k, b). \<not> now - cb_last_seen b > rc_cleanup_interval (rl_cfg rl)) (rl_buckets rl)
      in rl\<lparr>rl_buckets := kept, rl_active := int (length kept)\<rparr>)"

text \<open>
  Clients are limited independently and fail open: a request without a key, or with the feature
  off, passes untouched; any other is decided by its own client's bucket alone, and only that
  bucket changes.
\<close>

theorem rate_limit_isolated:
  "(rl_gate rl = Some False \<or> key = [] \<longrightarrow> rate_limit bo rl now key = (LimitSkipped, rl)) \<and>
   (rl_gate rl \<noteq> Some False \<and> key \<noteq> [] \<longrightarrow>
      (let b = (case map_of (rl_buckets rl) key of
                  Some b \<Rightarrow> cb_limiter b
                | None \<Rightarrow> bo_new bo (rc_requests_per_second (rl_cfg rl)) (rc_burst (rl_cfg rl)));
           (out, rl') = rate_limit bo rl now key
       in (case out of LimitAllowed _ \<Rightarrow> fst (bo_allow bo b now) | LimitDenied _ \<Rightarrow> \<not> fst (bo_allow bo b now)
           | LimitSkipped \<Rightarrow> False) \<and>
          map_of (rl_buckets rl') =
            (map_of (rl_buckets rl))(key \<mapsto> \<lparr>cb_limiter = snd (bo_allow bo b now), cb_last_seen = now\<rparr>)))"
  by (cases "map_of (rl_buckets rl) key")
    (auto simp: rate_limit_def Let_def update_conv' split: prod.splits)

theorem rate_limit_isolated_witness:
  "rate_limit \<lparr>bo_new = (\<lambda>r b. b), bo_allow = (\<lambda>n t. (n > 0, n - 1)), bo_headers = (\<lambda>_ _. [])\<rparr>
     (new_rate_limiter default_config None) 0 [] = (LimitSkipped, new_rate_limiter default_config None)"
  using rate_limit_isolated [of "new_rate_limiter default_config None" "[]"
      "\<lparr>bo_new = (\<lambda>r b. b), bo_allow = (\<lambda>n t. (n > 0, n - 1)), bo_headers = (\<lambda>_ _. [])\<rparr>" 0] by simp

text \<open>
  The cleanup forgets exactly the clients not seen for longer than the interval, which is positive
  whatever the configuration, and then the gauge is the number of buckets.
\<close>

theorem cleanup_exact:
  "0 < rc_cleanup_interval (rl_cfg (new_rate_limiter cfg gate)) \<and>
   set (rl_buckets (cleanup rl now)) =
     {(k, b) \<in> set (rl_buckets rl). now - cb_last_seen b \<le> rc_cleanup_interval (rl_cfg rl)} \<and>
   rl_active (cleanup rl now) = int (length (rl_buckets (cleanup rl now)))"
  by (auto simp: cleanup_def new_rate_limiter_def set_default_def default_config_def Let_def)

end
