(* ===== verification/Server.thy ===== *)
theory Server
  imports Service Api RateLimiter "HOL-Library.Sublist"
begin

text \<open>
  One call through the gRPC server as \<^verbatim>\<open>cmd/easyp-svc/start.go\<close> and \<^verbatim>\<open>internal/grpchelper/server.go\<close> assemble it:
  the caller's address, the rate and the concurrency limit, authentication, the licence, the conversion
  of errors, the handler. The lemmas show that a run of the server is a run of the service below
  it on the calls that reached a handler, and that nothing a handler of a write does happens without a
  configured token or under another name.

  Logging, metrics and tracing interceptors pass a call through; the recovery interceptor has
  nothing to do, as no operation of the model panics (theory \<open>Chain\<close> has both). The messages have no \<open>Validate\<close> method, so the
  validator passes them through.
\<close>

subsection \<open>Calls\<close>

datatype ('req, 'cfg) rpc =
    RpcGenerate string 'req
  | RpcPlugins plugins_request
  | RpcCreate "'cfg create_msg"
  | RpcUpdate "'cfg update_msg"
  | RpcDelete string string string

datatype 'resp rpc_response =
    RespGenerate 'resp | RespPlugins plugins_response | RespPlugin plugin_msg | RespDeleted

fun method_of :: "('req, 'cfg) rpc \<Rightarrow> string" where
  "method_of (RpcGenerate pn payload) = method_generate_code"
| "method_of (RpcPlugins req) = method_plugins"
| "method_of (RpcCreate req) = method_create_plugin"
| "method_of (RpcUpdate req) = method_update_plugin"
| "method_of (RpcDelete g n v) = method_delete_plugin"

definition respond :: "('a \<Rightarrow> 'b) \<Rightarrow> 'a result \<times> 'c \<Rightarrow> 'b result \<times> 'c" where
  "respond f rc = (map_sum id f (fst rc), snd rc)"

fun handle ::
  "('cfg \<Rightarrow> raw_json result) \<Rightarrow> ('r, 'p, 'req, 'resp) reg_iface \<Rightarrow> 'r core_state \<Rightarrow> call \<Rightarrow> ('req, 'cfg) rpc
   \<Rightarrow> 'resp rpc_response result \<times> 'r core_state" where
  "handle marshal ri c call (RpcGenerate pn payload) = respond RespGenerate (api_generate ri c call pn payload)"
| "handle marshal ri c call (RpcPlugins req) = respond RespPlugins (api_plugins ri c call req)"
| "handle marshal ri c call (RpcCreate req) = respond RespPlugin (api_create marshal ri c call req)"
| "handle marshal ri c call (RpcUpdate req) = respond RespPlugin (api_update marshal ri c call req)"
| "handle marshal ri c call (RpcDelete g n v) = respond (\<lambda>_. RespDeleted) (api_delete ri c call g n v)"

subsection \<open>The chain\<close>

record ('b, 'r) server =
  sv_rate :: "'b rate_limiter"
  sv_conc :: conc_limiter
  sv_auth :: auth_interceptor
  sv_features :: method_features
  sv_core :: "'r core_state"

text \<open>
  What the server is built with: the token bucket, SHA-256, the status the rate limiting middleware
  refuses with, the marshaller of configurations.
\<close>

record ('b, 'cfg) server_env =
  se_bucket :: "'b bucket_ops"
  se_sha256 :: "string \<Rightarrow> string"
  se_rate_refusal :: "string \<Rightarrow> status"
  se_marshal :: "'cfg \<Rightarrow> raw_json result"

record incoming =
  in_metadata :: metadata
  in_real_ip :: "string option"
  in_peer :: "string option"
  in_now :: int
  in_call :: call

definition caller_ip_context :: "incoming \<Rightarrow> req_context" where
  "caller_ip_context inc = with_caller_ip (ca_ctx (in_call inc)) (extract_caller_ip (in_real_ip inc) (in_peer inc))"

definition conc_refusal :: "conc_limiter \<Rightarrow> status" where
  "conc_refusal c =
     \<lparr>st_code = ResourceExhausted,
      st_message = ''too many concurrent requests, at most '' @ int_text (cc_limit c) @ '' at a time'', st_reason = None\<rparr>"

definition gate_enabled :: "'r core_state \<Rightarrow> feature \<Rightarrow> bool" where
  "gate_enabled c f = (case cs_gate c of None \<Rightarrow> True | Some g \<Rightarrow> ga_enabled g f)"

text \<open>What runs inside both limiters.\<close>

definition authenticated ::
  "('b, 'cfg) server_env \<Rightarrow> ('r, 'p, 'req, 'resp) reg_iface \<Rightarrow> ('b, 'r) server \<Rightarrow> incoming \<Rightarrow> req_context
   \<Rightarrow> ('req, 'cfg) rpc \<Rightarrow> ((status + 'resp rpc_response) \<times> 'r core_state) \<times> auth_interceptor" where
  "authenticated env ri sv inc ctx rpc =
     (let c = sv_core sv; m = method_of rpc; refuse = (\<lambda>st. (Inl st, c)) in
      auth_intercept (se_sha256 env) (sv_auth sv) ctx (in_metadata inc) m refuse
        (\<lambda>ctx1. license_intercept (gate_enabled c) (sv_features sv) m ctx1 refuse
           (\<lambda>ctx2. convert_codes (handle (se_marshal env) ri c ((in_call inc)\<lparr>ca_ctx := ctx2\<rparr>) rpc))))"

definition serve_rpc ::
  "('b, 'cfg) server_env \<Rightarrow> ('r, 'p, 'req, 'resp) reg_iface \<Rightarrow> ('b, 'r) server \<Rightarrow> incoming \<Rightarrow> ('req, 'cfg) rpc
   \<Rightarrow> (status + 'resp rpc_response) \<times> ('b, 'r) server" where
  "serve_rpc env ri sv inc rpc =
     (let ctx = caller_ip_context inc;
          key = peer_ip_extractor (in_peer inc) ctx;
          (out, rate) = rate_limit (se_bucket env) (sv_rate sv) (in_now inc) key;
          sv1 = sv\<lparr>sv_rate := rate\<rparr> in
      case out of
        LimitDenied hs \<Rightarrow> (Inl (se_rate_refusal env (method_of rpc)), sv1)
      | _ \<Rightarrow>
          (case intercept (sv_conc sv1) key (\<lambda>conc. (authenticated env ri sv1 inc ctx rpc, conc)) of
             (None, conc) \<Rightarrow> (Inl (conc_refusal (sv_conc sv1)), sv1\<lparr>sv_conc := conc\<rparr>)
           | (Some ((res, c), auth), conc) \<Rightarrow>
               (res, sv1\<lparr>sv_conc := conc, sv_auth := auth, sv_core := c\<rparr>)))"

subsection \<open>The handlers and the core\<close>

lemma respond_snd [simp]: "snd (respond f rc) = snd rc"
  by (simp add: respond_def)

lemma convert_snd [simp]: "snd (convert_codes rc) = snd rc"
  by (simp add: convert_codes_def split: prod.split sum.split)

text \<open>A handler leaves the core as one operation of it does, or untouched.\<close>

lemma handle_core:
  fixes sr :: "('req, 'resp) surroundings" and rpc :: "('req, 'cfg) rpc"
  shows "snd (handle marshal (service_iface sr collate cfg) c call rpc) = c \<or>
    (\<exists>req :: 'req request. snd (handle marshal (service_iface sr collate cfg) c call rpc) = serve collate cfg (sr, req) c)"
proof (cases rpc)
  case (RpcGenerate pn payload)
  have "snd (handle marshal (service_iface sr collate cfg) c call rpc) = serve collate cfg (sr, Generate call pn payload) c"
    by (simp add: RpcGenerate api_generate_def split: prod.split sum.split)
  then show ?thesis by blast
next
  case (RpcPlugins req)
  show ?thesis
  proof (cases "decode_page_token (trim_space (pq_page_token req))")
    case (Inl e)
    then show ?thesis by (simp add: RpcPlugins api_plugins_def list_plugins_def)
  next
    case (Inr after)
    have "snd (handle marshal (service_iface sr collate cfg) c call rpc) =
        serve collate cfg (sr, ListPlugins call (request_filter req)
          \<lparr>pg_size = uint (pq_page_size req), pg_after = after\<rparr>) c"
      by (simp add: RpcPlugins Inr api_plugins_def list_plugins_def Let_def split: prod.split sum.split)
    then show ?thesis by blast
  qed
next
  case (RpcCreate req)
  show ?thesis
  proof (cases "config_json marshal (cm_config req)")
    case (Inr config)
    have "snd (handle marshal (service_iface sr collate cfg) c call rpc) =
        serve collate cfg (sr, CreatePlugin call
           \<lparr>cr_group = trim_space (cm_group req), cr_name = trim_space (cm_name req),
            cr_version = trim_space (cm_version req), cr_config = config, cr_tags = compact_strings (cm_tags req)\<rparr>) c"
      by (simp add: RpcCreate Inr api_create_def split: prod.split sum.split)
    then show ?thesis by blast
  qed (simp add: RpcCreate api_create_def)
next
  case (RpcUpdate req)
  show ?thesis
  proof (cases "config_json marshal (um_config req)")
    case config: (Inr config)
    show ?thesis
    proof (cases "update_mask_fields (um_mask req)")
      case (Inr m)
      have "snd (handle marshal (service_iface sr collate cfg) c call rpc) =
          serve collate cfg (sr, UpdatePlugin call
             \<lparr>ur_group = trim_space (um_group req), ur_name = trim_space (um_name req),
              ur_version = trim_space (um_version req), ur_config = config, ur_tags = compact_strings (um_tags req),
              ur_update_config = fst m, ur_update_tags = snd m\<rparr>) c"
        by (simp add: RpcUpdate config Inr api_update_def split: prod.split sum.split)
      then show ?thesis by blast
    qed (simp add: RpcUpdate config api_update_def)
  qed (simp add: RpcUpdate api_update_def)
next
  case (RpcDelete g n v)
  have "snd (handle marshal (service_iface sr collate cfg) c call rpc) =
      serve collate cfg (sr, DeletePlugin call (trim_space g) (trim_space n) (trim_space v)) c"
    by (simp add: RpcDelete api_delete_def split: prod.split option.split)
  then show ?thesis by blast
qed

fun operation_of :: "('req, 'cfg) rpc \<Rightarrow> operation" where
  "operation_of (RpcGenerate pn payload) = GENERATE_CODE"
| "operation_of (RpcPlugins req) = LIST_PLUGINS"
| "operation_of (RpcCreate req) = CREATE_PLUGIN"
| "operation_of (RpcUpdate req) = UPDATE_PLUGIN"
| "operation_of (RpcDelete g n v) = DELETE_PLUGIN"

definition is_write :: "operation \<Rightarrow> bool" where
  "is_write op \<longleftrightarrow> op \<in> {CREATE_PLUGIN, UPDATE_PLUGIN, DELETE_PLUGIN}"

lemma handle_logged: "logged (operation_of rpc) (ca_ctx call) c (snd (handle marshal ri c call rpc))"
proof -
  have "core_generate ri c call pn payload = (r, c') \<Longrightarrow> logged GENERATE_CODE (ca_ctx call) c c'"
    "core_list_plugins ri c call f page = (r2, c') \<Longrightarrow> logged LIST_PLUGINS (ca_ctx call) c c'"
    "core_create_plugin ri c call creq = (r3, c') \<Longrightarrow> logged CREATE_PLUGIN (ca_ctx call) c c'"
    "core_update_plugin ri c call ureq = (r4, c') \<Longrightarrow> logged UPDATE_PLUGIN (ca_ctx call) c c'"
    "core_delete_plugin ri c call g n v = (r5, c') \<Longrightarrow> logged DELETE_PLUGIN (ca_ctx call) c c'"
    for pn payload f page creq ureq g n v r r2 r3 r4 r5 c' by (metis operation_logged snd_conv)+
  note l = this
  show ?thesis
    by (cases rpc)
      (auto simp: api_generate_def api_plugins_def list_plugins_def api_create_def api_update_def api_delete_def Let_def
        split: prod.split sum.split option.split intro: l)
qed

lemma handle_reads:
  assumes "\<not> is_write (operation_of rpc)"
  shows "rg_rows (cs_registry (snd (handle marshal (service_iface sr collate cfg) c call rpc))) = rg_rows (cs_registry c)"
proof -
  have g: "rg_rows (cs_registry c') = rg_rows (cs_registry c)"
    if "core_generate (service_iface sr collate cfg) c call pn payload = (r, c')" for pn payload r c'
    using generate_registry [of sr collate cfg c call pn payload] that by simp
  have l: "rg_rows (cs_registry c') = rg_rows (cs_registry c)"
    if "core_list_plugins (service_iface sr collate cfg) c call f page = (r, c')" for f page r c'
    using that by (auto simp: core_list_plugins_def service_iface_def Let_def split: sum.splits prod.splits)
  show ?thesis
    using assms
    by (cases rpc)
      (auto simp: is_write_def api_generate_def api_plugins_def list_plugins_def Let_def
        split: prod.split sum.split dest: g l)
qed

text \<open>A call either ends before its handler, with a status, or the handler decides everything.\<close>

lemma authenticated_cases:
  assumes "authenticated env ri sv inc ctx rpc = ((res, c), auth)"
  shows "((\<exists>st. res = Inl st) \<and> c = sv_core sv) \<or>
    (\<exists>ctx1. authorize (se_sha256 env) (sv_auth sv) ctx (in_metadata inc) (method_of rpc) = (Inr ctx1, auth) \<and>
       convert_codes (handle (se_marshal env) ri (sv_core sv) ((in_call inc)\<lparr>ca_ctx := ctx1\<rparr>) rpc) = (res, c))"
  using assms
  by (auto simp: authenticated_def auth_intercept_def license_intercept_def Let_def split: prod.splits sum.splits option.splits)

lemma intercept_result: "intercept c key (\<lambda>x. (v, x)) = (r, c') \<Longrightarrow> r = None \<or> r = Some v"
  by (auto simp: intercept_def split: option.splits prod.splits)

lemma serve_rpc_cases:
  assumes "serve_rpc env ri sv inc rpc = (res, sv')"
  obtains (refused) st where "res = Inl st" "sv_core sv' = sv_core sv"
  | (handled) ctx where
      "authorize (se_sha256 env) (sv_auth sv) (caller_ip_context inc) (in_metadata inc) (method_of rpc) = (Inr ctx, sv_auth sv')"
      "convert_codes (handle (se_marshal env) ri (sv_core sv) ((in_call inc)\<lparr>ca_ctx := ctx\<rparr>) rpc) = (res, sv_core sv')"
proof -
  let ?ctx = "caller_ip_context inc"
  let ?key = "peer_ip_extractor (in_peer inc) ?ctx"
  obtain out rate where r: "rate_limit (se_bucket env) (sv_rate sv) (in_now inc) ?key = (out, rate)" by fastforce
  let ?sv = "sv\<lparr>sv_rate := rate\<rparr>"
  obtain x conc where i: "intercept (sv_conc ?sv) ?key (\<lambda>conc. (authenticated env ri ?sv inc ?ctx rpc, conc)) = (x, conc)"
    by fastforce
  show ?thesis
  proof (cases "\<exists>hs. out = LimitDenied hs")
    case True
    then show ?thesis using refused assms r by (auto simp: serve_rpc_def Let_def)
  next
    case False
    then have s: "serve_rpc env ri sv inc rpc =
        (case x of None \<Rightarrow> (Inl (conc_refusal (sv_conc ?sv)), ?sv\<lparr>sv_conc := conc\<rparr>)
         | Some ((res, c), auth) \<Rightarrow> (res, ?sv\<lparr>sv_conc := conc, sv_auth := auth, sv_core := c\<rparr>))"
      using r i by (cases out; cases x) (auto simp: serve_rpc_def Let_def split: prod.splits)
    show ?thesis
    proof (cases x)
      case None
      then show ?thesis using refused assms s by auto
    next
      case (Some y)
      obtain res1 c auth where y: "y = ((res1, c), auth)" by (metis prod.exhaust)
      then have a: "authenticated env ri ?sv inc ?ctx rpc = ((res1, c), auth)"
        using intercept_result [OF i] Some by simp
      have sv': "res1 = res" "sv_core sv' = c" "sv_auth sv' = auth" using assms s Some y by auto
      from authenticated_cases [OF a] show ?thesis using refused handled sv' by auto
    qed
  qed
qed

subsection \<open>A run of the server\<close>

definition run_server ::
  "('b, 'cfg) server_env \<Rightarrow> (string \<Rightarrow> 'k::linorder) \<Rightarrow> pool_config
   \<Rightarrow> (('req, 'resp) surroundings \<times> incoming \<times> ('req, 'cfg) rpc) list \<Rightarrow> ('b, registry) server \<Rightarrow> ('b, registry) server" where
  "run_server env collate cfg steps sv =
     fold (\<lambda>(sr, inc, rpc) sv. snd (serve_rpc env (service_iface sr collate cfg) sv inc rpc)) steps sv"

lemma run_server_simps [simp]:
  "run_server env collate cfg [] sv = sv"
  "run_server env collate cfg ((sr, inc, rpc) # steps) sv =
     run_server env collate cfg steps (snd (serve_rpc env (service_iface sr collate cfg) sv inc rpc))"
  by (simp_all add: run_server_def)


subsection \<open>Writes\<close>

text \<open>The interceptor as the server is started with it; its counters aside it never changes.\<close>

definition guards :: "write_token list \<Rightarrow> auth_interceptor \<Rightarrow> bool" where
  "guards tokens ai \<longleftrightarrow> ai_tokens ai = new_authenticator tokens \<and> ai_public ai = ai_public (new_auth_interceptor [])"

lemma guards_new: "guards tokens (new_auth_interceptor (new_authenticator tokens))"
  by (simp add: guards_def new_auth_interceptor_def)

lemma guards_authorize: "guards tokens ai \<Longrightarrow> authorize sha256 ai ctx md m = (r, ai') \<Longrightarrow> guards tokens ai'"
  by (auto simp: authorize_def auth_reject_def guards_def split: if_splits sum.splits)

lemma guards_serve:
  fixes sv :: "('b, 'r) server" and env :: "('b, 'cfg) server_env"
    and ri :: "('r, 'p, 'req, 'resp) reg_iface" and rpc :: "('req, 'cfg) rpc"
  assumes "guards tokens (sv_auth sv)" "serve_rpc env ri sv inc rpc = (res, sv')"
  shows "guards tokens (sv_auth sv')"
proof -
  have a: "guards tokens auth" if "((r, c), auth) = authenticated env ri sv1 inc ctx rpc" "sv_auth sv1 = sv_auth sv"
    for sv1 :: "('b, 'r) server" and ctx r c auth
    using that [symmetric] assms(1) guards_authorize
    by (auto simp: authenticated_def auth_intercept_def Let_def split: prod.splits sum.splits)
  then show ?thesis using assms
    by (auto simp: serve_rpc_def Let_def split: prod.splits limit_outcome.splits option.splits
        dest!: intercept_result dest: a)
qed

lemma write_methods: "is_write (operation_of rpc) \<Longrightarrow> method_of rpc \<notin> set (ai_public (new_auth_interceptor []))"
  by (cases rpc) (auto simp: is_write_def new_auth_interceptor_def method_defs)

text \<open>A configured token is presented, and \<open>w\<close> is its entry.\<close>

definition presents :: "(string \<Rightarrow> string) \<Rightarrow> write_token list \<Rightarrow> incoming \<Rightarrow> write_token \<Rightarrow> bool" where
  "presents sha256 tokens inc w \<longleftrightarrow> w \<in> set tokens \<and>
     (\<exists>t. bearer_token (in_metadata inc) = Some t \<and> hex_decode (wt_sha256 w) = Some (sha256 t))"

text \<open>
  From \<open>c\<close> to \<open>c'\<close>, through calls \<open>incs\<close>, the table changed only under a presented token, and every
  write that was audited is under one.
\<close>

definition under_tokens ::
  "(string \<Rightarrow> string) \<Rightarrow> write_token list \<Rightarrow> incoming list \<Rightarrow> registry core_state \<Rightarrow> registry core_state \<Rightarrow> bool" where
  "under_tokens sha256 tokens incs c c' \<longleftrightarrow>
     (rg_rows (cs_registry c') \<noteq> rg_rows (cs_registry c) \<longrightarrow> (\<exists>inc \<in> set incs. \<exists>w. presents sha256 tokens inc w)) \<and>
     (\<exists>new. cs_calls c' = cs_calls c @ new \<and>
        (\<forall>e. SinkSend e \<in> set new \<longrightarrow> is_write (ae_operation e) \<longrightarrow>
           (\<exists>inc \<in> set incs. \<exists>w. presents sha256 tokens inc w \<and>
              ae_metadata e ''actor'' = Some (MetaString (wt_name w)))))"

lemma under_tokens_trans:
  assumes "under_tokens sha256 tokens incs c c'" "under_tokens sha256 tokens incs' c' c''"
  shows "under_tokens sha256 tokens (incs @ incs') c c''"
proof -
  obtain new new' where "cs_calls c' = cs_calls c @ new" "cs_calls c'' = cs_calls c' @ new'"
    and n: "\<And>e. SinkSend e \<in> set new \<Longrightarrow> is_write (ae_operation e) \<Longrightarrow>
        \<exists>inc \<in> set incs. \<exists>w. presents sha256 tokens inc w \<and> ae_metadata e ''actor'' = Some (MetaString (wt_name w))"
      "\<And>e. SinkSend e \<in> set new' \<Longrightarrow> is_write (ae_operation e) \<Longrightarrow>
        \<exists>inc \<in> set incs'. \<exists>w. presents sha256 tokens inc w \<and> ae_metadata e ''actor'' = Some (MetaString (wt_name w))"
    using assms unfolding under_tokens_def by blast
  then have calls: "cs_calls c'' = cs_calls c @ (new @ new')" by simp
  moreover have "\<exists>inc \<in> set (incs @ incs'). \<exists>w. presents sha256 tokens inc w \<and> ae_metadata e ''actor'' = Some (MetaString (wt_name w))"
    if "SinkSend e \<in> set (new @ new')" "is_write (ae_operation e)" for e
  proof (cases "SinkSend e \<in> set new")
    case True
    then show ?thesis using n(1) [OF True that(2)] by auto
  next
    case False
    then have "SinkSend e \<in> set new'" using that(1) by simp
    then show ?thesis using n(2) [OF _ that(2)] by auto
  qed
  ultimately show ?thesis using assms unfolding under_tokens_def by (metis Un_iff set_append)
qed

lemma serve_rpc_write:
  assumes "validate_auth tokens = None" "guards tokens (sv_auth sv)"
    and "serve_rpc env (service_iface sr collate cfg) sv inc rpc = (res, sv')"
  shows "under_tokens (se_sha256 env) tokens [inc] (sv_core sv) (sv_core sv')"
  using assms(3)
proof (cases rule: serve_rpc_cases)
  case (refused st)
  then show ?thesis by (simp add: under_tokens_def)
next
  case (handled ctx)
  let ?call = "(in_call inc)\<lparr>ca_ctx := ctx\<rparr>"
  have c: "sv_core sv' = snd (handle (se_marshal env) (service_iface sr collate cfg) (sv_core sv) ?call rpc)"
    using handled(2) by (metis convert_snd snd_conv)
  have "logged (operation_of rpc) ctx (sv_core sv) (sv_core sv')"
    using handle_logged [of rpc ?call "sv_core sv"] unfolding c by simp
  then obtain new where new: "cs_calls (sv_core sv') = cs_calls (sv_core sv) @ new"
    "\<And>e. SinkSend e \<in> set new \<Longrightarrow> ae_operation e = operation_of rpc \<and>
       ae_metadata e ''actor'' = Some (MetaString (actor_from_context ctx))"
    unfolding logged_def by blast
  show ?thesis
  proof (cases "is_write (operation_of rpc)")
    case False
    have "rg_rows (cs_registry (sv_core sv')) = rg_rows (cs_registry (sv_core sv))"
      unfolding c by (rule handle_reads [OF False])
    then show ?thesis using new False by (auto simp: under_tokens_def)
  next
    case True
    have "method_of rpc \<notin> set (ai_public (sv_auth sv))"
      using assms(2) write_methods [OF True] by (simp add: guards_def)
    then obtain w where "presents (se_sha256 env) tokens inc w" "actor_from_context ctx = wt_name w"
      using authorize_protected [OF assms(1) _ _ handled(1)] assms(2) by (auto simp: guards_def presents_def)
    then show ?thesis using new unfolding under_tokens_def by auto
  qed
qed

lemma run_under_tokens:
  assumes "validate_auth tokens = None"
  shows "guards tokens (sv_auth sv) \<Longrightarrow>
    under_tokens (se_sha256 env) tokens (map (fst \<circ> snd) steps) (sv_core sv) (sv_core (run_server env collate cfg steps sv))"
proof (induction steps arbitrary: sv)
  case Nil
  then show ?case by (simp add: under_tokens_def)
next
  case (Cons step steps)
  obtain sr inc rpc where step: "step = (sr, inc, rpc)" by (metis prod.exhaust)
  obtain res sv1 where r: "serve_rpc env (service_iface sr collate cfg) sv inc rpc = (res, sv1)" by fastforce
  show ?case
    using under_tokens_trans [OF serve_rpc_write [OF assms Cons.prems r] Cons.IH [OF guards_serve [OF Cons.prems r]]]
    by (simp add: step r)
qed

text \<open>
  C30. Behind a server started with a validated list of write tokens, no run of calls changes the plugins
  table unless one of them presents a configured token; and every audited creation, update or
  removal carries as its actor the name of a configured token one of the calls presented.
\<close>

theorem writes_attributed:
  assumes "validate_auth tokens = None" "sv_auth sv = new_auth_interceptor (new_authenticator tokens)"
    and "sv' = run_server env collate cfg steps sv"
  shows "(rg_rows (cs_registry (sv_core sv')) \<noteq> rg_rows (cs_registry (sv_core sv)) \<longrightarrow>
      (\<exists>(sr, inc, rpc) \<in> set steps. \<exists>w. presents (se_sha256 env) tokens inc w)) \<and>
    (\<exists>new. cs_calls (sv_core sv') = cs_calls (sv_core sv) @ new \<and>
       (\<forall>e. SinkSend e \<in> set new \<longrightarrow> is_write (ae_operation e) \<longrightarrow>
          (\<exists>(sr, inc, rpc) \<in> set steps. \<exists>w. presents (se_sha256 env) tokens inc w \<and>
             ae_metadata e ''actor'' = Some (MetaString (wt_name w)))))"
proof -
  have "under_tokens (se_sha256 env) tokens (map (fst \<circ> snd) steps) (sv_core sv) (sv_core sv')"
    unfolding assms(3) by (rule run_under_tokens [OF assms(1)]) (simp add: assms(2) guards_new)
  moreover have ex: "(\<exists>inc \<in> set (map (fst \<circ> snd) steps). P inc) \<longleftrightarrow> (\<exists>(sr, inc, rpc) \<in> set steps. P inc)" for P
    by force
  ultimately show ?thesis unfolding under_tokens_def ex by blast
qed

subsection \<open>Concrete runs\<close>

definition sample_env :: "(nat, unit) server_env" where
  "sample_env =
     \<lparr>se_bucket = \<lparr>bo_new = (\<lambda>r b. nat b), bo_allow = (\<lambda>n t. (n > 0, n - 1)), bo_headers = (\<lambda>_ _. [])\<rparr>,
      se_sha256 = (\<lambda>_. replicate 32 (char_of (170 :: nat))),
      se_rate_refusal = (\<lambda>m. \<lparr>st_code = ResourceExhausted, st_message = m, st_reason = None\<rparr>),
      se_marshal = (\<lambda>_. Inr RawEmpty)\<rparr>"

definition sample_server :: "(nat, registry) server" where
  "sample_server =
     \<lparr>sv_rate = new_rate_limiter default_config None, sv_conc = new_conc_limiter 2 None,
      sv_auth = new_auth_interceptor (new_authenticator [sample_token]), sv_features = Map.empty, sv_core = sample_service\<rparr>"

definition anonymous :: incoming where
  "anonymous = \<lparr>in_metadata = (\<lambda>_. []), in_real_ip = None, in_peer = Some ''10.0.0.1:4711'', in_now = 0, in_call = sample_call\<rparr>"

theorem writes_attributed_witness:
  "rg_rows (cs_registry (sv_core (run_server sample_env (\<lambda>s. s) sample_pool_config
       [(sample_surroundings, anonymous, RpcDelete ''g'' ''n'' ''v1.0'')] sample_server))) =
     rg_rows (cs_registry (sv_core sample_server))"
proof -
  let ?steps = "[(sample_surroundings, anonymous, RpcDelete ''g'' ''n'' ''v1.0'')]"
  have a: "sv_auth sample_server = new_auth_interceptor (new_authenticator [sample_token])"
    by (simp add: sample_server_def)
  have "\<not> presents (se_sha256 sample_env) [sample_token] anonymous w" for w
    by (simp add: presents_def anonymous_def bearer_token_def)
  then show ?thesis
    using writes_attributed [OF sample_valid a refl, of sample_env "\<lambda>s. s" sample_pool_config ?steps] by auto
qed

end
