(* ===== verification/Sdk.thy ===== *)
theory Sdk
  imports Api
begin

text \<open>
  The client library (\<^verbatim>\<open>sdk\<close>): its configuration and options, the retries with their back-off, the write
  token, the calls and the walk over the pages of a listing. The connection is a parameter: what a call
  gets back. The lemmas show which failures are retried and how often, the bounds of the delay, and
  that the server recognises the token the client sends.

  The health monitor only pokes the connection and is not modelled.
\<close>

subsection \<open>Configuration\<close>

datatype transport = TransportTls | TransportInsecure | TransportCreds string

datatype client_interceptor = BearerToken string | LoggingInterceptor | MetricsInterceptor | CustomInterceptor string

record keepalive =
  ka_time :: int
  ka_timeout :: int
  ka_permit_without_stream :: bool

record sdk_config =
  sd_transport :: transport
  sd_max_retries :: int
  sd_retry_base_delay :: int
  sd_retry_max_delay :: int
  sd_generate_timeout :: int
  sd_list_timeout :: int
  sd_create_timeout :: int
  sd_interceptors :: "client_interceptor list"
  sd_health_check :: bool
  sd_health_interval :: int
  sd_keepalive :: "keepalive option"
  sd_max_recv_msg_size :: int

definition default_max_recv_msg_size :: int where "default_max_recv_msg_size = 64 * 2 ^ 20"

definition default_sdk_config :: sdk_config where
  "default_sdk_config =
     \<lparr>sd_transport = TransportTls, sd_max_retries = 3, sd_retry_base_delay = 100 * 1000000,
      sd_retry_max_delay = 5 * 1000000000, sd_generate_timeout = 30 * 1000000000, sd_list_timeout = 10 * 1000000000,
      sd_create_timeout = 120 * 1000000000, sd_interceptors = [], sd_health_check = False,
      sd_health_interval = 30 * 1000000000, sd_keepalive = None, sd_max_recv_msg_size = default_max_recv_msg_size\<rparr>"

type_synonym sdk_option = "sdk_config \<Rightarrow> sdk_config"

definition with_insecure :: sdk_option where
  "with_insecure c = c\<lparr>sd_transport := TransportInsecure\<rparr>"
definition with_max_recv_msg_size :: "int \<Rightarrow> sdk_option" where
  "with_max_recv_msg_size n c =
     c\<lparr>sd_max_recv_msg_size := (if n \<le> 0 then default_max_recv_msg_size else n)\<rparr>"
definition with_transport_credentials :: "string \<Rightarrow> sdk_option" where
  "with_transport_credentials creds c = c\<lparr>sd_transport := TransportCreds creds\<rparr>"
definition with_token :: "string \<Rightarrow> sdk_option" where
  "with_token token c = c\<lparr>sd_interceptors := sd_interceptors c @ [BearerToken token]\<rparr>"
definition with_max_retries :: "int \<Rightarrow> sdk_option" where
  "with_max_retries n c = c\<lparr>sd_max_retries := n\<rparr>"
definition with_retry_base_delay :: "int \<Rightarrow> sdk_option" where
  "with_retry_base_delay d c = c\<lparr>sd_retry_base_delay := d\<rparr>"
definition with_retry_max_delay :: "int \<Rightarrow> sdk_option" where
  "with_retry_max_delay d c = c\<lparr>sd_retry_max_delay := d\<rparr>"
definition with_create_plugin_timeout :: "int \<Rightarrow> sdk_option" where
  "with_create_plugin_timeout d c = c\<lparr>sd_create_timeout := d\<rparr>"
definition with_generate_code_timeout :: "int \<Rightarrow> sdk_option" where
  "with_generate_code_timeout d c = c\<lparr>sd_generate_timeout := d\<rparr>"
definition with_list_plugins_timeout :: "int \<Rightarrow> sdk_option" where
  "with_list_plugins_timeout d c = c\<lparr>sd_list_timeout := d\<rparr>"
definition with_unary_interceptor :: "string \<Rightarrow> sdk_option" where
  "with_unary_interceptor i c = c\<lparr>sd_interceptors := sd_interceptors c @ [CustomInterceptor i]\<rparr>"
definition with_logging_interceptor :: sdk_option where
  "with_logging_interceptor c = c\<lparr>sd_interceptors := sd_interceptors c @ [LoggingInterceptor]\<rparr>"
definition with_metrics_interceptor :: sdk_option where
  "with_metrics_interceptor c = c\<lparr>sd_interceptors := sd_interceptors c @ [MetricsInterceptor]\<rparr>"
definition with_health_check :: "int \<Rightarrow> sdk_option" where
  "with_health_check interval c = c\<lparr>sd_health_check := True, sd_health_interval := interval\<rparr>"
definition with_keepalive_params :: "keepalive \<Rightarrow> sdk_option" where
  "with_keepalive_params params c = c\<lparr>sd_keepalive := Some params\<rparr>"

text \<open>\<open>NewClient\<close> applies the options in order.\<close>

definition new_client_config :: "sdk_option list \<Rightarrow> sdk_config" where
  "new_client_config opts = fold (\<lambda>opt c. opt c) opts default_sdk_config"

subsection \<open>Retries\<close>

text \<open>A call fails with the status of the server or with the end of its context.\<close>

datatype sdk_error = RpcError status | CtxError go_error

definition is_transient_status :: "sdk_error \<Rightarrow> bool" where
  "is_transient_status e = (case e of RpcError st \<Rightarrow> st_code st = Unavailable | CtxError _ \<Rightarrow> False)"

text \<open>
  The delay before the next attempt in 64-bit arithmetic; \<open>rand n\<close> is \<open>rand.Int64N(n)\<close>, a number from 0
  below \<open>n\<close>, which panics, \<^term>\<open>None\<close>, unless \<open>n\<close> is positive. Go's division truncates.
\<close>

definition quot :: "int \<Rightarrow> int \<Rightarrow> int" where
  "quot a b = (if a < 0 then - ((- a) div b) else a div b)"

definition backoff_base :: "int \<Rightarrow> int \<Rightarrow> nat \<Rightarrow> int" where
  "backoff_base base_delay max_delay attempt =
     (if attempt < 62
      then let shifted = wrap64 (base_delay * 2 ^ attempt)
           in if shifted > 0 \<and> shifted < max_delay then shifted else max_delay
      else max_delay)"

definition backoff_delay :: "(int \<Rightarrow> int) \<Rightarrow> int \<Rightarrow> int \<Rightarrow> nat \<Rightarrow> int option" where
  "backoff_delay rand base_delay max_delay attempt =
     (let delay = backoff_base base_delay max_delay attempt;
          n = wrap64 (quot delay 4 + 1)
      in if n \<le> 0 then None
         else let jittered = wrap64 (delay + rand n)
              in Some (if jittered > max_delay then max_delay else jittered))"

text \<open>
  What the retries have done: the error they end with, the reply, if an attempt filled it in, and the
  delays between the attempts. \<open>invoke k\<close> is the \<open>k\<close>-th attempt and \<open>ctx_done k\<close> the end of the context
  during the sleep after it.
\<close>

record 'a sdk_result =
  rt_error :: "sdk_error option"
  rt_reply :: "'a option"
  rt_attempts :: nat
  rt_delays :: "int list"

function retry_loop ::
  "(nat \<Rightarrow> int option) \<Rightarrow> int \<Rightarrow> (nat \<Rightarrow> sdk_error + 'a) \<Rightarrow> (nat \<Rightarrow> go_error option) \<Rightarrow> nat \<Rightarrow> 'a sdk_result
   \<Rightarrow> 'a sdk_result option" where
  "retry_loop delay_of max_retries invoke ctx_done attempt acc =
     (if int attempt > max_retries then Some acc
      else case invoke attempt of
          Inr reply \<Rightarrow> Some (acc\<lparr>rt_error := None, rt_reply := Some reply, rt_attempts := Suc (rt_attempts acc)\<rparr>)
        | Inl e \<Rightarrow>
            let acc1 = acc\<lparr>rt_error := Some e, rt_attempts := Suc (rt_attempts acc)\<rparr> in
            if \<not> is_transient_status e then Some acc1
            else if int attempt = max_retries then Some acc1
            else
              case delay_of attempt of
                None \<Rightarrow> None
              | Some d \<Rightarrow>
                  (case ctx_done attempt of
                     Some ce \<Rightarrow> Some (acc1\<lparr>rt_error := Some (CtxError ce)\<rparr>)
                   | None \<Rightarrow> retry_loop delay_of max_retries invoke ctx_done (Suc attempt)
                               (acc1\<lparr>rt_delays := rt_delays acc1 @ [d]\<rparr>)))"
  by pat_completeness auto
termination by (relation "measure (\<lambda>(d, m, i, c, k, acc). nat (m + 1 - int k))") auto

declare retry_loop.simps [simp del]

definition retry_interceptor ::
  "(int \<Rightarrow> int) \<Rightarrow> sdk_config \<Rightarrow> (nat \<Rightarrow> sdk_error + 'a) \<Rightarrow> (nat \<Rightarrow> go_error option) \<Rightarrow> 'a sdk_result option" where
  "retry_interceptor rand c invoke ctx_done =
     retry_loop (backoff_delay rand (sd_retry_base_delay c) (sd_retry_max_delay c)) (sd_max_retries c) invoke ctx_done 0
       \<lparr>rt_error = None, rt_reply = None, rt_attempts = 0, rt_delays = []\<rparr>"

subsection \<open>Calls\<close>

text \<open>The deadline of a call: the earlier of the caller's and the default.\<close>

definition with_timeout :: "int \<Rightarrow> int option \<Rightarrow> int \<Rightarrow> int" where
  "with_timeout now user_deadline default_timeout =
     (case user_deadline of
        Some d \<Rightarrow> if d < now + default_timeout then d else now + default_timeout
      | None \<Rightarrow> now + default_timeout)"

definition outgoing :: "client_interceptor list \<Rightarrow> metadata \<Rightarrow> metadata" where
  "outgoing interceptors md =
     fold (\<lambda>i md. case i of
             BearerToken token \<Rightarrow> md(''authorization'' := md ''authorization'' @ [''Bearer '' @ token])
           | _ \<Rightarrow> md) interceptors md"

record sdk_filter =
  sf_group :: string
  sf_name :: string
  sf_version :: string
  sf_tags :: "string list"

definition first_request :: "sdk_filter \<Rightarrow> plugins_request" where
  "first_request f =
     \<lparr>pq_group = sf_group f, pq_name = sf_name f, pq_version = sf_version f, pq_tags = sf_tags f,
      pq_page_size = 0, pq_page_token = []\<rparr>"

text \<open>
  The walk over the pages, against a connection with a state of its own; a server that never stops
  naming a next page is never left, which is \<^term>\<open>None\<close>.
\<close>

partial_function (option) list_pages ::
  "('s \<Rightarrow> plugins_request \<Rightarrow> (sdk_error + plugins_response) \<times> 's) \<Rightarrow> 's \<Rightarrow> plugins_request \<Rightarrow> plugin_msg list
   \<Rightarrow> ((sdk_error + plugin_msg list) \<times> 's) option" where
  "list_pages call s req plugins =
     (case call s req of
        (Inl e, s1) \<Rightarrow> Some (Inl e, s1)
      | (Inr resp, s1) \<Rightarrow>
          (if pp_next_page_token resp = [] then Some (Inr (plugins @ pp_plugins resp), s1)
           else list_pages call s1 (req\<lparr>pq_page_token := pp_next_page_token resp\<rparr>) (plugins @ pp_plugins resp)))"

definition sdk_list_plugins ::
  "('s \<Rightarrow> plugins_request \<Rightarrow> (sdk_error + plugins_response) \<times> 's) \<Rightarrow> 's \<Rightarrow> sdk_filter
   \<Rightarrow> ((sdk_error + plugin_msg list) \<times> 's) option" where
  "sdk_list_plugins call s f = list_pages call s (first_request f) []"

text \<open>The messages of the other calls; \<open>structpb.NewStruct\<close> is a parameter and may refuse a value.\<close>

definition sdk_create_msg ::
  "('v \<Rightarrow> go_error + 'cfg) \<Rightarrow> string \<Rightarrow> string \<Rightarrow> string \<Rightarrow> 'v \<Rightarrow> string list \<Rightarrow> go_error + 'cfg create_msg" where
  "sdk_create_msg new_struct grp name version plugin_config tags =
     (case new_struct plugin_config of
        Inl e \<Rightarrow> Inl (wrap ''structpb.NewStruct: '' e)
      | Inr cfg \<Rightarrow>
          Inr \<lparr>cm_group = grp, cm_name = name, cm_version = version, cm_config = Some cfg, cm_tags = tags\<rparr>)"

definition sdk_update_msg ::
  "('v \<Rightarrow> go_error + 'cfg) \<Rightarrow> string \<Rightarrow> string \<Rightarrow> string \<Rightarrow> 'v option \<Rightarrow> string list \<Rightarrow> string list
   \<Rightarrow> go_error + 'cfg update_msg" where
  "sdk_update_msg new_struct grp name version plugin_config tags paths =
     (let req = \<lparr>um_group = grp, um_name = name, um_version = version, um_config = None, um_tags = tags,
                 um_mask = (if length paths > 0 then paths else [])\<rparr> in
      case plugin_config of
        None \<Rightarrow> Inr req
      | Some v \<Rightarrow>
          (case new_struct v of
             Inl e \<Rightarrow> Inl (wrap ''structpb.NewStruct: '' e)
           | Inr cfg \<Rightarrow> Inr (req\<lparr>um_config := Some cfg\<rparr>)))"

subsection \<open>Delays\<close>

lemma quot_pos: "0 \<le> a \<Longrightarrow> quot a 4 = a div 4"
  by (simp add: quot_def)

lemma delay_bounds:
  assumes "0 < max_delay" "max_delay < 2 ^ 62" "\<And>n. 0 < n \<Longrightarrow> 0 \<le> rand n \<and> rand n < n"
  shows "\<exists>d. backoff_delay rand base_delay max_delay attempt = Some d \<and> 0 \<le> d \<and> d \<le> max_delay \<and>
    (attempt < 62 \<longrightarrow> 0 < base_delay \<longrightarrow> base_delay * 2 ^ attempt < max_delay \<longrightarrow>
       base_delay * 2 ^ attempt \<le> d \<and> 4 * d \<le> 5 * (base_delay * 2 ^ attempt))"
proof -
  define delay where "delay = backoff_base base_delay max_delay attempt"
  have d: "0 < delay" "delay \<le> max_delay" using assms(1) by (auto simp: delay_def backoff_base_def Let_def)
  define n where "n = delay div 4 + 1"
  have n: "0 < n" "n \<le> delay div 4 + 1" using d by (simp_all add: n_def pos_imp_zdiv_nonneg_iff add_pos_nonneg)
  have r: "0 \<le> rand n" "rand n \<le> delay div 4" using assms(3) [OF n(1)] n(2) by auto
  have w: "wrap64 (quot delay 4 + 1) = n" "wrap64 (delay + rand n) = delay + rand n"
    using d assms(2) n(1) r by (simp_all add: quot_pos n_def wrap64_small)
  have b: "backoff_delay rand base_delay max_delay attempt =
      Some (if delay + rand n > max_delay then max_delay else delay + rand n)"
    using n(1) w by (simp add: backoff_delay_def flip: delay_def)
  have e: "delay = base_delay * 2 ^ attempt"
    if "attempt < 62" "0 < base_delay" "base_delay * 2 ^ attempt < max_delay"
  proof -
    have "0 < base_delay * 2 ^ attempt" using that(2) by simp
    then have "wrap64 (base_delay * 2 ^ attempt) = base_delay * 2 ^ attempt"
      using that(3) assms(2) by (intro wrap64_small; simp)
    then show ?thesis using that \<open>0 < base_delay * 2 ^ attempt\<close> by (simp add: delay_def backoff_base_def Let_def)
  qed
  show ?thesis
  proof (intro exI [of _ "if delay + rand n > max_delay then max_delay else delay + rand n"] conjI b impI)
    show "0 \<le> (if delay + rand n > max_delay then max_delay else delay + rand n)" using d r by simp
    show "(if delay + rand n > max_delay then max_delay else delay + rand n) \<le> max_delay" by simp
    assume "attempt < 62" "0 < base_delay" "base_delay * 2 ^ attempt < max_delay"
    then have "delay = base_delay * 2 ^ attempt" by (rule e)
    then show "base_delay * 2 ^ attempt \<le> (if delay + rand n > max_delay then max_delay else delay + rand n)"
      "4 * (if delay + rand n > max_delay then max_delay else delay + rand n) \<le> 5 * (base_delay * 2 ^ attempt)"
      using d r by auto
  qed
qed

text \<open>
  A positive cap on the delay never lets the back-off panic: the delay is then at least 0 and at
  most the cap, whatever the base and the attempt; while the doubled base neither overflows nor
  reaches the cap it is between the doubled base and a quarter more.
\<close>

theorem backoff_bounds:
  assumes "0 < max_delay" "max_delay < 2 ^ 62" "\<And>n. 0 < n \<Longrightarrow> 0 \<le> rand n \<and> rand n < n"
  shows "\<exists>d. backoff_delay rand base_delay max_delay attempt = Some d \<and> 0 \<le> d \<and> d \<le> max_delay \<and>
    (attempt < 62 \<longrightarrow> 0 < base_delay \<longrightarrow> base_delay * 2 ^ attempt < max_delay \<longrightarrow>
       base_delay * 2 ^ attempt \<le> d \<and> 4 * d \<le> 5 * (base_delay * 2 ^ attempt))"
  by (rule delay_bounds [OF assms])

subsection \<open>Attempts\<close>

text \<open>What the loop promises of its last attempt, the \<open>k\<close>-th.\<close>

definition last_attempt ::
  "int \<Rightarrow> (nat \<Rightarrow> sdk_error + 'a) \<Rightarrow> (nat \<Rightarrow> go_error option) \<Rightarrow> nat \<Rightarrow> 'a sdk_result \<Rightarrow> bool" where
  "last_attempt m invoke ctx_done k r \<longleftrightarrow>
     (case invoke k of
        Inr reply \<Rightarrow> rt_error r = None \<and> rt_reply r = Some reply
      | Inl e \<Rightarrow> rt_reply r = None \<and>
          (if is_transient_status e \<and> int k < m
           then \<exists>ce. ctx_done k = Some ce \<and> rt_error r = Some (CtxError ce)
           else rt_error r = Some e))"

lemma retry_loop_result:
  assumes "\<And>k. int k < m \<Longrightarrow> delay_of k \<noteq> None"
  shows "int k \<le> m \<Longrightarrow> rt_attempts acc = k \<Longrightarrow> length (rt_delays acc) = k \<Longrightarrow> rt_reply acc = None \<Longrightarrow>
    \<exists>r. retry_loop delay_of m invoke ctx_done k acc = Some r \<and> k < rt_attempts r \<and> int (rt_attempts r) \<le> m + 1 \<and>
      length (rt_delays r) + 1 = rt_attempts r \<and>
      (\<forall>j. k \<le> j \<longrightarrow> j + 1 < rt_attempts r \<longrightarrow> (\<exists>e. invoke j = Inl e \<and> is_transient_status e \<and> ctx_done j = None)) \<and>
      last_attempt m invoke ctx_done (rt_attempts r - 1) r"
proof (induction "nat (m - int k)" arbitrary: k acc rule: less_induct)
  case less
  note loop = retry_loop.simps [of delay_of m invoke ctx_done k acc]
  show ?case
  proof (cases "\<exists>e. invoke k = Inl e \<and> is_transient_status e \<and> int k < m \<and> ctx_done k = None")
    case True
    then obtain e where e: "invoke k = Inl e" "is_transient_status e" "int k < m" "ctx_done k = None" by blast
    obtain d where d: "delay_of k = Some d" using assms e(3) by blast
    let ?acc = "acc\<lparr>rt_error := Some e, rt_attempts := Suc k, rt_delays := rt_delays acc @ [d]\<rparr>"
    have step: "retry_loop delay_of m invoke ctx_done k acc = retry_loop delay_of m invoke ctx_done (Suc k) ?acc"
      using e d less.prems by (subst loop) (simp add: Let_def)
    obtain r where r: "retry_loop delay_of m invoke ctx_done (Suc k) ?acc = Some r" "Suc k < rt_attempts r"
      "int (rt_attempts r) \<le> m + 1" "length (rt_delays r) + 1 = rt_attempts r"
      "\<forall>j. Suc k \<le> j \<longrightarrow> j + 1 < rt_attempts r \<longrightarrow> (\<exists>e. invoke j = Inl e \<and> is_transient_status e \<and> ctx_done j = None)"
      "last_attempt m invoke ctx_done (rt_attempts r - 1) r"
      using less.hyps [of "Suc k" ?acc] less.prems e(3) by auto
    have "\<exists>e. invoke j = Inl e \<and> is_transient_status e \<and> ctx_done j = None"
      if "k \<le> j" "j + 1 < rt_attempts r" for j
      using that r(5) e by (cases "j = k") auto
    then show ?thesis using r step by auto
  next
    case False
    show ?thesis
    proof (cases "invoke k")
      case (Inr reply)
      then show ?thesis using less.prems by (subst loop) (auto simp: last_attempt_def)
    next
      case (Inl e)
      show ?thesis
      proof (cases "is_transient_status e \<and> int k < m")
        case True
        then have "ctx_done k \<noteq> None" "delay_of k \<noteq> None" using False Inl assms by auto
        then obtain ce d where "ctx_done k = Some ce" "delay_of k = Some d" by blast
        then show ?thesis using less.prems True Inl by (subst loop) (auto simp: last_attempt_def Let_def)
      next
        case no: False
        then show ?thesis using less.prems Inl by (subst loop) (auto simp: last_attempt_def Let_def)
      qed
    qed
  qed
qed


text \<open>A negative number of retries skips the loop: the call is never made and reported as a success.\<close>

lemma negative_retries_succeed:
  "sd_max_retries c < 0 \<Longrightarrow>
     retry_interceptor rand c invoke ctx_done = Some \<lparr>rt_error = None, rt_reply = None, rt_attempts = 0, rt_delays = []\<rparr>"
  by (simp add: retry_interceptor_def retry_loop.simps)

subsection \<open>The token\<close>

lemma outgoing_other:
  "(\<And>t. BearerToken t \<notin> set is) \<Longrightarrow> outgoing is md = md"
proof (induction "is" arbitrary: md)
  case (Cons i "is")
  have "(\<And>t. BearerToken t \<notin> set is)" using Cons.prems by simp
  then show ?case using Cons by (cases i) (auto simp: outgoing_def)
qed (simp add: outgoing_def)

text \<open>
  A client built with one write token is authenticated by a server that has the digest of it: for
  every call the server finds exactly that token in the metadata, and an entry of its configuration
  with the token's digest names the actor.
\<close>

theorem sdk_token_accepted:
  assumes "sd_interceptors c = before @ BearerToken token # after"
    and "\<And>t. BearerToken t \<notin> set before" "md ''authorization'' = []"
    and "token \<noteq> []" "trim_space token = token"
    and "validate_auth tokens = None" "w \<in> set tokens" "hex_decode (wt_sha256 w) = Some (sha256 token)"
  shows "bearer_token (outgoing (sd_interceptors c) md) = Some token \<and>
    (\<exists>w' \<in> set tokens. hex_decode (wt_sha256 w') = Some (sha256 token) \<and>
       authenticate sha256 (new_authenticator tokens) (outgoing (sd_interceptors c) md) =
         Inr \<lparr>ac_name = wt_name w', ac_kind = kind_token\<rparr>)"
proof -
  have "\<exists>vs. outgoing is md ''authorization'' = md ''authorization'' @ vs" for "is" md
  proof (induction "is" arbitrary: md)
    case (Cons i "is")
    show ?case
    proof (cases i)
      case (BearerToken t)
      let ?md = "md(''authorization'' := md ''authorization'' @ [''Bearer '' @ t])"
      obtain vs where "outgoing is ?md ''authorization'' = ?md ''authorization'' @ vs" using Cons.IH by blast
      then show ?thesis by (simp add: outgoing_def BearerToken)
    qed (use Cons.IH in \<open>simp_all add: outgoing_def\<close>)
  qed (simp add: outgoing_def)
  note grows = this
  let ?md1 = "md(''authorization'' := [''Bearer '' @ token])"
  have "outgoing (sd_interceptors c) md = outgoing after (outgoing [BearerToken token] (outgoing before md))"
    by (simp add: assms(1) outgoing_def)
  also have "\<dots> = outgoing after ?md1"
    using outgoing_other [OF assms(2), of md] assms(3) by (simp add: outgoing_def)
  finally obtain vs where vs: "outgoing (sd_interceptors c) md ''authorization'' = (''Bearer '' @ token) # vs"
    using grows [of after ?md1] by auto
  have "trim_space token = token" by (rule assms(5))
  then have b: "bearer_token (outgoing (sd_interceptors c) md) = Some token"
    using vs assms(4) by (simp add: bearer_token_def authorization_key_def bearer_prefix_def to_lower_def char_of_def bit_0)
  obtain v ws where f: "filter (\<lambda>w. hex_decode (wt_sha256 w) = Some (sha256 token)) tokens = v # ws"
    using assms(7,8) by (metis (mono_tags, lifting) filter_empty_conv list.exhaust)
  have "last (v # ws) \<in> set (filter (\<lambda>w. hex_decode (wt_sha256 w) = Some (sha256 token)) tokens)"
    unfolding f by (rule last_in_set) simp
  then have l: "last (v # ws) \<in> set tokens" "hex_decode (wt_sha256 (last (v # ws))) = Some (sha256 token)" by simp_all
  have "authenticate sha256 (new_authenticator tokens) (outgoing (sd_interceptors c) md) =
      Inr \<lparr>ac_name = wt_name (last (v # ws)), ac_kind = kind_token\<rparr>"
    using b f authenticate_validated [OF assms(6), of sha256 "outgoing (sd_interceptors c) md"] by simp
  then show ?thesis using b l by blast
qed

subsection \<open>Concrete runs\<close>

theorem backoff_bounds_witness:
  "\<exists>d. backoff_delay (\<lambda>_. 0) 100000000 5000000000 3 = Some d \<and> 800000000 \<le> d \<and> 4 * d \<le> 4000000000"
proof -
  have "(0::int) < 5000000000" "(5000000000::int) < 2 ^ 62" "\<And>n. 0 < n \<Longrightarrow> (0::int) \<le> 0 \<and> 0 < n" by simp_all
  from backoff_bounds [OF this, of 100000000 3] show ?thesis by auto
qed

definition flaky :: "nat \<Rightarrow> sdk_error + nat" where
  "flaky k = (if k < 2 then Inl (RpcError \<lparr>st_code = Unavailable, st_message = [], st_reason = None\<rparr>) else Inr k)"


theorem sdk_token_accepted_witness:
  "bearer_token (outgoing (sd_interceptors (new_client_config [with_insecure, with_token ''secret''])) (\<lambda>_. [])) = Some ''secret''"
proof -
  let ?c = "new_client_config [with_insecure, with_token ''secret'']" and ?sha = "\<lambda>_::string. replicate 32 (char_of (170 :: nat)) :: string"
  have i: "sd_interceptors ?c = [] @ BearerToken ''secret'' # []"
    by (simp add: new_client_config_def with_insecure_def with_token_def default_sdk_config_def)
  have n: "\<And>t. BearerToken t \<notin> set []" "(\<lambda>_. []) ''authorization'' = []" "''secret'' \<noteq> []" by simp_all
  have t: "trim_space ''secret'' = ''secret''" by (simp add: trim_space_edges is_space_def)
  have w: "sample_token \<in> set [sample_token]" by simp
  show ?thesis
    using sdk_token_accepted [OF i n t sample_valid w, of ?sha] sample_digest by simp
qed

end
