(* ===== verification/EndToEnd.thy ===== *)
theory EndToEnd
  imports Server Sdk
begin

text \<open>
  The client library against the service: a listing walks the pages of the handler, each with the token
  of the page before it, over the core and the registry. The lemmas join the paging contract of
  theory \<open>Listing\<close>, the round trip of the tokens and the loop of the client.
\<close>

text \<open>The stub call of a client: the handler of the server behind the converter.\<close>

definition stub_plugins ::
  "('req, 'resp) surroundings \<Rightarrow> (string \<Rightarrow> 'k::linorder) \<Rightarrow> pool_config \<Rightarrow> call
   \<Rightarrow> registry core_state \<Rightarrow> plugins_request \<Rightarrow> (sdk_error + plugins_response) \<times> registry core_state" where
  "stub_plugins sr collate cfg call c req =
     (let (r, c1) = convert_codes (api_plugins (service_iface sr collate cfg) c call req) in (map_sum RpcError id r, c1))"

lemma core_list_page:
  assumes "ou_db_error (sr_outside sr) = None"
  shows "\<exists>c'. core_list_plugins (service_iface sr collate cfg) c call f pg =
      (Inr (listing.core_page (list_rows collate) (rg_rows (cs_registry c)) f pg), c') \<and> cs_registry c' = cs_registry c"
  using assms
  by (simp add: core_list_plugins_def service_iface_def registry_list_def reg.core_page_def list_rows_def Let_def)

lemma stub_page:
  assumes "ou_db_error (sr_outside sr) = None" "decode_page_token (trim_space (pq_page_token req)) = Inr after"
    and "p = listing.core_page (list_rows collate) (rg_rows (cs_registry c)) (request_filter req)
           \<lparr>pg_size = uint (pq_page_size req), pg_after = after\<rparr>"
  shows "\<exists>c'. stub_plugins sr collate cfg call c req =
      (Inr \<lparr>pp_plugins = map plugin_info_to_proto (pl_plugins p), pp_next_page_token = encode_page_token (pl_next p)\<rparr>, c') \<and>
    cs_registry c' = cs_registry c"
proof -
  obtain c' where c': "core_list_plugins (service_iface sr collate cfg) c call (request_filter req)
      \<lparr>pg_size = uint (pq_page_size req), pg_after = after\<rparr> = (Inr p, c')" "cs_registry c' = cs_registry c"
    using core_list_page [OF assms(1), of collate cfg c call "request_filter req"] assms(3) by metis
  then show ?thesis using assms(2)
    by (intro exI [of _ c']) (simp add: stub_plugins_def api_plugins_def list_plugins_def convert_codes_def)
qed

lemma request_filter_token [simp]: "request_filter (req\<lparr>pq_page_token := t\<rparr>) = request_filter req"
  by (simp add: request_filter_def)

text \<open>The loop of the client, with what is left of the listing.\<close>

lemma list_pages_rest:
  fixes collate :: "string \<Rightarrow> 'k::linorder" and sr :: "('req, 'resp) surroundings"
  assumes ou: "ou_db_error (sr_outside sr) = None"
    and all: "\<And>p. p \<in> set (listing.all (list_rows collate) rows (request_filter req)) \<Longrightarrow> utf8_key (info_key p)"
    and ok: "rows_ok collate rows"
  shows "listing.all (list_rows collate) rows (request_filter req) = xs @ ys \<Longrightarrow> rg_rows (cs_registry c) = rows \<Longrightarrow>
    \<exists>c'. list_pages (stub_plugins sr collate cfg call) c
        (req\<lparr>pq_page_token := encode_page_token (if xs = [] then None else Some (info_key (last xs)))\<rparr>) acc =
      Some (Inr (acc @ map plugin_info_to_proto ys), c') \<and> rg_rows (cs_registry c') = rows"
proof (induction "length ys" arbitrary: xs ys c acc rule: less_induct)
  case less
  let ?after = "if xs = [] then None else Some (info_key (last xs))"
  let ?req = "req\<lparr>pq_page_token := encode_page_token ?after\<rparr>"
  let ?s = "nat (page_size (uint (pq_page_size req)))" and ?stub = "stub_plugins sr collate cfg call"
  let ?p = "cut_page ?s (take (Suc ?s) ys)"
  have "decode_page_token (trim_space (encode_page_token ?after)) = Inr ?after"
  proof (cases "xs = []")
    case False
    then have "info_key (last xs) \<in> info_key ` set (listing.all (list_rows collate) rows (request_filter req))"
      using less.prems(1) by simp
    then show ?thesis using all page_token_back False by auto
  qed (simp add: encode_page_token_def decode_page_token_def)
  moreover have "?p = listing.core_page (list_rows collate) (rg_rows (cs_registry c)) (request_filter ?req)
      \<lparr>pg_size = uint (pq_page_size ?req), pg_after = ?after\<rparr>"
    using reg.core_page_rest [OF ok less.prems(1) refl] less.prems(2) by simp
  ultimately obtain c1 where c1: "?stub c ?req =
      (Inr \<lparr>pp_plugins = map plugin_info_to_proto (pl_plugins ?p), pp_next_page_token = encode_page_token (pl_next ?p)\<rparr>, c1)"
      "rg_rows (cs_registry c1) = rows"
    using stub_page [OF ou, of ?req ?after ?p collate c cfg call] less.prems(2) by auto
  show ?case
  proof (cases "length ys > ?s")
    case False
    then have "pl_plugins ?p = ys" "pl_next ?p = None" by (simp_all add: cut_page_def)
    then show ?thesis using c1 by (subst list_pages.simps) (simp add: encode_page_token_def)
  next
    case True
    have pos: "?s \<ge> 1" using page_size_bounds(1) [of "uint (pq_page_size req)"] by linarith
    then have ne: "take ?s ys \<noteq> []" using True by auto
    let ?xs = "xs @ take ?s ys" and ?k = "info_key (last (xs @ take ?s ys))"
    have "last ?xs = take ?s ys ! (?s - 1)" using True ne last_conv_nth [OF ne] by simp
    then have p: "pl_plugins ?p = take ?s ys" "pl_next ?p = Some ?k" using True by (simp_all add: cut_page_def min_def)
    have split: "listing.all (list_rows collate) rows (request_filter req) = ?xs @ drop ?s ys"
      using less.prems(1) by simp
    then have "last ?xs \<in> set (listing.all (list_rows collate) rows (request_filter req))"
      using ne by (metis Un_iff append_is_Nil_conv last_in_set set_append)
    then have tok: "encode_page_token (Some ?k) \<noteq> []" using all page_token_back by blast
    obtain c2 where c2: "list_pages ?stub c1 (req\<lparr>pq_page_token := encode_page_token (Some ?k)\<rparr>)
          (acc @ map plugin_info_to_proto (take ?s ys)) =
        Some (Inr ((acc @ map plugin_info_to_proto (take ?s ys)) @ map plugin_info_to_proto (drop ?s ys)), c2)"
        "rg_rows (cs_registry c2) = rows"
      using less.hyps [OF _ split c1(2), of "acc @ map plugin_info_to_proto (take ?s ys)"] True pos ne by auto
    have "map plugin_info_to_proto (take ?s ys) @ map plugin_info_to_proto (drop ?s ys) = map plugin_info_to_proto ys"
      by (metis append_take_drop_id map_append)
    then show ?thesis using c1(1) c2 tok p by (subst list_pages.simps) simp
  qed
qed

text \<open>
  C32. A listing of the client library returns, and with the complete answer: every registered plugin that
  matches the filter, exactly once and in the order of the keys, however many pages the server cuts
  it into; the table is left alone.
\<close>

theorem sdk_lists_all:
  fixes collate :: "string \<Rightarrow> 'k::linorder" and sr :: "('req, 'resp) surroundings"
  assumes "ou_db_error (sr_outside sr) = None" "rows_unique (rg_rows (cs_registry c))" "inj collate"
    and "\<And>r. r \<in> set (rg_rows (cs_registry c)) \<Longrightarrow> utf8_key (row_key r)"
  shows "\<exists>c'. sdk_list_plugins (stub_plugins sr collate cfg call) c f =
      Some (Inr (map (plugin_info_to_proto \<circ> row_info) (sort_key (\<lambda>r. key_of collate (row_key r))
        (filter (row_matches (request_filter (first_request f))) (rg_rows (cs_registry c))))), c') \<and>
    rg_rows (cs_registry c') = rg_rows (cs_registry c)"
proof -
  let ?rows = "rg_rows (cs_registry c)" and ?f = "request_filter (first_request f)"
  have ok: "rows_ok collate ?rows" using assms(2,3) by (simp add: rows_ok_def rows_unique_def)
  have all: "listing.all (list_rows collate) ?rows ?f =
      map row_info (sort_key (\<lambda>r. key_of collate (row_key r)) (filter (row_matches ?f) ?rows))"
    by (simp add: reg.all_def list_rows_def query_all)
  have utf8: "utf8_key (info_key p)" if "p \<in> set (listing.all (list_rows collate) ?rows ?f)" for p
    using that assms(4) unfolding all by (auto simp: info_key_def row_info_def row_key_def)
  have "(first_request f)\<lparr>pq_page_token := encode_page_token None\<rparr> = first_request f"
    by (simp add: first_request_def encode_page_token_def)
  then show ?thesis
    using list_pages_rest [where req = "first_request f", OF assms(1) utf8 ok,
        where xs = "[]" and ys = "listing.all (list_rows collate) ?rows ?f" and c = c and cfg = cfg and call = call and acc = "[]"]
    by (simp add: sdk_list_plugins_def all)
qed

theorem sdk_lists_all_witness:
  "\<exists>c'. sdk_list_plugins (stub_plugins sample_surroundings (\<lambda>s. s) sample_pool_config sample_call)
        (sample_service\<lparr>cs_registry := sample_registry\<rparr>) \<lparr>sf_group = [], sf_name = '' n '', sf_version = [], sf_tags = []\<rparr> =
      Some (Inr (map (plugin_info_to_proto \<circ> row_info) [sample_row 1 ''g'' ''n'' ''v1.0'', sample_row 2 ''g'' ''n'' ''v2.0'']), c')"
proof -
  let ?c = "sample_service\<lparr>cs_registry := sample_registry\<rparr>"
  let ?f = "\<lparr>sf_group = [], sf_name = '' n '', sf_version = [], sf_tags = []\<rparr>"
  have h: "ou_db_error (sr_outside sample_surroundings) = None" "rows_unique (rg_rows (cs_registry ?c))" "inj (\<lambda>s::string. s)"
    by (simp_all add: sample_service_defs sample_defs rows_unique_def row_key_def)
  have u: "utf8_key (row_key r)" if "r \<in> set (rg_rows (cs_registry ?c))" for r
    using that by (auto simp: sample_defs row_key_def utf8_key_def utf8_valid.simps(2) rune_len_def byte_def)
  have "trim_space '' n '' = ''n''" by (simp add: trim_space_def trim_left_def is_space_def)
  then have f: "request_filter (first_request ?f) = \<lparr>pf_group = [], pf_name = ''n'', pf_version = [], pf_tags = []\<rparr>"
    by (simp add: request_filter_def first_request_def compact_strings_def)
  have rows: "sort_key (\<lambda>r. key_of (\<lambda>s. s) (row_key r)) (filter (row_matches (request_filter (first_request ?f)))
      (rg_rows (cs_registry ?c))) = [sample_row 1 ''g'' ''n'' ''v1.0'', sample_row 2 ''g'' ''n'' ''v2.0'']"
    unfolding f by (simp add: sample_defs row_matches_def key_of_def row_key_def)
  show ?thesis using sdk_lists_all [OF h u, of sample_pool_config sample_call ?f] unfolding rows by blast
qed

end
