(* ===== verification/Packing.thy ===== *)
theory Packing
  imports PlugArchive
begin

text \<open>
  Packing plugin directories (\<open>PackDir\<close> and \<open>packEntry\<close> of \<^verbatim>\<open>internal/plugarchive/plugarchive.go\<close>):
  the walk over a directory tree and the archive entries it writes. The last section shows that
  unpacking what was packed gives the tree back: the same names, contents and link targets, with the
  directories open to their owner and the entrypoint executable.
\<close>

unbundle bit_operations_syntax

subsection \<open>The tree and its entries\<close>

text \<open>
  What \<open>filepath.Walk\<close> meets, the entries of a directory in the order it reads them; a file is its
  content, or what opening or reading it fails with, and its permissions.
\<close>

datatype tree =
    TDir nat "(string \<times> tree) list"
  | TFile "string result" nat
  | TLink string
  | TDevice
  | TSocket

definition link_perm :: nat where "link_perm = 0x1FF"       \<comment> \<open>0o777\<close>

definition header_of :: "string \<Rightarrow> tar_type \<Rightarrow> string \<Rightarrow> nat \<Rightarrow> string \<Rightarrow> tar_entry" where
  "header_of name ty linkname perm body =
     \<lparr>th_name = name, th_type = ty, th_linkname = linkname, th_perm = perm, te_body = Inr body\<rparr>"

definition pack_entry :: "string list \<Rightarrow> tree \<Rightarrow> tar_entry result" where
  "pack_entry path t =
     (let rel = join_slash path in
      case t of
        TDir perm kids \<Rightarrow> Inr (header_of (rel @ ''/'') TypeDir [] perm [])
      | TFile content perm \<Rightarrow>
          (case content of
             Inl e \<Rightarrow> Inl (wrap ''os.Open: '' e)
           | Inr text \<Rightarrow> Inr (header_of rel TypeReg [] perm text))
      | TLink target \<Rightarrow> Inr (header_of rel TypeSymlink target link_perm [])
      | TDevice \<Rightarrow> Inr (header_of rel TypeOther [] 0 [])
      | TSocket \<Rightarrow> Inl (wrap ''tar.FileInfoHeader: '' (plain_error ''archive/tar: sockets not supported'')))"

fun pack_children :: "string list \<Rightarrow> (string \<times> tree) list \<Rightarrow> tar_entry list result" where
  "pack_children path [] = Inr []"
| "pack_children path ((name, t) # rest) =
     (case pack_entry (path @ [name]) t of
        Inl e \<Rightarrow> Inl e
      | Inr h \<Rightarrow>
          (case (case t of TDir perm kids \<Rightarrow> pack_children (path @ [name]) kids | _ \<Rightarrow> Inr []) of
             Inl e \<Rightarrow> Inl e
           | Inr below \<Rightarrow>
               (case pack_children path rest of
                  Inl e \<Rightarrow> Inl e
                | Inr after \<Rightarrow> Inr (h # below @ after))))"

text \<open>The root itself is skipped, whatever it is: \<open>Walk\<close> does not follow it when it is a link.\<close>

definition pack_dir :: "tree result \<Rightarrow> tar_stream result" where
  "pack_dir root_tree =
     (case root_tree of
        Inl e \<Rightarrow> Inl (wrap ''filepath.Walk: '' e)
      | Inr (TDir perm kids) \<Rightarrow>
          (case pack_children [] kids of
             Inl e \<Rightarrow> Inl (wrap ''filepath.Walk: '' e)
           | Inr hs \<Rightarrow> Inr \<lparr>ts_entries = hs, ts_end = None\<rparr>)
      | Inr _ \<Rightarrow> Inr \<lparr>ts_entries = [], ts_end = None\<rparr>)"

subsection \<open>The tree that unpacking makes\<close>

definition node_of :: "tree \<Rightarrow> node option" where
  "node_of t =
     (case t of
        TDir perm kids \<Rightarrow> Some (Dir (perm OR owner_access))
      | TFile (Inr text) perm \<Rightarrow> Some (File text perm)
      | TLink target \<Rightarrow> Some (Link target)
      | _ \<Rightarrow> None)"

fun unpacked :: "(string \<times> tree) list \<Rightarrow> string list \<Rightarrow> node option" where
  "unpacked kids [] = None"
| "unpacked kids (n # path) =
     (case map_of kids n of
        None \<Rightarrow> None
      | Some t \<Rightarrow> if path = [] then node_of t else (case t of TDir perm ks \<Rightarrow> unpacked ks path | _ \<Rightarrow> None))"

text \<open>
  A directory that can be packed and unpacked: file names are names, no two alike; files can be read;
  links are relative and never climb above the directory packed, \<open>depth\<close> being how deep they lie; no
  socket.
\<close>

fun packable :: "nat \<Rightarrow> (string \<times> tree) list \<Rightarrow> bool" where
  "packable depth [] = True"
| "packable depth ((n, t) # rest) =
     (proper n \<and> n \<notin> fst ` set rest \<and>
      (case t of
         TDir perm kids \<Rightarrow> packable (Suc depth) kids
       | TFile content perm \<Rightarrow> (case content of Inl e \<Rightarrow> False | Inr text \<Rightarrow> True)
       | TLink target \<Rightarrow> target \<noteq> [] \<and> \<not> is_abs (clean target) \<and> depth_ok depth (split_on CHR ''/'' (clean target))
       | TDevice \<Rightarrow> True
       | TSocket \<Rightarrow> False) \<and>
      packable depth rest)"

text \<open>The entries of \<open>kids\<close> laid over a tree of files, below \<open>dir\<close>.\<close>

definition lay :: "string list \<Rightarrow> (string \<times> tree) list \<Rightarrow> fs \<Rightarrow> fs" where
  "lay dir kids fs =
     (\<lambda>r. case (if prefix dir r then unpacked kids (drop (length dir) r) else None) of None \<Rightarrow> fs r | Some x \<Rightarrow> Some x)"

lemma lay_Nil [simp]: "lay dir [] fs = fs"
proof
  fix r
  have "unpacked [] q = None" for q by (cases q) auto
  then show "lay dir [] fs r = fs r" by (simp add: lay_def)
qed

lemma lay_Cons:
  assumes "n \<notin> fst ` set rest"
  shows "lay dir ((n, t) # rest) fs = lay dir rest (lay dir [(n, t)] fs)"
proof
  fix r
  have "map_of rest n = None" using assms by (simp add: map_of_eq_None_iff)
  then show "lay dir ((n, t) # rest) fs r = lay dir rest (lay dir [(n, t)] fs) r"
    by (cases "drop (length dir) r") (auto simp: lay_def split: option.splits tree.splits)
qed

lemma prefix_drop_eq: "prefix dir r \<Longrightarrow> drop (length dir) r = q \<longleftrightarrow> r = dir @ q"
  by (auto simp: prefix_def)

lemma lay_leaf:
  assumes "\<forall>perm kids. t \<noteq> TDir perm kids"
  shows "lay dir [(n, t)] fs = (case node_of t of None \<Rightarrow> fs | Some x \<Rightarrow> fs(dir @ [n] \<mapsto> x))"
proof
  fix r
  show "lay dir [(n, t)] fs r = (case node_of t of None \<Rightarrow> fs | Some x \<Rightarrow> fs(dir @ [n] \<mapsto> x)) r"
  proof (cases "prefix dir r")
    case True
    then obtain q where "r = dir @ q" by (auto simp: prefix_def)
    then show ?thesis using assms by (cases q; cases t) (auto simp: lay_def split: option.splits)
  qed (auto simp: lay_def split: option.splits)
qed

lemma lay_dir:
  "lay dir [(n, TDir perm kids)] fs = lay (dir @ [n]) kids (fs(dir @ [n] \<mapsto> Dir (perm OR owner_access)))"
proof
  fix r
  show "lay dir [(n, TDir perm kids)] fs r = lay (dir @ [n]) kids (fs(dir @ [n] \<mapsto> Dir (perm OR owner_access))) r"
  proof (cases "prefix dir r")
    case True
    then obtain q where r: "r = dir @ q" by (auto simp: prefix_def)
    show ?thesis
    proof (cases q)
      case (Cons m q')
      then show ?thesis using r by (auto simp: lay_def node_of_def split: option.split)
    qed (use r in \<open>simp add: lay_def\<close>)
  next
    case False
    then have "\<not> prefix (dir @ [n]) r" "r \<noteq> dir @ [n]" by (auto simp: prefix_def)
    then show ?thesis using False by (simp add: lay_def)
  qed
qed

lemma lay_outside: "\<not> prefix dir r \<Longrightarrow> lay dir kids fs r = fs r"
  by (simp add: lay_def)

lemma lay_keeps_dirs: "dirs_to fs ds \<Longrightarrow> prefix ds dir \<Longrightarrow> dirs_to (lay dir kids fs) ds"
proof (unfold dirs_to_def, intro allI impI)
  fix xs assume a: "\<forall>xs. prefix xs ds \<longrightarrow> is_dir (fs xs)" "prefix ds dir" "prefix xs ds"
  have "lay dir kids fs xs = fs xs"
  proof (cases "prefix dir xs")
    case True
    then have "xs = dir" using a(2,3) by (meson prefix_order.antisym prefix_order.trans)
    then show ?thesis by (simp add: lay_def)
  qed (rule lay_outside)
  then show "is_dir (lay dir kids fs xs)" using a by simp
qed

subsection \<open>Extracting one entry\<close>

lemma slashless: "proper c \<Longrightarrow> CHR ''/'' \<notin> set c"
  by (simp add: proper_def)

lemma safe_join_rel:
  assumes "\<forall>c \<in> set (ds @ path). proper c" "path \<noteq> []"
  shows "safe_join (abs_path ds) (join_slash path) = Inr (abs_path (ds @ path))"
    and "safe_join (abs_path ds) (join_slash path @ ''/'') = Inr (abs_path (ds @ path))"
proof -
  have ds: "\<forall>c \<in> set ds. proper c" and p: "\<forall>c \<in> set path. proper c" using assms(1) by auto
  have s: "split_on CHR ''/'' (join_slash path) = path"
    using split_join_slash [OF assms(2)] p slashless by blast
  obtain c cs where c: "path = c # cs" using assms(2) by (cases path) auto
  have na: "\<not> is_abs (join_slash path)" using join_slash_proper(1) [of c cs] p c by simp
  have s2: "split_on CHR ''/'' (join_slash path @ ''/'') = path @ [[]]"
    using split_on_mid [of "CHR ''/''" "join_slash path" "[]"] s by simp
  have ne: "join_slash path \<noteq> []" using s assms(2) p by (metis c list.set_intros(1) properD(1) split_on.simps(1) list.inject)
  then have na2: "\<not> is_abs (join_slash path @ ''/'')" using na by (cases "join_slash path") (auto simp: is_abs_def has_prefix_def)
  have d: "depth_ok k path" for k using p by (induction path arbitrary: k) (auto simp: proper_def)
  have d2: "depth_ok k (path @ [[]])" for k using p by (induction path arbitrary: k) (auto simp: proper_def)
  show "safe_join (abs_path ds) (join_slash path) = Inr (abs_path (ds @ path))"
    using p by (simp add: safe_join_accepts [OF ds] s na d)
  show "safe_join (abs_path ds) (join_slash path @ ''/'') = Inr (abs_path (ds @ path))"
    using p clean_comps_proper [of path False "[]" "[[]]"] by (simp add: safe_join_accepts [OF ds] s2 na2 d2)
qed

text \<open>A link that does not climb resolves below the root.\<close>

lemma clean_comps_below:
  "\<forall>c \<in> set st. proper c \<Longrightarrow> \<forall>c \<in> set cs. CHR ''/'' \<notin> set c \<Longrightarrow> depth_ok (length st) cs \<Longrightarrow>
     \<exists>ys. clean_comps True (st @ rev ds) cs = ds @ ys \<and> (\<forall>c \<in> set ys. proper c)"
proof (induction cs arbitrary: st)
  case (Cons c cs)
  consider "c = [] \<or> c = ''.''" | "c \<noteq> []" "c \<noteq> ''.''" "c = dotdot" | "proper c"
    using Cons.prems(2) by (auto simp: proper_def)
  then show ?case
  proof cases
    case 1
    then show ?thesis using Cons.IH [of st] Cons.prems by auto
  next
    case 2
    then obtain x xs where st: "st = x # xs" using Cons.prems(3) by (cases st) auto
    then have "x \<noteq> dotdot" using Cons.prems(1) by (simp add: proper_def)
    then show ?thesis using 2 st Cons.IH [of xs] Cons.prems by auto
  next
    case 3
    then show ?thesis using Cons.IH [of "c # st"] Cons.prems by (simp add: proper_def)
  qed
qed auto

lemma link_accepted:
  assumes "\<forall>c \<in> set (ds @ path @ [n]). proper c" "ds \<noteq> []"
    and "target \<noteq> []" "\<not> is_abs (clean target)" "depth_ok (length path) (split_on CHR ''/'' (clean target))"
  shows "check_symlink_target (abs_path ds) (abs_path (ds @ path @ [n])) target = None"
proof -
  have pr: "\<forall>c \<in> set (ds @ path). proper c" using assms(1) by auto
  obtain ys where y: "clean_comps True (rev (ds @ path)) (split_on CHR ''/'' (clean target)) = ds @ ys"
    "\<forall>c \<in> set ys. proper c"
    using clean_comps_below [of "rev path" "split_on CHR ''/'' (clean target)" ds] assms(1,5) split_slash_no_slash by auto
  have "path_dir (abs_path (ds @ path @ [n])) = abs_path (ds @ path)"
    using last_component [of "ds @ path" n] assms(1) by simp
  moreover have "path_join [abs_path (ds @ path), clean target] = abs_path (ds @ ys)"
    using clean_join2 [OF pr, of "clean target"] y(1) by simp
  moreover have "\<forall>c \<in> set (ds @ ys). proper c" using pr y(2) by auto
  moreover have "abs_path (ds @ ys) = abs_path ds \<or> has_prefix (abs_path (ds @ ys)) (abs_path ds @ ''/'')"
    using abs_path_append [of ds ys] assms(2) by (cases "ys = []") (auto simp: has_prefix_iff)
  ultimately show ?thesis
    using assms(3,4) pr by (simp add: check_symlink_target_def Let_def)
qed

text \<open>Where the directory exists and the name is free, an entry is put there and nothing else changes.\<close>

lemma at_free:
  assumes "\<forall>c \<in> set (d @ [n]). proper c" "dirs_to fs d" "fs (d @ [n]) = None"
  shows "lresolve fs (d @ [n]) = Some (d @ [n])" "mkdir_all fs d m = (None, fs)"
    "mkdir_all fs (d @ [n]) m = (None, fs(d @ [n] \<mapsto> Dir m))"
    "write_nofollow fs (d @ [n]) text m = (None, fs(d @ [n] \<mapsto> File text m))"
    "unlink fs (d @ [n]) = fs" "symlink fs target (d @ [n]) = (None, fs(d @ [n] \<mapsto> Link target))"
    "path_comps (path_dir (abs_path (d @ [n]))) = d"
proof -
  have p: "\<forall>c \<in> set d. proper c" using assms(1) by auto
  show l: "lresolve fs (d @ [n]) = Some (d @ [n])" using lresolve_dirs [OF assms(1)] assms(2) by simp
  show m: "mkdir_all fs d k = (None, fs)" for k using mkdir_all_existing [OF p assms(2)] .
  have "walk k fs z (ys @ [n]) = Some (z @ ys @ [n]) \<or> walk k fs z (ys @ [n]) = None"
    if "d = z @ ys" for k z ys
    using that
  proof (induction ys arbitrary: z)
    case (Cons y ys)
    have "prefix (z @ [y]) d" using Cons.prems by simp
    then obtain k where k: "fs (z @ [y]) = Some (Dir k)" using assms(2) by (auto simp: dirs_to_def is_dir_iff)
    have "proper y" using Cons.prems p by simp
    then show ?case using Cons.IH [of "z @ [y]"] Cons.prems k by (simp add: proper_def)
  next
    case Nil
    have "proper n" using assms(1) by simp
    then show ?case using Nil assms(3) by (simp add: proper_def)
  qed
  from this [of "[]" d max_links] have "walk max_links fs [] (d @ [n]) = Some (d @ [n]) \<or> walk max_links fs [] (d @ [n]) = None"
    by simp
  then have "stat fs (d @ [n]) = None" using assms(3) by (elim disjE) (simp_all add: stat_def)
  then show "mkdir_all fs (d @ [n]) m = (None, fs(d @ [n] \<mapsto> Dir m))"
    by (subst mkdir_all.simps) (simp add: m l assms(3) mkdir_def)
  show "write_nofollow fs (d @ [n]) text m = (None, fs(d @ [n] \<mapsto> File text m))"
    using l assms(3) by (simp add: write_nofollow_def)
  show "unlink fs (d @ [n]) = fs" using l assms(3) by (auto simp: unlink_def)
  show "symlink fs target (d @ [n]) = (None, fs(d @ [n] \<mapsto> Link target))"
    using l assms(3) by (simp add: symlink_def)
  show "path_comps (path_dir (abs_path (d @ [n]))) = d"
    using last_component [OF assms(1)] path_comps_abs_path [OF p] by simp
qed

lemma extract_packed_leaf:
  assumes "pack_entry (path @ [n]) t = Inr h" "\<forall>perm kids. t \<noteq> TDir perm kids"
    and "\<forall>c \<in> set (ds @ path @ [n]). proper c" "ds \<noteq> []" "packable (length path) [(n, t)]"
    and "dirs_to fs (ds @ path)" "fs (ds @ path @ [n]) = None"
  shows "extract_entries fs (h # rest) en (abs_path ds) = extract_entries (lay (ds @ path) [(n, t)] fs) rest en (abs_path ds)"
proof -
  have p: "\<forall>c \<in> set ((ds @ path) @ [n]). proper c" and f: "fs ((ds @ path) @ [n]) = None" using assms(3,7) by simp_all
  note at = at_free [OF p assms(6) f, unfolded append_assoc]
  have pc: "path_comps (abs_path (ds @ path @ [n])) = ds @ path @ [n]" using path_comps_abs_path [OF p] by simp
  have j: "safe_join (abs_path ds) (join_slash (path @ [n])) = Inr (abs_path (ds @ path @ [n]))"
    using safe_join_rel(1) [of ds "path @ [n]"] assms(3) by simp
  have l: "lay (ds @ path) [(n, t)] fs = (case node_of t of None \<Rightarrow> fs | Some x \<Rightarrow> fs(ds @ path @ [n] \<mapsto> x))"
    using lay_leaf [OF assms(2), of "ds @ path" n fs, unfolded append_assoc] .
  show ?thesis
  proof (cases t)
    case (TFile content perm)
    then obtain body where c: "content = Inr body" using assms(5) by (cases content) simp_all
    then have h: "h = header_of (join_slash (path @ [n])) TypeReg [] perm body"
      using assms(1) TFile by (simp add: pack_entry_def Let_def)
    have "extract_entry fs h (abs_path ds) (abs_path (ds @ path @ [n])) = (None, fs(ds @ path @ [n] \<mapsto> File body perm))"
      by (simp add: h header_of_def extract_entry_def extract_regular_def at pc)
    then show ?thesis unfolding l using j by (simp add: TFile c node_of_def h header_of_def)
  next
    case (TLink target)
    then have k: "check_symlink_target (abs_path ds) (abs_path (ds @ path @ [n])) target = None"
      using link_accepted [OF assms(3,4)] assms(5) by simp
    have h: "h = header_of (join_slash (path @ [n])) TypeSymlink target link_perm []"
      using assms(1) TLink by (simp add: pack_entry_def Let_def)
    have "extract_entry fs h (abs_path ds) (abs_path (ds @ path @ [n])) = (None, fs(ds @ path @ [n] \<mapsto> Link target))"
      by (simp add: h header_of_def extract_entry_def extract_symlink_def at pc k Let_def)
    then show ?thesis unfolding l using j by (simp add: TLink node_of_def h header_of_def)
  next
    case TDevice
    then have h: "h = header_of (join_slash (path @ [n])) TypeOther [] 0 []"
      using assms(1) by (simp add: pack_entry_def Let_def)
    show ?thesis unfolding l using j by (simp add: TDevice node_of_def h header_of_def extract_entry_def)
  qed (use assms(1,2) in \<open>simp_all add: pack_entry_def Let_def\<close>)
qed

text \<open>Extracting what was packed lays the entries over the tree, one directory after the other.\<close>

lemma extract_packed:
  assumes "pack_children path kids = Inr hs" "\<forall>c \<in> set (ds @ path). proper c" "ds \<noteq> []" "packable (length path) kids"
    and "dirs_to fs (ds @ path)" "\<forall>n \<in> fst ` set kids. \<forall>q. fs (ds @ path @ n # q) = None"
  shows "extract_entries fs (hs @ rest) en (abs_path ds) = extract_entries (lay (ds @ path) kids fs) rest en (abs_path ds)"
  using assms
proof (induction path kids arbitrary: hs rest fs rule: pack_children.induct)
  case (2 path n t kids)
  note prem = "2.prems"
  obtain h below later where hs: "pack_entry (path @ [n]) t = Inr h" "hs = h # below @ later"
    "(case t of TDir perm ks \<Rightarrow> pack_children (path @ [n]) ks | _ \<Rightarrow> Inr []) = Inr below"
    "pack_children path kids = Inr later"
    using prem(1) by (auto split: sum.splits)
  have n: "proper n" "n \<notin> fst ` set kids" and pk: "packable (length path) [(n, t)]" "packable (length path) kids"
    using prem(4) by simp_all
  have pr: "\<forall>c \<in> set (ds @ path @ [n]). proper c" using prem(2) n(1) by auto
  let ?fs1 = "lay (ds @ path) [(n, t)] fs"
  have "extract_entries fs (h # below @ later @ rest) en (abs_path ds) = extract_entries ?fs1 (later @ rest) en (abs_path ds)"
  proof (cases "\<exists>perm ks. t = TDir perm ks")
    case True
    then obtain perm ks where t: "t = TDir perm ks" by blast
    have p: "\<forall>c \<in> set ((ds @ path) @ [n]). proper c" and f: "fs ((ds @ path) @ [n]) = None" using pr prem(6) by auto
    note at = at_free [OF p prem(5) f, unfolded append_assoc]
    let ?g = "fs(ds @ path @ [n] \<mapsto> Dir (perm OR owner_access))"
    have h: "h = header_of (join_slash (path @ [n]) @ ''/'') TypeDir [] perm []"
      using hs(1) t by (simp add: pack_entry_def Let_def)
    have pc: "path_comps (abs_path (ds @ path @ [n])) = ds @ path @ [n]" using path_comps_abs_path [OF p] by simp
    have "extract_entry fs h (abs_path ds) (abs_path (ds @ path @ [n])) = (None, ?g)"
      by (simp add: h header_of_def extract_entry_def at pc)
    moreover have "safe_join (abs_path ds) (th_name h) = Inr (abs_path (ds @ path @ [n]))"
      using safe_join_rel(2) [of ds "path @ [n]"] pr by (simp add: h header_of_def)
    ultimately have 1: "extract_entries fs (h # below @ later @ rest) en (abs_path ds) =
        extract_entries ?g (below @ later @ rest) en (abs_path ds)" by simp
    have d: "dirs_to ?g (ds @ path @ [n])"
      using prem(5) by (auto simp: dirs_to_def is_dir_iff prefix_snoc simp flip: append_assoc)
    have "\<forall>m \<in> fst ` set ks. \<forall>q. ?g (ds @ (path @ [n]) @ m # q) = None" using prem(6) by simp
    then have "extract_entries ?g (below @ later @ rest) en (abs_path ds) =
        extract_entries (lay (ds @ path @ [n]) ks ?g) (later @ rest) en (abs_path ds)"
      using "2.IH"(1) [OF hs(1) t, of below ?g "later @ rest"] hs(3) t pr prem(3) pk(1) d by (simp del: fun_upd_apply)
    then show ?thesis using 1 lay_dir [of "ds @ path" n perm ks fs] by (simp add: t)
  next
    case False
    then have "below = []" using hs(3) by (cases t) auto
    then show ?thesis using extract_packed_leaf [OF hs(1) _ pr prem(3) pk(1) prem(5)] False prem(6) by simp
  qed
  moreover have "\<forall>m \<in> fst ` set kids. \<forall>q. ?fs1 (ds @ path @ m # q) = None"
    using prem(6) n(2) by (auto simp: lay_def)
  then have "extract_entries ?fs1 (later @ rest) en (abs_path ds) =
      extract_entries (lay (ds @ path) kids ?fs1) rest en (abs_path ds)"
    using "2.IH"(2) [OF hs(1) hs(3), of later ?fs1 rest] hs(4) prem(2,3) pk(2) lay_keeps_dirs [OF prem(5)] by simp
  ultimately show ?case using hs(2) lay_Cons [OF n(2)] by simp
qed simp

lemma packable_packs: "packable (length path) kids \<Longrightarrow> \<exists>hs. pack_children path kids = Inr hs"
proof (induction path kids rule: pack_children.induct)
  case (2 path n t kids)
  obtain h where h: "pack_entry (path @ [n]) t = Inr h"
    using 2(3) by (cases t) (auto simp: pack_entry_def Let_def split: sum.splits)
  have b: "\<exists>below. (case t of TDir perm ks \<Rightarrow> pack_children (path @ [n]) ks | _ \<Rightarrow> Inr []) = Inr below"
  proof (cases t)
    case (TDir perm ks)
    then show ?thesis using "2.IH"(1) [OF h TDir] 2(3) by simp
  qed auto
  then obtain below where b: "(case t of TDir perm ks \<Rightarrow> pack_children (path @ [n]) ks | _ \<Rightarrow> Inr []) = Inr below" by blast
  then show ?case using "2.IH"(2) [OF h b] 2(3) h by auto
qed simp


subsection \<open>Packing and unpacking\<close>

definition with_entrypoint :: "string list \<Rightarrow> node option \<Rightarrow> node option" where
  "with_entrypoint path nd =
     (case nd of
        Some (File body perm) \<Rightarrow> Some (File body (if path = [entrypoint_name] then entrypoint_permissions else perm))
      | _ \<Rightarrow> nd)"

text \<open>
  A plugin directory that is packed and then unpacked, wherever there is a free name for the
  temporary directory and whatever stood at the destination before, comes back as it was: the same
  names, file contents, permissions and link targets, except that directories are opened to their owner, devices
  are left out and the entrypoint is made executable; and nothing outside the destination changes.
\<close>

theorem pack_unpack:
  assumes "packable 0 kids" "unpacked kids [entrypoint_name] \<noteq> None" "free_tmp fs ps t d"
  shows "\<exists>archive fs'. pack_dir (Inr (TDir perm kids)) = Inr archive
    \<and> unpack fs (Inr archive) ap (abs_path (ps @ [d])) (abs_path (ps @ [t])) = (None, fs')
    \<and> fs' (ps @ [d]) = Some (Dir dir_permissions)
    \<and> (\<forall>n path. fs' (ps @ d # n # path) = with_entrypoint (n # path) (unpacked kids (n # path)))
    \<and> inside (ps @ [d]) fs fs'"
proof -
  obtain hs where hs: "pack_children [] kids = Inr hs" using packable_packs [of "[]" kids] assms(1) by auto
  have pt: "\<forall>c \<in> set (ps @ [t]). proper c" and fr: "\<forall>q. prefix (ps @ [t]) q \<longrightarrow> fs q = None" and dp: "dirs_to fs ps"
    using assms(3) by (auto simp: free_tmp_def)
  let ?fs3 = "fs(ps @ [t] \<mapsto> Dir dir_permissions)"
  let ?fs4 = "lay (ps @ [t]) kids ?fs3"
  have d3: "dirs_to ?fs3 (ps @ [t])" using make_tmp(3) [OF pt dp] fr by simp
  have "\<forall>n \<in> fst ` set kids. \<forall>q. ?fs3 ((ps @ [t]) @ [] @ n # q) = None" using fr by simp
  then have "extract_entries ?fs3 (hs @ []) None (abs_path (ps @ [t])) = extract_entries ?fs4 [] None (abs_path (ps @ [t]))"
    using extract_packed [OF hs, of "ps @ [t]" ?fs3 "[]" None] pt assms(1) d3 by (simp del: fun_upd_apply)
  then have x: "extract_to ?fs3 (Inr \<lparr>ts_entries = hs, ts_end = None\<rparr>) (abs_path (ps @ [t])) = (None, ?fs4)"
    by (simp add: extract_to_def)
  have i4: "inside (ps @ [t]) fs ?fs4" by (auto simp: inside_def lay_def)
  have d4: "dirs_to ?fs4 (ps @ [t])" using lay_keeps_dirs [OF d3] by blast
  have below: "?fs4 (ps @ t # n # q) = unpacked kids (n # q)" for n q
    using fr by (simp add: lay_def split: option.split)
  obtain info where info: "unpacked kids [entrypoint_name] = Some info" using assms(2) unfolding not_None_eq by blast
  then have fe: "?fs4 (ps @ [t, entrypoint_name]) = Some info" by (simp only: below)
  note u = unpack_finish [OF assms(3) x i4 d4 fe, of ap]
  let ?fs' = "snd (unpack fs (Inr \<lparr>ts_entries = hs, ts_end = None\<rparr>) ap (abs_path (ps @ [d])) (abs_path (ps @ [t])))"
  have "?fs' (ps @ [d]) = Some (Dir dir_permissions)"
    using u by (simp add: lay_def split: node.split)
  moreover have "?fs' (ps @ d # n # q) = with_entrypoint (n # q) (unpacked kids (n # q))" for n q
    using u below [of n q] info
    by (cases "n # q = [entrypoint_name]")
      (auto simp: with_entrypoint_def simp del: unpacked.simps split: option.split node.split)
  moreover have "inside (ps @ [d]) fs ?fs'" using u by (simp add: inside_def)
  moreover have "pack_dir (Inr (TDir perm kids)) = Inr \<lparr>ts_entries = hs, ts_end = None\<rparr>" using hs by (simp add: pack_dir_def)
  moreover have "fst (unpack fs (Inr \<lparr>ts_entries = hs, ts_end = None\<rparr>) ap (abs_path (ps @ [d])) (abs_path (ps @ [t]))) = None"
    using u by simp
  ultimately show ?thesis by (metis prod.collapse)
qed

definition sample_tree :: "(string \<times> tree) list" where
  "sample_tree =
     [(''lib'', TDir 0x140 [(''run'', TLink ''../plugin''), (''x.so'', TFile (Inr ''so'') 0x124)]),
      (''plugin'', TFile (Inr ''run'') 0x124)]"

theorem pack_unpack_witness:
  "\<exists>archive fs'. pack_dir (Inr (TDir 0x1ED sample_tree)) = Inr archive
    \<and> unpack sample_fs (Inr archive) ''a'' (abs_path [''p'', ''d'']) (abs_path [''p'', ''t'']) = (None, fs')
    \<and> fs' [''p'', ''d'', ''lib'', ''run''] = Some (Link ''../plugin'')
    \<and> fs' [''p'', ''d'', ''plugin''] = Some (File ''run'' 0x1ED)"
proof -
  have "split_on CHR ''/'' (clean ''../plugin'') = [dotdot, ''plugin'']" "\<not> is_abs (clean ''../plugin'')"
    by (simp_all add: clean_def is_abs_def has_prefix_def dotdot_def join_slash_def)
  then have p: "packable 0 sample_tree" by (simp add: sample_tree_def proper_def dotdot_def)
  have e: "unpacked sample_tree [entrypoint_name] \<noteq> None"
    by (simp add: sample_tree_def entrypoint_name_def node_of_def)
  from pack_unpack [OF p e sample_free, of "0x1ED" "''a''"] obtain archive fs' where
    r: "pack_dir (Inr (TDir 0x1ED sample_tree)) = Inr archive"
      "unpack sample_fs (Inr archive) ''a'' (abs_path ([''p''] @ [''d''])) (abs_path ([''p''] @ [''t''])) = (None, fs')"
      "\<forall>n path. fs' ([''p''] @ ''d'' # n # path) = with_entrypoint (n # path) (unpacked sample_tree (n # path))" by blast
  have "fs' [''p'', ''d'', ''lib'', ''run''] = Some (Link ''../plugin'')"
    using r(3) [rule_format, of "''lib''" "[''run'']"] by (simp add: sample_tree_def node_of_def with_entrypoint_def)
  moreover have "fs' [''p'', ''d'', ''plugin''] = Some (File ''run'' 0x1ED)"
    using r(3) [rule_format, of "''plugin''" "[]"]
    by (simp add: sample_tree_def node_of_def with_entrypoint_def entrypoint_name_def entrypoint_permissions_def)
  ultimately show ?thesis using r(1,2) by auto
qed

text \<open>
  What can be packed need not be unpackable: a link out of the directory is stored without a word and
  refused on the way back, and a root that is itself a link is packed as an empty archive.
\<close>

lemma packed_but_refused:
  "pack_dir (Inr (TDir 0x1ED [(''cert'', TLink ''/etc/ssl''), (''plugin'', TFile (Inr ''run'') 0x1ED)])) =
     Inr \<lparr>ts_entries = [header_of ''cert'' TypeSymlink ''/etc/ssl'' link_perm [], header_of ''plugin'' TypeReg [] 0x1ED ''run''],
          ts_end = None\<rparr>
   \<and> check_symlink_target ''/p/t'' ''/p/t/cert'' ''/etc/ssl'' \<noteq> None
   \<and> pack_dir (Inr (TLink target)) = Inr \<lparr>ts_entries = [], ts_end = None\<rparr>"
  by (simp add: pack_dir_def pack_entry_def check_symlink_target_def clean_def is_abs_def has_prefix_def join_slash_def)

end
