(* ===== verification/Scan.thy ===== *)
theory Scan
  imports Packing
begin

text \<open>
  Which plugins a command works on (\<open>scanPluginTree\<close>, \<open>parsePluginPath\<close>, \<open>matchFilter\<close> of
  \<^verbatim>\<open>cmd/easyp-svc/register.go\<close>): the walk over a tree of directories, the four components of a plugin's
  path, and the filter, which is \<open>filepath.Match\<close> on names of ASCII characters. The lemmas show that a
  scan lists exactly the version directories that hold the wanted file, each once.
\<close>

subsection \<open>Patterns\<close>

datatype token = Star | AnyChar | Lit char | Class bool "(char \<times> char) list"

text \<open>\<open>getEsc\<close>: one character of a class, and there must be something behind it.\<close>

definition get_esc :: "string \<Rightarrow> (char \<times> string) option" where
  "get_esc s =
     (case s of
        [] \<Rightarrow> None
      | c # r \<Rightarrow>
          if c = CHR ''-'' \<or> c = CHR '']'' then None
          else if c = CHR 0x5C then
            (case r of [] \<Rightarrow> None | d # r2 \<Rightarrow> if r2 = [] then None else Some (d, r2))
          else if r = [] then None else Some (c, r))"

lemma get_esc_shorter: "get_esc s = Some (c, r) \<Longrightarrow> length r < length s"
  by (auto simp: get_esc_def split: list.splits if_splits)

text \<open>The ranges of a class up to its closing bracket, of which there is at least one.\<close>

function class_ranges :: "bool \<Rightarrow> string \<Rightarrow> ((char \<times> char) list \<times> string) option" where
  "class_ranges some s =
     (if some \<and> s \<noteq> [] \<and> hd s = CHR '']'' then Some ([], tl s)
      else case get_esc s of
        None \<Rightarrow> None
      | Some (lo, r) \<Rightarrow>
          (if r \<noteq> [] \<and> hd r = CHR ''-'' then
             (case get_esc (tl r) of
                None \<Rightarrow> None
              | Some (hi, r2) \<Rightarrow>
                  (case class_ranges True r2 of None \<Rightarrow> None | Some (rs, t) \<Rightarrow> Some ((lo, hi) # rs, t)))
           else
             (case class_ranges True r of None \<Rightarrow> None | Some (rs, t) \<Rightarrow> Some ((lo, lo) # rs, t))))"
  by pat_completeness auto
termination
proof (relation "measure (\<lambda>(some, s). length s)")
  fix some s x lo r xa hi r2
  assume "get_esc s = Some x" "(lo, r) = x" "r \<noteq> [] \<and> hd r = CHR ''-''" "get_esc (tl r) = Some xa" "(hi, r2) = xa"
  then show "((True, r2), some, s) \<in> measure (\<lambda>(some, s). length s)"
    using get_esc_shorter [of s lo r] get_esc_shorter [of "tl r" hi r2] by auto
next
  fix some s x lo r
  assume "get_esc s = Some x" "(lo, r) = x"
  then show "((True, r), some, s) \<in> measure (\<lambda>(some, s). length s)"
    using get_esc_shorter [of s lo r] by auto
qed auto

declare class_ranges.simps [simp del]

lemma class_ranges_shorter: "class_ranges some s = Some (rs, t) \<Longrightarrow> length t \<le> length s"
proof (induction some s arbitrary: rs t rule: class_ranges.induct)
  case (1 some s)
  show ?case
  proof (cases "some \<and> s \<noteq> [] \<and> hd s = CHR '']''")
    case True
    then have "class_ranges some s = Some ([], tl s)" by (subst class_ranges.simps) simp
    then show ?thesis using "1.prems" by simp
  next
    case no: False
    then obtain lo r where e: "get_esc s = Some (lo, r)"
      using "1.prems" by (auto simp: class_ranges.simps [of some s] split: option.splits)
    note l = get_esc_shorter [OF e]
    show ?thesis
    proof (cases "r \<noteq> [] \<and> hd r = CHR ''-''")
      case True
      then obtain hi r2 rs2 where r2: "get_esc (tl r) = Some (hi, r2)" "class_ranges True r2 = Some (rs2, t)"
        using "1.prems" no e by (auto simp: class_ranges.simps [of some s] split: option.splits)
      have "length t \<le> length r2" using "1.IH"(1) [OF no e refl True r2(1) refl r2(2)] .
      then show ?thesis using get_esc_shorter [OF r2(1)] l by simp
    next
      case False
      then obtain rs2 where r2: "class_ranges True r = Some (rs2, t)"
        using "1.prems" no e by (auto simp: class_ranges.simps [of some s] split: option.splits if_splits)
      have "length t \<le> length r" using "1.IH"(2) [OF no e refl False r2] .
      then show ?thesis using l by simp
    qed
  qed
qed

text \<open>A pattern as tokens; \<^term>\<open>None\<close> when it is malformed.\<close>

function tokens :: "string \<Rightarrow> token list option" where
  "tokens [] = Some []"
| "tokens (c # s) =
     (if c = CHR ''*'' then map_option ((#) Star) (tokens s)
      else if c = CHR ''?'' then map_option ((#) AnyChar) (tokens s)
      else if c = CHR 0x5C then
        (case s of [] \<Rightarrow> None | d # r \<Rightarrow> map_option ((#) (Lit d)) (tokens r))
      else if c = CHR ''['' then
        (let neg = (s \<noteq> [] \<and> hd s = CHR ''^'') in
         case class_ranges False (if neg then tl s else s) of
           None \<Rightarrow> None
         | Some (rs, r) \<Rightarrow> map_option ((#) (Class neg rs)) (tokens r))
      else map_option ((#) (Lit c)) (tokens s))"
  by pat_completeness auto
termination
proof (relation "measure length")
  fix c s neg x rs r
  assume "class_ranges False (if neg then tl s else s) = Some x" "(rs, r) = x"
  then have "length r \<le> length s" using class_ranges_shorter [of False "if neg then tl s else s" rs r] by (auto split: if_splits)
  then show "(r, c # s) \<in> measure length" by simp
qed auto

text \<open>\<open>scanChunk\<close>: the pattern cut before each run of stars.\<close>

function chunks :: "token list \<Rightarrow> (bool \<times> token list) list" where
  "chunks ts =
     (if ts = [] then []
      else let body = dropWhile (\<lambda>t. t = Star) ts in
        (hd ts = Star, takeWhile (\<lambda>t. t \<noteq> Star) body) # chunks (dropWhile (\<lambda>t. t \<noteq> Star) body))"
  by pat_completeness auto
termination
proof (relation "measure length")
  fix ts body :: "token list"
  assume a: "ts \<noteq> []" "body = dropWhile (\<lambda>t. t = Star) ts"
  then obtain t rest where ts: "ts = t # rest" by (cases ts) auto
  show "(dropWhile (\<lambda>t. t \<noteq> Star) body, ts) \<in> measure length"
  proof (cases "t = Star")
    case True
    have "length (dropWhile (\<lambda>t. t \<noteq> Star) body) \<le> length body" by (rule length_dropWhile_le)
    also have "length body \<le> length rest" using a(2) ts True by (simp add: length_dropWhile_le)
    finally show ?thesis using ts by simp
  next
    case False
    then have "dropWhile (\<lambda>t. t \<noteq> Star) body = dropWhile (\<lambda>t. t \<noteq> Star) rest" using a(2) ts by simp
    then show ?thesis using ts by (simp add: le_imp_less_Suc length_dropWhile_le)
  qed
qed auto

declare chunks.simps [simp del]

definition matches_one :: "token \<Rightarrow> char \<Rightarrow> bool" where
  "matches_one t c =
     (case t of
        Lit d \<Rightarrow> c = d
      | AnyChar \<Rightarrow> c \<noteq> CHR ''/''
      | Class neg rs \<Rightarrow> list_ex (\<lambda>(lo, hi). (of_char lo :: nat) \<le> of_char c \<and> (of_char c :: nat) \<le> of_char hi) rs \<noteq> neg
      | Star \<Rightarrow> False)"

fun match_chunk :: "token list \<Rightarrow> string \<Rightarrow> string option" where
  "match_chunk [] s = Some s"
| "match_chunk (t # ts) [] = None"
| "match_chunk (t # ts) (c # s) = (if matches_one t c then match_chunk ts s else None)"

text \<open>The first place behind a star where a chunk fits, which is the only one that is tried.\<close>

fun star_match :: "token list \<Rightarrow> bool \<Rightarrow> string \<Rightarrow> string option" where
  "star_match chunk is_last [] = None"
| "star_match chunk is_last (c # s) =
     (if c = CHR ''/'' then None
      else case match_chunk chunk s of
        Some t \<Rightarrow> if is_last \<and> t \<noteq> [] then star_match chunk is_last s else Some t
      | None \<Rightarrow> star_match chunk is_last s)"

fun match_chunks :: "(bool \<times> token list) list \<Rightarrow> string \<Rightarrow> bool" where
  "match_chunks [] name = (name = [])"
| "match_chunks ((star, chunk) # rest) name =
     (if star \<and> chunk = [] then CHR ''/'' \<notin> set name
      else
        (case match_chunk chunk name of
           Some t \<Rightarrow>
             if t = [] \<or> rest \<noteq> [] then match_chunks rest t
             else star \<and> (case star_match chunk (rest = []) name of Some t2 \<Rightarrow> match_chunks rest t2 | None \<Rightarrow> False)
         | None \<Rightarrow>
             star \<and> (case star_match chunk (rest = []) name of Some t2 \<Rightarrow> match_chunks rest t2 | None \<Rightarrow> False)))"

definition path_match :: "string \<Rightarrow> string \<Rightarrow> bool" where
  "path_match pattern name = (case tokens pattern of None \<Rightarrow> False | Some ts \<Rightarrow> match_chunks (chunks ts) name)"

definition match_filter :: "string \<Rightarrow> string \<Rightarrow> string \<Rightarrow> string \<Rightarrow> bool" where
  "match_filter grp name version pattern =
     (pattern = [] \<or> path_match pattern (grp @ ''/'' @ name) \<or> path_match pattern (grp @ ''/'' @ name @ '':'' @ version))"

subsection \<open>The scan\<close>

definition plugin_entrypoint_name :: string where "plugin_entrypoint_name = ''plugin''"
definition archive_name :: string where "archive_name = ''plugin.tgz''"

text \<open>The files of a tree in the order of the walk; the components are those below its root.\<close>

fun walk_files :: "string list \<Rightarrow> (string \<times> tree) list \<Rightarrow> string list list" where
  "walk_files path [] = []"
| "walk_files path ((n, t) # rest) =
     (case t of TDir perm kids \<Rightarrow> walk_files (path @ [n]) kids | _ \<Rightarrow> [path @ [n]]) @ walk_files path rest"

definition parse_plugin_path :: "string list \<Rightarrow> string \<Rightarrow> plugin_key option" where
  "parse_plugin_path rel leaf_name =
     (if has_prefix (join_slash rel) dotdot then None
      else if length rel \<noteq> 4 \<or> rel ! 3 \<noteq> leaf_name then None
      else Some \<lparr>pk_group = rel ! 0, pk_name = rel ! 1, pk_version = rel ! 2\<rparr>)"

datatype scan_root =
    MissingRoot
  | UnreadableRoot go_error
  | NoDirectory
  | BrokenWalk go_error
  | LinkedRoot      \<comment> \<open>a symbolic link to a directory: \<open>Stat\<close> follows it, \<open>WalkDir\<close> does not\<close>
  | RootDir "(string \<times> tree) list"

definition scanned :: "string \<Rightarrow> string \<Rightarrow> (string \<times> tree) list \<Rightarrow> plugin_key list" where
  "scanned pattern leaf_name kids =
     filter (\<lambda>k. match_filter (pk_group k) (pk_name k) (pk_version k) pattern)
       (List.map_filter (\<lambda>rel. if last rel = leaf_name then parse_plugin_path rel leaf_name else None) (walk_files [] kids))"

definition scan_plugin_tree :: "scan_root \<Rightarrow> string \<Rightarrow> string \<Rightarrow> string \<Rightarrow> plugin_key list result" where
  "scan_plugin_tree tree_root scan_path pattern leaf_name =
     (case tree_root of
        MissingRoot \<Rightarrow> Inl (plain_error (''directory does not exist: '' @ scan_path))
      | UnreadableRoot e \<Rightarrow> Inl (wrap (''failed to access directory '' @ scan_path @ '': '') e)
      | NoDirectory \<Rightarrow> Inl (plain_error (''path is not a directory: '' @ scan_path))
      | BrokenWalk e \<Rightarrow> Inl (wrap ''scanning directory: '' e)
      | LinkedRoot \<Rightarrow> Inr []
      | RootDir kids \<Rightarrow> Inr (scanned pattern leaf_name kids))"

definition scan_plugins :: "scan_root \<Rightarrow> string \<Rightarrow> string \<Rightarrow> plugin_key list result" where
  "scan_plugins tree_root scan_path pattern = scan_plugin_tree tree_root scan_path pattern plugin_entrypoint_name"

text \<open>\<open>scanRegisterSource\<close> and \<open>scanPushSource\<close>.\<close>

definition scan_source :: "bool \<Rightarrow> scan_root \<Rightarrow> string \<Rightarrow> string \<Rightarrow> plugin_key list result" where
  "scan_source packed tree_root scan_path pattern =
     (if packed then scan_plugin_tree tree_root scan_path pattern archive_name
      else scan_plugins tree_root scan_path pattern)"

subsection \<open>What a scan finds\<close>

text \<open>Names in a directory differ, and none is empty or holds a separator.\<close>

fun well_named :: "(string \<times> tree) list \<Rightarrow> bool" where
  "well_named [] = True"
| "well_named ((n, t) # rest) =
     (proper n \<and> n \<notin> fst ` set rest \<and> (case t of TDir perm kids \<Rightarrow> well_named kids | _ \<Rightarrow> True) \<and> well_named rest)"

fun tree_at :: "(string \<times> tree) list \<Rightarrow> string list \<Rightarrow> tree option" where
  "tree_at kids [] = None"
| "tree_at kids (n # path) =
     (case map_of kids n of
        None \<Rightarrow> None
      | Some t \<Rightarrow> if path = [] then Some t else (case t of TDir perm ks \<Rightarrow> tree_at ks path | _ \<Rightarrow> None))"

definition is_tdir :: "tree \<Rightarrow> bool" where
  "is_tdir t = (case t of TDir perm kids \<Rightarrow> True | _ \<Rightarrow> False)"

definition holds_file :: "(string \<times> tree) list \<Rightarrow> string list \<Rightarrow> bool" where
  "holds_file kids path = (case tree_at kids path of None \<Rightarrow> False | Some t \<Rightarrow> \<not> is_tdir t)"

lemma holds_file_Cons:
  assumes "n \<notin> fst ` set rest"
  shows "holds_file ((n, t) # rest) path \<longleftrightarrow>
    (\<exists>q. path = n # q \<and> (case t of TDir perm ks \<Rightarrow> holds_file ks q | _ \<Rightarrow> q = [])) \<or> holds_file rest path"
proof (cases path)
  case (Cons m q)
  have "map_of rest n = None" using assms by (simp add: map_of_eq_None_iff)
  then show ?thesis using Cons by (cases q; cases t) (auto simp: holds_file_def is_tdir_def split: option.splits)
qed (simp add: holds_file_def split: tree.splits)

lemma walk_files_set:
  "well_named kids \<Longrightarrow> set (walk_files path kids) = (\<lambda>q. path @ q) ` {q. holds_file kids q}"
proof (induction path kids rule: walk_files.induct)
  case (1 path)
  have "\<not> holds_file [] q" for q by (cases q) (auto simp: holds_file_def)
  then show ?case by simp
next
  case (2 path n t rest)
  have n: "n \<notin> fst ` set rest" using 2(3) by simp
  have "set (case t of TDir perm kids \<Rightarrow> walk_files (path @ [n]) kids | _ \<Rightarrow> [path @ [n]]) =
      (\<lambda>q. path @ n # q) ` {q. case t of TDir perm ks \<Rightarrow> holds_file ks q | _ \<Rightarrow> q = []}"
    using 2(1,3) by (cases t) auto
  moreover have "set (walk_files path rest) = (\<lambda>q. path @ q) ` {q. holds_file rest q}" using 2(2,3) by simp
  ultimately show ?case using holds_file_Cons [OF n] by (auto simp: image_def)
qed

lemma holds_file_head: "holds_file kids (n # q) \<Longrightarrow> n \<in> fst ` set kids"
  by (auto simp: holds_file_def split: option.splits dest!: map_of_SomeD intro: rev_image_eqI)

lemma walk_files_distinct: "well_named kids \<Longrightarrow> distinct (walk_files path kids)"
proof (induction path kids rule: walk_files.induct)
  case (2 path n t rest)
  have d: "distinct (case t of TDir perm kids \<Rightarrow> walk_files (path @ [n]) kids | _ \<Rightarrow> [path @ [n]])"
    using 2(1,3) by (cases t) auto
  have r: "distinct (walk_files path rest)" using 2(2,3) by simp
  have n: "n \<notin> fst ` set rest" using 2(3) by simp
  have "xs \<notin> set (walk_files path rest)"
    if x: "xs \<in> set (case t of TDir perm kids \<Rightarrow> walk_files (path @ [n]) kids | _ \<Rightarrow> [path @ [n]])" for xs
  proof
    obtain q where q: "xs = path @ n # q" using x 2(3) walk_files_set [of _ "path @ [n]"] by (cases t) auto
    assume "xs \<in> set (walk_files path rest)"
    then have "holds_file rest (n # q)" using q 2(3) walk_files_set [of rest path] by auto
    then show False using n holds_file_head by blast
  qed
  then show ?case using d r by auto
qed simp

text \<open>
  C23. A scan lists exactly the plugin versions the tree holds: the group, name and version of every
  file of the wanted name four levels down that passes the filter, unless the group's name begins with
  two dots, and each of them once.
\<close>

theorem scan_exact:
  assumes "well_named kids"
  shows "scan_plugin_tree (RootDir kids) scan_path pattern leaf = Inr (scanned pattern leaf kids)
    \<and> distinct (scanned pattern leaf kids)
    \<and> (k \<in> set (scanned pattern leaf kids) \<longleftrightarrow>
         holds_file kids [pk_group k, pk_name k, pk_version k, leaf]
         \<and> match_filter (pk_group k) (pk_name k) (pk_version k) pattern \<and> \<not> has_prefix (pk_group k) dotdot)"
proof -
  have pre: "has_prefix (join_slash (g # q)) dotdot \<longleftrightarrow> has_prefix g dotdot" if "CHR ''/'' \<notin> set g" for g q
  proof (cases "q = []")
    case False
    then have "join_slash (g # q) = g @ ''/'' @ join_slash q" by (simp add: join_slash_Cons)
    then show ?thesis using that by (cases g; cases "tl g") (auto simp: has_prefix_def dotdot_def)
  qed simp
  let ?f = "\<lambda>rel. if last rel = leaf then parse_plugin_path rel leaf else None"
  have f: "?f rel = Some k' \<longleftrightarrow> (\<exists>g n v. rel = [g, n, v, leaf] \<and> k' = \<lparr>pk_group = g, pk_name = n, pk_version = v\<rparr>
      \<and> \<not> has_prefix (join_slash rel) dotdot)" for rel k'
  proof -
    have "length rel = 4 \<longleftrightarrow> (\<exists>a b c d. rel = [a, b, c, d])" by (auto simp: eval_nat_numeral length_Suc_conv)
    then show ?thesis by (auto simp: parse_plugin_path_def eval_nat_numeral)
  qed
  have w: "rel \<in> set (walk_files [] kids) \<longleftrightarrow> holds_file kids rel" for rel using walk_files_set [OF assms, of "[]"] by simp
  have sl: "holds_file kids (g # q) \<Longrightarrow> CHR ''/'' \<notin> set g" for g q
  proof -
    assume "holds_file kids (g # q)"
    moreover have "well_named ks \<Longrightarrow> n \<in> fst ` set ks \<Longrightarrow> proper n" for ks n
      by (induction ks) force+
    ultimately show "CHR ''/'' \<notin> set g" using assms holds_file_head by (metis properD(4))
  qed
  have mem: "k \<in> set (scanned pattern leaf kids) \<longleftrightarrow>
         holds_file kids [pk_group k, pk_name k, pk_version k, leaf]
         \<and> match_filter (pk_group k) (pk_name k) (pk_version k) pattern \<and> \<not> has_prefix (pk_group k) dotdot"
  proof -
    have "k \<in> set (List.map_filter ?f (walk_files [] kids)) \<longleftrightarrow> (\<exists>rel. holds_file kids rel \<and> ?f rel = Some k)"
      using w by (force simp: List.map_filter_def)
    also have "\<dots> \<longleftrightarrow> holds_file kids [pk_group k, pk_name k, pk_version k, leaf] \<and> \<not> has_prefix (pk_group k) dotdot"
      unfolding f using pre sl by (cases k) auto
    finally show ?thesis by (auto simp: scanned_def)
  qed
  have "distinct (List.map_filter ?f xs)" if "distinct xs" for xs
    using that
  proof (induction xs)
    case (Cons x xs)
    show ?case
    proof (cases "?f x")
      case None
      then show ?thesis using Cons by (simp add: List.map_filter_simps)
    next
      case (Some y)
      have "y \<notin> set (List.map_filter ?f xs)"
      proof
        assume "y \<in> set (List.map_filter ?f xs)"
        then obtain z where "z \<in> set xs" "?f z = Some y" by (auto simp: List.map_filter_def)
        then have "z = x" using Some f [of z y] f [of x y] by auto
        then show False using Cons \<open>z \<in> set xs\<close> by simp
      qed
      then show ?thesis using Cons Some by (simp add: List.map_filter_simps)
    qed
  qed simp
  then have "distinct (scanned pattern leaf kids)" using walk_files_distinct [OF assms] by (simp add: scanned_def)
  then show ?thesis using mem by (simp add: scan_plugin_tree_def)
qed

definition sample_plugins :: "(string \<times> tree) list" where
  "sample_plugins =
     [(''grpc'', TDir 0x1ED [(''go'', TDir 0x1ED
        [(''v1.2.0'', TDir 0x1ED [(''build.log'', TFile (Inr []) 0x1A4), (''plugin'', TFile (Inr ''bin'') 0x1ED)]),
         (''v1.3.0'', TDir 0x1ED [(''build.log'', TFile (Inr []) 0x1A4)])])]),
      (''plugin'', TFile (Inr []) 0x1A4)]"

lemma sample_filter:
  "match_filter ''grpc'' ''go'' ''v1.2.0'' ''grpc/*'' \<and> match_filter ''grpc'' ''go'' ''v1.2.0'' ''*/go:v1.[0-2].?''
   \<and> \<not> match_filter ''grpc'' ''go'' ''v1.2.0'' ''*'' \<and> \<not> match_filter ''grpc'' ''go'' ''v1.2.0'' ''grpc/['' "
  by code_simp

theorem scan_exact_witness:
  "\<lparr>pk_group = ''grpc'', pk_name = ''go'', pk_version = ''v1.2.0''\<rparr> \<in> set (scanned ''grpc/*'' ''plugin'' sample_plugins)
   \<and> \<lparr>pk_group = ''grpc'', pk_name = ''go'', pk_version = ''v1.3.0''\<rparr> \<notin> set (scanned [] ''plugin'' sample_plugins)"
proof -
  have w: "well_named sample_plugins" by (simp add: sample_plugins_def proper_def dotdot_def)
  show ?thesis
    using scan_exact [OF w, of _ "''grpc/*''" "''plugin''" "\<lparr>pk_group = ''grpc'', pk_name = ''go'', pk_version = ''v1.2.0''\<rparr>"]
      scan_exact [OF w, of _ "[]" "''plugin''" "\<lparr>pk_group = ''grpc'', pk_name = ''go'', pk_version = ''v1.3.0''\<rparr>"] sample_filter
    by (simp add: holds_file_def sample_plugins_def is_tdir_def has_prefix_def dotdot_def)
qed

end
