(* ===== verification/Batch.thy ===== *)
theory Batch
  imports Domain "HOL-Library.Multiset"
begin

text \<open>
  Batches of plugins worked on in parallel (\<open>registerAll\<close>, \<open>pushAll\<close>, \<open>executeBuilds\<close> and
  \<^verbatim>\<open>progress.go\<close> under \<^verbatim>\<open>cmd/easyp-svc\<close>): an \<open>errgroup\<close> with a limit, as a step relation over which
  items are launched, at work, recorded or dropped. The lemmas show that no item is lost or counted
  twice, that never more than the limit are at work, that a batch ends unless its limit is zero, and
  what its result says about the items.
\<close>

subsection \<open>Items\<close>

datatype item_result = Succeeded | Skipped | Failed go_error

text \<open>
  What a command does with one item: whether the goroutine looks at the context before it begins, and
  the error it returns to the group for a result, knowing whether the group's context is done.
\<close>

record policy =
  po_checks :: bool
  po_error :: "bool \<Rightarrow> item_result \<Rightarrow> go_error option"

definition is_context_abort :: "bool \<Rightarrow> go_error \<Rightarrow> bool" where
  "is_context_abort ctx_done e = (ctx_done \<or> errors_is e Canceled \<or> errors_is e DeadlineExceeded)"

definition context_abort_err :: "bool \<Rightarrow> go_error \<Rightarrow> go_error" where
  "context_abort_err ctx_done e = (if ctx_done then wrap ''ctx.Err: '' ctx_canceled else e)"

definition register_policy :: policy where
  "register_policy =
     \<lparr>po_checks = True,
      po_error = (\<lambda>ctx_done r. case r of
        Failed e \<Rightarrow> if is_context_abort ctx_done e then Some (context_abort_err ctx_done e) else None
      | _ \<Rightarrow> None)\<rparr>"

definition push_policy :: policy where
  "push_policy =
     \<lparr>po_checks = True,
      po_error = (\<lambda>ctx_done r. case r of Failed e \<Rightarrow> if errors_is e Canceled then Some e else None | _ \<Rightarrow> None)\<rparr>"

definition keep_or_fail :: "bool \<Rightarrow> go_error \<Rightarrow> go_error option" where
  "keep_or_fail keep_going e = (if keep_going then None else Some e)"

definition build_policy :: "bool \<Rightarrow> policy" where
  "build_policy keep_going =
     \<lparr>po_checks = False, po_error = (\<lambda>ctx_done r. case r of Failed e \<Rightarrow> keep_or_fail keep_going e | _ \<Rightarrow> None)\<rparr>"

subsection \<open>The batch\<close>

text \<open>An item at work is its number and whether it is past the look at the context.\<close>

record batch =
  ba_next :: nat
  ba_active :: "(nat \<times> bool) list"
  ba_done :: "(nat \<times> item_result) list"    \<comment> \<open>what the tracker was told\<close>
  ba_dropped :: "nat list"
  ba_error :: "go_error option"
  ba_cancelled :: bool                       \<comment> \<open>the context of the command is done\<close>

definition new_batch :: batch where
  "new_batch = \<lparr>ba_next = 0, ba_active = [], ba_done = [], ba_dropped = [], ba_error = None, ba_cancelled = False\<rparr>"

definition ctx_done :: "batch \<Rightarrow> bool" where
  "ctx_done b = (ba_cancelled b \<or> ba_error b \<noteq> None)"

definition first_of :: "go_error option \<Rightarrow> go_error option \<Rightarrow> go_error option" where
  "first_of old new = (if old = None then new else old)"

definition has_slot :: "int \<Rightarrow> batch \<Rightarrow> bool" where
  "has_slot limit b = (limit < 0 \<or> int (length (ba_active b)) < limit)"

text \<open>\<open>tracker.finish\<close> and the return of the goroutine.\<close>

definition record_result :: "policy \<Rightarrow> nat \<Rightarrow> item_result \<Rightarrow> (nat \<times> bool) list \<Rightarrow> batch \<Rightarrow> batch" where
  "record_result p i r others b =
     b\<lparr>ba_active := others, ba_done := ba_done b @ [(i, r)],
       ba_error := first_of (ba_error b) (po_error p (ctx_done b) r)\<rparr>"

definition drop_item :: "nat \<Rightarrow> (nat \<times> bool) list \<Rightarrow> batch \<Rightarrow> batch" where
  "drop_item i others b =
     b\<lparr>ba_active := others, ba_dropped := ba_dropped b @ [i],
       ba_error := first_of (ba_error b) (Some (wrap ''groupCtx.Err: '' ctx_canceled))\<rparr>"

inductive batch_step :: "policy \<Rightarrow> int \<Rightarrow> nat \<Rightarrow> batch \<Rightarrow> batch \<Rightarrow> bool" for p limit items where
  cancel: "\<not> ba_cancelled b \<Longrightarrow> batch_step p limit items b (b\<lparr>ba_cancelled := True\<rparr>)"
| launch: "ba_next b < items \<Longrightarrow> has_slot limit b \<Longrightarrow>
    batch_step p limit items b (b\<lparr>ba_next := Suc (ba_next b), ba_active := ba_active b @ [(ba_next b, \<not> po_checks p)]\<rparr>)"
| begin_work: "ba_active b = xs @ (i, False) # ys \<Longrightarrow> \<not> ctx_done b \<Longrightarrow>
    batch_step p limit items b (b\<lparr>ba_active := xs @ (i, True) # ys\<rparr>)"
| dropped: "ba_active b = xs @ (i, False) # ys \<Longrightarrow> ctx_done b \<Longrightarrow>
    batch_step p limit items b (drop_item i (xs @ ys) b)"
| finished: "ba_active b = xs @ (i, True) # ys \<Longrightarrow> batch_step p limit items b (record_result p i r (xs @ ys) b)"

inductive_cases batch_stepE: "batch_step p limit items b b'"

definition batch_over :: "nat \<Rightarrow> batch \<Rightarrow> bool" where
  "batch_over items b = (ba_next b = items \<and> ba_active b = [])"

subsection \<open>Counters and results\<close>

definition is_failed :: "item_result \<Rightarrow> bool" where
  "is_failed r = (case r of Failed e \<Rightarrow> True | _ \<Rightarrow> False)"

definition succeeded :: "batch \<Rightarrow> nat" where "succeeded b = length (filter (\<lambda>(i, r). r = Succeeded) (ba_done b))"
definition skipped :: "batch \<Rightarrow> nat" where "skipped b = length (filter (\<lambda>(i, r). r = Skipped) (ba_done b))"
definition failed :: "batch \<Rightarrow> nat" where "failed b = length (filter (\<lambda>(i, r). is_failed r) (ba_done b))"

definition parallel_limit :: "int \<Rightarrow> int" where "parallel_limit parallel = max parallel 1"

definition register_result :: "bool \<Rightarrow> batch \<Rightarrow> go_error option" where
  "register_result fail_on_error b =
     (case ba_error b of
        Some e \<Rightarrow> Some (wrap ''plugins register interrupted: '' e)
      | None \<Rightarrow>
          if fail_on_error \<and> failed b > 0
          then Some (plain_error (''plugin registration failed: '' @ nat_digits (failed b) @ '' plugin(s) failed registration''))
          else None)"

definition push_result :: "batch \<Rightarrow> go_error option" where
  "push_result b =
     (if ba_cancelled b then Some (wrap ''ctx.Err: '' ctx_canceled)
      else case ba_error b of
        Some e \<Rightarrow> Some (wrap ''group.Wait: '' e)
      | None \<Rightarrow>
          if failed b > 0 then Some (plain_error (''plugin push failed: '' @ nat_digits (failed b) @ '' plugin(s) failed to push''))
          else None)"

definition build_result :: "batch \<Rightarrow> go_error option" where
  "build_result b =
     (if failed b > 0 then Some (plain_error (''one or more plugins failed to build: '' @ nat_digits (failed b) @ '' failed''))
      else None)"

subsection \<open>No item is lost\<close>

definition accounted :: "int \<Rightarrow> nat \<Rightarrow> batch \<Rightarrow> bool" where
  "accounted limit items b \<longleftrightarrow>
     mset [0..<ba_next b] = image_mset fst (mset (ba_active b)) + image_mset fst (mset (ba_done b)) + mset (ba_dropped b)
     \<and> ba_next b \<le> items \<and> (0 \<le> limit \<longrightarrow> int (length (ba_active b)) \<le> limit)
     \<and> (ba_dropped b \<noteq> [] \<longrightarrow> ba_error b \<noteq> None)"

lemma accounted_new [simp]: "accounted limit items new_batch"
  by (simp add: accounted_def new_batch_def)

lemma accounted_step: "batch_step p limit items b b' \<Longrightarrow> accounted limit items b \<Longrightarrow> accounted limit items b'"
  by (erule batch_stepE) (auto simp: accounted_def has_slot_def drop_item_def record_result_def first_of_def)

lemma steps_accounted: "(batch_step p limit items ^^ n) new_batch b \<Longrightarrow> accounted limit items b"
  by (induction n arbitrary: b) (auto dest: accounted_step)

text \<open>How many more steps a batch can take.\<close>

definition budget :: "nat \<Rightarrow> batch \<Rightarrow> nat" where
  "budget items b = (if ba_cancelled b then 0 else 1) + 3 * (items - ba_next b)
     + sum_list (map (\<lambda>(i, begun). if begun then 1 else 2) (ba_active b))"

lemma batch_step_budget: "batch_step p limit items b b' \<Longrightarrow> budget items b' < budget items b"
  by (erule batch_stepE) (auto simp: budget_def drop_item_def record_result_def)

lemma batch_steps_budget: "(batch_step p limit items ^^ n) b b' \<Longrightarrow> n + budget items b' \<le> budget items b"
proof (induction n arbitrary: b')
  case (Suc n)
  then obtain c where "(batch_step p limit items ^^ n) b c" "batch_step p limit items c b'" by auto
  then show ?case using Suc.IH batch_step_budget by fastforce
qed simp

lemma can_go_on:
  assumes "limit \<noteq> 0" "accounted limit items b" "\<not> batch_over items b"
  shows "\<exists>b'. batch_step p limit items b b' \<and> ba_cancelled b' = ba_cancelled b"
proof (cases "ba_active b")
  case Nil
  then have "ba_next b < items" using assms(2,3) by (auto simp: batch_over_def accounted_def)
  moreover have "has_slot limit b" using assms(1) Nil by (auto simp: has_slot_def)
  ultimately show ?thesis using launch [of b items limit p] by (auto intro: exI)
next
  case (Cons x ys)
  then obtain i begun where x: "ba_active b = [] @ (i, begun) # ys" by (cases x) auto
  show ?thesis
  proof (cases begun)
    case True
    then show ?thesis using finished [of b "[]" i ys p limit items Succeeded] x by (auto simp: record_result_def intro!: exI)
  next
    case F: False
    show ?thesis
    proof (cases "ctx_done b")
      case True
      then show ?thesis using dropped [of b "[]" i ys p limit items] x F by (auto simp: drop_item_def intro!: exI)
    next
      case False
      then show ?thesis using begin_work [of b "[]" i ys p limit items] x F by (auto intro!: exI)
    qed
  qed
qed

text \<open>
  A batch ends: after at most three steps per item, and the cancellation, nothing is left to do; as
  long as something is left, it can go on without being cancelled, unless its limit is zero, in which
  case no item is ever started. Never more items than the limit are at work.
\<close>

theorem batch_ends:
  assumes "(batch_step p limit items ^^ n) new_batch b"
  shows "n \<le> 3 * items + 1
    \<and> (limit \<noteq> 0 \<and> \<not> batch_over items b \<longrightarrow> (\<exists>b'. batch_step p limit items b b' \<and> ba_cancelled b' = ba_cancelled b))
    \<and> (limit = 0 \<longrightarrow> ba_next b = 0)
    \<and> (0 \<le> limit \<longrightarrow> int (length (ba_active b)) \<le> limit)"
proof -
  have a: "accounted limit items b" using steps_accounted [OF assms] .
  have "budget items new_batch = 3 * items + 1" by (simp add: budget_def new_batch_def)
  then have "n \<le> 3 * items + 1" using batch_steps_budget [OF assms] by simp
  moreover have "ba_next b = 0" if "limit = 0"
    using assms that
  proof (induction n arbitrary: b)
    case (Suc n)
    then obtain c where c: "(batch_step p limit items ^^ n) new_batch c" "batch_step p limit items c b" by auto
    then have "ba_next c = 0" "\<not> has_slot limit c" using Suc by (simp_all add: has_slot_def)
    then show ?case using c(2) by (auto elim!: batch_stepE simp: drop_item_def record_result_def)
  qed (simp add: new_batch_def)
  ultimately show ?thesis using can_go_on [of limit items b p] a by (simp add: accounted_def)
qed

definition run_of_one :: batch where
  "run_of_one = record_result push_policy 0 Succeeded []
     (new_batch\<lparr>ba_next := 1, ba_active := [(0, True)]\<rparr>)"

lemma run_of_one_reached: "(batch_step push_policy 1 1 ^^ 3) new_batch run_of_one"
proof -
  let ?b1 = "new_batch\<lparr>ba_next := 1, ba_active := [(0, False)]\<rparr>"
  let ?b2 = "new_batch\<lparr>ba_next := 1, ba_active := [(0, True)]\<rparr>"
  have 1: "batch_step push_policy 1 1 new_batch ?b1"
    using launch [of new_batch 1 1 push_policy] by (simp add: new_batch_def has_slot_def push_policy_def)
  have 2: "batch_step push_policy 1 1 ?b1 ?b2"
    using begin_work [of ?b1 "[]" 0 "[]" push_policy 1 1] by (simp add: new_batch_def ctx_done_def)
  have 3: "batch_step push_policy 1 1 ?b2 run_of_one"
    using finished [of ?b2 "[]" 0 "[]" push_policy 1 1 Succeeded] by (simp add: run_of_one_def)
  have "(batch_step push_policy 1 1 ^^ Suc 0) new_batch ?b1" unfolding relpowp.simps relcompp.simps using 1 by blast
  from relpowp_Suc_I [OF relpowp_Suc_I [OF this 2] 3] show ?thesis by (simp add: numeral_3_eq_3)
qed

theorem batch_ends_witness: "int (length (ba_active run_of_one)) \<le> 1"
  using batch_ends [OF run_of_one_reached] by simp

text \<open>The tracker's numbers.\<close>

lemma recorded_once:
  assumes "accounted limit items b" "batch_over items b" "ba_error b = None"
  shows "mset (map fst (ba_done b)) = mset [0..<items]"
  using assms by (simp add: accounted_def batch_over_def)

lemma counters_add_up: "succeeded b + skipped b + failed b = length (ba_done b)"
proof -
  have "length (filter (\<lambda>(i, r). r = Succeeded) ds) + length (filter (\<lambda>(i, r). r = Skipped) ds)
      + length (filter (\<lambda>(i, r). is_failed r) ds) = length ds" for ds :: "(nat \<times> item_result) list"
    by (induction ds) (auto simp: is_failed_def split: item_result.splits)
  then show ?thesis by (simp add: succeeded_def skipped_def failed_def)
qed

lemma none_failed: "failed b = 0 \<longleftrightarrow> (\<forall>i e. (i, Failed e) \<notin> set (ba_done b))"
  by (auto simp: failed_def is_failed_def filter_empty_conv split: item_result.splits)

lemma build_never_drops: "(batch_step (build_policy k) limit items ^^ n) new_batch b \<Longrightarrow> ba_dropped b = [] \<and> (\<forall>(i, begun) \<in> set (ba_active b). begun)"
proof (induction n arbitrary: b)
  case (Suc n)
  then obtain c where c: "(batch_step (build_policy k) limit items ^^ n) new_batch c" "batch_step (build_policy k) limit items c b" by auto
  then have "ba_dropped c = []" "\<forall>(i, begun) \<in> set (ba_active c). begun" using Suc.IH by auto
  then show ?case using c(2)
    by (auto elim!: batch_stepE simp: drop_item_def record_result_def build_policy_def)
qed (simp add: new_batch_def)



text \<open>
  \<open>plugins build\<close> passes its flag to the group as it is: with \<^verbatim>\<open>--parallel 0\<close> nothing is ever built and
  the command never returns. The others use at least one worker.
\<close>

lemma parallel_zero_hangs:
  assumes "(batch_step (build_policy keep) 0 items ^^ n) new_batch b" "0 < items"
  shows "\<not> batch_over items b"
  using batch_ends [OF assms(1)] assms(2) by (simp add: batch_over_def)

lemma parallel_limit_positive: "0 < parallel_limit parallel"
  by (simp add: parallel_limit_def)

end
