(* ===== verification/Settings.thy ===== *)
theory Settings
  imports Domain
begin

text \<open>
  The settings of the service as \<^verbatim>\<open>internal/config/fields.go\<close> finds them: the struct types of
  \<^verbatim>\<open>internal/config/config.go\<close> are declared below as field lists with their struct tags, and
  \<open>walk_fields\<close>, \<open>walk_sections\<close> and \<open>parse_env_tag\<close> read them as the reflection code does. The
  schema of a configuration document (\<^verbatim>\<open>internal/config/diagnostics.go\<close>) is computed from the
  result. The lemmas evaluate the walk once and show that no two settings share a name, a variable
  or a field, so that the three names of a setting are inverse to each other.
\<close>

subsection \<open>Struct types with tags\<close>

text \<open>A field: its name, its \<open>env\<close> and \<open>yaml\<close> tags, whether it is tagged as a secret, its type.\<close>

datatype field_type =
    TString | TInt | TInt64 | TUint32 | TFloat | TBool | TDuration | TStrings | TStringMap | TTokens
  | Struct "field list"
and field = Field string string string bool field_type

definition mcp_fields :: "field list" where
  "mcp_fields = [Field ''Enabled'' ''ENABLED,default=false'' ''enabled'' False TBool]"

definition port_fields :: "field list" where
  "port_fields =
     [Field ''GRPC'' ''GRPC, default=23410'' ''grpc'' False TString,
      Field ''Metric'' ''METRIC, default=23411'' ''metric'' False TString,
      Field ''Health'' ''HEALTH, default=23412'' ''health'' False TString,
      Field ''MCP'' ''MCP, default=23413'' ''mcp'' False TString]"

definition tls_fields :: "field list" where
  "tls_fields =
     [Field ''CertFile'' ''CERT_FILE'' ''cert_file'' False TString,
      Field ''KeyFile'' ''KEY_FILE'' ''key_file'' False TString,
      Field ''ClientCAFile'' ''CLIENT_CA_FILE'' ''client_ca_file'' False TString]"

definition server_fields :: "field list" where
  "server_fields =
     [Field ''Host'' ''HOST, default=0.0.0.0'' ''host'' False TString,
      Field ''Port'' '', prefix=PORT_'' ''port'' False (Struct port_fields),
      Field ''TLS'' '', prefix=TLS_'' ''tls'' False (Struct tls_fields),
      Field ''ForceShutdownAfter'' ''FORCE_SHUTDOWN_AFTER,default=150s'' ''force_shutdown_after'' False TDuration,
      Field ''TrustedProxies'' ''TRUSTED_PROXIES'' ''trusted_proxies'' False TStrings,
      Field ''MaxRecvMsgSize'' ''MAX_RECV_MSG_SIZE,default=67108864'' ''max_recv_msg_size'' False TInt,
      Field ''MaxSendMsgSize'' ''MAX_SEND_MSG_SIZE,default=67108864'' ''max_send_msg_size'' False TInt,
      Field ''MaxConcurrentStreams'' ''MAX_CONCURRENT_STREAMS,default=256'' ''max_concurrent_streams'' False TUint32]"

definition log_fields :: "field list" where
  "log_fields = [Field ''Level'' ''LEVEL,default=info'' ''level'' False TString]"

definition db_fields :: "field list" where
  "db_fields = [Field ''Postgres'' ''POSTGRES_DSN'' ''postgres'' True TString]"

definition s3_fields :: "field list" where
  "s3_fields =
     [Field ''Endpoint'' ''ENDPOINT'' ''endpoint'' False TString,
      Field ''Bucket'' ''BUCKET'' ''bucket'' False TString,
      Field ''Region'' ''REGION,default=us-east-1'' ''region'' False TString,
      Field ''Prefix'' ''PREFIX'' ''prefix'' False TString,
      Field ''AccessKeyID'' ''ACCESS_KEY_ID'' ''access_key_id'' False TString,
      Field ''SecretAccessKey'' ''SECRET_ACCESS_KEY'' ''secret_access_key'' True TString,
      Field ''ForcePathStyle'' ''FORCE_PATH_STYLE'' ''force_path_style'' False TBool]"

definition registry_fields :: "field list" where
  "registry_fields =
     [Field ''PluginsDir'' ''PLUGINS_DIR, default=/plugins'' ''plugins_dir'' False TString,
      Field ''MaxOutputSize'' ''MAX_OUTPUT_SIZE, default=67108864'' ''max_output_size'' False TInt64,
      Field ''CacheMaxBytes'' ''CACHE_MAX_BYTES, default=21474836480'' ''cache_max_bytes'' False TInt64,
      Field ''S3'' '', prefix=S3_'' ''s3'' False (Struct s3_fields)]"

definition telemetry_fields :: "field list" where
  "telemetry_fields =
     [Field ''OTLPEndpoint'' ''OTLP_ENDPOINT'' ''otlp_endpoint'' False TString,
      Field ''PyroscopeEndpoint'' ''PYROSCOPE_ENDPOINT'' ''pyroscope_endpoint'' False TString,
      Field ''ServiceTier'' ''SERVICE_TIER'' ''service_tier'' False TString]"

definition worker_pool_fields :: "field list" where
  "worker_pool_fields =
     [Field ''Workers'' ''WORKERS,default=4'' ''workers'' False TInt,
      Field ''QueueSize'' ''QUEUE_SIZE,default=16'' ''queue_size'' False TInt,
      Field ''MaxConcurrentGenerations'' ''MAX_CONCURRENT_GENERATIONS,default=16'' ''max_concurrent_generations'' False TInt,
      Field ''GenerationTimeout'' ''GENERATION_TIMEOUT,default=120s'' ''generation_timeout'' False TDuration,
      Field ''MaxRetries'' ''MAX_RETRIES,default=2'' ''max_retries'' False TInt,
      Field ''ShutdownTimeout'' ''SHUTDOWN_TIMEOUT,default=30s'' ''shutdown_timeout'' False TDuration]"

definition license_fields :: "field list" where
  "license_fields =
     [Field ''Key'' ''KEY'' ''key'' True TString,
      Field ''File'' ''FILE'' ''file'' False TString,
      Field ''PublicKeys'' ''PUBLIC_KEYS'' ''public_keys'' False TStringMap,
      Field ''CacheTTL'' ''CACHE_TTL,default=5m'' ''cache_ttl'' False TDuration]"

definition rate_limit_fields :: "field list" where
  "rate_limit_fields =
     [Field ''RequestsPerSecond'' ''REQUESTS_PER_SECOND,default=10.0'' ''requests_per_second'' False TFloat,
      Field ''Burst'' ''BURST,default=20'' ''burst'' False TInt,
      Field ''CleanupInterval'' ''CLEANUP_INTERVAL,default=10m'' ''cleanup_interval'' False TDuration,
      Field ''MaxConcurrentPerIP'' ''MAX_CONCURRENT_PER_IP,default=2'' ''max_concurrent_per_ip'' False TInt]"

definition audit_fields :: "field list" where
  "audit_fields =
     [Field ''BufferSize'' ''BUFFER_SIZE,default=1000'' ''buffer_size'' False TInt,
      Field ''BatchSize'' ''BATCH_SIZE,default=100'' ''batch_size'' False TInt,
      Field ''FlushInterval'' ''FLUSH_INTERVAL,default=1s'' ''flush_interval'' False TDuration,
      Field ''MaxSaveRetries'' ''MAX_SAVE_RETRIES,default=3'' ''max_save_retries'' False TInt,
      Field ''EnqueueTimeout'' ''ENQUEUE_TIMEOUT,default=1s'' ''enqueue_timeout'' False TDuration,
      Field ''FlushTimeout'' ''FLUSH_TIMEOUT,default=5s'' ''flush_timeout'' False TDuration,
      Field ''RetentionMonths'' ''RETENTION_MONTHS,default=12'' ''retention_months'' False TInt,
      Field ''PreCreateMonths'' ''PRE_CREATE_MONTHS,default=3'' ''pre_create_months'' False TInt,
      Field ''PartitionCheckInterval'' ''PARTITION_CHECK_INTERVAL,default=6h'' ''partition_check_interval'' False TDuration,
      Field ''PartitionOpTimeout'' ''PARTITION_OP_TIMEOUT,default=30s'' ''partition_op_timeout'' False TDuration]"

definition auth_fields :: "field list" where
  "auth_fields = [Field ''WriteTokens'' ''WRITE_TOKENS'' ''write_tokens'' False TTokens]"

definition config_fields :: "field list" where
  "config_fields =
     [Field ''Server'' '', prefix=SERVER_'' ''server'' False (Struct server_fields),
      Field ''DB'' '', prefix=DB_'' ''db'' False (Struct db_fields),
      Field ''Registry'' '', prefix=REGISTRY_'' ''registry'' False (Struct registry_fields),
      Field ''Telemetry'' '', prefix=TELEMETRY_'' ''telemetry'' False (Struct telemetry_fields),
      Field ''WorkerPool'' '', prefix=WORKER_POOL_'' ''worker_pool'' False (Struct worker_pool_fields),
      Field ''License'' '', prefix=LICENSE_'' ''license'' False (Struct license_fields),
      Field ''RateLimit'' '', prefix=RATE_LIMIT_'' ''rate_limit'' False (Struct rate_limit_fields),
      Field ''Audit'' '', prefix=AUDIT_'' ''audit'' False (Struct audit_fields),
      Field ''Auth'' '', prefix=AUTH_'' ''auth'' False (Struct auth_fields),
      Field ''MCP'' '', prefix=MCP_'' ''mcp'' False (Struct mcp_fields),
      Field ''Log'' '', prefix=LOG_'' ''log'' False (Struct log_fields)]"

lemmas config_types =
  mcp_fields_def port_fields_def tls_fields_def server_fields_def log_fields_def db_fields_def s3_fields_def
  registry_fields_def telemetry_fields_def worker_pool_fields_def license_fields_def rate_limit_fields_def
  audit_fields_def auth_fields_def config_fields_def

subsection \<open>Tags\<close>

record env_tag =
  et_key :: string
  et_prefix :: string
  et_default :: string
  et_has_default :: bool

definition trim_blanks :: "string \<Rightarrow> string" where
  "trim_blanks s = dropWhile (\<lambda>c. c = CHR '' '' \<or> c = CHR 0x09) s"

definition trim_prefix :: "string \<Rightarrow> string \<Rightarrow> string" where
  "trim_prefix s p = (if has_prefix s p then drop (length p) s else s)"

text \<open>The options behind the name; everything from \<open>default=\<close> on is the default.\<close>

fun env_options :: "string list \<Rightarrow> env_tag \<Rightarrow> env_tag result" where
  "env_options [] t = Inr t"
| "env_options (raw # rest) t =
     (let opt = trim_blanks raw in
      if has_prefix opt ''prefix='' then env_options rest (t\<lparr>et_prefix := trim_prefix opt ''prefix=''\<rparr>)
      else if has_prefix opt ''default='' then
        Inr (t\<lparr>et_default := trim_prefix (trim_blanks (join_with '','' (raw # rest))) ''default='',
               et_has_default := True\<rparr>)
      else if opt \<in> set [[], ''required'', ''noinit'', ''overwrite'', ''decodeunset'']
        \<or> has_prefix opt ''delimiter='' \<or> has_prefix opt ''separator='' then env_options rest t
      else Inl (plain_error (''unknown env tag option '' @ quoted opt)))"

definition parse_env_tag :: "string \<Rightarrow> env_tag result" where
  "parse_env_tag tag =
     (let parts = split_on CHR '','' tag in
      env_options (tl parts)
        \<lparr>et_key = trim_space (hd parts), et_prefix = [], et_default = [], et_has_default = False\<rparr>)"

text \<open>The name in the file, and whether the field is kept out of the file.\<close>

definition yaml_field_name :: "string \<Rightarrow> string \<times> bool" where
  "yaml_field_name tag =
     (if tag = ''-'' then ([], True)
      else (trim_space (case cut_at CHR '','' tag of None \<Rightarrow> tag | Some (a, _) \<Rightarrow> a), False))"

subsection \<open>The walk over the struct\<close>

record leaf =
  lf_path :: "string list"
  lf_env :: string
  lf_default :: string
  lf_has_default :: bool
  lf_secret :: bool
  lf_index :: "nat list"

definition lf_name :: "leaf \<Rightarrow> string" where
  "lf_name l = join_with ''.'' (lf_path l)"

definition err_untagged_field :: go_error where
  "err_untagged_field = plain_error ''config: field is missing a tag''"

definition exported :: "string \<Rightarrow> bool" where
  "exported name = (name \<noteq> [] \<and> is_upper (hd name))"

text \<open>No struct type of the configuration decodes itself from a string: every struct is a section.\<close>

fun section_of :: "field_type \<Rightarrow> field list option" where
  "section_of (Struct fs) = Some fs"
| "section_of _ = None"

lemma section_smaller: "section_of t = Some fs \<Longrightarrow> size_list size fs < size t"
  by (cases t) auto

function (sequential) walk_fields ::
  "string list \<Rightarrow> string \<Rightarrow> nat list \<Rightarrow> nat \<Rightarrow> field list \<Rightarrow> leaf list result" where
  "walk_fields path prefix index n [] = Inr []"
| "walk_fields path prefix index n (Field name env yaml secret type # others) =
     (case yaml_field_name yaml of
        (yaml_name, skip) \<Rightarrow>
          if \<not> exported name \<or> skip then walk_fields path prefix index (Suc n) others
          else case parse_env_tag env of
            Inl e \<Rightarrow> Inl (wrap (name @ '': '') e)
          | Inr tag \<Rightarrow>
              (case section_of type of
                 Some sub \<Rightarrow>
                   (case walk_fields (path @ [yaml_name]) (prefix @ et_prefix tag) (index @ [n]) 0 sub of
                      Inl e \<Rightarrow> Inl e
                    | Inr below \<Rightarrow>
                        (case walk_fields path prefix index (Suc n) others of
                           Inl e \<Rightarrow> Inl e
                         | Inr rest \<Rightarrow> Inr (below @ rest)))
               | None \<Rightarrow>
                   if yaml_name = [] \<or> et_key tag = [] then
                     Inl (wrap_after err_untagged_field
                            ('': '' @ name @ '' (yaml='' @ quoted yaml_name @ '' env='' @ quoted (et_key tag) @ '')''))
                   else
                     case walk_fields path prefix index (Suc n) others of
                       Inl e \<Rightarrow> Inl e
                     | Inr rest \<Rightarrow>
                         Inr (\<lparr>lf_path = path @ [yaml_name], lf_env = prefix @ et_key tag, lf_default = et_default tag,
                               lf_has_default = et_has_default tag, lf_secret = secret, lf_index = index @ [n]\<rparr> # rest)))"
  by pat_completeness auto
termination
  by (relation "measure (\<lambda>(p, e, i, n, fs). size_list size fs)") (auto dest: section_smaller)

definition compute_leaves :: "leaf list result" where
  "compute_leaves = walk_fields [] [] [] 0 config_fields"

text \<open>The field a setting is kept in, by its index.\<close>

fun field_by_index :: "field list \<Rightarrow> nat list \<Rightarrow> field option" where
  "field_by_index fs [] = None"
| "field_by_index fs (n # index) =
     (if n < length fs then
        (case fs ! n of
           Field name env yaml secret type \<Rightarrow>
             if index = [] then Some (Field name env yaml secret type)
             else case section_of type of None \<Rightarrow> None | Some sub \<Rightarrow> field_by_index sub index)
      else None)"

function (sequential) walk_sections :: "string \<Rightarrow> field list \<Rightarrow> string list result" where
  "walk_sections prefix [] = Inr []"
| "walk_sections prefix (Field name env yaml secret type # others) =
     (case section_of type of
        None \<Rightarrow> walk_sections prefix others
      | Some sub \<Rightarrow>
          if \<not> exported name \<or> snd (yaml_field_name yaml) then walk_sections prefix others
          else case parse_env_tag env of
            Inl e \<Rightarrow> Inl (wrap (name @ '': '') e)
          | Inr tag \<Rightarrow>
              (case walk_sections (prefix @ et_prefix tag) sub of
                 Inl e \<Rightarrow> Inl e
               | Inr below \<Rightarrow>
                   (case walk_sections prefix others of
                      Inl e \<Rightarrow> Inl e
                    | Inr rest \<Rightarrow>
                        Inr ((if prefix @ et_prefix tag \<noteq> [] then [prefix @ et_prefix tag] else []) @ below @ rest))))"
  by pat_completeness auto
termination
  by (relation "measure (\<lambda>(p, fs). size_list size fs)") (auto dest: section_smaller)

definition compute_section_prefixes :: "string list result" where
  "compute_section_prefixes = walk_sections [] config_fields"

text \<open>
  What \<open>Leaves\<close> and \<open>SectionPrefixes\<close> hold once they are computed; that neither computation fails
  is \<open>leaves_computed\<close> below.
\<close>

definition leaves :: "leaf list" where
  "leaves = (case compute_leaves of Inl _ \<Rightarrow> [] | Inr ls \<Rightarrow> ls)"

definition section_prefixes :: "string list" where
  "section_prefixes = (case compute_section_prefixes of Inl _ \<Rightarrow> [] | Inr ps \<Rightarrow> ps)"

subsection \<open>The schema of a document\<close>

text \<open>A Go map used as a set is the list of its keys; a map to candidates is a function.\<close>

record schema =
  sc_leaves :: "string list"
  sc_sections :: "string list"
  sc_children :: "string \<Rightarrow> string list"

definition dotted :: "string list \<Rightarrow> string" where
  "dotted path = join_with ''.'' path"

definition add_depth :: "string list \<Rightarrow> nat \<Rightarrow> schema \<Rightarrow> schema" where
  "add_depth path depth sc =
     (let parent = dotted (take depth path);
          name = path ! depth;
          here = dotted (take (depth + 1) path);
          sc1 = (if depth = length path - 1 then sc\<lparr>sc_leaves := sc_leaves sc @ [here]\<rparr>
                 else sc\<lparr>sc_sections := List.insert here (sc_sections sc)\<rparr>)
      in if List.member (sc_children sc1 parent) name then sc1
         else sc1\<lparr>sc_children := (sc_children sc1)(parent := sc_children sc1 parent @ [name])\<rparr>)"

definition compute_schema :: "leaf list \<Rightarrow> schema" where
  "compute_schema ls =
     fold (\<lambda>l. fold (add_depth (lf_path l)) [0..<length (lf_path l)]) ls
       \<lparr>sc_leaves = [], sc_sections = [[]], sc_children = (\<lambda>_. [])\<rparr>"

definition schema_of :: schema where
  "schema_of = compute_schema leaves"

subsection \<open>The walk, evaluated\<close>

lemma leaves_computed: "compute_leaves = Inr leaves" "compute_section_prefixes = Inr section_prefixes"
proof -
  have "is_ok compute_leaves \<and> is_ok compute_section_prefixes" by code_simp
  then obtain ls ps where "compute_leaves = Inr ls" "compute_section_prefixes = Inr ps" by (auto simp: is_ok_iff)
  then show "compute_leaves = Inr leaves" "compute_section_prefixes = Inr section_prefixes"
    unfolding leaves_def section_prefixes_def by (metis sum.case(2))+
qed

text \<open>
  The settings have pairwise different names, variables and fields.
\<close>

lemma leaves_distinct:
  "distinct (map lf_name leaves)" "distinct (map lf_env leaves)" "distinct (map lf_index leaves)"
proof -
  have "distinct (map lf_name leaves) \<and> distinct (map lf_env leaves) \<and> distinct (map lf_index leaves)" by code_simp
  then show "distinct (map lf_name leaves)" "distinct (map lf_env leaves)" "distinct (map lf_index leaves)"
    by simp_all
qed

lemma leaf_unique:
  assumes "l \<in> set leaves" "k \<in> set leaves"
  shows "lf_name l = lf_name k \<longleftrightarrow> l = k" "lf_env l = lf_env k \<longleftrightarrow> l = k" "lf_index l = lf_index k \<longleftrightarrow> l = k"
  using assms leaves_distinct by (auto simp: distinct_map inj_on_def)

definition nested_field :: "leaf \<Rightarrow> bool" where
  "nested_field l \<longleftrightarrow>
     (case field_by_index config_fields (lf_index l) of
        None \<Rightarrow> False
      | Some (Field name env yaml secret type) \<Rightarrow>
          section_of type = None \<and> fst (yaml_field_name yaml) = last (lf_path l)
          \<and> has_suffix (lf_env l) (case parse_env_tag env of Inl _ \<Rightarrow> [] | Inr t \<Rightarrow> et_key t)
          \<and> lf_secret l = secret)"

lemma schema_leaves: "sc_leaves schema_of = map lf_name leaves"
  by code_simp

lemma leaf_paths: "list_all (\<lambda>l. lf_path l \<noteq> []) leaves"
  by code_simp

text \<open>
  C18. The walk over the struct types succeeds and finds 54 settings. Each is kept in a field that is no
  section and carries its names; its variable starts with the prefix of a section, so a misspelt
  variable can be recognised; the names in the file, the variables and the fields are pairwise
  different, no name is both a setting and a section of the schema, and exactly the DSN, the secret
  key of the object store and the licence token are secrets.
\<close>

theorem settings_well_formed:
  "compute_leaves = Inr leaves \<and> length leaves = 54
   \<and> distinct (map lf_name leaves) \<and> distinct (map lf_env leaves) \<and> distinct (map lf_index leaves)
   \<and> list_all nested_field leaves
   \<and> list_all (\<lambda>l. list_ex (has_prefix (lf_env l)) section_prefixes) leaves
   \<and> list_all (\<lambda>s. \<not> List.member (sc_sections schema_of) s) (sc_leaves schema_of)
   \<and> map lf_name (filter lf_secret leaves) =
       [''db.postgres'', ''registry.s3.secret_access_key'', ''license.key'']"
proof -
  have "length leaves = 54" by code_simp
  moreover have "list_all nested_field leaves" by code_simp
  moreover have "list_all (\<lambda>l. list_ex (has_prefix (lf_env l)) section_prefixes) leaves" by code_simp
  moreover have "list_all (\<lambda>s. \<not> List.member (sc_sections schema_of) s) (sc_leaves schema_of)" by code_simp
  moreover have "map lf_name (filter lf_secret leaves) =
      [''db.postgres'', ''registry.s3.secret_access_key'', ''license.key'']" by code_simp
  ultimately show ?thesis using leaves_computed(1) leaves_distinct by simp
qed

end
