(* ===== verification/Hints.thy ===== *)
theory Hints
  imports Json
begin

text \<open>
  Which setting a misspelt name was meant to be: \<open>normalise\<close>, \<open>editDistance\<close> and \<open>bestMatch\<close> of
  \<^verbatim>\<open>internal/config/diagnostics.go\<close>. The distance is computed with two rows, as the code does; the
  lemmas show that the result is the least number of single-byte insertions, deletions and
  replacements that turn one name into the other.
\<close>

subsection \<open>Names up to case and separators\<close>

text \<open>A range loop over a string yields its characters; a byte that starts none is U+FFFD.\<close>

fun normalise :: "string \<Rightarrow> string" where
  "normalise [] = []"
| "normalise (c # s) =
     (if c = CHR ''_'' \<or> c = CHR ''-'' then normalise s
      else if is_upper c then to_lower c # normalise s
      else
        let k = rune_len (c # s) in
        if k = 0 then replacement_rune @ normalise s
        else take k (c # s) @ normalise (drop (k - 1) s))"

declare normalise.simps(2) [simp del]

subsection \<open>The distance\<close>

text \<open>The entries of the current row from a column on: the previous row from one column before it, and the last entry.\<close>

fun row_from :: "char \<Rightarrow> string \<Rightarrow> nat list \<Rightarrow> nat \<Rightarrow> nat list" where
  "row_from c (r # right) (diagonal # over # previous) left =
     (let v = min (over + 1) (min (left + 1) (diagonal + (if c = r then 0 else 1)))
      in v # row_from c right (over # previous) v)"
| "row_from c right previous left = []"

fun edit_rows :: "string \<Rightarrow> string \<Rightarrow> nat \<Rightarrow> nat list \<Rightarrow> nat list" where
  "edit_rows [] right row previous = previous"
| "edit_rows (c # left) right row previous =
     edit_rows left right (Suc row) (row # row_from c right previous row)"

definition edit_distance :: "string \<Rightarrow> string \<Rightarrow> nat" where
  "edit_distance left right =
     (if left = right then 0
      else edit_rows left right 1 [0..<Suc (length right)] ! length right)"

subsection \<open>The best candidate\<close>

definition max_hint_distance :: nat where "max_hint_distance = 2"

fun closest :: "string \<Rightarrow> string list \<Rightarrow> string \<times> nat \<Rightarrow> string \<times> nat" where
  "closest key [] best = best"
| "closest key (c # candidates) best =
     (let d = edit_distance (normalise key) (normalise c) in
      closest key candidates (if d < snd best then (c, d) else best))"

definition best_match :: "string \<Rightarrow> string list \<Rightarrow> string option" where
  "best_match key candidates =
     (case find (\<lambda>c. normalise c = normalise key) candidates of
        Some c \<Rightarrow> Some c
      | None \<Rightarrow>
          (let (best, d) = closest key candidates ([], max_hint_distance + 1) in
           if d \<le> max_hint_distance then Some best else None))"

subsection \<open>Alignments\<close>

text \<open>One byte inserted, deleted or replaced.\<close>

inductive one_edit :: "'a list \<Rightarrow> 'a list \<Rightarrow> bool" where
  inserted: "one_edit (u @ v) (u @ x # v)"
| deleted: "one_edit (u @ x # v) (u @ v)"
| replaced: "one_edit (u @ x # v) (u @ y # v)"

text \<open>An alignment of two lists and its cost.\<close>

inductive aligned :: "nat \<Rightarrow> 'a list \<Rightarrow> 'a list \<Rightarrow> bool" where
  al_nil: "aligned 0 [] []"
| al_keep: "aligned n xs ys \<Longrightarrow> aligned n (x # xs) (x # ys)"
| al_repl: "aligned n xs ys \<Longrightarrow> aligned (Suc n) (x # xs) (y # ys)"
| al_ins: "aligned n xs ys \<Longrightarrow> aligned (Suc n) xs (y # ys)"
| al_del: "aligned n xs ys \<Longrightarrow> aligned (Suc n) (x # xs) ys"

inductive_cases aligned_nil_right: "aligned n xs []"
inductive_cases aligned_nil_left: "aligned n [] ys"
inductive_cases aligned_cons: "aligned n (x # xs) (y # ys)"

fun lev :: "'a list \<Rightarrow> 'a list \<Rightarrow> nat" where
  "lev [] ys = length ys"
| "lev (x # xs) [] = Suc (length xs)"
| "lev (x # xs) (y # ys) =
     min (lev xs (y # ys) + 1) (min (lev (x # xs) ys + 1) (lev xs ys + (if x = y then 0 else 1)))"

lemma aligned_all_deleted: "aligned (length xs) xs []"
  by (induction xs) (auto intro: aligned.intros)

lemma aligned_all_inserted: "aligned (length ys) [] ys"
  by (induction ys) (auto intro: aligned.intros)

lemma aligned_lev: "aligned (lev xs ys) xs ys"
proof (induction xs ys rule: lev.induct)
  case (1 ys) show ?case using aligned_all_inserted by simp
next
  case (2 x xs) show ?case using aligned_all_deleted [of "x # xs"] by simp
next
  case (3 x xs y ys)
  then show ?case
    using al_del [OF 3(1)] al_ins [OF 3(2)] al_repl [OF 3(3), of x y] al_keep [OF 3(3), of x]
    by (cases "x = y") (auto simp: min_def)
qed

lemma aligned_length: "aligned n xs ys \<Longrightarrow> length xs \<le> length ys + n \<and> length ys \<le> length xs + n"
  by (induction rule: aligned.induct) auto

lemma lev_aligned: "aligned n xs ys \<Longrightarrow> lev xs ys \<le> n"
proof (induction xs ys arbitrary: n rule: lev.induct)
  case (1 ys) then show ?case using aligned_length [OF 1] by simp
next
  case (2 x xs) then show ?case using aligned_length [OF 2] by simp
next
  case (3 x xs y ys)
  from 3(4) show ?case
    by (cases rule: aligned_cons) (use 3(1-3) in \<open>force simp: min_le_iff_disj\<close>)+
qed

lemma aligned_append: "aligned n a b \<Longrightarrow> aligned m c d \<Longrightarrow> aligned (n + m) (a @ c) (b @ d)"
  by (induction rule: aligned.induct) (auto intro: aligned.intros)

lemma aligned_rev: "aligned n xs ys \<Longrightarrow> aligned n (rev xs) (rev ys)"
proof (induction rule: aligned.induct)
  case (al_keep n xs ys x)
  show ?case using aligned_append [OF al_keep(2) aligned.al_keep [OF al_nil]] by simp
next
  case (al_repl n xs ys x y)
  show ?case using aligned_append [OF al_repl(2) aligned.al_repl [OF al_nil]] by simp
next
  case (al_ins n xs ys y)
  show ?case using aligned_append [OF al_ins(2) aligned.al_ins [OF al_nil]] by simp
next
  case (al_del n xs ys x)
  show ?case using aligned_append [OF al_del(2) aligned.al_del [OF al_nil]] by simp
qed (simp add: al_nil)

lemma lev_rev: "lev (rev xs) (rev ys) = lev xs ys"
proof (rule antisym)
  show "lev (rev xs) (rev ys) \<le> lev xs ys" by (rule lev_aligned [OF aligned_rev [OF aligned_lev]])
  show "lev xs ys \<le> lev (rev xs) (rev ys)"
    using lev_aligned [OF aligned_rev [OF aligned_lev, of "rev xs" "rev ys"]] by simp
qed

subsection \<open>The rows are the distances of prefixes\<close>

text \<open>Entry \<open>j\<close> of a row, for the reversed prefix \<open>p\<close> of the left name and a reversed prefix \<open>q\<close> of the right one.\<close>

fun row_of :: "'a list \<Rightarrow> 'a list \<Rightarrow> 'a list \<Rightarrow> nat list" where
  "row_of p q [] = [lev p q]"
| "row_of p q (r # right) = lev p q # row_of p (r # q) right"

lemma lev_Nil_right: "lev xs [] = length xs"
  by (cases xs) auto

lemma row_from_row_of: "row_from c right (row_of p q right) (lev (c # p) q) = tl (row_of (c # p) q right)"
proof (induction right arbitrary: q)
  case (Cons r right)
  have up: "row_of p q (r # right) = lev p q # row_of p (r # q) right" by simp
  obtain d tail where row: "row_of p (r # q) right = d # tail" and d: "d = lev p (r # q)"
    by (cases right) auto
  have v: "min (lev p (r # q) + 1) (min (lev (c # p) q + 1) (lev p q + (if c = r then 0 else 1))) = lev (c # p) (r # q)"
    by simp
  have head: "row_of (c # p) (r # q) right = lev (c # p) (r # q) # tl (row_of (c # p) (r # q) right)"
    by (cases right) auto
  show ?case using Cons.IH [of "r # q"] v head by (simp add: row d Let_def)
qed simp

lemma edit_rows_row_of:
  "edit_rows left right (Suc (length p)) (row_of p [] right) = row_of (rev left @ p) [] right"
proof (induction left arbitrary: p)
  case (Cons c left)
  have "Suc (length p) # row_from c right (row_of p [] right) (Suc (length p)) = row_of (c # p) [] right"
    using row_from_row_of [of c right p "[]"] by (cases right) auto
  then show ?case using Cons.IH [of "c # p"] by simp
qed simp

lemma row_of_empty: "row_of [] q right = [length q..<Suc (length q + length right)]"
proof (induction right arbitrary: q)
  case (Cons r right)
  have "[length q..<Suc (length q + length (r # right))] = length q # [Suc (length q)..<Suc (length q + length (r # right))]"
    by (rule upt_conv_Cons) simp
  then show ?case using Cons.IH [of "r # q"] by simp
qed simp

lemma row_of_last: "row_of p q right ! length right = lev p (rev right @ q)"
  by (induction right arbitrary: q) auto

lemma edit_distance_lev: "edit_distance left right = lev left right"
proof (cases "left = right")
  case True
  have "aligned 0 right right" by (induction right) (auto intro: aligned.intros)
  then have "lev right right = 0" using lev_aligned by fastforce
  then show ?thesis using True by (simp add: edit_distance_def)
next
  case False
  have "edit_rows left right 1 [0..<Suc (length right)] = row_of (rev left) [] right"
    using edit_rows_row_of [of left right "[]"] row_of_empty [of "[]" right] by simp
  then show ?thesis using False row_of_last [of "rev left" "[]" right] lev_rev [of left right]
    by (simp add: edit_distance_def)
qed

subsection \<open>The least number of edits\<close>

lemma aligned_split_nil:
  "aligned n a v \<Longrightarrow> \<exists>a1 a2 n1 n2. a = a1 @ a2 \<and> n = n1 + n2 \<and> aligned n1 a1 [] \<and> aligned n2 a2 v"
  using al_nil by (metis add_0 append_Nil)

lemma aligned_split:
  "aligned n a (u @ v) \<Longrightarrow> \<exists>a1 a2 n1 n2. a = a1 @ a2 \<and> n = n1 + n2 \<and> aligned n1 a1 u \<and> aligned n2 a2 v"
proof (induction n a "u @ v" arbitrary: u rule: aligned.induct)
  case al_nil then show ?case by (auto intro: aligned.al_nil)
next
  case (al_keep n xs ys x)
  show ?case
  proof (cases u)
    case Nil
    then show ?thesis using aligned_split_nil [OF aligned.al_keep [OF al_keep(1), of x]] al_keep(3) by simp
  next
    case (Cons y u')
    then obtain a1 a2 n1 n2 where "xs = a1 @ a2" "n = n1 + n2" "aligned n1 a1 u'" "aligned n2 a2 v"
      using al_keep(2) [of u'] al_keep(3) by auto
    then show ?thesis using Cons al_keep(3) aligned.al_keep by (metis append_Cons list.inject)
  qed
next
  case (al_repl n xs ys x y)
  show ?case
  proof (cases u)
    case Nil
    then show ?thesis using aligned_split_nil [OF aligned.al_repl [OF al_repl(1), of x y]] al_repl(3) by simp
  next
    case (Cons z u')
    then obtain a1 a2 n1 n2 where "xs = a1 @ a2" "n = n1 + n2" "aligned n1 a1 u'" "aligned n2 a2 v"
      using al_repl(2) [of u'] al_repl(3) by auto
    then show ?thesis using Cons aligned.al_repl [of n1 a1 u' x z] by (metis add_Suc append_Cons)
  qed
next
  case (al_ins n xs ys y)
  show ?case
  proof (cases u)
    case Nil
    then show ?thesis using aligned_split_nil [OF aligned.al_ins [OF al_ins(1), of y]] al_ins(3) by simp
  next
    case (Cons z u')
    then obtain a1 a2 n1 n2 where "xs = a1 @ a2" "n = n1 + n2" "aligned n1 a1 u'" "aligned n2 a2 v"
      using al_ins(2) [of u'] al_ins(3) by auto
    then show ?thesis using Cons aligned.al_ins [of n1 a1 u' z] by (metis add_Suc)
  qed
next
  case (al_del n xs x)
  then obtain a1 a2 n1 n2 where "xs = a1 @ a2" "n = n1 + n2" "aligned n1 a1 u" "aligned n2 a2 v" by blast
  then show ?case using aligned.al_del [of n1 a1 u x] by (metis add_Suc append_Cons)
qed

text \<open>What is aligned with one byte is aligned with none, and with any other, for at most one more.\<close>

lemma aligned_byte:
  assumes "aligned n a [x]"
  shows "\<exists>m \<le> Suc n. aligned m a []" "\<exists>m \<le> Suc n. aligned m a [y]"
proof -
  have len: "length a \<le> Suc n" using aligned_length [OF assms] by simp
  show "\<exists>m \<le> Suc n. aligned m a []" using len aligned_all_deleted by blast
  show "\<exists>m \<le> Suc n. aligned m a [y]"
  proof (cases a)
    case Nil then show ?thesis using aligned_all_inserted [of "[y]"] by auto
  next
    case (Cons z a')
    then show ?thesis using len al_repl [OF aligned_all_deleted [of a'], of z y] by auto
  qed
qed

lemma aligned_middle:
  assumes "aligned n1 a1 u" "aligned m a' w" "aligned n3 a3 v" "m \<le> k"
  shows "\<exists>j \<le> n1 + k + n3. aligned j (a1 @ a' @ a3) (u @ w @ v)"
  using aligned_append [OF assms(1) aligned_append [OF assms(2,3)]] assms(4)
  by (intro exI [of _ "n1 + (m + n3)"]) auto

lemma aligned_one_edit:
  assumes "one_edit b c" "aligned n a b"
  shows "\<exists>m \<le> Suc n. aligned m a c"
  using assms(1)
proof cases
  case (inserted u v x)
  then obtain a1 a2 n1 n2 where "a = a1 @ a2" "n = n1 + n2" "aligned n1 a1 u" "aligned n2 a2 v"
    using aligned_split assms(2) by metis
  then show ?thesis
    using inserted aligned_middle [OF _ al_ins [OF al_nil], of n1 a1 u n2 a2 v 1 x] by auto
next
  case (deleted u x v)
  then obtain a1 a' n1 n' where 1: "a = a1 @ a'" "n = n1 + n'" "aligned n1 a1 u" "aligned n' a' ([x] @ v)"
    using aligned_split [of n a u "x # v"] assms(2) by auto
  then obtain a2 a3 n2 n3 where 2: "a' = a2 @ a3" "n' = n2 + n3" "aligned n2 a2 [x]" "aligned n3 a3 v"
    using aligned_split by metis
  obtain m where "m \<le> Suc n2" "aligned m a2 []" using aligned_byte(1) [OF 2(3)] by blast
  then show ?thesis using 1 2 deleted aligned_middle [OF 1(3) _ 2(4), of m a2 "[]" "Suc n2"] by (simp add: add.assoc)
next
  case (replaced u x v y)
  then obtain a1 a' n1 n' where 1: "a = a1 @ a'" "n = n1 + n'" "aligned n1 a1 u" "aligned n' a' ([x] @ v)"
    using aligned_split [of n a u "x # v"] assms(2) by auto
  then obtain a2 a3 n2 n3 where 2: "a' = a2 @ a3" "n' = n2 + n3" "aligned n2 a2 [x]" "aligned n3 a3 v"
    using aligned_split by metis
  obtain m where "m \<le> Suc n2" "aligned m a2 [y]" using aligned_byte(2) [OF 2(3)] by blast
  then show ?thesis using 1 2 replaced aligned_middle [OF 1(3) _ 2(4), of m a2 "[y]" "Suc n2"] by (simp add: add.assoc)
qed

lemma edits_aligned: "(one_edit ^^ n) a b \<Longrightarrow> \<exists>m \<le> n. aligned m a b"
proof (induction n arbitrary: b)
  case 0
  have "aligned 0 b b" by (induction b) (auto intro: aligned.intros)
  then show ?case using 0 by auto
next
  case (Suc n)
  then obtain c where c: "(one_edit ^^ n) a c" "one_edit c b" by auto
  then obtain m where "m \<le> n" "aligned m a c" using Suc.IH by blast
  then show ?case using aligned_one_edit [OF c(2)] by (meson Suc_le_mono le_trans)
qed

lemma one_edit_Cons: "one_edit a b \<Longrightarrow> one_edit (x # a) (x # b)"
  by (induction rule: one_edit.induct) (metis append_Cons one_edit.intros)+

lemma edits_Cons: "(one_edit ^^ n) a b \<Longrightarrow> (one_edit ^^ n) (x # a) (x # b)"
proof (induction n arbitrary: b)
  case (Suc n)
  then obtain c where "(one_edit ^^ n) a c" "one_edit c b" by auto
  then show ?case using Suc.IH one_edit_Cons by (metis relcompp.relcompI relpowp.simps(2))
qed simp

lemma aligned_edits: "aligned n a b \<Longrightarrow> (one_edit ^^ n) a b"
proof (induction rule: aligned.induct)
  case (al_repl n xs ys x y)
  have "one_edit (x # ys) (y # ys)" using replaced [of "[]" x ys y] by simp
  then show ?case using edits_Cons [OF al_repl(2), of x] by auto
next
  case (al_ins n xs ys y)
  have "one_edit ys (y # ys)" using inserted [of "[]" ys y] by simp
  then show ?case using al_ins(2) by auto
next
  case (al_del n xs ys x)
  have "one_edit (x # ys) ys" using deleted [of "[]" x ys] by simp
  then show ?case using edits_Cons [OF al_del(2), of x] by auto
qed (auto intro: edits_Cons)

text \<open>
  C19. \<open>editDistance\<close>, computed with two rows of a table, is the least number of insertions, deletions
  and replacements of single bytes that turn one name into the other.
\<close>

theorem edit_distance_least: "edit_distance left right = (LEAST n. (one_edit ^^ n) left right)"
proof (rule Least_equality [symmetric])
  show "(one_edit ^^ edit_distance left right) left right"
    unfolding edit_distance_lev by (rule aligned_edits [OF aligned_lev])
  show "edit_distance left right \<le> n" if n: "(one_edit ^^ n) left right" for n
    using edits_aligned [OF n] lev_aligned unfolding edit_distance_lev by (meson le_trans)
qed

subsection \<open>The candidate is near\<close>

lemma closest_Cons:
  "closest key (c # candidates) best =
     closest key candidates
       (let d = edit_distance (normalise key) (normalise c) in if d < snd best then (c, d) else best)"
  by (simp add: Let_def)

lemma closest_near:
  "closest key candidates best = best \<or>
   fst (closest key candidates best) \<in> set candidates \<and>
   snd (closest key candidates best) =
     edit_distance (normalise key) (normalise (fst (closest key candidates best)))"
proof (induction candidates arbitrary: best)
  case (Cons c candidates)
  let ?d = "edit_distance (normalise key) (normalise c)"
  show ?case
    using Cons.IH [of "if ?d < snd best then (c, ?d) else best"] unfolding closest_Cons Let_def
    by (cases "?d < snd best") auto
qed simp

lemma closest_least: "snd (closest key candidates best) \<le> snd best"
proof (induction candidates arbitrary: best)
  case (Cons d candidates)
  let ?d = "edit_distance (normalise key) (normalise d)"
  show ?case unfolding closest_Cons Let_def
    using Cons.IH [of "if ?d < snd best then (d, ?d) else best"] by (cases "?d < snd best") auto
qed simp

lemma closest_among:
  "c \<in> set candidates \<Longrightarrow>
     snd (closest key candidates best) \<le> edit_distance (normalise key) (normalise c)"
proof (induction candidates arbitrary: best)
  case (Cons d candidates)
  let ?d = "edit_distance (normalise key) (normalise d)"
  let ?b = "if ?d < snd best then (d, ?d) else best"
  have "snd (closest key candidates ?b) \<le> ?d"
    using closest_least [of key candidates ?b] by (cases "?d < snd best") auto
  then show ?case unfolding closest_Cons Let_def using Cons.IH [of ?b] Cons.prems by (cases "c = d") simp_all
qed simp

text \<open>
  A suggestion is a candidate within the distance limit and no candidate is nearer; without a
  suggestion every candidate is beyond the limit.
\<close>

lemma edit_distance_same: "edit_distance s s = 0"
  by (simp add: edit_distance_def)

lemma best_match_correct:
  "case best_match key candidates of
     Some c \<Rightarrow> c \<in> set candidates
       \<and> edit_distance (normalise key) (normalise c) \<le> max_hint_distance
       \<and> (\<forall>d \<in> set candidates. edit_distance (normalise key) (normalise c) \<le> edit_distance (normalise key) (normalise d))
   | None \<Rightarrow> \<forall>d \<in> set candidates. edit_distance (normalise key) (normalise d) > max_hint_distance"
proof (cases "find (\<lambda>c. normalise c = normalise key) candidates")
  case (Some c)
  then have "c \<in> set candidates" "normalise c = normalise key" by (auto simp: find_Some_iff)
  then show ?thesis using Some edit_distance_same by (simp add: best_match_def)
next
  case None
  let ?r = "closest key candidates ([], max_hint_distance + 1)"
  show ?thesis
    using closest_near [of key candidates "([], max_hint_distance + 1)"]
      closest_among [of _ candidates key "([], max_hint_distance + 1)"] None
    by (cases ?r) (force simp: best_match_def Let_def)
qed

end
