(* ===== verification/Diagnostics.thy ===== *)
theory Diagnostics
  imports Settings Hints
begin

text \<open>
  What is wrong with the input of a configuration: the walk over the parsed document
  (\<^verbatim>\<open>internal/config/diagnostics.go\<close>), renamed keys (\<^verbatim>\<open>internal/config/yamlalias.go\<close>), variables that
  match no setting (\<^verbatim>\<open>internal/config/env.go\<close>) and files that cannot be read
  (\<^verbatim>\<open>internal/config/preflight.go\<close>). A YAML node is a tree; an alias holds the node it points at. The
  lemmas show that a document without an error names only settings, outside the places the walk
  skips, and that a block brought in by a merge key is such a place.
\<close>

subsection \<open>Diagnostics\<close>

datatype severity = SeverityWarning | SeverityError

definition source_file :: string where "source_file = ''file''"
definition source_env :: string where "source_env = ''env''"

record diagnostic =
  dg_severity :: severity
  dg_source :: string
  dg_path :: string
  dg_line :: nat
  dg_message :: string
  dg_hint :: string

definition severity_string :: "severity \<Rightarrow> string" where
  "severity_string s = (case s of SeverityError \<Rightarrow> ''error'' | SeverityWarning \<Rightarrow> ''warning'')"

definition diagnostic_string :: "diagnostic \<Rightarrow> string" where
  "diagnostic_string d =
     (if dg_line d > 0 then ''line '' @ nat_digits (dg_line d) @ '': '' else [])
     @ (if dg_path d \<noteq> [] then dg_path d @ '': '' else [])
     @ dg_message d
     @ (if dg_hint d \<noteq> [] then '' ('' @ dg_hint d @ '')'' else [])"

text \<open>\<open>errors.Join\<close> of the fatal ones: nil for none, else their texts on a line each.\<close>

definition diagnostics_err :: "diagnostic list \<Rightarrow> go_error option" where
  "diagnostics_err ds =
     (case filter (\<lambda>d. dg_severity d = SeverityError) ds of
        [] \<Rightarrow> None
      | fatal \<Rightarrow> Some (plain_error (join_with [CHR 0x0A] (map diagnostic_string fatal))))"

definition has_errors :: "diagnostic list \<Rightarrow> bool" where
  "has_errors ds = list_ex (\<lambda>d. dg_severity d = SeverityError) ds"

lemma diagnostics_err_None: "diagnostics_err ds = None \<longleftrightarrow> \<not> has_errors ds"
proof -
  have "diagnostics_err ds = None \<longleftrightarrow> filter (\<lambda>d. dg_severity d = SeverityError) ds = []"
    by (simp add: diagnostics_err_def split: list.split)
  then show ?thesis by (auto simp: has_errors_def filter_empty_conv list_ex_iff)
qed

lemma has_errors_simps [simp]:
  "has_errors [] = False" "has_errors (d # ds) = (dg_severity d = SeverityError \<or> has_errors ds)"
  "has_errors (ds @ es) = (has_errors ds \<or> has_errors es)"
  by (auto simp: has_errors_def)

subsection \<open>Documents\<close>

text \<open>Nodes carry their line; a mapping alternates keys and values, here paired; a scalar has its tag and value.\<close>

datatype ynode =
    YScalar nat string string
  | YSeq nat "ynode list"
  | YMap nat "(ynode \<times> ynode) list"
  | YAlias nat string ynode

text \<open>\<open>Node.Value\<close> and \<open>Node.Line\<close> of a key; the value of an alias node is the anchor's name.\<close>

fun node_value :: "ynode \<Rightarrow> string" where
  "node_value (YScalar l t v) = v"
| "node_value (YAlias l name n) = name"
| "node_value _ = []"

fun node_line :: "ynode \<Rightarrow> nat" where
  "node_line (YScalar l t v) = l"
| "node_line (YSeq l ns) = l"
| "node_line (YMap l kvs) = l"
| "node_line (YAlias l name n) = l"

fun resolve_alias :: "ynode \<Rightarrow> ynode" where
  "resolve_alias (YAlias l name n) = resolve_alias n"
| "resolve_alias n = n"

lemma resolve_alias_size: "size (resolve_alias n) \<le> size n"
  by (induction n rule: resolve_alias.induct) auto

text \<open>The pairs of a mapping; a node of another kind has none to walk.\<close>

definition mapping_pairs :: "ynode \<Rightarrow> (ynode \<times> ynode) list" where
  "mapping_pairs n = (case resolve_alias n of YMap l kvs \<Rightarrow> kvs | _ \<Rightarrow> [])"

abbreviation pairs_size :: "(ynode \<times> ynode) list \<Rightarrow> nat" where
  "pairs_size kvs \<equiv> size_list (size_prod size size) kvs"

lemma mapping_pairs_size: "pairs_size (mapping_pairs n) < Suc (size n)"
  using resolve_alias_size [of n] by (auto simp: mapping_pairs_def split: ynode.split)

subsection \<open>Unknown keys\<close>

definition merge_key :: string where "merge_key = ''<<''"

definition is_anchor_holder :: "string \<Rightarrow> bool" where
  "is_anchor_holder key = (has_prefix key ''.'' \<or> has_prefix key ''x-'')"

definition qualify :: "string \<Rightarrow> string \<Rightarrow> string" where
  "qualify parent name = (if parent = [] then name else parent @ ''.'' @ name)"

text \<open>
  \<open>order\<close> is the order in which Go iterates over the set of settings: a different one on each run.
\<close>

definition hint_for :: "string list \<Rightarrow> schema \<Rightarrow> string \<Rightarrow> string \<Rightarrow> string" where
  "hint_for order sc key parent =
     (case best_match key (sc_children sc parent) of
        Some m \<Rightarrow> ''did you mean '' @ qualify parent m @ ''?''
      | None \<Rightarrow>
          (case find (\<lambda>p. normalise (last (split_on CHR ''.'' p)) = normalise key) order of
             Some p \<Rightarrow> ''did you mean '' @ p @ ''?''
           | None \<Rightarrow> []))"

definition retired_keys :: "string \<Rightarrow> string option" where
  "retired_keys name =
     (if name = ''db.driver'' then
        Some (''removed in v0.13.0: postgres is the only driver this service has ever supported ''
              @ ''and the migrations hard-code it; delete the key'')
      else if name = ''license.public_key'' then
        Some (''removed in v0.13.0: move the key into license.public_keys, ''
              @ ''under its key id, or under '' @ quoted ''*'' @ '' to verify any key id'')
      else None)"

definition file_error :: "string \<Rightarrow> nat \<Rightarrow> string \<Rightarrow> string \<Rightarrow> diagnostic" where
  "file_error path line message hint =
     \<lparr>dg_severity = SeverityError, dg_source = source_file, dg_path = path, dg_line = line,
      dg_message = message, dg_hint = hint\<rparr>"

function (sequential) walk_document ::
  "string list \<Rightarrow> schema \<Rightarrow> string list \<Rightarrow> (ynode \<times> ynode) list \<Rightarrow> diagnostic list" where
  "walk_document order sc path [] = []"
| "walk_document order sc path ((key, val) # pairs) =
     (let k = node_value key;
          name = dotted (path @ [k]);
          rest = walk_document order sc path pairs in
      if k = merge_key then rest
      else if path = [] \<and> is_anchor_holder k then rest
      else case retired_keys name of
        Some reason \<Rightarrow> file_error name (node_line key) reason [] # rest
      | None \<Rightarrow>
          if List.member (sc_leaves sc) name then rest
          else if List.member (sc_sections sc) name then
            walk_document order sc (path @ [k]) (mapping_pairs val) @ rest
          else file_error name (node_line key) ''unknown key'' (hint_for order sc k (dotted path)) # rest)"
  by pat_completeness auto
termination
proof (relation "measure (\<lambda>(order, sc, path, pairs). pairs_size pairs)")
  show "((order, sc, path @ [k], mapping_pairs val), order, sc, path, (key, val) # pairs)
      \<in> measure (\<lambda>(order, sc, path, pairs). pairs_size pairs)" for order sc path k key val pairs
    using mapping_pairs_size [of val] by simp
qed auto

declare walk_document.simps(2) [simp del]

text \<open>A document without content names nothing.\<close>

definition document_diagnostics :: "string list \<Rightarrow> ynode option \<Rightarrow> diagnostic list" where
  "document_diagnostics order root =
     (case root of None \<Rightarrow> [] | Some n \<Rightarrow> walk_document order schema_of [] (mapping_pairs n))"

subsection \<open>Renamed keys\<close>

text \<open>
  The table maps former dotted names to current ones. Keys are renamed where they stand: the result is
  the document with its keys renamed, and the reports. An anchored block that is referred to more than
  once is a copy at each place here; in memory it is one block, which is renamed and reported once.
\<close>

type_synonym alias_table = "(string \<times> string) list"

definition yaml_aliases :: alias_table where "yaml_aliases = []"

definition key_renamed :: "ynode \<Rightarrow> string \<Rightarrow> ynode" where
  "key_renamed key name = (case key of YScalar l t v \<Rightarrow> YScalar l t name | YAlias l v n \<Rightarrow> YAlias l name n | _ \<Rightarrow> key)"

definition renamed_twice :: "string \<Rightarrow> string \<Rightarrow> nat \<Rightarrow> diagnostic" where
  "renamed_twice name current line =
     file_error name line (name @ '' was renamed to '' @ current @ '', and this file sets both; delete the old one'') []"

definition renamed_warning :: "string \<Rightarrow> string \<Rightarrow> string \<Rightarrow> nat \<Rightarrow> diagnostic" where
  "renamed_warning name current new_leaf line =
     \<lparr>dg_severity = SeverityWarning, dg_source = source_file, dg_path = name, dg_line = line,
      dg_message = name @ '' was renamed to '' @ current @ ''; the old name still works but will stop'',
      dg_hint = ''rename it to '' @ new_leaf\<rparr>"

definition last_segment :: "string \<Rightarrow> string" where
  "last_segment name = last (split_on CHR ''.'' name)"

function (sequential) rewrite_node :: "alias_table \<Rightarrow> string list \<Rightarrow> ynode \<Rightarrow> ynode \<times> diagnostic list"
and rewrite_pairs ::
  "alias_table \<Rightarrow> string list \<Rightarrow> string list \<Rightarrow> (ynode \<times> ynode) list \<Rightarrow> (ynode \<times> ynode) list \<times> diagnostic list" where
  "rewrite_node aliases path (YMap l pairs) =
     (let (ps, ds) = rewrite_pairs aliases path (map (node_value \<circ> fst) pairs) pairs in (YMap l ps, ds))"
| "rewrite_node aliases path (YAlias l name n) =
     (let (m, ds) = rewrite_node aliases path n in (YAlias l name m, ds))"
| "rewrite_node aliases path n = (n, [])"
| "rewrite_pairs aliases path present [] = ([], [])"
| "rewrite_pairs aliases path present ((key, val) # pairs) =
     (let k = node_value key; name = dotted (path @ [k]) in
      if k = merge_key then
        (let (ps, ds) = rewrite_pairs aliases path present pairs in ((key, val) # ps, ds))
      else case map_of aliases name of
        None \<Rightarrow>
          (let (v, ds) = rewrite_node aliases (path @ [k]) val;
               (ps, es) = rewrite_pairs aliases path present pairs
           in ((key, v) # ps, ds @ es))
      | Some current \<Rightarrow>
          (let new_leaf = last_segment current in
           if new_leaf \<in> set present then
             (let (ps, ds) = rewrite_pairs aliases path present pairs
              in ((key, val) # ps, renamed_twice name current (node_line key) # ds))
           else
             (let (ps, ds) = rewrite_pairs aliases path (new_leaf # present) pairs
              in ((key_renamed key new_leaf, val) # ps,
                  renamed_warning name current new_leaf (node_line key) # ds))))"
  by pat_completeness auto
termination
  by (relation "measure (\<lambda>x. case x of Inl (a, p, n) \<Rightarrow> 2 * size n | Inr (a, p, q, ps) \<Rightarrow> 2 * pairs_size ps + 1)") auto

definition apply_yaml_aliases :: "ynode option \<Rightarrow> alias_table \<Rightarrow> ynode option \<times> diagnostic list" where
  "apply_yaml_aliases root aliases =
     (case root of
        None \<Rightarrow> (None, [])
      | Some n \<Rightarrow> if aliases = [] then (Some n, [])
                 else (let (m, ds) = rewrite_node aliases [] n in (Some m, ds)))"

subsection \<open>What the parser says\<close>

text \<open>How the decoder answers when it is asked for one document more.\<close>

datatype second_document =
    NoMore                                \<comment> \<open>\<open>io.EOF\<close>\<close>
  | BrokenDocument go_error nat
  | OneMore nat "ynode option"             \<comment> \<open>its line and its content\<close>

definition is_null :: "ynode \<Rightarrow> bool" where
  "is_null n = (case n of YScalar l t v \<Rightarrow> t = ''!!null'' | _ \<Rightarrow> False)"

definition has_second_document :: "second_document \<Rightarrow> bool" where
  "has_second_document d =
     (case d of
        NoMore \<Rightarrow> False
      | BrokenDocument e l \<Rightarrow> True
      | OneMore l None \<Rightarrow> False
      | OneMore l (Some n) \<Rightarrow> \<not> is_null n)"

fun document_line :: "second_document \<Rightarrow> nat" where
  "document_line NoMore = 0"
| "document_line (BrokenDocument e l) = l"
| "document_line (OneMore l n) = l"

definition second_document_diagnostics :: "second_document \<Rightarrow> diagnostic list" where
  "second_document_diagnostics d =
     (if has_second_document d
      then [file_error [] (document_line d)
              ''the file holds more than one YAML document; only the first one would be read'' []]
      else [])"

text \<open>The prefix \<open>line N: \<close> of a type error becomes a field; a number out of range stays in the text.\<close>

definition max_int64 :: nat where "max_int64 = 9223372036854775807"

definition type_error_diagnostic :: "string \<Rightarrow> diagnostic" where
  "type_error_diagnostic message =
     (let d = file_error [] 0 message [];
          digits = takeWhile is_digit (drop 5 message);
          rest = dropWhile is_digit (drop 5 message) in
      if has_prefix message ''line '' \<and> digits \<noteq> [] \<and> has_prefix rest '': '' \<and> digits_value digits \<le> max_int64
      then d\<lparr>dg_line := digits_value digits, dg_message := drop 2 rest\<rparr>
      else d)"

subsection \<open>Variables that match no setting\<close>

definition env_aliases :: "string \<Rightarrow> string list" where
  "env_aliases key = (if key = ''TELEMETRY_OTLP_ENDPOINT'' then [''OTEL_EXPORTER_OTLP_ENDPOINT''] else [])"

definition env_alias_keys :: "string list" where "env_alias_keys = [''TELEMETRY_OTLP_ENDPOINT'']"

definition is_env_alias :: "string \<Rightarrow> bool" where
  "is_env_alias name = list_ex (\<lambda>key. List.member (env_aliases key) name) env_alias_keys"

text \<open>The pattern \<^verbatim>\<open>_SERVICE_(HOST|PORT)(_|$)|_PORT_\d+_TCP(_|$)\<close> at the start of a string, and anywhere in it.\<close>

definition word_ends :: "string \<Rightarrow> bool" where
  "word_ends s = (s = [] \<or> hd s = CHR ''_'')"

definition link_here :: "string \<Rightarrow> bool" where
  "link_here s =
     (has_prefix s ''_SERVICE_HOST'' \<and> word_ends (drop 13 s)
      \<or> has_prefix s ''_SERVICE_PORT'' \<and> word_ends (drop 13 s)
      \<or> has_prefix s ''_PORT_'' \<and> takeWhile is_digit (drop 6 s) \<noteq> []
         \<and> has_prefix (dropWhile is_digit (drop 6 s)) ''_TCP''
         \<and> word_ends (drop 4 (dropWhile is_digit (drop 6 s))))"

fun link_anywhere :: "string \<Rightarrow> bool" where
  "link_anywhere [] = False"
| "link_anywhere (c # s) = (link_here (c # s) \<or> link_anywhere s)"

definition is_kubernetes_link_var :: "string \<Rightarrow> string \<Rightarrow> bool" where
  "is_kubernetes_link_var name val = (link_anywhere name \<or> has_suffix name ''_PORT'' \<and> has_prefix val ''tcp://'')"

definition reportable_env :: "string \<Rightarrow> string \<Rightarrow> string list \<Rightarrow> string list \<Rightarrow> bool" where
  "reportable_env name val known prefixes =
     (if val = [] then False
      else if List.member known name \<or> is_env_alias name then False
      else if is_kubernetes_link_var name val then False
      else list_ex (has_prefix name) prefixes)"

definition unknown_variable :: "string list \<Rightarrow> string \<Rightarrow> diagnostic" where
  "unknown_variable names name =
     \<lparr>dg_severity = SeverityWarning, dg_source = source_env, dg_path = name, dg_line = 0,
      dg_message = ''environment variable matches no setting and was ignored'',
      dg_hint = (case best_match name names of None \<Rightarrow> [] | Some m \<Rightarrow> ''did you mean '' @ m @ ''?'')\<rparr>"

fun unknown_env :: "string list \<Rightarrow> diagnostic list" where
  "unknown_env [] = []"
| "unknown_env (entry # environ) =
     (case cut_at CHR ''='' entry of
        None \<Rightarrow> unknown_env environ
      | Some (name, val) \<Rightarrow>
          if reportable_env name val (map lf_env leaves) section_prefixes
          then unknown_variable (map lf_env leaves) name # unknown_env environ
          else unknown_env environ)"

subsection \<open>A document without errors names settings\<close>

text \<open>The keys of a document, reached through mappings, as paths.\<close>

inductive key_at :: "(ynode \<times> ynode) list \<Rightarrow> string list \<Rightarrow> bool" where
  here: "(key, val) \<in> set pairs \<Longrightarrow> key_at pairs [node_value key]"
| below: "(key, val) \<in> set pairs \<Longrightarrow> key_at (mapping_pairs val) p \<Longrightarrow> key_at pairs (node_value key # p)"

inductive_cases key_at_Nil: "key_at pairs []"

definition plain_segment :: "string \<Rightarrow> bool" where
  "plain_segment s \<longleftrightarrow> s \<noteq> [] \<and> CHR ''.'' \<notin> set s \<and> s \<noteq> merge_key"

text \<open>A path that is a setting, lies below one, or is a section above one.\<close>

definition known_path :: "string list \<Rightarrow> bool" where
  "known_path p \<longleftrightarrow> (\<exists>l \<in> set leaves. (\<exists>i. take i p = lf_path l) \<or> (\<exists>d < length (lf_path l). p = take d (lf_path l)))"

lemma split_dotted: "p \<noteq> [] \<Longrightarrow> \<forall>s \<in> set p. CHR ''.'' \<notin> set s \<Longrightarrow> split_on CHR ''.'' (dotted p) = p"
  unfolding dotted_def by (rule split_join_on) auto

lemma leaf_segments: "list_all (\<lambda>l. lf_path l \<noteq> [] \<and> list_all (\<lambda>s. CHR ''.'' \<notin> set s) (lf_path l)) leaves"
  by code_simp

lemma leaf_dotted:
  assumes "l \<in> set leaves" "p \<noteq> []" "\<forall>s \<in> set p. CHR ''.'' \<notin> set s"
  shows "dotted p = dotted (take d (lf_path l)) \<and> take d (lf_path l) \<noteq> [] \<longleftrightarrow> p = take d (lf_path l)"
proof -
  have "\<forall>s \<in> set (take d (lf_path l)). CHR ''.'' \<notin> set s"
    using leaf_segments assms(1) by (auto simp: list_all_iff dest: in_set_takeD)
  then show ?thesis using split_dotted [OF assms(2,3)] split_dotted [of "take d (lf_path l)"] assms(2) by metis
qed

definition from_leaves :: "leaf list \<Rightarrow> schema \<Rightarrow> bool" where
  "from_leaves ls sc \<longleftrightarrow>
     (\<forall>s \<in> set (sc_sections sc). s = [] \<or> (\<exists>l \<in> set ls. \<exists>d < length (lf_path l). s = dotted (take d (lf_path l))))"

lemma add_depth_from_leaves:
  assumes "from_leaves ls sc" "l \<in> set ls" "depth < length (lf_path l)"
  shows "from_leaves ls (add_depth (lf_path l) depth sc)"
proof -
  have "set (sc_sections (add_depth (lf_path l) depth sc)) \<subseteq>
      set (sc_sections sc) \<union> (if depth = length (lf_path l) - 1 then {} else {dotted (take (depth + 1) (lf_path l))})"
    by (auto simp: add_depth_def Let_def)
  moreover have "depth + 1 < length (lf_path l)" if "depth \<noteq> length (lf_path l) - 1" using that assms(3) by simp
  ultimately have "s \<in> set (sc_sections sc) \<or> (\<exists>d < length (lf_path l). s = dotted (take d (lf_path l)))"
    if "s \<in> set (sc_sections (add_depth (lf_path l) depth sc))" for s
    using that by (auto split: if_splits)
  then show ?thesis using assms(1,2) unfolding from_leaves_def by blast
qed

lemma fold_from_leaves:
  "from_leaves ls sc \<Longrightarrow> set ks \<subseteq> set ls \<Longrightarrow>
   from_leaves ls (fold (\<lambda>l. fold (add_depth (lf_path l)) [0..<length (lf_path l)]) ks sc)"
proof (induction ks arbitrary: sc)
  case (Cons k ks)
  have "from_leaves ls (fold (add_depth (lf_path k)) ds sc)"
    if "set ds \<subseteq> {0..<length (lf_path k)}" "from_leaves ls sc" for ds sc
    using that Cons.prems(2) by (induction ds arbitrary: sc) (auto intro: add_depth_from_leaves)
  then show ?case using Cons by simp
qed simp

lemma schema_sections: "from_leaves leaves schema_of"
  unfolding schema_of_def compute_schema_def by (rule fold_from_leaves) (simp_all add: from_leaves_def)

lemma schema_known:
  assumes "p \<noteq> []" "\<forall>s \<in> set p. s \<noteq> [] \<and> CHR ''.'' \<notin> set s"
  shows "List.member (sc_leaves schema_of) (dotted p) \<Longrightarrow> \<exists>l \<in> set leaves. p = lf_path l"
    and "List.member (sc_sections schema_of) (dotted p) \<Longrightarrow> \<exists>l \<in> set leaves. \<exists>d < length (lf_path l). p = take d (lf_path l)"
proof -
  have plain: "\<forall>s \<in> set p. CHR ''.'' \<notin> set s" using assms(2) by blast
  have nonempty: "dotted p \<noteq> []"
    using split_dotted [OF assms(1) plain] assms by (cases p) auto
  show "\<exists>l \<in> set leaves. p = lf_path l" if "List.member (sc_leaves schema_of) (dotted p)"
  proof -
    from that obtain l where l: "l \<in> set leaves" "dotted p = dotted (lf_path l)"
      by (auto simp: schema_leaves lf_name_def dotted_def)
    then show ?thesis using leaf_dotted [OF l(1) assms(1) plain, of "length (lf_path l)"] leaf_segments
      by (auto simp: list_all_iff)
  qed
  show "\<exists>l \<in> set leaves. \<exists>d < length (lf_path l). p = take d (lf_path l)"
    if "List.member (sc_sections schema_of) (dotted p)"
  proof -
    from that obtain l d where l: "l \<in> set leaves" "d < length (lf_path l)" "dotted p = dotted (take d (lf_path l))"
      using schema_sections nonempty by (auto simp: from_leaves_def)
    moreover have "take d (lf_path l) \<noteq> []" using l(3) nonempty by (cases "take d (lf_path l)") (simp_all add: dotted_def)
    ultimately show ?thesis using leaf_dotted [OF l(1) assms(1) plain, of d] by blast
  qed
qed

text \<open>What the walk lets pass of one key and of all.\<close>

lemma walk_document_pair:
  assumes "\<not> has_errors (walk_document order sc path pairs)" "(key, val) \<in> set pairs"
    and "node_value key \<noteq> merge_key" "path = [] \<longrightarrow> \<not> is_anchor_holder (node_value key)"
  shows "List.member (sc_leaves sc) (dotted (path @ [node_value key]))
    \<or> List.member (sc_sections sc) (dotted (path @ [node_value key]))
      \<and> \<not> has_errors (walk_document order sc (path @ [node_value key]) (mapping_pairs val))"
  using assms
proof (induction pairs)
  case (Cons kv pairs)
  obtain k v where kv: "kv = (k, v)" by force
  let ?rest = "walk_document order sc path pairs"
  show ?case
  proof (cases "(key, val) = kv")
    case True
    then show ?thesis using Cons.prems
      by (auto simp: kv walk_document.simps(2) Let_def file_error_def split: option.splits if_splits)
  next
    case False
    then have "(key, val) \<in> set pairs" using Cons.prems(2) by simp
    moreover have "\<not> has_errors ?rest"
      using Cons.prems(1) by (auto simp: kv walk_document.simps(2) Let_def split: option.splits if_splits)
    ultimately show ?thesis using Cons.IH Cons.prems(3,4) by blast
  qed
qed simp

lemma walk_document_known:
  assumes "key_at pairs p" "\<not> has_errors (walk_document order schema_of path pairs)"
    and "list_all plain_segment (path @ p)" "path = [] \<longrightarrow> \<not> is_anchor_holder (hd p)"
  shows "known_path (path @ p)"
  using assms
proof (induction arbitrary: path rule: key_at.induct)
  case (here key val pairs)
  have plain: "path @ [node_value key] \<noteq> []" "\<forall>s \<in> set (path @ [node_value key]). s \<noteq> [] \<and> CHR ''.'' \<notin> set s"
    using here(3) by (auto simp: plain_segment_def list_all_iff)
  have "node_value key \<noteq> merge_key" using here(3) by (simp add: plain_segment_def)
  then show ?case
    using walk_document_pair [OF here(2,1)] here(4) schema_known [OF plain] unfolding known_path_def
    by (metis list.sel(1) order_refl take_all_iff)
next
  case (below key val pairs p)
  let ?q = "path @ [node_value key]"
  have plain: "?q \<noteq> []" "\<forall>s \<in> set ?q. s \<noteq> [] \<and> CHR ''.'' \<notin> set s" "list_all plain_segment (?q @ p)"
    using below(5) by (auto simp: plain_segment_def list_all_iff)
  have "node_value key \<noteq> merge_key" using below(5) by (simp add: plain_segment_def)
  then consider "List.member (sc_leaves schema_of) (dotted ?q)"
    | "\<not> has_errors (walk_document order schema_of ?q (mapping_pairs val))"
    using walk_document_pair [OF below(4,1)] below(6) by auto
  then show ?case
  proof cases
    case 1
    then obtain l where "l \<in> set leaves" "?q = lf_path l" using schema_known(1) [OF plain(1,2)] by blast
    moreover have "take (length ?q) (path @ node_value key # p) = ?q" by simp
    ultimately show ?thesis unfolding known_path_def by metis
  next
    case 2
    then show ?thesis using below(3) [OF 2 plain(3)] by simp
  qed
qed

text \<open>
  A document the walk accepts names only settings: every key reached through mappings, on a path
  whose keys are non-empty, hold no dot and are no merge key, and that does not start at an anchor
  holder, is a section, a setting, or part of the value of one.
\<close>

theorem accepted_document_known:
  assumes "\<not> has_errors (document_diagnostics order (Some root))"
    and "key_at (mapping_pairs root) p" "list_all plain_segment p" "\<not> is_anchor_holder (hd p)"
  shows "known_path p"
  using walk_document_known [OF assms(2), of order "[]"] assms by (simp add: document_diagnostics_def)

definition scalar :: "string \<Rightarrow> ynode" where "scalar s = YScalar 1 ''!!str'' s"

definition sample_document :: ynode where
  "sample_document = YMap 1 [(scalar ''server'', YMap 2 [(scalar ''host'', scalar ''0.0.0.0'')])]"

theorem accepted_document_known_witness: "known_path [''server'', ''host'']"
proof -
  have 1: "\<not> has_errors (document_diagnostics [] (Some sample_document))" by code_simp
  have 2: "key_at (mapping_pairs sample_document) [''server'', ''host'']"
    using key_at.below [OF _ key_at.here, of "scalar ''server''" "YMap 2 [(scalar ''host'', scalar ''0.0.0.0'')]"
        "mapping_pairs sample_document" "scalar ''host''" "scalar ''0.0.0.0''"]
    by (simp add: sample_document_def mapping_pairs_def scalar_def)
  have 3: "list_all plain_segment [''server'', ''host'']" "\<not> is_anchor_holder (hd [''server'', ''host''])"
    by (simp_all add: plain_segment_def merge_key_def is_anchor_holder_def has_prefix_def)
  show ?thesis by (rule accepted_document_known [OF 1 2 3])
qed

subsection \<open>Misspelt keys that go unnoticed\<close>

text \<open>
  The schema is a set of dotted names, so one key that spells a setting's dotted name is taken for the
  setting; a block merged in from an anchor holder is looked at neither where it is written nor where
  it is used.
\<close>

definition dotted_document :: ynode where
  "dotted_document = YMap 1 [(scalar ''registry.cache_max_bytes'', YScalar 1 ''!!int'' ''0'')]"

definition merged_document :: ynode where
  "merged_document =
     (let block = YMap 1 [(scalar ''cache_max_byte'', YScalar 1 ''!!int'' ''0'')] in
      YMap 1 [(scalar ''x-common'', block),
              (scalar ''registry'', YMap 3 [(YScalar 3 ''!!merge'' ''<<'', YAlias 3 ''common'' block)])])"

lemma dotted_document_accepted: "document_diagnostics order (Some dotted_document) = []"
proof -
  have "List.member (sc_leaves schema_of) ''registry.cache_max_bytes''" by code_simp
  then show ?thesis
    by (simp add: document_diagnostics_def dotted_document_def mapping_pairs_def walk_document.simps(2) scalar_def
        merge_key_def is_anchor_holder_def has_prefix_def dotted_def retired_keys_def)
qed

lemma merged_document_accepted: "document_diagnostics order (Some merged_document) = []"
proof -
  have "\<not> List.member (sc_leaves schema_of) ''registry''" "List.member (sc_sections schema_of) ''registry''"
    by code_simp+
  then show ?thesis
    by (simp add: document_diagnostics_def merged_document_def mapping_pairs_def walk_document.simps(2) scalar_def
        merge_key_def is_anchor_holder_def has_prefix_def dotted_def retired_keys_def Let_def)
qed

end
