(* ===== verification/Validation.thy ===== *)
theory Validation
  imports Complex_Main Diagnostics Auth
begin

text \<open>
  The configuration as structs (\<^verbatim>\<open>internal/config/config.go\<close>) and its structural validation
  (\<open>Config.Validate\<close> and \<^verbatim>\<open>internal/config/validate_more.go\<close>), check by check in the order of the code. An
  error is the check that failed and what it names. The parsers of CIDRs (\<^verbatim>\<open>net/netip\<close>) and of URLs
  (\<^verbatim>\<open>net/url\<close>) are parameters; map iteration is the order of a list. The lemmas give the exact condition
  under which a configuration is accepted.
\<close>

subsection \<open>The structs\<close>

datatype go_float = Finite rat | PosInf | NegInf | NaN

fun float_le_zero :: "go_float \<Rightarrow> bool" where
  "float_le_zero (Finite r) = (r \<le> 0)"
| "float_le_zero PosInf = False"
| "float_le_zero NegInf = True"
| "float_le_zero NaN = False"

record tls_config =
  tls_cert_file :: string
  tls_key_file :: string
  tls_client_ca_file :: string

record port_config =
  port_grpc :: string
  port_metric :: string
  port_health :: string
  port_mcp :: string

record server_config =
  csv_host :: string
  csv_port :: port_config
  csv_tls :: tls_config
  csv_force_shutdown_after :: int
  csv_trusted_proxies :: "string list"
  csv_max_recv_msg_size :: int
  csv_max_send_msg_size :: int
  csv_max_concurrent_streams :: int

record s3_config =
  s3_endpoint :: string
  s3_bucket :: string
  s3_region :: string
  s3_prefix :: string
  s3_access_key_id :: string
  s3_secret_access_key :: string
  s3_force_path_style :: bool

record registry_config =
  crg_plugins_dir :: string
  crg_max_output_size :: int
  crg_cache_max_bytes :: int
  crg_s3 :: s3_config

record telemetry_config =
  ct_otlp_endpoint :: string
  ct_pyroscope_endpoint :: string
  ct_service_tier :: string

record worker_pool_config =
  cw_workers :: int
  cw_queue_size :: int
  cw_max_concurrent_generations :: int
  cw_generation_timeout :: int
  cw_max_retries :: int
  cw_shutdown_timeout :: int

record license_config =
  clc_key :: string
  clc_file :: string
  clc_keys :: "(string \<times> string) list"
  clc_cache_ttl :: int

record rate_limit_config =
  cx_requests_per_second :: go_float
  cx_burst :: int
  cx_cleanup_interval :: int
  cx_max_concurrent_per_ip :: int

record audit_settings =
  cau_buffer_size :: int
  cau_batch_size :: int
  cau_flush_interval :: int
  cau_max_save_retries :: int
  cau_enqueue_timeout :: int
  cau_flush_timeout :: int
  cau_retention_months :: int
  cau_pre_create_months :: int
  cau_partition_check_interval :: int
  cau_partition_op_timeout :: int

record service_config =
  cf_server :: server_config
  cf_postgres :: string                    \<comment> \<open>\<open>DBConfig\<close>\<close>
  cf_registry :: registry_config
  cf_telemetry :: telemetry_config
  cf_worker_pool :: worker_pool_config
  cf_license :: license_config
  cf_rate_limit :: rate_limit_config
  cf_audit :: audit_settings
  cf_write_tokens :: "write_token list"    \<comment> \<open>\<open>AuthConfig\<close>\<close>
  cf_mcp_enabled :: bool                   \<comment> \<open>\<open>MCPConfig\<close>\<close>
  cf_log_level :: string                   \<comment> \<open>\<open>LogConfig\<close>\<close>

definition tls_enabled :: "tls_config \<Rightarrow> bool" where
  "tls_enabled c = (tls_cert_file c \<noteq> [] \<and> tls_key_file c \<noteq> [])"

definition mutual_tls :: "tls_config \<Rightarrow> bool" where
  "mutual_tls c = (tls_enabled c \<and> tls_client_ca_file c \<noteq> [])"

definition s3_enabled :: "s3_config \<Rightarrow> bool" where
  "s3_enabled c = (s3_bucket c \<noteq> [])"

definition retention_wanted :: "audit_settings \<Rightarrow> bool" where
  "retention_wanted c = (cau_retention_months c > 0)"

subsection \<open>Errors\<close>

datatype config_error =
    Required string
  | BadPort string string
  | ZeroPort string
  | PortClash string string nat
  | TLSHalfSet
  | ClientCAWithoutTLS
  | BadProxy string go_error
  | NotPositive string
  | IsNegative string
  | SendBelowOutput int int
  | NoDSN
  | DSNUnparsable go_error
  | DSNWithoutHost
  | DSNShapeless string
  | ShutdownTooSoon int int
  | PreCreateBeyondRetention int int
  | BadAuth go_error
  | EmptyKeyID
  | KeyIDSeparator string
  | KeyLength string nat
  | KeyNotHex string
  | NoPluginsDir
  | S3KeyHalfSet
  | S3WithoutBucket string
  | CacheBelowOutput int int
  | BadTier string
  | BadLogLevel string

text \<open>A sequence of checks: the first that fails decides.\<close>

fun first_error :: "'e option list \<Rightarrow> 'e option" where
  "first_error [] = None"
| "first_error (None # checks) = first_error checks"
| "first_error (Some e # checks) = Some e"

definition fails :: "bool \<Rightarrow> 'e \<Rightarrow> 'e option" where
  "fails b e = (if b then Some e else None)"

lemma first_error_None: "first_error cs = None \<longleftrightarrow> (\<forall>c \<in> set cs. c = None)"
  by (induction cs rule: first_error.induct) auto

lemma fails_None [simp]: "fails b e = None \<longleftrightarrow> \<not> b"
  by (simp add: fails_def)

subsection \<open>Ports\<close>

text \<open>\<open>strconv.ParseUint(s, 10, 16)\<close> of the trimmed text.\<close>

definition parse_port :: "string \<Rightarrow> string \<Rightarrow> config_error + nat" where
  "parse_port name raw =
     (let v = trim_space raw in
      if v = [] \<or> \<not> list_all is_digit v \<or> digits_value v > 65535 then Inl (BadPort name raw)
      else if digits_value v = 0 then Inl (ZeroPort name)
      else Inr (digits_value v))"

fun check_ports :: "(nat \<times> string) list \<Rightarrow> (string \<times> string) list \<Rightarrow> config_error option" where
  "check_ports seen [] = None"
| "check_ports seen ((name, raw) # ports) =
     (case parse_port name raw of
        Inl e \<Rightarrow> Some e
      | Inr n \<Rightarrow>
          (case map_of seen n of
             Some other \<Rightarrow> Some (PortClash other name n)
           | None \<Rightarrow> check_ports ((n, name) # seen) ports))"

definition named_ports :: "port_config \<Rightarrow> (string \<times> string) list" where
  "named_ports p =
     [(''server.port.grpc'', port_grpc p), (''server.port.metric'', port_metric p),
      (''server.port.health'', port_health p), (''server.port.mcp'', port_mcp p)]"

definition validate_ports :: "service_config \<Rightarrow> config_error option" where
  "validate_ports c = check_ports [] (named_ports (csv_port (cf_server c)))"

subsection \<open>Trusted proxies and the DSN\<close>

fun trusted_proxy_prefixes :: "(string \<Rightarrow> 'p result) \<Rightarrow> string list \<Rightarrow> config_error + 'p list" where
  "trusted_proxy_prefixes parse_prefix [] = Inr []"
| "trusted_proxy_prefixes parse_prefix (raw # proxies) =
     (let trimmed = trim_space raw in
      if trimmed = [] then trusted_proxy_prefixes parse_prefix proxies
      else case parse_prefix trimmed of
        Inl e \<Rightarrow> Inl (BadProxy trimmed e)
      | Inr p \<Rightarrow>
          (case trusted_proxy_prefixes parse_prefix proxies of Inl e \<Rightarrow> Inl e | Inr ps \<Rightarrow> Inr (p # ps)))"

definition error_of :: "'e + 'a \<Rightarrow> 'e option" where
  "error_of r = (case r of Inl e \<Rightarrow> Some e | Inr _ \<Rightarrow> None)"

text \<open>\<open>strings.FieldsSeq\<close>: the runs of characters between white space.\<close>

function fields_of :: "string \<Rightarrow> string list" where
  "fields_of s =
     (let r = dropWhile is_space s in
      if r = [] then [] else takeWhile (\<lambda>c. \<not> is_space c) r # fields_of (dropWhile (\<lambda>c. \<not> is_space c) r))"
  by pat_completeness auto
termination
proof (relation "measure length")
  fix s r :: string
  assume r: "r = dropWhile is_space s" "r \<noteq> []"
  then have "\<not> is_space (hd r)" by (simp add: hd_dropWhile)
  then have "length (dropWhile (\<lambda>c. \<not> is_space c) r) < length r"
    using r(2) by (cases r) (auto simp: length_dropWhile_le le_imp_less_Suc)
  also have "length r \<le> length s" using r(1) length_dropWhile_le by blast
  finally show "(dropWhile (\<lambda>c. \<not> is_space c) r, s) \<in> measure length" by simp
qed simp

declare fields_of.simps [simp del]

definition is_keyword_pair :: "string \<Rightarrow> bool" where
  "is_keyword_pair f = (case cut_at CHR ''='' f of None \<Rightarrow> False | Some (key, _) \<Rightarrow> key \<noteq> [])"

definition validate_dsn :: "(string \<Rightarrow> string result) \<Rightarrow> string \<Rightarrow> config_error option" where
  "validate_dsn url_host dsn =
     (let trimmed = trim_space dsn in
      if has_prefix trimmed ''postgres://'' \<or> has_prefix trimmed ''postgresql://'' then
        (case url_host trimmed of
           Inl e \<Rightarrow> Some (DSNUnparsable e)
         | Inr host \<Rightarrow> fails (host = []) DSNWithoutHost)
      else if list_ex is_keyword_pair (fields_of trimmed) then None
      else Some (DSNShapeless trimmed))"

subsection \<open>Worker pool, rate limit, audit\<close>

definition validate_worker_pool :: "service_config \<Rightarrow> config_error option" where
  "validate_worker_pool c =
     (let w = cf_worker_pool c in
      first_error
        [fails (cw_workers w \<le> 0) (NotPositive ''worker_pool.workers''),
         fails (cw_queue_size w \<le> 0) (NotPositive ''worker_pool.queue_size''),
         fails (cw_max_concurrent_generations w \<le> 0) (NotPositive ''worker_pool.max_concurrent_generations''),
         fails (cw_generation_timeout w \<le> 0) (NotPositive ''worker_pool.generation_timeout''),
         fails (cw_shutdown_timeout w \<le> 0) (NotPositive ''worker_pool.shutdown_timeout''),
         fails (cw_max_retries w < 0) (IsNegative ''worker_pool.max_retries'')])"

definition validate_rate_limit :: "service_config \<Rightarrow> config_error option" where
  "validate_rate_limit c =
     (let r = cf_rate_limit c in
      first_error
        [fails (float_le_zero (cx_requests_per_second r)) (NotPositive ''rate_limit.requests_per_second''),
         fails (cx_burst r \<le> 0) (NotPositive ''rate_limit.burst''),
         fails (cx_cleanup_interval r \<le> 0) (NotPositive ''rate_limit.cleanup_interval'')])"

definition validate_audit :: "service_config \<Rightarrow> config_error option" where
  "validate_audit c =
     (let a = cf_audit c in
      first_error
        [fails (cau_buffer_size a \<le> 0) (NotPositive ''audit.buffer_size''),
         fails (cau_batch_size a \<le> 0) (NotPositive ''audit.batch_size''),
         fails (cau_flush_interval a \<le> 0) (NotPositive ''audit.flush_interval''),
         fails (cau_max_save_retries a < 0) (IsNegative ''audit.max_save_retries''),
         fails (cau_retention_months a < 0) (IsNegative ''audit.retention_months''),
         fails (cau_pre_create_months a < 0) (IsNegative ''audit.pre_create_months''),
         fails (retention_wanted a \<and> cau_pre_create_months a > cau_retention_months a)
           (PreCreateBeyondRetention (cau_pre_create_months a) (cau_retention_months a))])"

subsection \<open>Licence keys\<close>

definition hex_ed25519_key_length :: nat where "hex_ed25519_key_length = 64"

definition validate_hex_key :: "string \<Rightarrow> string \<Rightarrow> config_error option" where
  "validate_hex_key name hex_key =
     (let trimmed = trim_space hex_key in
      if length trimmed \<noteq> hex_ed25519_key_length then Some (KeyLength name (length trimmed))
      else case hex_decode trimmed of None \<Rightarrow> Some (KeyNotHex name) | Some _ \<Rightarrow> None)"

fun validate_license_keys :: "(string \<times> string) list \<Rightarrow> config_error option" where
  "validate_license_keys [] = None"
| "validate_license_keys ((kid, hex_key) # keys) =
     (if kid = [] then Some EmptyKeyID
      else if CHR '','' \<in> set kid \<or> CHR '':'' \<in> set kid then Some (KeyIDSeparator kid)
      else case validate_hex_key (''license.public_keys['' @ kid @ '']'') hex_key of
        Some e \<Rightarrow> Some e
      | None \<Rightarrow> validate_license_keys keys)"

subsection \<open>Object storage, cache, telemetry, log level\<close>

definition validate_s3 :: "service_config \<Rightarrow> config_error option" where
  "validate_s3 c =
     (let s3 = crg_s3 (cf_registry c) in
      if s3_enabled s3 then
        first_error
          [fails (crg_plugins_dir (cf_registry c) = []) NoPluginsDir,
           fails ((s3_access_key_id s3 \<noteq> []) \<noteq> (s3_secret_access_key s3 \<noteq> [])) S3KeyHalfSet]
      else None)"

definition validate_s3_completeness :: "service_config \<Rightarrow> config_error option" where
  "validate_s3_completeness c =
     (let s3 = crg_s3 (cf_registry c) in
      if s3_enabled s3 then None
      else first_error
        [fails (s3_endpoint s3 \<noteq> []) (S3WithoutBucket ''registry.s3.endpoint''),
         fails (s3_access_key_id s3 \<noteq> []) (S3WithoutBucket ''registry.s3.access_key_id''),
         fails (s3_secret_access_key s3 \<noteq> []) (S3WithoutBucket ''registry.s3.secret_access_key'')])"

definition validate_cache_size :: "service_config \<Rightarrow> config_error option" where
  "validate_cache_size c =
     (let r = cf_registry c in
      first_error
        [fails (crg_cache_max_bytes r < 0) (IsNegative ''registry.cache_max_bytes''),
         fails (crg_cache_max_bytes r > 0 \<and> crg_cache_max_bytes r < crg_max_output_size r)
           (CacheBelowOutput (crg_cache_max_bytes r) (crg_max_output_size r))])"

definition service_tier_community :: string where "service_tier_community = ''community''"
definition service_tier_enterprise :: string where "service_tier_enterprise = ''enterprise''"

definition validate_telemetry :: "service_config \<Rightarrow> config_error option" where
  "validate_telemetry c =
     (let tier = ct_service_tier (cf_telemetry c) in
      fails (tier \<notin> {[], service_tier_community, service_tier_enterprise}) (BadTier tier))"

text \<open>\<open>strings.ToUpper\<close>; of the characters beyond ASCII only U+0131 and U+017F have an upper case in ASCII.\<close>

fun upper_text :: "string \<Rightarrow> string" where
  "upper_text [] = []"
| "upper_text (c # s) =
     (if is_lower c then char_of (of_char c - 32 :: nat) # upper_text s
      else if of_char c = (196 :: nat) \<and> s \<noteq> [] \<and> of_char (hd s) = (177 :: nat) then CHR ''I'' # upper_text (tl s)
      else if of_char c = (197 :: nat) \<and> s \<noteq> [] \<and> of_char (hd s) = (191 :: nat) then CHR ''S'' # upper_text (tl s)
      else c # upper_text s)"

text \<open>\<open>strconv.Atoi\<close> of a text with a sign.\<close>

definition signed_number :: "string \<Rightarrow> int option" where
  "signed_number s =
     (if s = [] \<or> tl s = [] \<or> \<not> list_all is_digit (tl s) then None
      else
        let n = int (digits_value (tl s)) in
        if hd s = CHR ''-'' then (if n \<le> 2 ^ 63 then Some (- n) else None)
        else if hd s = CHR ''+'' then (if n < 2 ^ 63 then Some n else None)
        else None)"

text \<open>\<open>slog.Level.UnmarshalText\<close>: a name and an offset.\<close>

definition level_unmarshal :: "string \<Rightarrow> int option" where
  "level_unmarshal s =
     (let is_sign = (\<lambda>c. c = CHR ''+'' \<or> c = CHR ''-'');
          name = upper_text (takeWhile (\<lambda>c. \<not> is_sign c) s);
          rest = dropWhile (\<lambda>c. \<not> is_sign c) s in
      case (if rest = [] then Some 0 else signed_number rest) of
        None \<Rightarrow> None
      | Some offset \<Rightarrow>
          (if name = ''DEBUG'' then Some (wrap64 (- 4 + offset))
           else if name = ''INFO'' then Some (wrap64 offset)
           else if name = ''WARN'' then Some (wrap64 (4 + offset))
           else if name = ''ERROR'' then Some (wrap64 (8 + offset))
           else None))"

definition validate_log_level :: "service_config \<Rightarrow> config_error option" where
  "validate_log_level c = fails (level_unmarshal (cf_log_level c) = None) (BadLogLevel (cf_log_level c))"

definition validate_runtime_zeros :: "service_config \<Rightarrow> config_error option" where
  "validate_runtime_zeros c =
     first_error
       [fails (clc_cache_ttl (cf_license c) \<le> 0) (NotPositive ''license.cache_ttl''),
        fails (csv_max_recv_msg_size (cf_server c) \<le> 0) (NotPositive ''server.max_recv_msg_size''),
        fails (csv_max_concurrent_streams (cf_server c) \<le> 0) (NotPositive ''server.max_concurrent_streams''),
        fails (cau_flush_timeout (cf_audit c) \<le> 0) (NotPositive ''audit.flush_timeout''),
        fails (cau_partition_check_interval (cf_audit c) \<le> 0) (NotPositive ''audit.partition_check_interval''),
        fails (cau_partition_op_timeout (cf_audit c) \<le> 0) (NotPositive ''audit.partition_op_timeout'')]"

subsection \<open>Validate\<close>

definition validate ::
  "(string \<Rightarrow> 'p result) \<Rightarrow> (string \<Rightarrow> string result) \<Rightarrow> service_config \<Rightarrow> config_error option" where
  "validate parse_prefix url_host c =
     (let s = cf_server c; ports = csv_port s; tls = csv_tls s; r = cf_registry c in
      first_error
        [fails (port_grpc ports = []) (Required ''server.port.grpc''),
         fails (port_metric ports = []) (Required ''server.port.metric''),
         fails (port_health ports = []) (Required ''server.port.health''),
         fails (port_mcp ports = []) (Required ''server.port.mcp''),
         validate_ports c,
         fails ((tls_cert_file tls \<noteq> []) \<noteq> (tls_key_file tls \<noteq> [])) TLSHalfSet,
         fails (tls_client_ca_file tls \<noteq> [] \<and> \<not> tls_enabled tls) ClientCAWithoutTLS,
         error_of (trusted_proxy_prefixes parse_prefix (csv_trusted_proxies s)),
         fails (crg_max_output_size r \<le> 0) (NotPositive ''registry.max_output_size''),
         fails (csv_max_send_msg_size s < crg_max_output_size r)
           (SendBelowOutput (csv_max_send_msg_size s) (crg_max_output_size r)),
         fails (cf_postgres c = []) NoDSN,
         validate_dsn url_host (cf_postgres c),
         validate_worker_pool c,
         fails (csv_force_shutdown_after s \<le> cw_generation_timeout (cf_worker_pool c))
           (ShutdownTooSoon (csv_force_shutdown_after s) (cw_generation_timeout (cf_worker_pool c))),
         validate_rate_limit c,
         validate_audit c,
         map_option BadAuth (validate_auth (cf_write_tokens c)),
         validate_license_keys (clc_keys (cf_license c)),
         validate_s3 c,
         validate_s3_completeness c,
         validate_cache_size c,
         validate_telemetry c,
         validate_log_level c,
         validate_runtime_zeros c])"

subsection \<open>What an accepted configuration satisfies\<close>

text \<open>Every check of an accepted configuration passed.\<close>

lemma accepted_checks:
  assumes "validate parse_prefix url_host c = None"
  shows "validate_ports c = None" "error_of (trusted_proxy_prefixes parse_prefix (csv_trusted_proxies (cf_server c))) = None"
    "0 < crg_max_output_size (cf_registry c)" "crg_max_output_size (cf_registry c) \<le> csv_max_send_msg_size (cf_server c)"
    "validate_worker_pool c = None" "cw_generation_timeout (cf_worker_pool c) < csv_force_shutdown_after (cf_server c)"
    "validate_rate_limit c = None" "validate_audit c = None" "validate_auth (cf_write_tokens c) = None"
    "validate_license_keys (clc_keys (cf_license c)) = None" "validate_s3 c = None" "validate_s3_completeness c = None"
    "validate_cache_size c = None" "validate_telemetry c = None" "validate_log_level c = None" "validate_runtime_zeros c = None"
    "validate_dsn url_host (cf_postgres c) = None"
    "(tls_cert_file (csv_tls (cf_server c)) \<noteq> []) = (tls_key_file (csv_tls (cf_server c)) \<noteq> [])"
    "tls_client_ca_file (csv_tls (cf_server c)) = [] \<or> mutual_tls (csv_tls (cf_server c))"
  using assms unfolding validate_def Let_def first_error_None
  by (simp_all add: mutual_tls_def not_le not_less, blast)

lemma accepted_worker_pool:
  assumes "validate_worker_pool c = None"
  shows "0 < cw_workers (cf_worker_pool c)" "0 < cw_queue_size (cf_worker_pool c)"
    "0 < cw_max_concurrent_generations (cf_worker_pool c)" "0 < cw_generation_timeout (cf_worker_pool c)"
    "0 < cw_shutdown_timeout (cf_worker_pool c)" "0 \<le> cw_max_retries (cf_worker_pool c)"
  using assms unfolding validate_worker_pool_def Let_def first_error_None by (simp_all add: not_le not_less)

lemma accepted_rate_limit:
  assumes "validate_rate_limit c = None"
  shows "\<not> float_le_zero (cx_requests_per_second (cf_rate_limit c))" "0 < cx_burst (cf_rate_limit c)"
    "0 < cx_cleanup_interval (cf_rate_limit c)"
  using assms unfolding validate_rate_limit_def Let_def first_error_None by (simp_all add: not_le not_less)

lemma accepted_audit:
  assumes "validate_audit c = None"
  shows "0 < cau_buffer_size (cf_audit c)" "0 < cau_batch_size (cf_audit c)" "0 < cau_flush_interval (cf_audit c)"
    "0 \<le> cau_max_save_retries (cf_audit c)" "0 \<le> cau_retention_months (cf_audit c)" "0 \<le> cau_pre_create_months (cf_audit c)"
    "0 < cau_retention_months (cf_audit c) \<Longrightarrow> cau_pre_create_months (cf_audit c) \<le> cau_retention_months (cf_audit c)"
  using assms unfolding validate_audit_def Let_def first_error_None
  by (simp_all add: not_le not_less retention_wanted_def)

lemma accepted_runtime_zeros:
  assumes "validate_runtime_zeros c = None"
  shows "0 < clc_cache_ttl (cf_license c)" "0 < csv_max_recv_msg_size (cf_server c)"
    "0 < csv_max_concurrent_streams (cf_server c)" "0 < cau_flush_timeout (cf_audit c)"
    "0 < cau_partition_check_interval (cf_audit c)" "0 < cau_partition_op_timeout (cf_audit c)"
  using assms unfolding validate_runtime_zeros_def first_error_None by (simp_all add: not_le)

lemma accepted_cache_size:
  assumes "validate_cache_size c = None"
  shows "0 \<le> crg_cache_max_bytes (cf_registry c)"
    "0 < crg_cache_max_bytes (cf_registry c) \<Longrightarrow> crg_max_output_size (cf_registry c) \<le> crg_cache_max_bytes (cf_registry c)"
  using assms unfolding validate_cache_size_def Let_def first_error_None by (simp_all add: not_le not_less)

text \<open>The keys of the licence are accepted whatever the order Go visits them in.\<close>

lemma license_keys_accepted:
  "validate_license_keys keys = None \<longleftrightarrow>
     (\<forall>(kid, hex_key) \<in> set keys. kid \<noteq> [] \<and> CHR '','' \<notin> set kid \<and> CHR '':'' \<notin> set kid
        \<and> length (trim_space hex_key) = hex_ed25519_key_length \<and> hex_decode (trim_space hex_key) \<noteq> None)"
proof (induction keys rule: validate_license_keys.induct)
  case (2 kid hex_key keys)
  have "validate_hex_key name hex_key = None \<longleftrightarrow>
      length (trim_space hex_key) = hex_ed25519_key_length \<and> hex_decode (trim_space hex_key) \<noteq> None" for name
    by (auto simp: validate_hex_key_def Let_def split: option.split)
  then show ?case using 2 by (auto split: option.split)
qed simp

text \<open>The numbers of a list of ports that was accepted after the ports \<open>seen\<close>.\<close>

lemma check_ports_accepted:
  "check_ports seen ports = None \<Longrightarrow>
     list_all (\<lambda>(name, raw). parse_port name raw = Inr (digits_value (trim_space raw))) ports
     \<and> distinct (map (\<lambda>(name, raw). digits_value (trim_space raw)) ports)
     \<and> set (map (\<lambda>(name, raw). digits_value (trim_space raw)) ports) \<inter> fst ` set seen = {}"
proof (induction seen ports rule: check_ports.induct)
  case (2 seen name raw ports)
  obtain n where n: "parse_port name raw = Inr n" "map_of seen n = None" "check_ports ((n, name) # seen) ports = None"
    using 2(2) by (auto split: sum.splits option.splits)
  then have "n = digits_value (trim_space raw)" by (auto simp: parse_port_def Let_def split: if_splits)
  moreover have "n \<notin> fst ` set seen" using n(2) by (simp add: map_of_eq_None_iff)
  ultimately show ?case using 2(1) [OF n(1,2,3)] n by auto
qed simp

lemma parse_port_range: "parse_port name raw = Inr n \<Longrightarrow> 0 < n \<and> n \<le> 65535"
  by (auto simp: parse_port_def Let_def split: if_splits)

text \<open>
  In an accepted configuration the four listeners parse to four different ports between 1 and 65535.
\<close>

theorem listeners_distinct:
  assumes "validate parse_prefix url_host c = None"
  shows "\<exists>g m h p. distinct [g, m, h, p] \<and> list_all (\<lambda>n. 0 < n \<and> n \<le> 65535) [g, m, h, p]
    \<and> parse_port ''server.port.grpc'' (port_grpc (csv_port (cf_server c))) = Inr g
    \<and> parse_port ''server.port.metric'' (port_metric (csv_port (cf_server c))) = Inr m
    \<and> parse_port ''server.port.health'' (port_health (csv_port (cf_server c))) = Inr h
    \<and> parse_port ''server.port.mcp'' (port_mcp (csv_port (cf_server c))) = Inr p"
  using check_ports_accepted [OF accepted_checks(1) [OF assms, unfolded validate_ports_def]] parse_port_range
  by (auto simp: named_ports_def)

text \<open>The defaults of the struct tags, with a DSN, are accepted.\<close>

definition default_settings :: service_config where
  "default_settings =
     \<lparr>cf_server = \<lparr>csv_host = ''0.0.0.0'',
        csv_port = \<lparr>port_grpc = ''23410'', port_metric = ''23411'', port_health = ''23412'', port_mcp = ''23413''\<rparr>,
        csv_tls = \<lparr>tls_cert_file = [], tls_key_file = [], tls_client_ca_file = []\<rparr>,
        csv_force_shutdown_after = 150 * 1000000000, csv_trusted_proxies = [], csv_max_recv_msg_size = 67108864,
        csv_max_send_msg_size = 67108864, csv_max_concurrent_streams = 256\<rparr>,
      cf_postgres = ''host=localhost user=easyp'',
      cf_registry = \<lparr>crg_plugins_dir = ''/plugins'', crg_max_output_size = 67108864, crg_cache_max_bytes = 21474836480,
        crg_s3 = \<lparr>s3_endpoint = [], s3_bucket = [], s3_region = ''us-east-1'', s3_prefix = [], s3_access_key_id = [],
          s3_secret_access_key = [], s3_force_path_style = False\<rparr>\<rparr>,
      cf_telemetry = \<lparr>ct_otlp_endpoint = [], ct_pyroscope_endpoint = [], ct_service_tier = []\<rparr>,
      cf_worker_pool = \<lparr>cw_workers = 4, cw_queue_size = 16, cw_max_concurrent_generations = 16,
        cw_generation_timeout = 120 * 1000000000, cw_max_retries = 2, cw_shutdown_timeout = 30 * 1000000000\<rparr>,
      cf_license = \<lparr>clc_key = [], clc_file = [], clc_keys = [], clc_cache_ttl = 300 * 1000000000\<rparr>,
      cf_rate_limit = \<lparr>cx_requests_per_second = Finite 10, cx_burst = 20, cx_cleanup_interval = 600 * 1000000000,
        cx_max_concurrent_per_ip = 2\<rparr>,
      cf_audit = \<lparr>cau_buffer_size = 1000, cau_batch_size = 100, cau_flush_interval = 1000000000, cau_max_save_retries = 3,
        cau_enqueue_timeout = 1000000000, cau_flush_timeout = 5 * 1000000000, cau_retention_months = 12,
        cau_pre_create_months = 3, cau_partition_check_interval = 21600 * 1000000000,
        cau_partition_op_timeout = 30 * 1000000000\<rparr>,
      cf_write_tokens = [], cf_mcp_enabled = False, cf_log_level = ''info''\<rparr>"

definition no_parser :: "string \<Rightarrow> string result" where
  "no_parser s = Inl (plain_error ''not parsed'')"

lemma default_ports: "check_ports [] (named_ports (csv_port (cf_server default_settings))) = None"
  by (simp add: default_settings_def named_ports_def parse_port_def trim_space_def trim_left_def is_space_def
      digits_value_def digit_value_def is_digit_def)

lemma default_dsn: "validate_dsn no_parser (cf_postgres default_settings) = None"
  by (simp add: default_settings_def validate_dsn_def trim_space_def trim_left_def is_space_def has_prefix_def
      fields_of.simps is_keyword_pair_def)

lemma default_level: "level_unmarshal ''info'' \<noteq> None"
  by code_simp

lemmas validation_checks =
  validate_def validate_ports_def validate_worker_pool_def validate_rate_limit_def validate_audit_def
  validate_s3_def validate_s3_completeness_def validate_cache_size_def validate_telemetry_def
  validate_log_level_def validate_runtime_zeros_def fails_def error_of_def retention_wanted_def
  s3_enabled_def tls_enabled_def validate_auth_def

lemma default_settings_accepted: "validate no_parser no_parser default_settings = None"
  using default_ports default_dsn default_level by (simp add: validation_checks default_settings_def)

theorem listeners_distinct_witness:
  "\<exists>g m h p. distinct [g, m, h, p] \<and> list_all (\<lambda>n. 0 < n \<and> n \<le> 65535) [g, m, h, p]
    \<and> parse_port ''server.port.grpc'' (port_grpc (csv_port (cf_server default_settings))) = Inr g
    \<and> parse_port ''server.port.metric'' (port_metric (csv_port (cf_server default_settings))) = Inr m
    \<and> parse_port ''server.port.health'' (port_health (csv_port (cf_server default_settings))) = Inr h
    \<and> parse_port ''server.port.mcp'' (port_mcp (csv_port (cf_server default_settings))) = Inr p"
  by (rule listeners_distinct [OF default_settings_accepted])

text \<open>A rate that is no number is not refused: a comparison with NaN is false.\<close>

lemma nan_rate_accepted:
  "validate no_parser no_parser
     (default_settings\<lparr>cf_rate_limit := (cf_rate_limit default_settings)\<lparr>cx_requests_per_second := NaN\<rparr>\<rparr>) = None"
  using default_ports default_dsn default_level by (simp add: validation_checks default_settings_def)

end
