(* ===== verification/Storage.thy ===== *)
theory Storage
  imports Validation Registry "HOL-Library.Multiset"
begin

text \<open>
  Object storage (\<^verbatim>\<open>internal/adapters/storage/s3.go\<close>) over a bucket, the map from full keys to objects. What
  the S3 client fails with is a parameter per operation. The locale \<open>object_store\<close> is what the service
  and the publication commands rely on; its lemmas hold for every store, and the adapter is an instance
  of it for keys that do not begin with a slash, whatever the prefix.
\<close>

subsection \<open>The adapter\<close>

type_synonym bucket = "string \<rightharpoonup> string"

record s3_storage =
  st_bucket :: string
  st_prefix :: string
  st_static_credentials :: bool      \<comment> \<open>false: the default credential chain\<close>

definition err_bucket_required :: go_error where
  "err_bucket_required = plain_error ''s3 bucket cannot be empty''"

definition new_s3_storage :: "go_error option \<Rightarrow> s3_config \<Rightarrow> s3_storage result" where
  "new_s3_storage config_fails opts =
     (if s3_bucket opts = [] then Inl err_bucket_required
      else
        let static = (s3_access_key_id opts \<noteq> [] \<and> s3_secret_access_key opts \<noteq> []) in
        case config_fails of
          Some e \<Rightarrow> Inl (wrap ''awsconfig.LoadDefaultConfig: '' e)
        | None \<Rightarrow>
            (let prefix = s3_prefix opts in
             Inr \<lparr>st_bucket = s3_bucket opts,
                  st_prefix = (if prefix \<noteq> [] \<and> \<not> has_suffix prefix ''/'' then prefix @ ''/'' else prefix),
                  st_static_credentials = static\<rparr>))"

definition format_key :: "s3_storage \<Rightarrow> string \<Rightarrow> string" where
  "format_key st key = st_prefix st @ (if has_prefix key ''/'' then tl key else key)"

text \<open>
  What the client, and the file system a download writes to, fail with on their own; the object that is
  not there is the bucket's answer.
\<close>

record local_file =
  lo_mkdir :: "go_error option"
  lo_create :: "go_error option"
  lo_write :: "go_error option"
  lo_close :: "go_error option"
  lo_rename :: "go_error option"

record s3_client =
  sc_file :: local_file
  sc_get :: "string \<Rightarrow> go_error option"
  sc_read :: "string \<Rightarrow> go_error option"
  sc_put :: "string \<Rightarrow> go_error option"
  sc_head :: "string \<Rightarrow> go_error option"
  sc_delete :: "string \<Rightarrow> go_error option"

definition no_such_key :: go_error where "no_such_key = plain_error ''NoSuchKey''"

definition get_object :: "s3_client \<Rightarrow> bucket \<Rightarrow> string \<Rightarrow> string result" where
  "get_object cl b key =
     (case sc_get cl key of Some e \<Rightarrow> Inl e | None \<Rightarrow> (case b key of None \<Rightarrow> Inl no_such_key | Some c \<Rightarrow> Inr c))"

text \<open>\<open>Open\<close> and what reading its stream yields.\<close>

definition s3_open :: "s3_client \<Rightarrow> s3_storage \<Rightarrow> bucket \<Rightarrow> string \<Rightarrow> (string result) result" where
  "s3_open cl st b key =
     (case get_object cl b (format_key st key) of
        Inl e \<Rightarrow> Inl (wrap ''s3.GetObject: '' e)
      | Inr c \<Rightarrow> Inr (case sc_read cl (format_key st key) of Some e \<Rightarrow> Inl e | None \<Rightarrow> Inr c))"

text \<open>\<open>Download\<close>: a temporary file beside the target, moved into place when it is complete.\<close>

definition s3_download :: "s3_client \<Rightarrow> s3_storage \<Rightarrow> bucket \<Rightarrow> string \<Rightarrow> string result" where
  "s3_download cl st b key =
     (case get_object cl b (format_key st key) of
        Inl e \<Rightarrow> Inl (wrap ''s3.GetObject: '' e)
      | Inr c \<Rightarrow>
          (let f = sc_file cl in
           case lo_mkdir f of
             Some e \<Rightarrow> Inl (wrap ''os.MkdirAll: '' e)
           | None \<Rightarrow> (case lo_create f of
             Some e \<Rightarrow> Inl (wrap ''os.CreateTemp: '' e)
           | None \<Rightarrow> (case (sc_read cl (format_key st key), lo_write f) of
             (Some e, _) \<Rightarrow> Inl (wrap ''io.Copy: '' e)
           | (None, Some e) \<Rightarrow> Inl (wrap ''io.Copy: '' e)
           | (None, None) \<Rightarrow> (case lo_close f of
             Some e \<Rightarrow> Inl (wrap ''tmpFile.Close: '' e)
           | None \<Rightarrow> (case lo_rename f of
             Some e \<Rightarrow> Inl (wrap ''os.Rename: '' e)
           | None \<Rightarrow> Inr c))))))"

definition s3_upload_file ::
  "s3_client \<Rightarrow> s3_storage \<Rightarrow> bucket \<Rightarrow> string \<Rightarrow> string result \<Rightarrow> go_error option \<times> bucket" where
  "s3_upload_file cl st b key file =
     (case file of
        Inl e \<Rightarrow> (Some (wrap ''os.Open: '' e), b)
      | Inr content \<Rightarrow>
          (case sc_put cl (format_key st key) of
             Some e \<Rightarrow> (Some (wrap ''s3.PutObject: '' e), b)
           | None \<Rightarrow> (None, b(format_key st key \<mapsto> content))))"

definition s3_exists :: "s3_client \<Rightarrow> s3_storage \<Rightarrow> bucket \<Rightarrow> string \<Rightarrow> bool result" where
  "s3_exists cl st b key =
     (case sc_head cl (format_key st key) of
        Some e \<Rightarrow> Inl (wrap ''s3.HeadObject: '' e)
      | None \<Rightarrow> Inr (b (format_key st key) \<noteq> None))"

definition s3_delete :: "s3_client \<Rightarrow> s3_storage \<Rightarrow> bucket \<Rightarrow> string \<Rightarrow> go_error option \<times> bucket" where
  "s3_delete cl st b key =
     (case sc_delete cl (format_key st key) of
        Some e \<Rightarrow> (Some (wrap ''s3.DeleteObject: '' e), b)
      | None \<Rightarrow> (None, b(format_key st key := None)))"

text \<open>The service as it sees this storage.\<close>

definition with_storage :: "s3_client \<Rightarrow> s3_storage \<Rightarrow> bucket \<Rightarrow> outside \<Rightarrow> outside" where
  "with_storage cl st b ou =
     ou\<lparr>ou_open := s3_open cl st b, ou_exists := s3_exists cl st b, ou_download := s3_download cl st b\<rparr>"

definition quiet_file :: local_file where
  "quiet_file = \<lparr>lo_mkdir = None, lo_create = None, lo_write = None, lo_close = None, lo_rename = None\<rparr>"

lemma download_quiet:
  "sc_file cl = quiet_file \<Longrightarrow> sc_read cl (format_key st key) = None \<Longrightarrow> get_object cl b (format_key st key) = Inr c \<Longrightarrow>
   s3_download cl st b key = Inr c"
  by (simp add: s3_download_def quiet_file_def)

definition quiet_client :: s3_client where
  "quiet_client = \<lparr>sc_file = quiet_file,
     sc_get = (\<lambda>_. None), sc_read = (\<lambda>_. None), sc_put = (\<lambda>_. None), sc_head = (\<lambda>_. None), sc_delete = (\<lambda>_. None)\<rparr>"

subsection \<open>What the service relies on\<close>

text \<open>A store as its clients see it when nothing fails: \<open>ok\<close> are the keys that are used.\<close>

locale object_store =
  fixes put :: "'s \<Rightarrow> string \<Rightarrow> string \<Rightarrow> 's"
    and obtain_object :: "'s \<Rightarrow> string \<Rightarrow> string option"
    and discard :: "'s \<Rightarrow> string \<Rightarrow> 's"
    and ok :: "string \<Rightarrow> bool"
  assumes get_put: "ok k \<Longrightarrow> ok k' \<Longrightarrow> obtain_object (put s k c) k' = (if k' = k then Some c else obtain_object s k')"
    and get_discard: "ok k \<Longrightarrow> ok k' \<Longrightarrow> obtain_object (discard s k) k' = (if k' = k then None else obtain_object s k')"
begin

lemma stored_last:
  assumes "\<forall>(k, c) \<in> set kcs. ok k" "ok k" "distinct (map fst kcs)"
  shows "obtain_object (fold (\<lambda>(k, c) s. put s k c) kcs s) k =
    (case map_of kcs k of None \<Rightarrow> obtain_object s k | Some c \<Rightarrow> Some c)"
  using assms
proof (induction kcs arbitrary: s)
  case (Cons x kcs)
  obtain k0 c0 where x: "x = (k0, c0)" by (cases x)
  have "k0 \<notin> fst ` set kcs" using Cons.prems(3) x by simp
  then have "map_of kcs k0 = None" by (simp add: map_of_eq_None_iff)
  then show ?case using Cons x get_put [of k0 k] by (auto split: option.splits)
qed simp

text \<open>Uploads of different objects can be done in any order.\<close>

lemma upload_order:
  assumes "\<forall>(k, c) \<in> set kcs. ok k" "distinct (map fst kcs)" "mset kcs' = mset kcs" "ok k"
  shows "obtain_object (fold (\<lambda>(k, c) s. put s k c) kcs' s) k = obtain_object (fold (\<lambda>(k, c) s. put s k c) kcs s) k"
proof -
  have s: "set kcs' = set kcs" using assms(3) by (rule mset_eq_setD)
  have d: "distinct (map fst kcs')" using assms(2,3) by (metis mset_eq_imp_distinct_iff mset_map)
  have "map_of kcs' k = map_of kcs k"
    using s d assms(2) by (metis map_of_inject_set)
  then show ?thesis using stored_last [of kcs' k s] stored_last [of kcs k s] assms s d by simp
qed

lemma discarded: "ok k \<Longrightarrow> obtain_object (discard (put s k c) k) k = None"
  using get_discard [of k k] by simp

end

definition relative_key :: "string \<Rightarrow> bool" where
  "relative_key key = (\<not> has_prefix key ''/'')"

lemma format_key_inj: "relative_key k \<Longrightarrow> relative_key k' \<Longrightarrow> format_key st k' = format_key st k \<longleftrightarrow> k' = k"
  by (simp add: format_key_def relative_key_def)

definition s3_object :: "s3_client \<Rightarrow> s3_storage \<Rightarrow> bucket \<Rightarrow> string \<Rightarrow> string option" where
  "s3_object cl st b key = (case s3_download cl st b key of Inl e \<Rightarrow> None | Inr c \<Rightarrow> Some c)"

text \<open>Every storage is an object store, where the client answers.\<close>

interpretation s3: object_store
  "\<lambda>b k c. snd (s3_upload_file quiet_client st b k (Inr c))"
  "s3_object quiet_client st"
  "\<lambda>b k. snd (s3_delete quiet_client st b k)"
  relative_key
  for st
  by unfold_locales
    (auto simp: s3_upload_file_def s3_delete_def s3_object_def s3_download_def get_object_def quiet_client_def quiet_file_def format_key_inj
      split: option.split)

end
