(* ===== verification/Loading.thy ===== *)
theory Loading
  imports Validation "HOL-Library.AList"
begin

text \<open>
  Resolving a configuration: the environment with its alternative names (\<^verbatim>\<open>internal/config/alias.go\<close>), the
  document, the defaults, their merge and the checks on the result (\<open>load\<close>, \<open>mergeFileValues\<close> and the rest
  of \<^verbatim>\<open>internal/config/config.go\<close>), the printed form (\<^verbatim>\<open>cmd/easyp-svc/config.go\<close>). The YAML library, envconfig and
  the file are parameters. A Config under reflection is the table of its settings by name; \<open>config_of\<close>
  is the same value as structs. The lemmas show the precedence environment, file, default for every
  setting, that an accepted document names only settings, and that no secret is printed.
\<close>

subsection \<open>Values of settings\<close>

datatype setting =
    SString string | SInt int | SFloat go_float | SBool bool | SDuration int
  | SStrings "string list" | SMap "(string \<times> string) list" | STokens "write_token list"

type_synonym settings = "string \<Rightarrow> setting"

fun zero_of :: "field_type \<Rightarrow> setting" where
  "zero_of TString = SString []"
| "zero_of TFloat = SFloat (Finite 0)"
| "zero_of TBool = SBool False"
| "zero_of TDuration = SDuration 0"
| "zero_of TStrings = SStrings []"
| "zero_of TStringMap = SMap []"
| "zero_of TTokens = STokens []"
| "zero_of _ = SInt 0"

definition type_of_leaf :: "leaf \<Rightarrow> field_type option" where
  "type_of_leaf l =
     (case field_by_index config_fields (lf_index l) of None \<Rightarrow> None | Some (Field n e y s t) \<Rightarrow> Some t)"

definition zero_setting :: "leaf \<Rightarrow> setting" where
  "zero_setting l = (case type_of_leaf l of None \<Rightarrow> SString [] | Some t \<Rightarrow> zero_of t)"

definition zero_settings :: settings where
  "zero_settings name = (case find (\<lambda>l. lf_name l = name) leaves of None \<Rightarrow> SString [] | Some l \<Rightarrow> zero_setting l)"

fun str_of :: "setting \<Rightarrow> string" where "str_of (SString s) = s" | "str_of _ = []"
fun int_of :: "setting \<Rightarrow> int" where "int_of (SInt i) = i" | "int_of (SDuration i) = i" | "int_of _ = 0"
fun float_of :: "setting \<Rightarrow> go_float" where "float_of (SFloat f) = f" | "float_of _ = Finite 0"
fun bool_of :: "setting \<Rightarrow> bool" where "bool_of (SBool b) = b" | "bool_of _ = False"
fun strings_of :: "setting \<Rightarrow> string list" where "strings_of (SStrings s) = s" | "strings_of _ = []"
fun map_pairs_of :: "setting \<Rightarrow> (string \<times> string) list" where "map_pairs_of (SMap m) = m" | "map_pairs_of _ = []"
fun tokens_of :: "setting \<Rightarrow> write_token list" where "tokens_of (STokens t) = t" | "tokens_of _ = []"

definition config_of :: "settings \<Rightarrow> service_config" where
  "config_of t =
     \<lparr>cf_server = \<lparr>csv_host = str_of (t ''server.host''),
        csv_port = \<lparr>port_grpc = str_of (t ''server.port.grpc''), port_metric = str_of (t ''server.port.metric''),
          port_health = str_of (t ''server.port.health''), port_mcp = str_of (t ''server.port.mcp'')\<rparr>,
        csv_tls = \<lparr>tls_cert_file = str_of (t ''server.tls.cert_file''), tls_key_file = str_of (t ''server.tls.key_file''),
          tls_client_ca_file = str_of (t ''server.tls.client_ca_file'')\<rparr>,
        csv_force_shutdown_after = int_of (t ''server.force_shutdown_after''),
        csv_trusted_proxies = strings_of (t ''server.trusted_proxies''),
        csv_max_recv_msg_size = int_of (t ''server.max_recv_msg_size''),
        csv_max_send_msg_size = int_of (t ''server.max_send_msg_size''),
        csv_max_concurrent_streams = int_of (t ''server.max_concurrent_streams'')\<rparr>,
      cf_postgres = str_of (t ''db.postgres''),
      cf_registry = \<lparr>crg_plugins_dir = str_of (t ''registry.plugins_dir''),
        crg_max_output_size = int_of (t ''registry.max_output_size''),
        crg_cache_max_bytes = int_of (t ''registry.cache_max_bytes''),
        crg_s3 = \<lparr>s3_endpoint = str_of (t ''registry.s3.endpoint''), s3_bucket = str_of (t ''registry.s3.bucket''),
          s3_region = str_of (t ''registry.s3.region''), s3_prefix = str_of (t ''registry.s3.prefix''),
          s3_access_key_id = str_of (t ''registry.s3.access_key_id''),
          s3_secret_access_key = str_of (t ''registry.s3.secret_access_key''),
          s3_force_path_style = bool_of (t ''registry.s3.force_path_style'')\<rparr>\<rparr>,
      cf_telemetry = \<lparr>ct_otlp_endpoint = str_of (t ''telemetry.otlp_endpoint''),
        ct_pyroscope_endpoint = str_of (t ''telemetry.pyroscope_endpoint''),
        ct_service_tier = str_of (t ''telemetry.service_tier'')\<rparr>,
      cf_worker_pool = \<lparr>cw_workers = int_of (t ''worker_pool.workers''),
        cw_queue_size = int_of (t ''worker_pool.queue_size''),
        cw_max_concurrent_generations = int_of (t ''worker_pool.max_concurrent_generations''),
        cw_generation_timeout = int_of (t ''worker_pool.generation_timeout''),
        cw_max_retries = int_of (t ''worker_pool.max_retries''),
        cw_shutdown_timeout = int_of (t ''worker_pool.shutdown_timeout'')\<rparr>,
      cf_license = \<lparr>clc_key = str_of (t ''license.key''), clc_file = str_of (t ''license.file''),
        clc_keys = map_pairs_of (t ''license.public_keys''), clc_cache_ttl = int_of (t ''license.cache_ttl'')\<rparr>,
      cf_rate_limit = \<lparr>cx_requests_per_second = float_of (t ''rate_limit.requests_per_second''),
        cx_burst = int_of (t ''rate_limit.burst''), cx_cleanup_interval = int_of (t ''rate_limit.cleanup_interval''),
        cx_max_concurrent_per_ip = int_of (t ''rate_limit.max_concurrent_per_ip'')\<rparr>,
      cf_audit = \<lparr>cau_buffer_size = int_of (t ''audit.buffer_size''), cau_batch_size = int_of (t ''audit.batch_size''),
        cau_flush_interval = int_of (t ''audit.flush_interval''),
        cau_max_save_retries = int_of (t ''audit.max_save_retries''),
        cau_enqueue_timeout = int_of (t ''audit.enqueue_timeout''), cau_flush_timeout = int_of (t ''audit.flush_timeout''),
        cau_retention_months = int_of (t ''audit.retention_months''),
        cau_pre_create_months = int_of (t ''audit.pre_create_months''),
        cau_partition_check_interval = int_of (t ''audit.partition_check_interval''),
        cau_partition_op_timeout = int_of (t ''audit.partition_op_timeout'')\<rparr>,
      cf_write_tokens = tokens_of (t ''auth.write_tokens''), cf_mcp_enabled = bool_of (t ''mcp.enabled''),
      cf_log_level = str_of (t ''log.level'')\<rparr>"

subsection \<open>The environment\<close>

text \<open>\<open>os.LookupEnv\<close> over the entries of \<open>os.Environ\<close>; a variable that is set but empty counts as unset.\<close>

definition os_lookup :: "string list \<Rightarrow> string \<Rightarrow> string option" where
  "os_lookup environ key = map_of (List.map_filter (cut_at CHR ''='') environ) key"

definition empty_is_unset :: "(string \<Rightarrow> string option) \<Rightarrow> string \<Rightarrow> string option" where
  "empty_is_unset inner key = (case inner key of None \<Rightarrow> None | Some v \<Rightarrow> if v = [] then None else Some v)"

text \<open>The lookup under alternative names, with the record of the alternatives that supplied a value.\<close>

type_synonym used_aliases = "(string \<times> string) list"

definition alias_lookup ::
  "(string \<Rightarrow> string option) \<Rightarrow> string \<Rightarrow> used_aliases \<Rightarrow> string option \<times> used_aliases" where
  "alias_lookup inner key used =
     (case inner key of
        Some v \<Rightarrow> (Some v, used)
      | None \<Rightarrow>
          (case find (\<lambda>a. inner a \<noteq> None) (env_aliases key) of
             None \<Rightarrow> (None, used)
           | Some a \<Rightarrow> (inner a, AList.update key a used)))"

definition environment_lookuper :: "string list \<Rightarrow> string \<Rightarrow> string option" where
  "environment_lookuper environ = empty_is_unset (os_lookup environ)"

definition found :: "(string \<Rightarrow> string option) \<Rightarrow> string \<Rightarrow> string option" where
  "found inner key = fst (alias_lookup inner key [])"

lemma alias_lookup_found: "fst (alias_lookup inner key used) = found inner key"
  by (simp add: found_def alias_lookup_def split: option.split)

subsection \<open>Origins and the merge\<close>

datatype origin = OriginDefault | OriginFile | OriginEnv

definition origin_string :: "origin \<Rightarrow> string" where
  "origin_string o' = (case o' of OriginEnv \<Rightarrow> source_env | OriginFile \<Rightarrow> source_file | OriginDefault \<Rightarrow> ''default'')"

type_synonym origins = "(string \<times> origin) list"

fun environment_origins ::
  "(string \<Rightarrow> string option) \<Rightarrow> leaf list \<Rightarrow> used_aliases \<Rightarrow> origins \<times> used_aliases" where
  "environment_origins inner [] used = ([], used)"
| "environment_origins inner (l # ls) used =
     (case alias_lookup inner (lf_env l) used of
        (v, used1) \<Rightarrow>
          (case environment_origins inner ls used1 of
             (rest, used2) \<Rightarrow> ((lf_name l, if v = None then OriginDefault else OriginEnv) # rest, used2)))"

text \<open>A decoded document, as far as the merge looks into it.\<close>

datatype ydoc = DMap "(string \<times> ydoc) list" | DOther

fun document_has_key :: "(string \<times> ydoc) list \<Rightarrow> string list \<Rightarrow> bool" where
  "document_has_key doc [] = False"
| "document_has_key doc [key] = (map_of doc key \<noteq> None)"
| "document_has_key doc (key # rest) =
     (case map_of doc key of Some (DMap below) \<Rightarrow> document_has_key below rest | _ \<Rightarrow> False)"

fun merge_file_values ::
  "settings \<Rightarrow> (string \<times> ydoc) list \<Rightarrow> (string \<Rightarrow> string option) \<Rightarrow> leaf list \<Rightarrow> settings \<Rightarrow> used_aliases
   \<Rightarrow> settings \<times> origins \<times> used_aliases" where
  "merge_file_values from_file doc inner [] resolved used = (resolved, [], used)"
| "merge_file_values from_file doc inner (l # ls) resolved used =
     (case alias_lookup inner (lf_env l) used of
        (Some v, used1) \<Rightarrow>
          (case merge_file_values from_file doc inner ls resolved used1 of
             (r, os, used2) \<Rightarrow> (r, (lf_name l, OriginEnv) # os, used2))
      | (None, used1) \<Rightarrow>
          if document_has_key doc (lf_path l) then
            (case merge_file_values from_file doc inner ls (resolved(lf_name l := from_file (lf_name l))) used1 of
               (r, os, used2) \<Rightarrow> (r, (lf_name l, OriginFile) # os, used2))
          else
            (case merge_file_values from_file doc inner ls resolved used1 of
               (r, os, used2) \<Rightarrow> (r, (lf_name l, OriginDefault) # os, used2)))"

subsection \<open>Loading\<close>

text \<open>
  The outside of the loader: the file, the YAML decoder (its first and second document, the decoding of a
  document into the struct with its type errors, and into a map), envconfig (the variables it asks
  for, and the struct it fills or its error), and the parsers of the validation.
\<close>

record 'p loader =
  ld_read :: "string \<Rightarrow> string result"
  ld_first :: "string \<Rightarrow> ynode option result"
  ld_second :: "string \<Rightarrow> second_document"
  ld_decode_config :: "ynode \<Rightarrow> (settings \<times> string list) result"
  ld_decode_map :: "ynode \<Rightarrow> (string \<times> ydoc) list result"
  ld_process :: "(string \<Rightarrow> string option) \<Rightarrow> string list \<times> settings result"
  ld_order :: "string list"
  ld_parse_prefix :: "string \<Rightarrow> 'p result"
  ld_url_host :: "string \<Rightarrow> string result"

record load_result =
  lr_settings :: "settings option"
  lr_origins :: origins
  lr_diagnostics :: "diagnostic list"
  lr_aliases :: used_aliases

datatype load_error =
    LoadFailed go_error           \<comment> \<open>unreadable, unparsable, or refused by envconfig\<close>
  | Rejected go_error             \<comment> \<open>fatal diagnostics\<close>
  | Invalid config_error          \<comment> \<open>\<open>config validation\<close>\<close>

definition max_config_file_size :: nat where "max_config_file_size = 1048576"

definition no_result :: "diagnostic list \<Rightarrow> used_aliases \<Rightarrow> load_result" where
  "no_result ds used = \<lparr>lr_settings = None, lr_origins = [], lr_diagnostics = ds, lr_aliases = used\<rparr>"

definition parse_document :: "'p loader \<Rightarrow> string \<Rightarrow> (ynode option \<times> diagnostic list) result" where
  "parse_document ld text =
     (case ld_first ld text of
        Inl e \<Rightarrow> Inl (wrap ''parsing config YAML: '' e)
      | Inr None \<Rightarrow> Inr (None, [])
      | Inr (Some node) \<Rightarrow> Inr (Some node, second_document_diagnostics (ld_second ld text)))"

definition is_mapping :: "ynode \<Rightarrow> bool" where
  "is_mapping n = (case resolve_alias n of YMap l kvs \<Rightarrow> True | _ \<Rightarrow> False)"

definition decode_document ::
  "'p loader \<Rightarrow> ynode option \<Rightarrow> (settings \<times> (string \<times> ydoc) list \<times> diagnostic list) result" where
  "decode_document ld node =
     (case node of
        None \<Rightarrow> Inr (zero_settings, [], [])
      | Some n \<Rightarrow>
          (case ld_decode_config ld n of
             Inl e \<Rightarrow> Inl (wrap ''parsing config YAML: '' e)
           | Inr (from_file, type_errors) \<Rightarrow>
               let diags = map type_error_diagnostic type_errors in
               if is_mapping n then
                 (case ld_decode_map ld n of
                    Inl e \<Rightarrow> Inl (wrap ''parsing config YAML: '' e)
                  | Inr doc \<Rightarrow> Inr (from_file, doc, diags))
               else Inr (from_file, [], diags)))"

text \<open>\<open>applyEnv\<close>: what envconfig fills, and the alternatives its lookups used.\<close>

definition apply_env :: "'p loader \<Rightarrow> (string \<Rightarrow> string option) \<Rightarrow> settings result \<times> used_aliases" where
  "apply_env ld inner =
     (let (asked, result) = ld_process ld (found inner) in
      (case result of Inl e \<Rightarrow> Inl (wrap ''envconfig.ProcessWith: '' e) | Inr t \<Rightarrow> Inr t,
       fold (\<lambda>key used. snd (alias_lookup inner key used)) asked []))"

definition defaults :: "'p loader \<Rightarrow> settings result" where
  "defaults ld = fst (apply_env ld (\<lambda>_. None))"

definition finish :: "'p loader \<Rightarrow> settings \<Rightarrow> origins \<Rightarrow> diagnostic list \<Rightarrow> used_aliases \<Rightarrow> load_result \<times> load_error option" where
  "finish ld t os diags used =
     (\<lparr>lr_settings = Some t, lr_origins = os, lr_diagnostics = diags, lr_aliases = used\<rparr>,
      case diagnostics_err diags of
        Some e \<Rightarrow> Some (Rejected e)
      | None \<Rightarrow> map_option Invalid (validate (ld_parse_prefix ld) (ld_url_host ld) (config_of t)))"

definition load_file :: "'p loader \<Rightarrow> (string \<Rightarrow> string option) \<Rightarrow> string \<Rightarrow> load_result \<times> load_error option" where
  "load_file ld inner path =
     (case ld_read ld path of
        Inl e \<Rightarrow> (no_result [] [], Some (LoadFailed (wrap (''reading config file '' @ path @ '': '') e)))
      | Inr text \<Rightarrow>
          if length text > max_config_file_size then
            (no_result [] [], Some (LoadFailed (plain_error (''config file '' @ path @ '' is over the limit''))))
          else case parse_document ld text of
            Inl e \<Rightarrow> (no_result [] [], Some (LoadFailed e))
          | Inr (node0, diags0) \<Rightarrow>
              (case apply_yaml_aliases node0 yaml_aliases of
                 (node, renamed) \<Rightarrow>
                   (case decode_document ld node of
                      Inl e \<Rightarrow> (no_result [] [], Some (LoadFailed e))
                    | Inr (from_file, doc, decode_diags) \<Rightarrow>
                        let diags = diags0 @ renamed @ decode_diags @ document_diagnostics (ld_order ld) node in
                        case apply_env ld inner of
                          (Inl e, used) \<Rightarrow> (no_result diags used, Some (LoadFailed e))
                        | (Inr t, used) \<Rightarrow>
                            (case merge_file_values from_file doc inner leaves t used of
                               (merged, os, used1) \<Rightarrow> finish ld merged os diags used1))))"

definition load_from_env :: "'p loader \<Rightarrow> (string \<Rightarrow> string option) \<Rightarrow> load_result \<times> load_error option" where
  "load_from_env ld inner =
     (case apply_env ld inner of
        (Inl e, used) \<Rightarrow> (no_result [] used, Some (LoadFailed e))
      | (Inr t, used) \<Rightarrow>
          (case environment_origins inner leaves used of (os, used1) \<Rightarrow> finish ld t os [] used1))"

text \<open>\<open>Load\<close> and \<open>LoadFromEnv\<close> (no path) on the environment of the process; its findings are warnings.\<close>

definition with_environment_findings ::
  "string list \<Rightarrow> load_result \<times> load_error option \<Rightarrow> load_result \<times> load_error option" where
  "with_environment_findings environ r =
     ((fst r)\<lparr>lr_diagnostics := lr_diagnostics (fst r) @ unknown_env environ\<rparr>, snd r)"

definition load :: "'p loader \<Rightarrow> string list \<Rightarrow> string \<Rightarrow> load_result \<times> load_error option" where
  "load ld environ path =
     with_environment_findings environ
       (if path = [] then load_from_env ld (environment_lookuper environ)
        else load_file ld (environment_lookuper environ) path)"

subsection \<open>Environment, file, default\<close>

text \<open>
  What envconfig documents: a variable that is found is parsed into its field, else the default of the
  tag is, else the field keeps its zero value.
\<close>

definition reads_environment ::
  "(leaf \<Rightarrow> string \<Rightarrow> setting) \<Rightarrow> ((string \<Rightarrow> string option) \<Rightarrow> string list \<times> settings result) \<Rightarrow> bool" where
  "reads_environment parse process \<longleftrightarrow>
     (\<forall>lookup t. snd (process lookup) = Inr t \<longrightarrow>
        (\<forall>l \<in> set leaves. t (lf_name l) =
           (case lookup (lf_env l) of
              Some s \<Rightarrow> parse l s
            | None \<Rightarrow> if lf_has_default l then parse l (lf_default l) else zero_setting l)))"

text \<open>The layer a setting comes from, and its value.\<close>

definition layered ::
  "(leaf \<Rightarrow> string \<Rightarrow> setting) \<Rightarrow> (string \<Rightarrow> string option) \<Rightarrow> (string \<times> ydoc) list \<Rightarrow> settings \<Rightarrow> leaf \<Rightarrow> setting \<times> origin" where
  "layered parse inner doc from_file l =
     (case found inner (lf_env l) of
        Some s \<Rightarrow> (parse l s, OriginEnv)
      | None \<Rightarrow>
          if document_has_key doc (lf_path l) then (from_file (lf_name l), OriginFile)
          else if lf_has_default l then (parse l (lf_default l), OriginDefault)
          else (zero_setting l, OriginDefault))"

lemma merge_spec:
  assumes "distinct (map lf_name ls)"
  shows "case merge_file_values from_file doc inner ls t used of (r, os, used') \<Rightarrow>
     (\<forall>n. n \<notin> lf_name ` set ls \<longrightarrow> r n = t n) \<and> map fst os = map lf_name ls \<and>
     (\<forall>l \<in> set ls.
        (r (lf_name l), map_of os (lf_name l)) =
        (if found inner (lf_env l) \<noteq> None then (t (lf_name l), Some OriginEnv)
         else if document_has_key doc (lf_path l) then (from_file (lf_name l), Some OriginFile)
         else (t (lf_name l), Some OriginDefault)))"
  using assms
proof (induction ls arbitrary: t used)
  case (Cons l ls)
  obtain v used1 where v: "alias_lookup inner (lf_env l) used = (v, used1)" by force
  then have f: "found inner (lf_env l) = v" using alias_lookup_found by (metis fst_conv)
  let ?t = "if v = None \<and> document_has_key doc (lf_path l) then t(lf_name l := from_file (lf_name l)) else t"
  obtain r os used2 where m: "merge_file_values from_file doc inner ls ?t used1 = (r, os, used2)"
    by (cases "merge_file_values from_file doc inner ls ?t used1") auto
  have fresh: "lf_name l \<notin> lf_name ` set ls" using Cons.prems by auto
  have "distinct (map lf_name ls)" using Cons.prems by simp
  note ih = Cons.IH [OF this, of ?t used1, unfolded m prod.case]
  have other: "lf_name k \<noteq> lf_name l" if "k \<in> set ls" for k
    using that fresh by (metis image_eqI)
  have step: "merge_file_values from_file doc inner (l # ls) t used =
      (r, (lf_name l, if v \<noteq> None then OriginEnv else if document_has_key doc (lf_path l) then OriginFile else OriginDefault) # os, used2)"
    using v m by (auto split: option.split)
  show ?case unfolding step prod.case using ih fresh other
    by (cases v; cases "document_has_key doc (lf_path l)") (auto simp: f)
qed simp

lemma no_aliases [simp]: "apply_yaml_aliases node yaml_aliases = (node, [])"
  by (simp add: apply_yaml_aliases_def yaml_aliases_def split: option.split)

lemma finish_accepted:
  assumes "finish ld t os diags used = (r, None)"
  shows "lr_settings r = Some t" "lr_origins r = os" "lr_diagnostics r = diags" "\<not> has_errors diags"
    "validate (ld_parse_prefix ld) (ld_url_host ld) (config_of t) = None"
  using assms by (auto simp: finish_def diagnostics_err_None [symmetric] split: option.splits)

text \<open>
  C6. A file that loads: every setting has the value of the first layer that supplies it, the variable
  (under its own or an alternative name), the key of the document whatever its value, the default of
  the tag or zero, and its origin says which; the result passes the validation; and every plain path
  of keys in the document names a section, a setting or part of one.
\<close>

theorem load_layers:
  assumes "reads_environment parse (ld_process ld)"
    and "load_file ld inner path = (r, None)"
    and "ld_read ld path = Inr text" "ld_first ld text = Inr (Some node)"
    and "decode_document ld (Some node) = Inr (from_file, doc, ds)"
  shows "\<exists>t. lr_settings r = Some t
    \<and> (\<forall>l \<in> set leaves. (t (lf_name l), map_of (lr_origins r) (lf_name l)) = map_prod id Some (layered parse inner doc from_file l))
    \<and> validate (ld_parse_prefix ld) (ld_url_host ld) (config_of t) = None
    \<and> (\<forall>p. key_at (mapping_pairs node) p \<longrightarrow> list_all plain_segment p \<longrightarrow> \<not> is_anchor_holder (hd p) \<longrightarrow> known_path p)"
proof -
  have size: "\<not> length text > max_config_file_size" using assms(2,3) by (auto simp: load_file_def split: if_splits)
  let ?diags = "second_document_diagnostics (ld_second ld text) @ ds @ document_diagnostics (ld_order ld) (Some node)"
  have parsed: "parse_document ld text = Inr (Some node, second_document_diagnostics (ld_second ld text))"
    by (simp add: parse_document_def assms(4))
  obtain t used where env: "apply_env ld inner = (Inr t, used)"
    using assms(2,3,5) size parsed by (auto simp: load_file_def Let_def split: prod.splits sum.splits)
  obtain merged os used1 where m: "merge_file_values from_file doc inner leaves t used = (merged, os, used1)"
    by (cases "merge_file_values from_file doc inner leaves t used") auto
  have fin: "finish ld merged os ?diags used1 = (r, None)"
    using assms(2,3,5) size parsed env m by (simp add: load_file_def)
  have t: "snd (ld_process ld (found inner)) = Inr t"
    using env by (auto simp: apply_env_def Let_def split: prod.splits sum.splits)
  have layer: "(merged (lf_name l), map_of os (lf_name l)) = map_prod id Some (layered parse inner doc from_file l)"
    if l: "l \<in> set leaves" for l
  proof -
    have v: "t (lf_name l) = (case found inner (lf_env l) of
        Some s \<Rightarrow> parse l s | None \<Rightarrow> if lf_has_default l then parse l (lf_default l) else zero_setting l)"
      using assms(1) t l unfolding reads_environment_def by blast
    have "(merged (lf_name l), map_of os (lf_name l)) =
        (if found inner (lf_env l) \<noteq> None then (t (lf_name l), Some OriginEnv)
         else if document_has_key doc (lf_path l) then (from_file (lf_name l), Some OriginFile)
         else (t (lf_name l), Some OriginDefault))"
      using merge_spec [OF leaves_distinct(1), where from_file = from_file and doc = doc and inner = inner and t = t
          and used = used, unfolded m prod.case] l by blast
    then show ?thesis using v by (auto simp: layered_def split: option.splits if_splits)
  qed
  have "known_path p" if "key_at (mapping_pairs node) p" "list_all plain_segment p" "\<not> is_anchor_holder (hd p)" for p
    using walk_document_known [OF that(1), of "ld_order ld" "[]"] that finish_accepted(4) [OF fin]
    by (simp add: document_diagnostics_def)
  then show ?thesis using finish_accepted [OF fin] layer by auto
qed

text \<open>A loader whose envconfig parses numbers, durations in one unit and plain strings.\<close>

definition decimal :: "string \<Rightarrow> int" where
  "decimal s = foldl (\<lambda>n c. 10 * n + (of_char c - 48)) 0 s"

definition duration_unit :: "string \<Rightarrow> int" where
  "duration_unit u = (if u = ''h'' then 3600000000000 else if u = ''m'' then 60000000000 else 1000000000)"

definition sample_parse :: "leaf \<Rightarrow> string \<Rightarrow> setting" where
  "sample_parse l s =
     (case type_of_leaf l of
        Some TFloat \<Rightarrow> SFloat (Finite (of_int (decimal (takeWhile is_digit s))))
      | Some TBool \<Rightarrow> SBool (s = ''true'')
      | Some TDuration \<Rightarrow> SDuration (decimal (takeWhile is_digit s) * duration_unit (dropWhile is_digit s))
      | Some TStrings \<Rightarrow> SStrings (split_on CHR '','' s)
      | Some TStringMap \<Rightarrow> SMap [] | Some TTokens \<Rightarrow> STokens [] | Some TString \<Rightarrow> SString s
      | _ \<Rightarrow> SInt (decimal s))"

definition sample_settings :: settings where
  "sample_settings name =
     (case map_of
       [(''server.host'', SString ''0.0.0.0''),
        (''server.port.grpc'', SString ''23410''),
        (''server.port.metric'', SString ''23411''),
        (''server.port.health'', SString ''23412''),
        (''server.port.mcp'', SString ''23413''),
        (''server.force_shutdown_after'', SDuration (150 * 1000000000)),
        (''server.trusted_proxies'', SStrings []),
        (''server.max_recv_msg_size'', SInt 67108864),
        (''server.max_send_msg_size'', SInt 67108864),
        (''server.max_concurrent_streams'', SInt 256),
        (''db.postgres'', SString ''host=localhost user=easyp''),
        (''registry.plugins_dir'', SString ''/plugins''),
        (''registry.max_output_size'', SInt 67108864),
        (''registry.cache_max_bytes'', SInt 21474836480),
        (''registry.s3.region'', SString ''us-east-1''),
        (''registry.s3.force_path_style'', SBool False),
        (''worker_pool.workers'', SInt 4),
        (''worker_pool.queue_size'', SInt 16),
        (''worker_pool.max_concurrent_generations'', SInt 16),
        (''worker_pool.generation_timeout'', SDuration (120 * 1000000000)),
        (''worker_pool.max_retries'', SInt 2),
        (''worker_pool.shutdown_timeout'', SDuration (30 * 1000000000)),
        (''license.public_keys'', SMap []),
        (''license.cache_ttl'', SDuration (300 * 1000000000)),
        (''rate_limit.requests_per_second'', SFloat (Finite 10)),
        (''rate_limit.burst'', SInt 20),
        (''rate_limit.cleanup_interval'', SDuration (600 * 1000000000)),
        (''rate_limit.max_concurrent_per_ip'', SInt 2),
        (''audit.buffer_size'', SInt 1000),
        (''audit.batch_size'', SInt 100),
        (''audit.flush_interval'', SDuration 1000000000),
        (''audit.max_save_retries'', SInt 3),
        (''audit.enqueue_timeout'', SDuration 1000000000),
        (''audit.flush_timeout'', SDuration (5 * 1000000000)),
        (''audit.retention_months'', SInt 12),
        (''audit.pre_create_months'', SInt 3),
        (''audit.partition_check_interval'', SDuration (21600 * 1000000000)),
        (''audit.partition_op_timeout'', SDuration (30 * 1000000000)),
        (''auth.write_tokens'', STokens []),
        (''mcp.enabled'', SBool False),
        (''log.level'', SString ''info'')] name of
      Some v \<Rightarrow> v | None \<Rightarrow> SString [])"

definition sample_environment :: "string \<Rightarrow> string option" where
  "sample_environment key = (if key = ''DB_POSTGRES_DSN'' then Some ''host=localhost user=easyp'' else None)"

definition sample_process :: "(string \<Rightarrow> string option) \<Rightarrow> string list \<times> settings result" where
  "sample_process lookup =
     (map lf_env leaves,
      if list_all (\<lambda>l. lf_name l = ''db.postgres'' \<or> lookup (lf_env l) = None) leaves then
        Inr (sample_settings(''db.postgres'' :=
               SString (case lookup ''DB_POSTGRES_DSN'' of None \<Rightarrow> [] | Some dsn \<Rightarrow> dsn)))
      else Inl (plain_error ''other variables are not read here''))"

definition sample_file :: ynode where
  "sample_file = YMap 1 [(scalar ''registry'', YMap 2 [(scalar ''cache_max_bytes'', YScalar 2 ''!!int'' ''0'')])]"

definition sample_doc :: "(string \<times> ydoc) list" where
  "sample_doc = [(''registry'', DMap [(''cache_max_bytes'', DOther)])]"

definition sample_from_file :: settings where
  "sample_from_file = (\<lambda>_. SString [])(''registry.cache_max_bytes'' := SInt 0)"

definition sample_loader :: "string loader" where
  "sample_loader =
     \<lparr>ld_read = (\<lambda>_. Inr ''registry: {cache_max_bytes: 0}''), ld_first = (\<lambda>_. Inr (Some sample_file)),
      ld_second = (\<lambda>_. NoMore), ld_decode_config = (\<lambda>_. Inr (sample_from_file, [])), ld_decode_map = (\<lambda>_. Inr sample_doc),
      ld_process = sample_process, ld_order = [], ld_parse_prefix = no_parser, ld_url_host = no_parser\<rparr>"

lemma sample_reads: "reads_environment sample_parse (ld_process sample_loader)"
proof -
  have table: "list_all (\<lambda>l. if lf_name l = ''db.postgres''
      then lf_env l = ''DB_POSTGRES_DSN'' \<and> zero_setting l = SString [] \<and> type_of_leaf l = Some TString \<and> \<not> lf_has_default l
      else sample_settings (lf_name l) =
        (if lf_has_default l then sample_parse l (lf_default l) else zero_setting l)) leaves"
    by code_simp
  show ?thesis unfolding reads_environment_def
  proof (intro allI impI ballI)
    fix lookup t l
    assume a: "snd (ld_process sample_loader lookup) = Inr t" and l: "l \<in> set leaves"
    have t: "t = sample_settings(''db.postgres'' :=
          SString (case lookup ''DB_POSTGRES_DSN'' of None \<Rightarrow> [] | Some dsn \<Rightarrow> dsn))"
      and none: "lf_name l = ''db.postgres'' \<or> lookup (lf_env l) = None"
      using a l by (auto simp: sample_loader_def sample_process_def list_all_iff split: if_splits)
    show "t (lf_name l) = (case lookup (lf_env l) of
        Some s \<Rightarrow> sample_parse l s | None \<Rightarrow> if lf_has_default l then sample_parse l (lf_default l) else zero_setting l)"
    proof (cases "lf_name l = ''db.postgres''")
      case True
      then show ?thesis using table l by (auto simp: t list_all_iff sample_parse_def split: option.split)
    next
      case False
      then have "t (lf_name l) = sample_settings (lf_name l)" by (simp add: t)
      then show ?thesis using table l none False by (auto simp: list_all_iff)
    qed
  qed
qed

lemma sample_process_env:
  assumes "\<And>key. key \<noteq> ''DB_POSTGRES_DSN'' \<Longrightarrow> lookup key = None" "lookup ''DB_POSTGRES_DSN'' = Some dsn"
  shows "snd (sample_process lookup) = Inr (sample_settings(''db.postgres'' := SString dsn))"
proof -
  have "list_all (\<lambda>l. lf_name l = ''db.postgres'' \<or> lf_env l \<noteq> ''DB_POSTGRES_DSN'') leaves" by code_simp
  then have "list_all (\<lambda>l. lf_name l = ''db.postgres'' \<or> lookup (lf_env l) = None) leaves"
    using assms(1) by (auto simp: list_all_iff)
  then show ?thesis using assms(2) by (simp add: sample_process_def)
qed

definition uncached :: service_config where
  "uncached = default_settings\<lparr>cf_registry := (cf_registry default_settings)\<lparr>crg_cache_max_bytes := 0\<rparr>\<rparr>"

lemma sample_merged:
  "config_of (fst (merge_file_values sample_from_file sample_doc sample_environment leaves sample_settings [])) = uncached"
  by code_simp

lemma sample_alias: "snd (alias_lookup sample_environment key used) = used" "found sample_environment key = sample_environment key"
  by (auto simp: alias_lookup_def found_def sample_environment_def env_aliases_def)

lemma uncached_accepted: "validate no_parser no_parser uncached = None"
  using default_ports default_dsn default_level by (simp add: validation_checks uncached_def default_settings_def)

lemma sample_loads: "\<exists>r. load_file sample_loader sample_environment ''config.yaml'' = (r, None)"
proof -
  have none: "fold (\<lambda>key used. used) keys used = used" for keys :: "string list" and used :: used_aliases
    by (induction keys) simp_all
  have "sample_settings(''db.postgres'' := SString ''host=localhost user=easyp'') = sample_settings"
    by (rule fun_upd_idem) (simp add: sample_settings_def)
  then have "snd (sample_process (found sample_environment)) = Inr sample_settings"
    using sample_process_env [of "found sample_environment" "''host=localhost user=easyp''"]
    by (simp add: sample_alias sample_environment_def)
  moreover have "fst (sample_process (found sample_environment)) = map lf_env leaves" by (simp add: sample_process_def)
  ultimately have env: "apply_env sample_loader sample_environment = (Inr sample_settings, [])"
    by (simp add: apply_env_def sample_loader_def none sample_alias split_beta)
  have quiet: "document_diagnostics [] (Some sample_file) = []" by code_simp
  obtain m os used where m: "merge_file_values sample_from_file sample_doc sample_environment leaves sample_settings [] = (m, os, used)"
    by (cases "merge_file_values sample_from_file sample_doc sample_environment leaves sample_settings []") auto
  then have "config_of m = uncached" using sample_merged by simp
  then have "snd (finish sample_loader m os [] used) = None"
    by (simp add: finish_def sample_loader_def uncached_accepted diagnostics_err_def)
  moreover have "load_file sample_loader sample_environment ''config.yaml'' = finish sample_loader m os [] used"
    using m quiet env
    by (simp add: load_file_def parse_document_def decode_document_def sample_loader_def max_config_file_size_def
        second_document_diagnostics_def has_second_document_def is_mapping_def sample_file_def)
  ultimately show ?thesis by (metis prod.collapse)
qed

theorem load_layers_witness:
  "\<exists>r t. load_file sample_loader sample_environment ''config.yaml'' = (r, None) \<and> lr_settings r = Some t
    \<and> list_all (\<lambda>l. (t (lf_name l), map_of (lr_origins r) (lf_name l)) =
         map_prod id Some (layered sample_parse sample_environment sample_doc sample_from_file l)) leaves"
proof -
  obtain r where r: "load_file sample_loader sample_environment ''config.yaml'' = (r, None)" using sample_loads by blast
  have "ld_read sample_loader ''config.yaml'' = Inr ''registry: {cache_max_bytes: 0}''"
    "ld_first sample_loader ''registry: {cache_max_bytes: 0}'' = Inr (Some sample_file)"
    "decode_document sample_loader (Some sample_file) = Inr (sample_from_file, sample_doc, [])"
    by (simp_all add: sample_loader_def decode_document_def is_mapping_def sample_file_def)
  from load_layers [OF sample_reads r this] show ?thesis using r by (auto simp: list_all_iff)
qed

text \<open>
  A key of the document that spells a setting's dotted name, as the hint for a misplaced key
  suggests, is accepted and sets nothing: the check knows names, the merge follows sections.
\<close>

theorem dotted_key_ignored:
  "hint_for (sc_leaves schema_of) schema_of ''cache_max_bytes'' [] = ''did you mean registry.cache_max_bytes?''
   \<and> document_diagnostics order (Some dotted_document) = []
   \<and> \<not> document_has_key [(''registry.cache_max_bytes'', DOther)] [''registry'', ''cache_max_bytes'']"
proof -
  have "hint_for (sc_leaves schema_of) schema_of ''cache_max_bytes'' [] = ''did you mean registry.cache_max_bytes?''"
    by code_simp
  then show ?thesis by (simp add: dotted_document_accepted)
qed

end
