(* ===== verification/Printing.thy ===== *)
theory Printing
  imports Loading
begin

text \<open>
  The commands that report a configuration, \<open>config validate\<close> and \<open>config print\<close>, and the summary the
  service logs at startup (\<^verbatim>\<open>cmd/easyp-svc/config.go\<close>), with the check of the files a configuration
  names (\<^verbatim>\<open>internal/config/preflight.go\<close>). The YAML encoder is a parameter. The lemmas show that
  without the flag that asks for them, the printed text does not depend on the secrets.
\<close>

subsection \<open>Rendering a setting\<close>

definition redacted_value :: string where "redacted_value = quoted ''***''"

record print_opts =
  po_aliases :: used_aliases
  po_cfg_path :: string
  po_origin :: bool
  po_changed :: bool
  po_show_secrets :: bool

text \<open>\<open>reflect.Value.IsZero\<close>; an empty collection and an absent one are the same value here.\<close>

fun is_zero :: "setting \<Rightarrow> bool" where
  "is_zero (SString s) = (s = [])"
| "is_zero (SInt i) = (i = 0)"
| "is_zero (SFloat f) = (f = Finite 0)"
| "is_zero (SBool b) = (\<not> b)"
| "is_zero (SDuration i) = (i = 0)"
| "is_zero (SStrings ss) = (ss = [])"
| "is_zero (SMap m) = (m = [])"
| "is_zero (STokens ts) = (ts = [])"

definition same_value :: "leaf \<Rightarrow> settings \<Rightarrow> settings \<Rightarrow> bool" where
  "same_value l left right = (left (lf_name l) = right (lf_name l))"

definition trim_newlines :: "string \<Rightarrow> string" where
  "trim_newlines s = rev (dropWhile (\<lambda>c. c = CHR 0x0A) (rev s))"

definition render_value ::
  "(setting \<Rightarrow> string result) \<Rightarrow> leaf \<Rightarrow> settings \<Rightarrow> bool \<Rightarrow> string result" where
  "render_value marshal l t show_secrets =
     (if lf_secret l \<and> \<not> show_secrets \<and> \<not> is_zero (t (lf_name l)) then Inr redacted_value
      else case marshal (t (lf_name l)) of
        Inl e \<Rightarrow> Inl (wrap (''encoding '' @ lf_name l @ '': '') e)
      | Inr out \<Rightarrow> Inr (trim_newlines out))"

definition describe_origin :: "leaf \<Rightarrow> origins \<Rightarrow> used_aliases \<Rightarrow> string" where
  "describe_origin l os aliases =
     (case map_of os (lf_name l) of
        None \<Rightarrow> ''unknown''
      | Some OriginEnv \<Rightarrow>
          (case map_of aliases (lf_env l) of
             Some a \<Rightarrow> ''env '' @ a @ '' (alias for '' @ lf_env l @ '')''
           | None \<Rightarrow> ''env '' @ lf_env l)
      | Some o' \<Rightarrow> origin_string o')"

fun common_prefix :: "string list \<Rightarrow> string list \<Rightarrow> nat" where
  "common_prefix (a # left) (b # right) = (if a = b then Suc (common_prefix left right) else 0)"
| "common_prefix left right = 0"

definition indent :: "nat \<Rightarrow> string" where "indent n = concat (replicate n ''  '')"

text \<open>The width \<open>fmt\<close> pads to counts characters, not bytes.\<close>

fun rune_count :: "string \<Rightarrow> nat" where
  "rune_count [] = 0"
| "rune_count (c # s) = Suc (rune_count (drop (rune_len (c # s) - 1) s))"

declare rune_count.simps(2) [simp del]

definition pad_right :: "nat \<Rightarrow> string \<Rightarrow> string" where
  "pad_right n s = s @ replicate (n - rune_count s) CHR '' ''"

text \<open>The sections a setting opens after the previous one, and its own line.\<close>

definition section_lines :: "string list \<Rightarrow> string list \<Rightarrow> string list" where
  "section_lines previous parents =
     map (\<lambda>d. indent d @ parents ! d @ '':'') [common_prefix previous parents..<length parents]"

definition setting_line :: "leaf \<Rightarrow> string \<Rightarrow> origins \<Rightarrow> print_opts \<Rightarrow> string" where
  "setting_line l rendered os opts =
     (let line = indent (length (lf_path l) - 1) @ last (lf_path l) @ '': '' @ rendered in
      if po_origin opts then pad_right 52 line @ '' # '' @ describe_origin l os (po_aliases opts) else line)"

text \<open>The lines written, and the error that stopped the writing.\<close>

fun write_config ::
  "(setting \<Rightarrow> string result) \<Rightarrow> string list \<Rightarrow> leaf list \<Rightarrow> settings \<Rightarrow> origins \<Rightarrow> print_opts
   \<Rightarrow> string list \<times> go_error option" where
  "write_config marshal previous [] t os opts = ([], None)"
| "write_config marshal previous (l # ls) t os opts =
     (let parents = butlast (lf_path l); heads = section_lines previous parents in
      case render_value marshal l t (po_show_secrets opts) of
        Inl e \<Rightarrow> (heads, Some e)
      | Inr rendered \<Rightarrow>
          (case write_config marshal parents ls t os opts of
             (lines, e) \<Rightarrow> (heads @ setting_line l rendered os opts # lines, e)))"

definition selected :: "settings \<Rightarrow> settings \<Rightarrow> bool \<Rightarrow> leaf list" where
  "selected t defs changed = filter (\<lambda>l. \<not> (changed \<and> same_value l t defs)) leaves"

subsection \<open>Reports\<close>

definition report_diagnostics :: "diagnostic list \<Rightarrow> string list" where
  "report_diagnostics ds = map (\<lambda>d. severity_string (dg_severity d) @ '': '' @ diagnostic_string d) ds"

definition err_config_rejected :: go_error where
  "err_config_rejected = plain_error ''the configuration was rejected; see the diagnostics above''"

datatype command_error = ConfigRejected | CommandFailed load_error | OtherFailure go_error

definition config_error_for :: "diagnostic list \<Rightarrow> load_error option \<Rightarrow> command_error option" where
  "config_error_for ds err =
     (case err of None \<Rightarrow> None | Some e \<Rightarrow> if has_errors ds then Some ConfigRejected else Some (CommandFailed e))"

definition config_notes :: "service_config \<Rightarrow> string list" where
  "config_notes c =
     (if s3_enabled (crg_s3 (cf_registry c)) \<and> s3_access_key_id (crg_s3 (cf_registry c)) = []
      then [''object storage is configured with no credentials; the default AWS credential chain will be used'']
      else [])"

definition origin_count :: "origins \<Rightarrow> origin \<Rightarrow> nat" where
  "origin_count os o' = length (filter (\<lambda>x. snd x = o') os)"

definition origin_summary :: "origins \<Rightarrow> string" where
  "origin_summary os =
     nat_digits (length os) @ '' settings: '' @ nat_digits (origin_count os OriginFile) @ '' from the file, ''
     @ nat_digits (origin_count os OriginEnv) @ '' from the environment, ''
     @ nat_digits (origin_count os OriginDefault) @ '' left at defaults.''"

text \<open>\<open>readable\<close> is what opening and closing a file answers.\<close>

definition named_files :: "service_config \<Rightarrow> (string \<times> string) list" where
  "named_files c =
     [(''server.tls.cert_file'', tls_cert_file (csv_tls (cf_server c))),
      (''server.tls.key_file'', tls_key_file (csv_tls (cf_server c))),
      (''server.tls.client_ca_file'', tls_client_ca_file (csv_tls (cf_server c))),
      (''license.file'', clc_file (cf_license c))]"

definition check_files :: "(string \<Rightarrow> go_error option) \<Rightarrow> service_config \<Rightarrow> diagnostic list" where
  "check_files readable c =
     concat (map (\<lambda>(name, path).
       if path = [] then []
       else case readable path of
         None \<Rightarrow> []
       | Some e \<Rightarrow> [file_error name 0 (path @ '' cannot be read: '' @ msg e) []]) (named_files c))"

text \<open>\<open>config validate\<close>: standard output, standard error, and the error it returns.\<close>

definition run_config_validate ::
  "'p loader \<Rightarrow> (string \<Rightarrow> go_error option) \<Rightarrow> string list \<Rightarrow> string
   \<Rightarrow> string list \<times> string list \<times> command_error option" where
  "run_config_validate ld readable environ path =
     (case load ld environ path of
        (res, err) \<Rightarrow>
          let shown = report_diagnostics (lr_diagnostics res);
              source = (if path = [] then ''Configuration from the environment'' else path) in
          case (config_error_for (lr_diagnostics res) err, lr_settings res) of
            (None, Some t) \<Rightarrow>
              ([source @ '' is valid.'', origin_summary (lr_origins res)]
                 @ map (\<lambda>n. ''note: '' @ n) (config_notes (config_of t))
                 @ map (\<lambda>d. ''note: '' @ diagnostic_string d) (check_files readable (config_of t)), shown, None)
          | (e, _) \<Rightarrow> ([], shown, e))"

text \<open>\<open>config print\<close>; a configuration that would not start is still printed when there is one.\<close>

definition run_config_print ::
  "'p loader \<Rightarrow> (setting \<Rightarrow> string result) \<Rightarrow> string list \<Rightarrow> print_opts \<Rightarrow> string list \<times> command_error option" where
  "run_config_print ld marshal environ opts =
     (case load ld environ (po_cfg_path opts) of
        (res, err) \<Rightarrow>
          (case lr_settings res of
             None \<Rightarrow> ([], map_option CommandFailed err)
           | Some t \<Rightarrow>
               (case defaults ld of
                  Inl e \<Rightarrow> ([], Some (OtherFailure (wrap ''config.Defaults: '' e)))
                | Inr defs \<Rightarrow>
                    (case write_config marshal [] (selected t defs (po_changed opts)) t (lr_origins res)
                        (opts\<lparr>po_aliases := lr_aliases res\<rparr>) of
                       (lines, e) \<Rightarrow> (lines, map_option OtherFailure e)))))"

text \<open>\<open>renderChanged\<close>, which the startup summary logs.\<close>

definition render_changed ::
  "'p loader \<Rightarrow> (setting \<Rightarrow> string result) \<Rightarrow> load_result \<Rightarrow> settings \<Rightarrow> string list result" where
  "render_changed ld marshal res t =
     (case defaults ld of
        Inl e \<Rightarrow> Inl (wrap ''config.Defaults: '' e)
      | Inr defs \<Rightarrow>
          (case write_config marshal [] (selected t defs True) t (lr_origins res)
              \<lparr>po_aliases = lr_aliases res, po_cfg_path = [], po_origin = True, po_changed = True, po_show_secrets = False\<rparr> of
             (lines, None) \<Rightarrow> Inr lines
           | (lines, Some e) \<Rightarrow> Inl e))"

subsection \<open>Secrets stay out of what is printed\<close>

text \<open>Two configurations that an outsider may not tell apart: they differ at most in secrets, and not in which are set.\<close>

definition alike :: "settings \<Rightarrow> settings \<Rightarrow> bool" where
  "alike a b \<longleftrightarrow>
     (\<forall>l \<in> set leaves. lf_secret l \<longrightarrow>
        (\<exists>s s'. a (lf_name l) = SString s \<and> b (lf_name l) = SString s' \<and> (s = [] \<longleftrightarrow> s' = [])))
     \<and> (\<forall>l \<in> set leaves. \<not> lf_secret l \<longrightarrow> a (lf_name l) = b (lf_name l))"

definition secrets_unset :: "settings \<Rightarrow> bool" where
  "secrets_unset d \<longleftrightarrow> (\<forall>l \<in> set leaves. lf_secret l \<longrightarrow> d (lf_name l) = SString [])"

lemma alike_render:
  assumes "alike a b" "l \<in> set leaves"
  shows "render_value marshal l a False = render_value marshal l b False"
proof (cases "lf_secret l")
  case True
  then obtain s s' where "a (lf_name l) = SString s" "b (lf_name l) = SString s'" "s = [] \<longleftrightarrow> s' = []"
    using assms unfolding alike_def by blast
  then show ?thesis using True by (cases "s = []") (auto simp: render_value_def)
qed (use assms in \<open>auto simp: alike_def render_value_def\<close>)

lemma alike_write:
  assumes "alike a b" "set ls \<subseteq> set leaves" "\<not> po_show_secrets opts"
  shows "write_config marshal previous ls a os opts = write_config marshal previous ls b os opts"
  using assms(2)
proof (induction ls arbitrary: previous)
  case (Cons l ls)
  have "render_value marshal l a (po_show_secrets opts) = render_value marshal l b (po_show_secrets opts)"
    using alike_render [OF assms(1)] Cons.prems assms(3) by simp
  then show ?case using Cons by (simp add: Let_def split: sum.split)
qed simp

lemma alike_selected:
  assumes "alike a b" "secrets_unset defs"
  shows "selected a defs changed = selected b defs changed"
proof -
  have "same_value l a defs = same_value l b defs" if "l \<in> set leaves" for l
  proof (cases "lf_secret l")
    case True
    then obtain s s' where "a (lf_name l) = SString s" "b (lf_name l) = SString s'" "s = [] \<longleftrightarrow> s' = []"
      using assms(1) \<open>l \<in> set leaves\<close> unfolding alike_def by blast
    then show ?thesis using assms(2) True \<open>l \<in> set leaves\<close> by (simp add: secrets_unset_def same_value_def)
  qed (use assms(1) that in \<open>auto simp: alike_def same_value_def\<close>)
  then show ?thesis unfolding selected_def by (intro filter_cong) auto
qed

text \<open>No secret setting has a default, so the defaults leave them unset.\<close>

lemma secrets_plain:
  "list_all (\<lambda>l. \<not> lf_secret l \<or> \<not> lf_has_default l \<and> zero_setting l = SString []) leaves"
  by code_simp

lemma defaults_unset:
  assumes "reads_environment parse (ld_process ld)" "defaults ld = Inr defs"
  shows "secrets_unset defs"
proof -
  have none: "found (\<lambda>_. None) key = None" for key
    by (simp add: found_def alias_lookup_def split: option.split)
  have "snd (ld_process ld (found (\<lambda>_. None))) = Inr defs"
    using assms(2) by (auto simp: defaults_def apply_env_def Let_def split: prod.splits sum.splits)
  then have "defs (lf_name l) = (if lf_has_default l then parse l (lf_default l) else zero_setting l)" if "l \<in> set leaves" for l
    using assms(1) that none unfolding reads_environment_def by fastforce
  then show ?thesis using secrets_plain by (auto simp: secrets_unset_def list_all_iff)
qed


text \<open>The sample loader on two environments that differ in the DSN.\<close>

definition dsn_environ :: "string \<Rightarrow> string list" where
  "dsn_environ dsn = [''DB_POSTGRES_DSN='' @ dsn]"

definition dsn_settings :: "string \<Rightarrow> settings" where
  "dsn_settings dsn = sample_settings(''db.postgres'' := SString dsn)"

definition print_all :: print_opts where
  "print_all = \<lparr>po_aliases = [], po_cfg_path = [], po_origin = True, po_changed = False, po_show_secrets = False\<rparr>"

definition dsn_env :: "string \<Rightarrow> string \<Rightarrow> string option" where
  "dsn_env dsn key = (if key = ''DB_POSTGRES_DSN'' then Some dsn else None)"

lemma dsn_lookup:
  assumes "dsn \<noteq> []"
  shows "environment_lookuper (dsn_environ dsn) = dsn_env dsn"
  using assms by (auto simp: environment_lookuper_def empty_is_unset_def os_lookup_def dsn_environ_def dsn_env_def fun_eq_iff)

lemma dsn_alias: "alias_lookup (dsn_env dsn) key used = (dsn_env dsn key, used)"
  by (auto simp: alias_lookup_def env_aliases_def dsn_env_def)

lemma dsn_origins:
  "environment_origins (dsn_env dsn) ls used =
     (map (\<lambda>l. (lf_name l, if lf_env l = ''DB_POSTGRES_DSN'' then OriginEnv else OriginDefault)) ls, used)"
  by (induction ls) (simp_all add: dsn_alias, simp add: dsn_env_def)

lemma dsn_config: "config_of (dsn_settings dsn) = default_settings\<lparr>cf_postgres := dsn\<rparr>"
proof -
  have "config_of sample_settings = default_settings" by code_simp
  moreover have "config_of (dsn_settings dsn) = (config_of sample_settings)\<lparr>cf_postgres := dsn\<rparr>"
    by (simp add: config_of_def dsn_settings_def)
  ultimately show ?thesis by simp
qed

lemma dsn_loads:
  assumes "dsn \<noteq> []" "validate_dsn no_parser dsn = None"
  shows "load sample_loader (dsn_environ dsn) [] =
    (\<lparr>lr_settings = Some (dsn_settings dsn),
      lr_origins = map (\<lambda>l. (lf_name l, if lf_env l = ''DB_POSTGRES_DSN'' then OriginEnv else OriginDefault)) leaves,
      lr_diagnostics = [], lr_aliases = []\<rparr>, None)"
proof -
  have found: "found (dsn_env dsn) = dsn_env dsn"
    by (simp add: found_def dsn_alias fun_eq_iff)
  have none: "fold (\<lambda>key used. used) keys used = used" for keys :: "string list" and used :: used_aliases
    by (induction keys) simp_all
  have "snd (sample_process (dsn_env dsn)) = Inr (dsn_settings dsn)"
    unfolding dsn_settings_def by (rule sample_process_env) (simp_all add: dsn_env_def)
  then have env: "apply_env sample_loader (dsn_env dsn) = (Inr (dsn_settings dsn), [])"
    by (simp add: apply_env_def sample_loader_def found dsn_alias none split_beta)
  have "validate no_parser no_parser (config_of (dsn_settings dsn)) = None"
    using default_ports default_level assms
    by (simp add: dsn_config validation_checks default_settings_def)
  then have fin: "finish sample_loader (dsn_settings dsn) os [] [] =
      (\<lparr>lr_settings = Some (dsn_settings dsn), lr_origins = os, lr_diagnostics = [], lr_aliases = []\<rparr>, None)" for os
    by (simp add: finish_def diagnostics_err_def sample_loader_def)
  have known: "List.member (map lf_env leaves) ''DB_POSTGRES_DSN''" by code_simp
  have "unknown_env (dsn_environ dsn) = []"
    using known by (simp add: dsn_environ_def reportable_env_def del: List.member_iff)
  then show ?thesis
    by (simp add: load_def with_environment_findings_def load_from_env_def dsn_lookup [OF assms(1)] env dsn_origins fin)
qed

lemma dsn_alike: "dsn \<noteq> [] \<Longrightarrow> dsn' \<noteq> [] \<Longrightarrow> alike (dsn_settings dsn) (dsn_settings dsn')"
proof -
  assume ne: "dsn \<noteq> []" "dsn' \<noteq> []"
  have "list_all (\<lambda>l. if lf_name l = ''db.postgres'' then lf_secret l
      else \<not> lf_secret l \<or> sample_settings (lf_name l) = SString []) leaves" by code_simp
  then show ?thesis using ne by (auto simp: alike_def dsn_settings_def list_all_iff split: if_splits)
qed

lemma dsn_shapes:
  "validate_dsn no_parser ''host=a password=one'' = None" "validate_dsn no_parser ''host=a password=two'' = None"
  by (simp_all add: validate_dsn_def trim_space_def trim_left_def is_space_def has_prefix_def fields_of.simps is_keyword_pair_def)


end
