(* ===== verification/License.thy ===== *)
theory License
  imports Domain
begin

text \<open>
  Licensing (\<^verbatim>\<open>internal/license\<close>): the PASETO client that turns a token into claims, the manager that
  caches them, the gate the core asks. Verifying a signature, decoding a key and reading a footer
  are parameters (\<^verbatim>\<open>aidanwoods.dev/go-paseto\<close>, base64, JSON). Times and durations are nanoseconds; the
  multiplication of the grace period wraps at 64 bits, as \<open>time.Duration\<close> does.

  The lemmas say exactly which tokens grant the enterprise tier and when, that everything else is
  the community tier and never an error, and what the gate then allows.
\<close>

subsection \<open>Features\<close>

definition feature_count :: feature where "feature_count = 6"

definition feature_valid :: "feature \<Rightarrow> bool" where
  "feature_valid f \<longleftrightarrow> f \<ge> 0 \<and> f < feature_count"

definition license_feature_string :: "feature \<Rightarrow> string" where
  "license_feature_string f = (if \<not> feature_valid f then ''unknown'' else feature_names ! nat f)"

definition is_enterprise :: "feature \<Rightarrow> bool" where
  "is_enterprise f \<longleftrightarrow> f = FeatureAudit"

subsection \<open>The token\<close>

record token =
  tk_nbf :: "int option"
  tk_exp :: "int option"
  tk_grace_days :: "int option"
  tk_tier :: "string option"
  tk_customer :: "string option"

datatype parse_failure = NotOurs go_error | NotVerified go_error

record 'key client =
  cl_token :: string
  cl_public_keys :: "string \<rightharpoonup> 'key"
  cl_fallback :: "'key option"
  cl_last_state :: string
  cl_log :: "string list"

definition any_key_id :: string where "any_key_id = ''*''"
definition second :: int where "second = 1000000000"
definition clock_skew :: int where "clock_skew = 60 * second"
definition day :: int where "day = 24 * 60 * 60 * second"
definition token_parts_with_footer :: nat where "token_parts_with_footer = 4"
definition footer_part :: nat where "footer_part = 3"

text \<open>The constructor: a key that does not decode is an error. The map is given in some order.\<close>

fun add_keys ::
  "(string \<Rightarrow> 'key result) \<Rightarrow> (string \<times> string) list \<Rightarrow> (string \<rightharpoonup> 'key) \<Rightarrow> 'key option
   \<Rightarrow> ((string \<rightharpoonup> 'key) \<times> 'key option) result" where
  "add_keys decode [] keys fallback = Inr (keys, fallback)"
| "add_keys decode ((kid, hex_key) # rest) keys fallback =
     (case decode (trim_space hex_key) of
        Inl e \<Rightarrow> Inl (wrap (''licence public key for key id '' @ kid @ '': '') e)
      | Inr key \<Rightarrow>
          if kid = any_key_id then add_keys decode rest keys (Some key)
          else add_keys decode rest (keys(kid \<mapsto> key)) fallback)"

definition new_client ::
  "(string \<Rightarrow> 'key result) \<Rightarrow> string \<Rightarrow> (string \<times> string) list \<Rightarrow> 'key client result" where
  "new_client decode token keys_hex =
     (case add_keys decode keys_hex Map.empty None of
        Inl e \<Rightarrow> Inl e
      | Inr (keys, fallback) \<Rightarrow>
          Inr \<lparr>cl_token = trim_space token, cl_public_keys = keys, cl_fallback = fallback,
               cl_last_state = [], cl_log = []\<rparr>)"

text \<open>\<open>report\<close> logs a verdict that differs from the last one.\<close>

definition report :: "'key client \<Rightarrow> string \<Rightarrow> 'key client" where
  "report c state =
     (let c1 = c\<lparr>cl_last_state := state\<rparr> in
      if state = cl_last_state c then c1 else c1\<lparr>cl_log := cl_log c1 @ [state]\<rparr>)"

definition extract_kid :: "(string \<Rightarrow> string result) \<Rightarrow> string \<Rightarrow> string result" where
  "extract_kid footer_kid token =
     (let parts = split_on CHR ''.'' token in
      if length parts < token_parts_with_footer then Inl (plain_error ''token carries no footer'')
      else case footer_kid (parts ! footer_part) of
          Inl e \<Rightarrow> Inl e
        | Inr kid \<Rightarrow> if kid = [] then Inl (plain_error ''footer names no key id'') else Inr kid)"

definition resolve_key :: "(string \<Rightarrow> string result) \<Rightarrow> 'key client \<Rightarrow> 'key option \<times> 'key client" where
  "resolve_key footer_kid c =
     (if dom (cl_public_keys c) = {} \<and> cl_fallback c = None then
        (None, report c ''licence token supplied but no public key is configured'')
      else
        case extract_kid footer_kid (cl_token c) of
          Inl e \<Rightarrow>
            (case cl_fallback c of
               Some k \<Rightarrow> (Some k, c)
             | None \<Rightarrow> (None, report c (''licence token carries no usable key id: '' @ msg e)))
        | Inr kid \<Rightarrow>
            (case cl_public_keys c kid of
               Some k \<Rightarrow> (Some k, c)
             | None \<Rightarrow>
                 (case cl_fallback c of
                    Some k \<Rightarrow> (Some k, c)
                  | None \<Rightarrow> (None, report c (''licence token names a key id that is not configured: '' @ kid)))))"

definition announce :: "'key client \<Rightarrow> string \<Rightarrow> int \<Rightarrow> int \<Rightarrow> bool \<Rightarrow> 'key client" where
  "announce c customer expiry grace_days in_grace =
     (if in_grace
      then report c (''licence has expired; running on its grace period '' @ customer @ int_text expiry @ int_text grace_days)
      else report c (''licence accepted '' @ customer @ int_text expiry))"

definition claims_for :: "'key client \<Rightarrow> int \<Rightarrow> token \<Rightarrow> license_claims \<times> 'key client" where
  "claims_for c now t =
     (case tk_nbf t of
        None \<Rightarrow> (community_license_claims, report c ''licence token has no usable nbf claim'')
      | Some not_before \<Rightarrow>
     (case tk_exp t of
        None \<Rightarrow> (community_license_claims, report c ''licence token has no usable exp claim'')
      | Some expiry \<Rightarrow>
     (let grace_days = (case tk_grace_days t of Some g \<Rightarrow> g | None \<Rightarrow> 0) in
      if now < not_before - clock_skew then
        (community_license_claims, report c (''licence token is not valid yet '' @ int_text not_before @ int_text now))
      else if now > expiry + wrap64 (grace_days * day) + clock_skew then
        (community_license_claims,
         report c (''licence expired past its grace period '' @ int_text expiry @ int_text grace_days @ int_text now))
      else if tk_tier t \<noteq> Some tier_enterprise then
        (community_license_claims, report c ''licence token names a tier this release does not grant'')
      else
        let in_grace = (now > expiry + clock_skew)
        in (enterprise_license_claims expiry in_grace,
            announce c (case tk_customer t of Some s \<Rightarrow> s | None \<Rightarrow> []) expiry grace_days in_grace))))"

definition validate_license ::
  "(string \<Rightarrow> string result) \<Rightarrow> ('key \<Rightarrow> string \<Rightarrow> parse_failure + token) \<Rightarrow> int \<Rightarrow> 'key client
   \<Rightarrow> license_claims result \<times> 'key client" where
  "validate_license footer_kid parse now c =
     (if cl_token c = [] then (Inr community_license_claims, c)
      else
        case resolve_key footer_kid c of
          (None, c1) \<Rightarrow> (Inr community_license_claims, c1)
        | (Some key, c1) \<Rightarrow>
            (case parse key (cl_token c1) of
               Inl (NotOurs e) \<Rightarrow> (Inr community_license_claims, report c1 (''licence token is not one of ours '' @ msg e))
             | Inl (NotVerified e) \<Rightarrow>
                 (Inr community_license_claims, report c1 (''licence token failed verification '' @ msg e))
             | Inr t \<Rightarrow> (let (claims, c2) = claims_for c1 now t in (Inr claims, c2))))"

subsection \<open>Manager and gate\<close>

definition default_cache_ttl :: int where "default_cache_ttl = 5 * 60 * second"

record manager =
  mg_claims :: license_claims
  mg_cache_ttl :: int
  mg_denied :: "feature list"     \<comment> \<open>the counter of denied features\<close>

definition refresh :: "manager \<Rightarrow> license_claims result \<Rightarrow> manager" where
  "refresh lm answer = (case answer of Inl e \<Rightarrow> lm | Inr claims \<Rightarrow> lm\<lparr>mg_claims := claims\<rparr>)"

definition new_manager :: "int \<Rightarrow> license_claims result \<Rightarrow> manager" where
  "new_manager cache_ttl answer =
     refresh \<lparr>mg_claims = community_license_claims,
              mg_cache_ttl = (if cache_ttl \<le> 0 then default_cache_ttl else cache_ttl), mg_denied = []\<rparr> answer"

text \<open>\<open>NewManager\<close>: the client is given by its first answer, \<^term>\<open>None\<close> is the nil client.\<close>

definition err_no_client :: go_error where
  "err_no_client = plain_error ''license: client must not be nil''"

definition manager_for :: "int \<Rightarrow> license_claims result option \<Rightarrow> manager result" where
  "manager_for cache_ttl client =
     (case client of None \<Rightarrow> Inl err_no_client | Some answer \<Rightarrow> Inr (new_manager cache_ttl answer))"

definition enabled :: "manager \<Rightarrow> feature \<Rightarrow> bool \<times> manager" where
  "enabled lm f =
     (if \<not> feature_valid f then (False, lm)
      else if lc_tier (mg_claims lm) = tier_enterprise then (True, lm)
      else if is_enterprise f then (False, lm\<lparr>mg_denied := f # mg_denied lm\<rparr>)
      else (List.member (lc_features (mg_claims lm)) f, lm))"

definition gate_max_workers :: "manager \<Rightarrow> int" where "gate_max_workers lm = lc_max_workers (mg_claims lm)"
definition gate_max_plugins :: "manager \<Rightarrow> int" where "gate_max_plugins lm = lc_max_plugins (mg_claims lm)"

subsection \<open>What a token grants\<close>

lemma report_fields [simp]:
  "cl_token (report c s) = cl_token c" "cl_public_keys (report c s) = cl_public_keys c"
  "cl_fallback (report c s) = cl_fallback c"
  by (simp_all add: report_def Let_def)

lemma resolve_key_fields [simp]:
  "cl_token (snd (resolve_key f c)) = cl_token c"
  by (auto simp: resolve_key_def split: sum.split option.split)

lemma community_not_enterprise [simp]: "community_license_claims \<noteq> enterprise_license_claims x g"
  by (simp add: claims_defs)

text \<open>The window of a token, and the claims of one that is inside it.\<close>

definition in_window :: "int \<Rightarrow> token \<Rightarrow> bool" where
  "in_window now t \<longleftrightarrow>
     (case (tk_nbf t, tk_exp t) of
        (Some nb, Some ex) \<Rightarrow>
          nb - clock_skew \<le> now \<and>
          now \<le> ex + wrap64 ((case tk_grace_days t of Some g \<Rightarrow> g | None \<Rightarrow> 0) * day) + clock_skew
      | _ \<Rightarrow> False)"

lemma claims_for_result:
  "fst (claims_for c now t) =
     (if in_window now t \<and> tk_tier t = Some tier_enterprise
      then enterprise_license_claims (the (tk_exp t)) (now > the (tk_exp t) + clock_skew)
      else community_license_claims)"
  by (auto simp: claims_for_def in_window_def Let_def split: option.splits)

text \<open>
  C20. Validating a licence never fails, and it grants the enterprise tier exactly when a configured key
  verifies the token, the token is inside its validity window and names that tier; in every other
  case the claims are those of the community.
\<close>

theorem validate_license_correct:
  "\<exists>claims. fst (validate_license footer_kid parse now c) = Inr claims \<and>
     claims = (case fst (resolve_key footer_kid c) of
        Some key \<Rightarrow>
          (case parse key (cl_token c) of
             Inr t \<Rightarrow> if cl_token c \<noteq> [] \<and> in_window now t \<and> tk_tier t = Some tier_enterprise
                       then enterprise_license_claims (the (tk_exp t)) (now > the (tk_exp t) + clock_skew)
                       else community_license_claims
           | Inl _ \<Rightarrow> community_license_claims)
      | None \<Rightarrow> community_license_claims)"
proof (cases "cl_token c = []")
  case True
  then show ?thesis by (auto simp: validate_license_def split: option.split sum.split)
next
  case False
  obtain k c1 where r: "resolve_key footer_kid c = (k, c1)" by fastforce
  then have t: "cl_token c1 = cl_token c" using resolve_key_fields [of footer_kid c] by simp
  show ?thesis
  proof (cases k)
    case None
    then show ?thesis using False r by (simp add: validate_license_def)
  next
    case (Some key)
    show ?thesis
    proof (cases "parse key (cl_token c)")
      case (Inl f)
      then show ?thesis using False r Some t
        by (cases f) (simp_all add: validate_license_def)
    next
      case (Inr tok)
      obtain cl c2 where cf: "claims_for c1 now tok = (cl, c2)" by fastforce
      then have "cl = (if in_window now tok \<and> tk_tier tok = Some tier_enterprise
         then enterprise_license_claims (the (tk_exp tok)) (now > the (tk_exp tok) + clock_skew)
         else community_license_claims)" using claims_for_result [of c1 now tok] by simp
      then show ?thesis using False r Some t Inr cf by (simp add: validate_license_def)
    qed
  qed
qed

text \<open>
  C21. For a grace period of up to 106751 days the window of a token closes exactly that many days and
  the tolerated minute after its expiry, and the claims say \<open>in grace\<close> exactly past the expiry.
\<close>

theorem grace_period_exact:
  assumes "tk_nbf t = Some nb" "tk_exp t = Some ex" "tk_grace_days t = Some g" "0 \<le> g" "g \<le> 106751"
    and "tk_tier t = Some tier_enterprise"
  shows "fst (claims_for c now t) =
     (if nb - 60 * second \<le> now \<and> now \<le> ex + g * (24 * 60 * 60 * second) + 60 * second
      then enterprise_license_claims ex (now > ex + 60 * second) else community_license_claims)"
proof -
  have "g * 86400000000000 \<le> 106751 * 86400000000000" using assms(5) by simp
  then have "wrap64 (g * day) = g * day"
    using assms(4) by (intro wrap64_small) (simp_all add: day_def second_def)
  then show ?thesis
    using assms by (simp add: claims_for_result in_window_def clock_skew_def day_def)
qed

definition sample_client :: "nat client" where
  "sample_client = \<lparr>cl_token = ''v4.public.x.y'', cl_public_keys = [''k'' \<mapsto> 1], cl_fallback = None,
     cl_last_state = [], cl_log = []\<rparr>"

theorem grace_period_exact_witness:
  "fst (claims_for sample_client (100 * day) \<lparr>tk_nbf = Some 0, tk_exp = Some (99 * day), tk_grace_days = Some 2,
      tk_tier = Some tier_enterprise, tk_customer = None\<rparr>) = enterprise_license_claims (99 * day) True"
  using grace_period_exact [of "\<lparr>tk_nbf = Some 0, tk_exp = Some (99 * day), tk_grace_days = Some 2,
      tk_tier = Some tier_enterprise, tk_customer = None\<rparr>" 0 "99 * day" 2 sample_client "100 * day"]
  by (simp add: day_def second_def)

text \<open>
  One day more and the product wraps: a token with a grace period of 106752 days is refused the
  moment it expires, and long before.
\<close>

theorem grace_period_wraps:
  "fst (claims_for c (99 * day) \<lparr>tk_nbf = Some 0, tk_exp = Some (99 * day), tk_grace_days = Some 106752,
      tk_tier = Some tier_enterprise, tk_customer = None\<rparr>) = community_license_claims"
  by (simp add: claims_for_result in_window_def wrap64_def day_def second_def clock_skew_def)

subsection \<open>The gate\<close>

definition issued :: "license_claims \<Rightarrow> bool" where
  "issued cl \<longleftrightarrow> cl = community_license_claims \<or> (\<exists>ex g. cl = enterprise_license_claims ex g)"

text \<open>
  Under claims the client issues, the gate allows every known feature but the audit in either tier,
  the audit exactly in the enterprise tier, and nothing unknown; a denied audit is counted.
\<close>

theorem gate_correct:
  assumes "issued (mg_claims lm)"
  shows "fst (enabled lm f) = (0 \<le> f \<and> f < 6 \<and> (f = FeatureAudit \<longrightarrow> lc_tier (mg_claims lm) = tier_enterprise)) \<and>
    mg_claims (snd (enabled lm f)) = mg_claims lm \<and>
    mg_denied (snd (enabled lm f)) =
      (if f = FeatureAudit \<and> lc_tier (mg_claims lm) \<noteq> tier_enterprise then f # mg_denied lm else mg_denied lm)"
proof -
  have five: "0 \<le> f \<and> f < 6 \<longleftrightarrow> f = 0 \<or> f = 1 \<or> f = 2 \<or> f = 3 \<or> f = 4 \<or> f = 5" by auto
  show ?thesis
    using assms five
    by (auto simp: issued_def enabled_def feature_valid_def feature_count_def is_enterprise_def claims_defs feature_defs)
qed

text \<open>
  The manager starts in the community tier, replaces its claims with every answer of the client and
  keeps the previous ones when the client fails, so what it holds was always issued.
\<close>

lemma manager_keeps_issued:
  assumes "\<forall>cl. Inr cl \<in> set answers \<longrightarrow> issued cl"
  shows "issued (mg_claims (fold (\<lambda>a lm. refresh lm a) answers (new_manager ttl first))) \<longleftrightarrow>
      (\<exists>cl. Inr cl \<in> set answers) \<or> issued (mg_claims (new_manager ttl first))"
    and "mg_cache_ttl (fold (\<lambda>a lm. refresh lm a) answers (new_manager ttl first)) > 0"
    and "mg_claims (new_manager ttl (Inl e)) = community_license_claims"
proof -
  have r: "issued (mg_claims (fold (\<lambda>a lm. refresh lm a) answers lm)) \<longleftrightarrow>
      (\<exists>cl. Inr cl \<in> set answers) \<or> issued (mg_claims lm)" for lm
    using assms
  proof (induction answers arbitrary: lm)
    case (Cons a as)
    show ?case
    proof (cases a)
      case (Inl x)
      then show ?thesis using Cons by (simp add: refresh_def)
    next
      case (Inr cl)
      then have "issued (mg_claims (refresh lm a))" using Cons.prems by (simp add: refresh_def)
      then show ?thesis using Cons Inr by auto
    qed
  qed simp
  then show "issued (mg_claims (fold (\<lambda>a lm. refresh lm a) answers (new_manager ttl first))) \<longleftrightarrow>
      (\<exists>cl. Inr cl \<in> set answers) \<or> issued (mg_claims (new_manager ttl first))" .
  have t: "mg_cache_ttl (fold (\<lambda>a lm. refresh lm a) as lm) = mg_cache_ttl lm" for as lm
    by (induction as arbitrary: lm) (simp_all add: refresh_def split: sum.split)
  show "mg_cache_ttl (fold (\<lambda>a lm. refresh lm a) answers (new_manager ttl first)) > 0"
    by (simp add: t) (simp add: new_manager_def refresh_def default_cache_ttl_def second_def split: sum.split)
  show "mg_claims (new_manager ttl (Inl e)) = community_license_claims"
    by (simp add: new_manager_def refresh_def)
qed

theorem gate_correct_witness:
  "\<not> fst (enabled (new_manager 0 (Inl (plain_error ''x''))) FeatureAudit) \<and>
   fst (enabled (new_manager 0 (Inl (plain_error ''x''))) FeaturePluginCRUD)"
proof -
  have i: "issued (mg_claims (new_manager 0 (Inl (plain_error ''x''))))"
    by (simp add: issued_def new_manager_def refresh_def)
  show ?thesis
    using gate_correct [OF i, of FeatureAudit] gate_correct [OF i, of FeaturePluginCRUD]
    by (simp add: new_manager_def refresh_def claims_defs feature_defs)
qed

end
