(* ===== verification/AuditWorker.thy ===== *)
theory AuditWorker
  imports Domain
begin

text \<open>
  The audit worker (\<^verbatim>\<open>internal/adapters/audit/worker.go\<close>) and the statement it writes a batch with
  (\<^verbatim>\<open>internal/adapters/audit/audit.go\<close>). Sequential parts are functions: the retries of a write, a flush,
  the rendered statement. The queue between the callers of \<open>Send\<close> and \<open>Run\<close> is a step relation
  \<open>worker_step\<close>. The lemmas show that no entry disappears: each is queued, batched, written or
  counted as lost, in the order it was accepted.
\<close>

subsection \<open>Configuration and state\<close>

record audit_config =
  ac_buffer_size :: nat
  ac_batch_size :: int
  ac_max_save_retries :: int
  ac_enqueue_timeout :: int
  ac_flush_timeout :: int
  ac_shutdown_flush_timeout :: int

definition default_enqueue_timeout :: int where "default_enqueue_timeout = 1000000000"
definition default_flush_timeout :: int where "default_flush_timeout = 5 * 1000000000"
definition retry_base_delay :: int where "retry_base_delay = 100 * 1000000"

record 'e worker =
  aw_cfg :: audit_config
  aw_entries :: "'e list"           \<comment> \<open>the channel\<close>
  aw_closed :: bool
  aw_batch :: "'e list"
  aw_pending :: nat                 \<comment> \<open>the atomic mirror of the batch's length\<close>
  aw_stopped :: bool                \<comment> \<open>\<open>done\<close> is closed\<close>
  aw_stored :: "'e list"            \<comment> \<open>what the store has written, in order\<close>
  aw_lost_enqueue :: nat
  aw_lost_save :: nat
  aw_skipped :: nat
  aw_save_failures :: nat
  aw_accepted :: "'e list"          \<comment> \<open>what \<open>Send\<close> has put on the channel, in order\<close>
  aw_dropped :: "'e list"           \<comment> \<open>what \<open>Send\<close> gave up on\<close>
  aw_flushed :: "('e \<times> bool) list"  \<comment> \<open>what \<open>flush\<close> has cleared, and whether it was written\<close>

definition new_worker :: "audit_config \<Rightarrow> 'e worker" where
  "new_worker cfg =
     (let c1 = (if ac_enqueue_timeout cfg < 0 then cfg\<lparr>ac_enqueue_timeout := default_enqueue_timeout\<rparr> else cfg);
          c2 = (if ac_flush_timeout c1 \<le> 0 then c1\<lparr>ac_flush_timeout := default_flush_timeout\<rparr> else c1);
          c3 = (if ac_shutdown_flush_timeout c2 \<le> 0
                then c2\<lparr>ac_shutdown_flush_timeout := default_flush_timeout\<rparr> else c2)
      in \<lparr>aw_cfg = c3, aw_entries = [], aw_closed = False, aw_batch = [], aw_pending = 0, aw_stopped = False,
          aw_stored = [], aw_lost_enqueue = 0, aw_lost_save = 0, aw_skipped = 0, aw_save_failures = 0,
          aw_accepted = [], aw_dropped = [], aw_flushed = []\<rparr>)"

subsection \<open>Writing a batch\<close>

definition err_worker_stopped :: go_error where
  "err_worker_stopped = errors_new ErrWorkerStopped ''audit worker stopped''"

datatype save_outcome = SaveOk | SaveFailed go_error | SavePanic

text \<open>
  The loop from \<open>attempt\<close> on: \<open>save k\<close> is what the store answers the \<open>k\<close>-th time, \<open>stopped k\<close>
  whether the context ends before the back-off after it does. Without any attempt the error is nil
  and \<open>err.Error()\<close> panics. The result is the outcome, the failures counted and the delays waited.
\<close>

function save_loop ::
  "int \<Rightarrow> (nat \<Rightarrow> go_error option) \<Rightarrow> (nat \<Rightarrow> bool) \<Rightarrow> nat \<Rightarrow> int \<Rightarrow> go_error option \<Rightarrow> nat \<Rightarrow> int list
   \<Rightarrow> save_outcome \<times> nat \<times> int list" where
  "save_loop max_retries save stopped attempt delay err failures waited =
     (if int attempt > max_retries
      then (case err of None \<Rightarrow> (SavePanic, failures, waited)
            | Some e \<Rightarrow> (SaveFailed (wrap ''w.store.SaveBatch: '' e), failures, waited))
      else case save attempt of
          None \<Rightarrow> (SaveOk, failures, waited)
        | Some e \<Rightarrow>
            if int attempt = max_retries
            then (SaveFailed (wrap ''w.store.SaveBatch: '' e), failures + 1, waited)
            else if stopped attempt then (SaveFailed err_worker_stopped, failures + 1, waited)
            else save_loop max_retries save stopped (Suc attempt) (delay * 2) (Some e) (failures + 1) (waited @ [delay]))"
  by pat_completeness auto
termination
  by (relation "measure (\<lambda>(m, s, st, k, d, e, f, w). nat (m + 1 - int k))") auto

declare save_loop.simps [simp del]

definition save_with_retry ::
  "audit_config \<Rightarrow> (nat \<Rightarrow> go_error option) \<Rightarrow> (nat \<Rightarrow> bool) \<Rightarrow> save_outcome \<times> nat \<times> int list" where
  "save_with_retry cfg save stopped =
     save_loop (ac_max_save_retries cfg) save stopped 0 retry_base_delay None 0 []"

text \<open>
  \<open>flush\<close>: the batch is cleared whatever happens. A panic below (of the store, or of the loop
  above) is caught by the barrier: then nothing is written and nothing counted.
\<close>

definition flush :: "save_outcome \<Rightarrow> nat \<Rightarrow> 'e worker \<Rightarrow> 'e worker" where
  "flush outcome failures w =
     (if aw_batch w = [] then w
      else
        let w1 = (case outcome of
                    SaveOk \<Rightarrow> w\<lparr>aw_stored := aw_stored w @ aw_batch w\<rparr>
                  | SaveFailed e \<Rightarrow> w\<lparr>aw_lost_save := aw_lost_save w + length (aw_batch w)\<rparr>
                  | SavePanic \<Rightarrow> w);
            w2 = w1\<lparr>aw_save_failures := aw_save_failures w1 + failures,
                    aw_flushed := aw_flushed w1 @ map (\<lambda>e. (e, outcome = SaveOk)) (aw_batch w1)\<rparr>
        in w2\<lparr>aw_batch := [], aw_pending := 0\<rparr>)"

text \<open>\<open>Run\<close> takes an entry off the channel, and flushes a full batch.\<close>

definition receive :: "save_outcome \<Rightarrow> nat \<Rightarrow> 'e \<Rightarrow> 'e worker \<Rightarrow> 'e worker" where
  "receive outcome failures entry w =
     (let w1 = w\<lparr>aw_batch := aw_batch w @ [entry], aw_pending := Suc (length (aw_batch w))\<rparr>
      in if int (length (aw_batch w1)) \<ge> ac_batch_size (aw_cfg w) then flush outcome failures w1 else w1)"

definition accept :: "'e \<Rightarrow> 'e worker \<Rightarrow> 'e worker" where
  "accept entry w = w\<lparr>aw_accepted := aw_accepted w @ [entry]\<rparr>"

text \<open>
  \<open>Send\<close>: with room, or directly to a waiting \<open>Run\<close>; or not in time, which without a timeout
  happens only when there is no room. \<open>Shutdown\<close> closes the channel; \<open>Run\<close> drains it and ends
  with a last flush. The outcomes of the writes are arbitrary.
\<close>

inductive worker_step :: "'e worker \<Rightarrow> 'e worker \<Rightarrow> bool" where
  send_room: "\<not> aw_closed w \<Longrightarrow> length (aw_entries w) < ac_buffer_size (aw_cfg w) \<Longrightarrow>
    worker_step w ((accept e w)\<lparr>aw_entries := aw_entries w @ [e]\<rparr>)"
| send_handoff: "\<not> aw_closed w \<Longrightarrow> \<not> aw_stopped w \<Longrightarrow> aw_entries w = [] \<Longrightarrow>
    worker_step w (receive out n e (accept e w))"
| send_drop: "\<not> aw_closed w \<Longrightarrow>
    ac_enqueue_timeout (aw_cfg w) \<noteq> 0 \<or> length (aw_entries w) \<ge> ac_buffer_size (aw_cfg w) \<Longrightarrow>
    worker_step w (w\<lparr>aw_lost_enqueue := aw_lost_enqueue w + 1, aw_dropped := aw_dropped w @ [e]\<rparr>)"
| skipped: "worker_step w (w\<lparr>aw_skipped := aw_skipped w + 1\<rparr>)"
| run_receive: "\<not> aw_stopped w \<Longrightarrow> aw_entries w = e # es \<Longrightarrow>
    worker_step w (receive out n e (w\<lparr>aw_entries := es\<rparr>))"
| run_tick: "\<not> aw_stopped w \<Longrightarrow> worker_step w (flush out n w)"
| shutdown: "\<not> aw_closed w \<Longrightarrow> worker_step w (w\<lparr>aw_closed := True\<rparr>)"
| run_end: "aw_closed w \<Longrightarrow> \<not> aw_stopped w \<Longrightarrow> aw_entries w = [] \<Longrightarrow>
    worker_step w ((flush out n w)\<lparr>aw_stopped := True\<rparr>)"

inductive worker_reach :: "'e worker \<Rightarrow> 'e worker \<Rightarrow> bool" for w0 where
  worker_start: "worker_reach w0 w0"
| worker_next: "worker_reach w0 w \<Longrightarrow> worker_step w w' \<Longrightarrow> worker_reach w0 w'"

text \<open>What \<open>Shutdown\<close> counts and returns when its timeout runs out before \<open>Run\<close> ends.\<close>

definition shutdown_timeout_lost :: "'e worker \<Rightarrow> nat" where
  "shutdown_timeout_lost w = length (aw_entries w) + aw_pending w"

subsection \<open>No entry disappears\<close>

definition worker_inv :: "'e worker \<Rightarrow> bool" where
  "worker_inv w \<longleftrightarrow>
     map fst (aw_flushed w) @ aw_batch w @ aw_entries w = aw_accepted w \<and>
     aw_stored w = map fst (filter snd (aw_flushed w)) \<and>
     aw_lost_save w \<le> length (filter (\<lambda>x. \<not> snd x) (aw_flushed w)) \<and>
     aw_lost_enqueue w = length (aw_dropped w) \<and>
     aw_pending w = length (aw_batch w) \<and>
     length (aw_entries w) \<le> ac_buffer_size (aw_cfg w) \<and>
     (1 \<le> ac_batch_size (aw_cfg w) \<longrightarrow> int (length (aw_batch w)) < ac_batch_size (aw_cfg w)) \<and>
     (aw_stopped w \<longrightarrow> aw_closed w \<and> aw_batch w = [] \<and> aw_entries w = [])"

lemma filter_map_const [simp]:
  "filter snd (map (\<lambda>e. (e, b)) xs) = (if b then map (\<lambda>e. (e, b)) xs else [])"
  "filter (\<lambda>x. \<not> snd x) (map (\<lambda>e. (e, b)) xs) = (if b then [] else map (\<lambda>e. (e, b)) xs)"
  by (induction xs) auto

lemma map_fst_pair [simp]: "map fst (map (\<lambda>e. (e, b)) xs) = xs"
  by (induction xs) auto

lemma flush_fields [simp]:
  "aw_batch (flush out n w) = []" "aw_entries (flush out n w) = aw_entries w"
  "aw_accepted (flush out n w) = aw_accepted w" "aw_cfg (flush out n w) = aw_cfg w"
  "aw_closed (flush out n w) = aw_closed w" "aw_stopped (flush out n w) = aw_stopped w"
  "aw_dropped (flush out n w) = aw_dropped w" "aw_lost_enqueue (flush out n w) = aw_lost_enqueue w"
  by (simp_all add: flush_def Let_def split: save_outcome.split)

text \<open>A flush keeps the part of the invariant that speaks of what was flushed.\<close>

definition flushed_ok :: "'e worker \<Rightarrow> bool" where
  "flushed_ok w \<longleftrightarrow>
     map fst (aw_flushed w) @ aw_batch w @ aw_entries w = aw_accepted w \<and>
     aw_stored w = map fst (filter snd (aw_flushed w)) \<and>
     aw_lost_save w \<le> length (filter (\<lambda>x. \<not> snd x) (aw_flushed w)) \<and>
     aw_pending w = length (aw_batch w)"

lemma flush_flushed_ok: "flushed_ok w \<Longrightarrow> flushed_ok (flush out n w)"
proof (cases "aw_batch w = []")
  case False
  assume "flushed_ok w"
  then show ?thesis using False by (cases out) (auto simp: flushed_ok_def flush_def Let_def comp_def)
qed (simp add: flush_def)

lemma receive_flushed_ok:
  assumes "flushed_ok (w\<lparr>aw_batch := aw_batch w @ [e], aw_pending := Suc (length (aw_batch w))\<rparr>)"
  shows "flushed_ok (receive out n e w)"
  using assms flush_flushed_ok [OF assms] by (simp add: receive_def Let_def)

lemma receive_fields [simp]:
  "aw_entries (receive out n e w) = aw_entries w" "aw_accepted (receive out n e w) = aw_accepted w"
  "aw_cfg (receive out n e w) = aw_cfg w" "aw_closed (receive out n e w) = aw_closed w"
  "aw_stopped (receive out n e w) = aw_stopped w" "aw_dropped (receive out n e w) = aw_dropped w"
  "aw_lost_enqueue (receive out n e w) = aw_lost_enqueue w"
  by (simp_all add: receive_def Let_def)

lemma receive_batch:
  "1 \<le> ac_batch_size (aw_cfg w) \<Longrightarrow> int (length (aw_batch w)) < ac_batch_size (aw_cfg w) \<Longrightarrow>
     int (length (aw_batch (receive out n e w))) < ac_batch_size (aw_cfg w)"
  by (auto simp: receive_def Let_def)

lemma worker_inv_flushed: "worker_inv w \<longleftrightarrow> flushed_ok w \<and> aw_lost_enqueue w = length (aw_dropped w) \<and>
     length (aw_entries w) \<le> ac_buffer_size (aw_cfg w) \<and>
     (1 \<le> ac_batch_size (aw_cfg w) \<longrightarrow> int (length (aw_batch w)) < ac_batch_size (aw_cfg w)) \<and>
     (aw_stopped w \<longrightarrow> aw_closed w \<and> aw_batch w = [] \<and> aw_entries w = [])"
  by (auto simp: worker_inv_def flushed_ok_def)

lemma worker_step_inv: "worker_step w w' \<Longrightarrow> worker_inv w \<Longrightarrow> worker_inv w'"
proof (induction rule: worker_step.induct)
  case (send_room w e)
  then show ?case by (auto simp: worker_inv_def accept_def)
next
  case (send_handoff w out n e)
  have "flushed_ok (receive out n e (accept e w))"
    using send_handoff by (intro receive_flushed_ok) (auto simp: worker_inv_flushed flushed_ok_def accept_def)
  moreover have "1 \<le> ac_batch_size (aw_cfg w) \<longrightarrow>
      int (length (aw_batch (receive out n e (accept e w)))) < ac_batch_size (aw_cfg w)"
    using receive_batch [of "accept e w"] send_handoff by (auto simp: worker_inv_def accept_def)
  ultimately show ?case using send_handoff by (auto simp: worker_inv_flushed accept_def)
next
  case (run_receive w e es out n)
  have "flushed_ok (receive out n e (w\<lparr>aw_entries := es\<rparr>))"
    using run_receive by (intro receive_flushed_ok) (auto simp: worker_inv_flushed flushed_ok_def)
  moreover have "1 \<le> ac_batch_size (aw_cfg w) \<longrightarrow>
      int (length (aw_batch (receive out n e (w\<lparr>aw_entries := es\<rparr>)))) < ac_batch_size (aw_cfg w)"
    using receive_batch [of "w\<lparr>aw_entries := es\<rparr>"] run_receive by (auto simp: worker_inv_def)
  ultimately show ?case using run_receive by (auto simp: worker_inv_flushed)
next
  case (run_tick w out n)
  then show ?case using flush_flushed_ok [of w] by (auto simp: worker_inv_flushed)
next
  case (run_end w out n)
  then have "flushed_ok (flush out n w)" using flush_flushed_ok [of w] by (simp add: worker_inv_flushed)
  then have "flushed_ok ((flush out n w)\<lparr>aw_stopped := True\<rparr>)" by (simp add: flushed_ok_def)
  then show ?case using run_end by (auto simp: worker_inv_flushed)
qed (auto simp: worker_inv_def)

lemma new_worker_inv: "worker_inv (new_worker cfg)"
  by (auto simp: worker_inv_def new_worker_def Let_def)

lemma worker_reach_inv: "worker_reach w0 w \<Longrightarrow> worker_inv w0 \<Longrightarrow> worker_inv w"
  by (induction rule: worker_reach.induct) (auto dest: worker_step_inv)


lemma new_worker_cfg:
  "ac_buffer_size (aw_cfg (new_worker cfg)) = ac_buffer_size cfg"
  "ac_batch_size (aw_cfg (new_worker cfg)) = ac_batch_size cfg"
  by (simp_all add: new_worker_def Let_def)

lemma worker_step_cfg: "worker_step w w' \<Longrightarrow> aw_cfg w' = aw_cfg w"
  by (induction rule: worker_step.induct) (simp_all add: accept_def)

lemma worker_reach_cfg: "worker_reach w0 w \<Longrightarrow> aw_cfg w = aw_cfg w0"
  by (induction rule: worker_reach.induct) (auto dest: worker_step_cfg)

text \<open>
  Memory is bounded: the queue never exceeds its buffer and, with a positive batch size, the batch
  is always smaller than it.
\<close>

theorem worker_bounded:
  assumes "worker_reach (new_worker cfg) w" "1 \<le> ac_batch_size cfg"
  shows "length (aw_entries w) \<le> ac_buffer_size cfg \<and> int (length (aw_batch w)) < ac_batch_size cfg"
  using worker_reach_inv [OF assms(1) new_worker_inv] worker_reach_cfg [OF assms(1)] assms(2)
  by (auto simp: worker_inv_def new_worker_cfg)

subsection \<open>The retries of a write\<close>

definition save_ok :: "int \<Rightarrow> (nat \<Rightarrow> go_error option) \<Rightarrow> (nat \<Rightarrow> bool) \<Rightarrow> nat \<Rightarrow> save_outcome \<times> nat \<times> int list \<Rightarrow> bool" where
  "save_ok m save stopped k r \<longleftrightarrow>
     fst r \<noteq> SavePanic \<and> int (fst (snd r)) \<le> m + 1 \<and>
     snd (snd r) = map (\<lambda>i. retry_base_delay * 2 ^ i) [0..<length (snd (snd r))] \<and>
     int (length (snd (snd r))) \<le> m \<and>
     (fst r = SaveOk \<longleftrightarrow>
        (\<exists>j \<ge> k. int j \<le> m \<and> save j = None \<and> (\<forall>i. k \<le> i \<and> i < j \<longrightarrow> save i \<noteq> None \<and> \<not> stopped i)))"

lemma save_loop_ok:
  "int k \<le> m \<Longrightarrow> f = k \<Longrightarrow> d = retry_base_delay * 2 ^ k \<Longrightarrow> wt = map (\<lambda>i. retry_base_delay * 2 ^ i) [0..<k] \<Longrightarrow>
     save_ok m save stopped k (save_loop m save stopped k d err f wt)"
proof (induction m save stopped k d err f wt rule: save_loop.induct)
  case (1 m save stopped k d err f wt)
  have lw: "length wt = k" "wt = map (\<lambda>i. retry_base_delay * 2 ^ i) [0..<length wt]" using "1.prems"(4) by simp_all
  show ?case
  proof (cases "save k")
    case None
    then have "save_loop m save stopped k d err f wt = (SaveOk, f, wt)"
      using "1.prems"(1) by (subst save_loop.simps) simp
    then show ?thesis using None "1.prems" lw by (auto simp: save_ok_def)
  next
    case (Some e)
    consider "int k = m" | "int k < m" "stopped k" | "int k < m" "\<not> stopped k" using "1.prems"(1) by linarith
    then show ?thesis
    proof cases
      case 1
      then have "save_loop m save stopped k d err f wt = (SaveFailed (wrap ''w.store.SaveBatch: '' e), f + 1, wt)"
        using Some by (subst save_loop.simps) simp
      then show ?thesis using Some "1.prems" lw 1 by (auto simp: save_ok_def)
    next
      case 2
      have "\<not> (\<exists>j \<ge> k. int j \<le> m \<and> save j = None \<and> (\<forall>i. k \<le> i \<and> i < j \<longrightarrow> save i \<noteq> None \<and> \<not> stopped i))"
      proof
        assume "\<exists>j \<ge> k. int j \<le> m \<and> save j = None \<and> (\<forall>i. k \<le> i \<and> i < j \<longrightarrow> save i \<noteq> None \<and> \<not> stopped i)"
        then obtain j where j: "k \<le> j" "save j = None" "\<forall>i. k \<le> i \<and> i < j \<longrightarrow> save i \<noteq> None \<and> \<not> stopped i" by blast
        then have "k < j" using Some by (cases "j = k") auto
        then show False using j(3) 2(2) by blast
      qed
      moreover have "save_loop m save stopped k d err f wt = (SaveFailed err_worker_stopped, f + 1, wt)"
        using Some 2 by (subst save_loop.simps) simp
      ultimately show ?thesis using "1.prems" lw 2 by (simp add: save_ok_def)
    next
      case 3
      have u: "save_loop m save stopped k d err f wt =
          save_loop m save stopped (Suc k) (d * 2) (Some e) (f + 1) (wt @ [d])"
        using Some 3 by (subst save_loop.simps) simp
      have n: "\<not> m < int k" "int k \<noteq> m" using 3 by auto
      have "save_ok m save stopped (Suc k) (save_loop m save stopped (Suc k) (d * 2) (Some e) (f + 1) (wt @ [d]))"
        using "1.IH" [OF n(1) Some n(2) 3(2)] 3(1) "1.prems" by simp
      moreover have "(\<exists>j \<ge> Suc k. int j \<le> m \<and> save j = None \<and> (\<forall>i. Suc k \<le> i \<and> i < j \<longrightarrow> save i \<noteq> None \<and> \<not> stopped i)) \<longleftrightarrow>
          (\<exists>j \<ge> k. int j \<le> m \<and> save j = None \<and> (\<forall>i. k \<le> i \<and> i < j \<longrightarrow> save i \<noteq> None \<and> \<not> stopped i))"
        (is "?A \<longleftrightarrow> ?B")
      proof
        assume ?A
        then obtain j where j: "Suc k \<le> j" "int j \<le> m" "save j = None"
          "\<forall>i. Suc k \<le> i \<and> i < j \<longrightarrow> save i \<noteq> None \<and> \<not> stopped i" by blast
        have "save i \<noteq> None \<and> \<not> stopped i" if "k \<le> i" "i < j" for i
          using that j(4) Some 3(2) by (cases "i = k") auto
        then show ?B using j by (intro exI [of _ j]) auto
      next
        assume ?B
        then obtain j where j: "k \<le> j" "int j \<le> m" "save j = None"
          "\<forall>i. k \<le> i \<and> i < j \<longrightarrow> save i \<noteq> None \<and> \<not> stopped i" by blast
        then have "Suc k \<le> j" using Some by (cases "j = k") auto
        then show ?A using j by (intro exI [of _ j]) auto
      qed
      ultimately show ?thesis unfolding u by (simp add: save_ok_def)
    qed
  qed
qed

text \<open>
  Writing a batch tries at most once plus the configured retries, waits 100 ms, 200 ms, 400 ms and so
  on between the attempts, and succeeds exactly if some attempt does before the context ends; with
  a non-negative number of retries it never panics.
\<close>

theorem save_retry_correct:
  assumes "0 \<le> ac_max_save_retries cfg" "save_with_retry cfg save stopped = (out, failures, waited)"
  shows "out \<noteq> SavePanic \<and> int failures \<le> ac_max_save_retries cfg + 1 \<and>
    waited = map (\<lambda>i. 100 * 1000000 * 2 ^ i) [0..<length waited] \<and> int (length waited) \<le> ac_max_save_retries cfg \<and>
    (out = SaveOk \<longleftrightarrow>
       (\<exists>j. int j \<le> ac_max_save_retries cfg \<and> save j = None \<and> (\<forall>i < j. save i \<noteq> None \<and> \<not> stopped i)))"
  using save_loop_ok [of 0 "ac_max_save_retries cfg" 0 retry_base_delay "[]" save stopped None] assms
  by (simp add: save_ok_def save_with_retry_def retry_base_delay_def)

text \<open>
  A panic while a batch is written clears the batch without storing it and without counting it as
  lost.
\<close>

theorem panicking_flush_uncounted:
  "aw_batch (flush SavePanic n w) = [] \<and> aw_stored (flush SavePanic n w) = aw_stored w \<and>
   aw_lost_save (flush SavePanic n w) = aw_lost_save w \<and> aw_lost_enqueue (flush SavePanic n w) = aw_lost_enqueue w"
  by (simp add: flush_def Let_def)

subsection \<open>The statement\<close>

definition columns_per_entry :: nat where "columns_per_entry = 10"

definition insert_prefix :: string where
  "insert_prefix = ''INSERT INTO audit_log (id, operation_type, plugin_name, caller_address, status, error_code, error_message, duration_ms, metadata, created_at) VALUES ''"

datatype arg = ArgId nat | ArgOp operation | ArgText string | ArgStatus audit_status | ArgInt int | ArgJson string

definition entry_args :: "((string \<rightharpoonup> meta_value) \<Rightarrow> string option) \<Rightarrow> audit_entry \<Rightarrow> arg list" where
  "entry_args marshal e =
     [ArgId (ae_id e), ArgOp (ae_operation e), ArgText (ae_plugin_name e), ArgText (ae_caller e),
      ArgStatus (ae_status e), ArgText (ae_error_code e), ArgText (ae_error_message e), ArgInt (ae_duration_ms e),
      ArgJson (case marshal (ae_metadata e) of Some s \<Rightarrow> s | None \<Rightarrow> ''{}''), ArgInt (ae_created_at e)]"

definition placeholders :: "nat \<Rightarrow> string" where
  "placeholders row =
     ''('' @ join_with '', '' (map (\<lambda>col. ''$'' @ nat_digits (row * columns_per_entry + col + 1)) [0..<columns_per_entry]) @ '')''"

fun build_rows :: "((string \<rightharpoonup> meta_value) \<Rightarrow> string option) \<Rightarrow> nat \<Rightarrow> audit_entry list \<Rightarrow> string \<times> arg list" where
  "build_rows marshal row [] = ([], [])"
| "build_rows marshal row (e # es) =
     (let (q, args) = build_rows marshal (Suc row) es
      in ((if row > 0 then '', '' else []) @ placeholders row @ q, entry_args marshal e @ args))"

definition build_insert :: "((string \<rightharpoonup> meta_value) \<Rightarrow> string option) \<Rightarrow> audit_entry list \<Rightarrow> string \<times> arg list" where
  "build_insert marshal es = (let (q, args) = build_rows marshal 0 es in (insert_prefix @ q, args))"

definition save_batch ::
  "((string \<rightharpoonup> meta_value) \<Rightarrow> string option) \<Rightarrow> (string \<times> arg list \<Rightarrow> go_error option) \<Rightarrow> audit_entry list
   \<Rightarrow> go_error option" where
  "save_batch marshal exec es =
     (if es = [] then None
      else map_option (\<lambda>e. wrap ''s.db.NoTxContext: '' (wrap ''db.ExecContext: '' e)) (exec (build_insert marshal es)))"

lemma length_entry_args [simp]: "length (entry_args m e) = 10"
  by (simp add: entry_args_def)

lemma build_rows_args: "snd (build_rows m row es) = concat (map (entry_args m) es)"
proof (induction es arbitrary: row)
  case (Cons e es)
  show ?case using Cons.IH [of "Suc row"] by (cases "build_rows m (Suc row) es") simp
qed simp

lemma build_rows_query:
  "fst (build_rows m row es) = (if row > 0 \<and> es \<noteq> [] then '', '' else []) @ join_with '', '' (map placeholders [row..<row + length es])"
proof (induction es arbitrary: row)
  case (Cons e es)
  have u: "[row..<row + length (e # es)] = row # [Suc row..<Suc row + length es]"
    using upt_conv_Cons [of row "row + length (e # es)"] by simp
  have "fst (build_rows m (Suc row) es) = (if es \<noteq> [] then '', '' else []) @ join_with '', '' (map placeholders [Suc row..<Suc row + length es])"
    using Cons.IH [of "Suc row"] by simp
  moreover have "join_with '', '' (x # xs) = x @ (if xs = [] then [] else '', '' @ join_with '', '' xs)" for x xs
    by (cases xs) simp_all
  ultimately show ?case unfolding u by (cases "build_rows m (Suc row) es"; cases es) auto
qed simp

lemma concat_nth:
  "r < length xs \<Longrightarrow> c < k \<Longrightarrow> (\<And>x. length (f x) = k) \<Longrightarrow> concat (map f xs) ! (r * k + c) = f (xs ! r) ! c"
proof (induction xs arbitrary: r)
  case (Cons x xs)
  then show ?case by (cases r) (simp_all add: nth_append)
qed simp

text \<open>
  The statement of a batch has one group of ten numbered placeholders per entry, and the argument
  with number \<open>10 r + c + 1\<close> is column \<open>c\<close> of entry \<open>r\<close>; there are as many arguments as
  placeholders.
\<close>

theorem insert_aligned:
  "fst (build_insert m es) = insert_prefix @ join_with '', '' (map placeholders [0..<length es]) \<and>
   length (snd (build_insert m es)) = 10 * length es \<and>
   (\<forall>r < length es. \<forall>c < 10. snd (build_insert m es) ! (r * 10 + c) = entry_args m (es ! r) ! c)"
proof -
  have a: "snd (build_insert m es) = concat (map (entry_args m) es)"
    using build_rows_args [of m 0 es] by (cases "build_rows m 0 es") (simp add: build_insert_def)
  have "length (concat (map (entry_args m) es)) = 10 * length es" by (induction es) simp_all
  moreover have "concat (map (entry_args m) es) ! (r * 10 + c) = entry_args m (es ! r) ! c"
    if "r < length es" "c < 10" for r c
    using concat_nth [of r es c 10 "entry_args m"] that by simp
  moreover have "fst (build_insert m es) = insert_prefix @ join_with '', '' (map placeholders [0..<length es])"
    using build_rows_query [of m 0 es] by (cases "build_rows m 0 es") (simp add: build_insert_def)
  ultimately show ?thesis by (simp add: a)
qed

subsection \<open>Concrete runs\<close>

definition sample_audit_config :: audit_config where
  "sample_audit_config = \<lparr>ac_buffer_size = 2, ac_batch_size = 1, ac_max_save_retries = 2, ac_enqueue_timeout = 0,
     ac_flush_timeout = 0, ac_shutdown_flush_timeout = 0\<rparr>"

lemma sample_worker_run:
  "\<exists>w. worker_reach (new_worker sample_audit_config) (w :: nat worker) \<and> aw_accepted w = [7] \<and> aw_stored w = [7] \<and> aw_stopped w"
proof -
  let ?w0 = "new_worker sample_audit_config :: nat worker"
  let ?w1 = "(accept 7 ?w0)\<lparr>aw_entries := aw_entries ?w0 @ [7]\<rparr>"
  let ?w2 = "receive SaveOk 0 7 (?w1\<lparr>aw_entries := []\<rparr>)"
  let ?w3 = "?w2\<lparr>aw_closed := True\<rparr>"
  let ?w4 = "(flush SaveOk 0 ?w3)\<lparr>aw_stopped := True\<rparr>"
  have "worker_step ?w0 ?w1" by (rule send_room) (simp_all add: new_worker_def sample_audit_config_def Let_def)
  moreover have "worker_step ?w1 ?w2" by (rule run_receive) (simp_all add: new_worker_def accept_def Let_def)
  moreover have "worker_step ?w2 ?w3" by (rule shutdown) (simp add: new_worker_def accept_def Let_def)
  moreover have "worker_step ?w3 ?w4" by (rule run_end) (simp_all add: new_worker_def accept_def Let_def)
  ultimately have "worker_reach ?w0 ?w4" by (meson worker_start worker_next)
  moreover have "aw_accepted ?w4 = [7]" by (simp add: new_worker_def accept_def Let_def)
  moreover have "aw_stored ?w4 = [7]"
    by (simp add: new_worker_def accept_def receive_def flush_def sample_audit_config_def Let_def)
  ultimately show ?thesis by (intro exI [of _ ?w4]) simp
qed


theorem worker_bounded_witness:
  "\<exists>w. worker_reach (new_worker sample_audit_config) (w :: nat worker) \<and> aw_accepted w = [7] \<and> aw_batch w = []"
proof -
  obtain w where w: "worker_reach (new_worker sample_audit_config) (w :: nat worker)" "aw_accepted w = [7]"
    using sample_worker_run by blast
  have "int (length (aw_batch w)) < 1"
    using worker_bounded [OF w(1)] by (simp add: sample_audit_config_def)
  then show ?thesis using w by auto
qed

theorem save_retry_correct_witness:
  "\<exists>f wt. save_with_retry sample_audit_config (\<lambda>k. if k = 0 then Some (plain_error ''x'') else None) (\<lambda>_. False) = (SaveOk, f, wt) \<and>
     wt = map (\<lambda>i. 100 * 1000000 * 2 ^ i) [0..<length wt]"
proof -
  let ?save = "\<lambda>k. if k = (0::nat) then Some (plain_error ''x'') else None"
  obtain out f wt where s: "save_with_retry sample_audit_config ?save (\<lambda>_. False) = (out, f, wt)"
    by (cases "save_with_retry sample_audit_config ?save (\<lambda>_. False)")
  have m: "0 \<le> ac_max_save_retries sample_audit_config" by (simp add: sample_audit_config_def)
  have "\<exists>j. int j \<le> ac_max_save_retries sample_audit_config \<and> ?save j = None \<and> (\<forall>i < j. ?save i \<noteq> None \<and> \<not> False)"
    by (intro exI [of _ 1]) (simp add: sample_audit_config_def)
  then have "out = SaveOk" using save_retry_correct [OF m s] by blast
  then show ?thesis using save_retry_correct [OF m s] s by blast
qed

theorem insert_aligned_witness:
  "snd (build_insert (\<lambda>_. None)
     [\<lparr>ae_id = 1, ae_operation = CREATE_PLUGIN, ae_plugin_name = ''g/n:v1'', ae_caller = ''a'', ae_status = AuditError,
       ae_error_code = ''X'', ae_error_message = [], ae_duration_ms = 3, ae_metadata = Map.empty, ae_created_at = 0\<rparr>]) ! 8 =
   ArgJson ''{}''"
proof -
  let ?e = "\<lparr>ae_id = 1, ae_operation = CREATE_PLUGIN, ae_plugin_name = ''g/n:v1'', ae_caller = ''a'', ae_status = AuditError,
       ae_error_code = ''X'', ae_error_message = [], ae_duration_ms = 3, ae_metadata = Map.empty, ae_created_at = 0\<rparr>"
  have "\<forall>r < length [?e]. \<forall>c < 10. snd (build_insert (\<lambda>_. None) [?e]) ! (r * 10 + c) = entry_args (\<lambda>_. None) ([?e] ! r) ! c"
    using insert_aligned [of "\<lambda>_. None" "[?e]"] by (elim conjE)
  then have "snd (build_insert (\<lambda>_. None) [?e]) ! (0 * 10 + 8) = entry_args (\<lambda>_. None) ([?e] ! 0) ! 8"
    by (elim allE [of _ 0] allE [of _ 8] impE) simp_all
  then show ?thesis by (simp add: entry_args_def)
qed

end
