(* ===== verification/Database.thy ===== *)
theory Database
  imports Domain
begin

text \<open>
  The database wrapper (\<^verbatim>\<open>internal/database/sql.go\<close>, \<^verbatim>\<open>internal/database/internal/internal.go\<close>):
  its defaults, the wait for the database at startup, and the transaction wrapper. The connection is
  what it answers to each ping, \<open>BEGIN\<close>, \<open>COMMIT\<close> and \<open>ROLLBACK\<close>. The lemmas show that the wait ends as
  soon as the database answers or the context ends, with the delays of the back-off and no other, and
  that a transaction that fails leaves the database as it was.
\<close>

subsection \<open>Defaults\<close>

definition default_conn_max_lifetime :: int where "default_conn_max_lifetime = 60 * 1000000000"
definition default_conn_max_idle_time :: int where "default_conn_max_idle_time = 10 * 1000000000"
definition default_max_open_connections :: int where "default_max_open_connections = 50"
definition default_max_idle_connections :: int where "default_max_idle_connections = 50"

record sql_config =
  sc_conn_max_lifetime :: int
  sc_conn_max_idle_time :: int
  sc_max_open_connections :: int
  sc_max_idle_connections :: int

definition sql_set_default :: "sql_config \<Rightarrow> sql_config" where
  "sql_set_default c =
     (let c1 = (if sc_conn_max_lifetime c = 0 then c\<lparr>sc_conn_max_lifetime := default_conn_max_lifetime\<rparr> else c);
          c2 = (if sc_conn_max_idle_time c1 = 0 then c1\<lparr>sc_conn_max_idle_time := default_conn_max_idle_time\<rparr> else c1);
          c3 = (if sc_max_open_connections c2 = 0
                then c2\<lparr>sc_max_open_connections := default_max_open_connections\<rparr> else c2)
      in if sc_max_idle_connections c3 = 0
         then c3\<lparr>sc_max_idle_connections := default_max_idle_connections\<rparr> else c3)"

subsection \<open>Waiting for the database\<close>

definition ping_backoff_initial :: int where "ping_backoff_initial = 100 * 1000000"
definition ping_backoff_ceiling :: int where "ping_backoff_ceiling = 5 * 1000000000"
definition ping_log_interval :: int where "ping_log_interval = 5 * 1000000000"

text \<open>What the wait has done: the error it ends with, the delays it slept, the warnings it logged.\<close>

record wait_result =
  wr_error :: "go_error option"
  wr_slept :: "int list"
  wr_warnings :: nat

definition wait_error :: "go_error \<Rightarrow> go_error \<Rightarrow> go_error" where
  "wait_error ctx_err ping_err = wrap ''db.PingContext: '' (wrap_both ctx_err '' (last error: '' ping_err '')'')"

text \<open>
  The loop after \<open>k + 1\<close> failed pings: \<open>ping k\<close> is the answer to the \<open>k\<close>-th, \<open>ctx_err k\<close> the state of the
  context before the \<open>k\<close>-th sleep and \<open>cancelled k\<close> its end during it. It need not end: then the value
  is \<^term>\<open>None\<close>.
\<close>

partial_function (option) wait_loop ::
  "(nat \<Rightarrow> go_error option) \<Rightarrow> (nat \<Rightarrow> go_error option) \<Rightarrow> (nat \<Rightarrow> go_error option)
   \<Rightarrow> nat \<Rightarrow> int \<Rightarrow> int \<Rightarrow> go_error \<Rightarrow> int list \<Rightarrow> nat \<Rightarrow> wait_result option" where
  "wait_loop ping ctx_err cancelled k delay since_log err slept warnings =
     (case ctx_err k of
        Some ce \<Rightarrow> Some \<lparr>wr_error = Some (wait_error ce err), wr_slept = slept, wr_warnings = warnings\<rparr>
      | None \<Rightarrow>
          (case cancelled k of
             Some ce \<Rightarrow>
               Some \<lparr>wr_error = Some (wait_error ce err), wr_slept = slept,
                     wr_warnings = (if since_log \<ge> ping_log_interval \<or> delay = ping_backoff_initial
                                    then Suc warnings else warnings)\<rparr>
           | None \<Rightarrow>
               (case ping (Suc k) of
                  None \<Rightarrow>
                    Some \<lparr>wr_error = None, wr_slept = slept @ [delay],
                          wr_warnings = (if since_log \<ge> ping_log_interval \<or> delay = ping_backoff_initial
                                         then Suc warnings else warnings)\<rparr>
                | Some e \<Rightarrow>
                    wait_loop ping ctx_err cancelled (Suc k) (min (delay * 2) ping_backoff_ceiling)
                      (if since_log \<ge> ping_log_interval \<or> delay = ping_backoff_initial then delay
                       else since_log + delay)
                      e (slept @ [delay])
                      (if since_log \<ge> ping_log_interval \<or> delay = ping_backoff_initial
                       then Suc warnings else warnings))))"

definition wait_for_db ::
  "(nat \<Rightarrow> go_error option) \<Rightarrow> (nat \<Rightarrow> go_error option) \<Rightarrow> (nat \<Rightarrow> go_error option) \<Rightarrow> wait_result option" where
  "wait_for_db ping ctx_err cancelled =
     (case ping 0 of
        None \<Rightarrow> Some \<lparr>wr_error = None, wr_slept = [], wr_warnings = 0\<rparr>
      | Some e \<Rightarrow> wait_loop ping ctx_err cancelled 0 ping_backoff_initial 0 e [] 0)"

text \<open>The delay before the \<open>k\<close>-th retry.\<close>

definition backoff :: "nat \<Rightarrow> int" where
  "backoff k = min (ping_backoff_initial * 2 ^ k) ping_backoff_ceiling"

lemma backoff_0 [simp]: "backoff 0 = ping_backoff_initial"
  by (simp add: backoff_def ping_backoff_initial_def ping_backoff_ceiling_def)

lemma backoff_Suc [simp]: "min (backoff k * 2) ping_backoff_ceiling = backoff (Suc k)"
  by (simp add: backoff_def ping_backoff_initial_def ping_backoff_ceiling_def min_def)

text \<open>Where the wait ends: before it, every ping failed and the context was alive.\<close>

definition goes_on ::
  "(nat \<Rightarrow> go_error option) \<Rightarrow> (nat \<Rightarrow> go_error option) \<Rightarrow> (nat \<Rightarrow> go_error option) \<Rightarrow> nat \<Rightarrow> bool" where
  "goes_on ping ctx_err cancelled j \<longleftrightarrow> ctx_err j = None \<and> cancelled j = None \<and> ping (Suc j) \<noteq> None"

definition wait_ends ::
  "(nat \<Rightarrow> go_error option) \<Rightarrow> (nat \<Rightarrow> go_error option) \<Rightarrow> (nat \<Rightarrow> go_error option) \<Rightarrow> nat \<Rightarrow> nat \<Rightarrow> int list
   \<Rightarrow> wait_result \<Rightarrow> bool" where
  "wait_ends ping ctx_err cancelled k n slept r \<longleftrightarrow>
     (if ctx_err n = None \<and> cancelled n = None
      then ping (Suc n) = None \<and> wr_error r = None \<and> wr_slept r = slept @ map backoff [k..<Suc n]
      else (\<exists>e. wr_error r = Some e) \<and> wr_slept r = slept @ map backoff [k..<n])"

lemma wait_loop_ends:
  assumes "\<And>j. k \<le> j \<Longrightarrow> j < n \<Longrightarrow> goes_on ping ctx_err cancelled j" "\<not> goes_on ping ctx_err cancelled n" "k \<le> n"
  shows "\<exists>r. wait_loop ping ctx_err cancelled k (backoff k) since err slept w = Some r \<and>
     wait_ends ping ctx_err cancelled k n slept r"
  using assms
proof (induction "n - k" arbitrary: k since err slept w)
  case 0
  then have "k = n" by simp
  then show ?case using 0 by (subst wait_loop.simps) (auto simp: goes_on_def wait_ends_def split: option.split)
next
  case (Suc m)
  then have g: "goes_on ping ctx_err cancelled k" by simp
  have le: "Suc k \<le> n" "m = n - Suc k" using Suc.hyps(2) by simp_all
  obtain e where e: "ping (Suc k) = Some e" using g by (auto simp: goes_on_def)
  let ?w = "since \<ge> ping_log_interval \<or> backoff k = ping_backoff_initial"
  obtain r where r: "wait_loop ping ctx_err cancelled (Suc k) (backoff (Suc k))
      (if ?w then backoff k else since + backoff k) e (slept @ [backoff k]) (if ?w then Suc w else w) = Some r"
    "wait_ends ping ctx_err cancelled (Suc k) n (slept @ [backoff k]) r"
    using Suc.hyps(1) [of "Suc k" "if ?w then backoff k else since + backoff k" e "slept @ [backoff k]"
        "if ?w then Suc w else w"] Suc.prems le by force
  have "wait_loop ping ctx_err cancelled k (backoff k) since err slept w = Some r"
    using g e r(1) by (subst wait_loop.simps) (simp add: goes_on_def)
  moreover have "wait_ends ping ctx_err cancelled k n slept r"
    using r(2) le upt_conv_Cons [of k n] upt_conv_Cons [of k "Suc n"] by (simp add: wait_ends_def del: upt_Suc)
  ultimately show ?case by blast
qed

text \<open>
  Waiting for the database ends at the first moment the context ends or a ping succeeds, and only
  then: it sleeps 100 ms, 200 ms, 400 ms and so on up to 5 s between the pings, and gives an error
  exactly when the context ended.
\<close>

theorem wait_for_db_correct:
  assumes "ping 0 = Some e"
    and "\<And>j. j < n \<Longrightarrow> ctx_err j = None \<and> cancelled j = None \<and> ping (Suc j) \<noteq> None"
    and "ctx_err n \<noteq> None \<or> cancelled n \<noteq> None \<or> ping (Suc n) = None"
  shows "\<exists>r. wait_for_db ping ctx_err cancelled = Some r \<and>
    (if ctx_err n = None \<and> cancelled n = None
     then wr_error r = None \<and> wr_slept r = map (\<lambda>i. min (100000000 * 2 ^ i) 5000000000) [0..<Suc n]
     else (\<exists>e. wr_error r = Some e) \<and> wr_slept r = map (\<lambda>i. min (100000000 * 2 ^ i) 5000000000) [0..<n])"
proof -
  have b: "backoff = (\<lambda>i. min (100000000 * 2 ^ i) 5000000000)"
    by (rule ext) (simp add: backoff_def ping_backoff_initial_def ping_backoff_ceiling_def)
  have "\<exists>r. wait_loop ping ctx_err cancelled 0 (backoff 0) 0 e [] 0 = Some r \<and>
      wait_ends ping ctx_err cancelled 0 n [] r"
    using assms(2,3) by (intro wait_loop_ends) (auto simp: goes_on_def)
  then obtain r where r: "wait_loop ping ctx_err cancelled 0 (backoff 0) 0 e [] 0 = Some r"
    "wait_ends ping ctx_err cancelled 0 n [] r" by blast
  have "wait_for_db ping ctx_err cancelled = Some r"
    using r(1) assms(1) unfolding backoff_0 by (simp add: wait_for_db_def)
  then show ?thesis
    using r(2) by (intro exI [of _ r]) (simp add: wait_ends_def b del: upt_Suc)
qed

theorem wait_for_db_correct_witness:
  "\<exists>r. wait_for_db (\<lambda>k. if k < 8 then Some (plain_error ''refused'') else None) (\<lambda>_. None) (\<lambda>_. None) = Some r \<and>
     wr_error r = None \<and>
     wr_slept r = map (\<lambda>i. i * 1000000) [100, 200, 400, 800, 1600, 3200, 5000, 5000]"
proof -
  have "map (\<lambda>i. min (100000000 * 2 ^ i) 5000000000) [0..<Suc 7] =
      map (\<lambda>i. i * (1000000::int)) [100, 200, 400, 800, 1600, 3200, 5000, 5000]"
    by (simp add: upt_rec)
  moreover have "(if (7::nat) < 8 then Some (plain_error ''refused'') else None) = Some (plain_error ''refused'')"
    by simp
  ultimately show ?thesis
    using wait_for_db_correct [of "\<lambda>k. if k < 8 then Some (plain_error ''refused'') else None"
        "plain_error ''refused''" 7 "\<lambda>_. None" "\<lambda>_. None"] by simp
qed

subsection \<open>Transactions\<close>

record tx_env =
  tx_begin :: "go_error option"
  tx_commit :: "(go_error \<times> bool) option"   \<comment> \<open>a failing commit, and whether it took effect all the same\<close>
  tx_rollback :: "go_error option"

definition run_tx ::
  "tx_env \<Rightarrow> string \<Rightarrow> 'db \<Rightarrow> ('db \<Rightarrow> 'a result \<times> 'db) \<Rightarrow> 'a result \<times> 'db" where
  "run_tx env method db body =
     (case tx_begin env of
        Some e \<Rightarrow> (Inl (wrap (method @ '': '') e), db)
      | None \<Rightarrow>
          (case body db of
             (Inl e, db1) \<Rightarrow>
               (case tx_rollback env of
                  Some re \<Rightarrow> (Inl (wrap ''tx.Rollback: '' re), db)
                | None \<Rightarrow> (Inl (wrap (method @ '': '') e), db))
           | (Inr a, db1) \<Rightarrow>
               (case tx_commit env of
                  Some (e, landed) \<Rightarrow> (Inl (wrap (method @ '': '') e), if landed then db1 else db)
                | None \<Rightarrow> (Inr a, db1))))"

text \<open>\<open>NoTx\<close> and \<open>NoTxContext\<close>: the statement itself, its error named after the method.\<close>

definition no_tx :: "string \<Rightarrow> 'db \<Rightarrow> ('db \<Rightarrow> 'a result \<times> 'db) \<Rightarrow> 'a result \<times> 'db" where
  "no_tx method db body =
     (case body db of (Inl e, db1) \<Rightarrow> (Inl (wrap (method @ '': '') e), db1) | (Inr a, db1) \<Rightarrow> (Inr a, db1))"

lemma run_tx_ok:
  "run_tx env method db body = (Inr a, db') \<Longrightarrow> body db = (Inr a, db')"
  by (auto simp: run_tx_def split: option.splits prod.splits sum.splits)

lemma run_tx_state:
  "run_tx env method db body = (r, db') \<Longrightarrow> db' = db \<or> (\<exists>a. body db = (Inr a, db'))"
  by (auto simp: run_tx_def split: option.splits prod.splits sum.splits if_splits)

lemma run_tx_atomic:
  assumes "run_tx env method db body = (Inl e, db')" "tx_commit env = None"
  shows "db' = db"
  using assms by (auto simp: run_tx_def split: option.splits prod.splits sum.splits)

subsection \<open>The method name a wrapper reports\<close>

text \<open>
  \<open>typeMethodName\<close> of the full name of a Go function, \<open>path/pkg.Type.method\<close> with whatever follows,
  and \<open>methodName\<close>; \<^term>\<open>None\<close> is their panic.
\<close>

definition after_last :: "char \<Rightarrow> string \<Rightarrow> string" where
  "after_last c s = rev (takeWhile (\<lambda>x. x \<noteq> c) (rev s))"

definition type_method_name :: "string \<Rightarrow> string option" where
  "type_method_name name =
     (case cut_at CHR ''.'' (after_last CHR ''/'' name) of
        None \<Rightarrow> None
      | Some (pkg, rest) \<Rightarrow>
          (case cut_at CHR ''.'' rest of
             None \<Rightarrow> None
           | Some (typ, tail) \<Rightarrow>
               (case cut_at CHR ''.'' tail of
                  None \<Rightarrow> Some rest
                | Some (mth, extra) \<Rightarrow> Some (typ @ ''.'' @ mth))))"

definition method_name :: "string \<Rightarrow> string option" where
  "method_name name =
     (case type_method_name name of
        None \<Rightarrow> None
      | Some s \<Rightarrow> (case cut_at CHR ''.'' s of None \<Rightarrow> None | Some (a, b) \<Rightarrow> Some b))"

lemma cut_at_append: "c \<notin> set a \<Longrightarrow> cut_at c (a @ c # b) = Some (a, b)"
  by (induction a) auto

lemma cut_at_absent: "c \<notin> set a \<Longrightarrow> cut_at c a = None"
  by (simp add: cut_at_None)

lemma after_last_append: "c \<notin> set b \<Longrightarrow> after_last c (a @ c # b) = b"
  by (simp add: after_last_def takeWhile_append)

text \<open>The name of a method of a pointer type, and of a closure inside it, is the method's name.\<close>

lemma method_name_of_method:
  assumes "CHR ''.'' \<notin> set pkg" "CHR ''.'' \<notin> set typ" "CHR ''.'' \<notin> set mth"
    and "CHR ''/'' \<notin> set pkg" "CHR ''/'' \<notin> set typ" "CHR ''/'' \<notin> set mth" "CHR ''/'' \<notin> set extra"
  shows "method_name (path @ ''/'' @ pkg @ ''.'' @ typ @ ''.'' @ mth) = Some mth"
    and "method_name (path @ ''/'' @ pkg @ ''.'' @ typ @ ''.'' @ mth @ ''.'' @ extra) = Some mth"
  using assms
  by (simp_all add: method_name_def type_method_name_def after_last_append cut_at_append cut_at_absent)

end
