(* ===== verification/Partitions.thy ===== *)
theory Partitions
  imports Database "HOL-Library.Product_Lexorder"
begin

text \<open>
  The lifecycle of the monthly partitions of the audit log (\<^verbatim>\<open>internal/adapters/audit/partitions.go\<close>).
  An instant in UTC is its civil date and the nanoseconds of its day, ordered as instants are; the
  database is the list of partitions attached to the table, each with its range if it was
  created here. The lemmas show that names and months are inverse to each other, that the created
  months cover the time ahead without gaps, that retention drops exactly what is older than the
  cutoff and never everything, and that a pass never drops the current month.
\<close>

subsection \<open>Months\<close>

datatype civil = Civil (civ_year: int) (civ_month: int) (civ_day: int) (civ_nanos: int)

definition civ_key :: "civil \<Rightarrow> int \<times> int \<times> int \<times> int" where
  "civ_key t = (civ_year t, civ_month t, civ_day t, civ_nanos t)"

lemma civ_key_inject: "civ_key s = civ_key t \<longleftrightarrow> s = t"
  by (cases s; cases t) (simp add: civ_key_def)

text \<open>\<open>Before\<close> is the order of the instants.\<close>

instantiation civil :: linorder
begin

definition less_eq_civil :: "civil \<Rightarrow> civil \<Rightarrow> bool" where
  "s \<le> t \<longleftrightarrow> civ_key s \<le> civ_key t"

definition less_civil :: "civil \<Rightarrow> civil \<Rightarrow> bool" where
  "s < t \<longleftrightarrow> civ_key s < civ_key t"

instance
proof
  fix s t u :: civil
  show "s < t \<longleftrightarrow> s \<le> t \<and> \<not> t \<le> s" by (auto simp: less_eq_civil_def less_civil_def)
  show "s \<le> s" by (simp add: less_eq_civil_def)
  show "s \<le> u" if "s \<le> t" "t \<le> u" using that by (auto simp: less_eq_civil_def)
  show "s = t" if "s \<le> t" "t \<le> s"
    using that by (simp add: less_eq_civil_def flip: civ_key_inject)
  show "s \<le> t \<or> t \<le> s" by (auto simp: less_eq_civil_def)
qed

end

definition month_start :: "civil \<Rightarrow> civil" where
  "month_start t = Civil (civ_year t) (civ_month t) 1 0"

text \<open>\<open>AddDate(0, i, 0)\<close> of the first instant of a month: \<open>time.Date\<close> normalises the month.\<close>

definition add_months :: "civil \<Rightarrow> int \<Rightarrow> civil" where
  "add_months t i =
     Civil (civ_year t + (civ_month t - 1 + i) div 12) ((civ_month t - 1 + i) mod 12 + 1) (civ_day t) (civ_nanos t)"

definition pad_left :: "nat \<Rightarrow> string \<Rightarrow> string" where
  "pad_left w s = replicate (w - length s) CHR ''0'' @ s"

text \<open>The verb \<open>%0wd\<close>: the sign counts.\<close>

definition zero_pad :: "nat \<Rightarrow> int \<Rightarrow> string" where
  "zero_pad w i =
     (if i < 0 then CHR ''-'' # pad_left (w - 1) (nat_digits (nat (- i))) else pad_left w (nat_digits (nat i)))"

definition name_stem :: string where "name_stem = ''audit_log_y''"

definition partition_name :: "civil \<Rightarrow> string" where
  "partition_name month =
     (let m = month_start month in name_stem @ zero_pad 4 (civ_year m) @ ''m'' @ zero_pad 2 (civ_month m))"

definition parse_partition_month :: "string \<Rightarrow> civil option" where
  "parse_partition_month name =
     (if \<not> has_prefix name name_stem then None
      else
        let r = drop (length name_stem) name in
        if length r = 7 \<and> list_all is_digit (take 4 r) \<and> r ! 4 = CHR ''m'' \<and> list_all is_digit (drop 5 r) then
          let year = digits_value (take 4 r);
              month = digits_value (drop 5 r)
          in if month < 1 \<or> month > 12 then None else Some (Civil (int year) (int month) 1 0)
        else None)"

definition upcoming_months :: "civil \<Rightarrow> int \<Rightarrow> civil list" where
  "upcoming_months now ahead =
     (let start = month_start now in map (\<lambda>i. add_months start (int i)) [0..<nat (ahead + 1)])"

definition retention_cutoff :: "civil \<Rightarrow> int \<Rightarrow> civil" where
  "retention_cutoff now months = add_months (month_start now) (- months)"

definition monthly_partitions :: "string list \<Rightarrow> string list" where
  "monthly_partitions names = filter (\<lambda>n. parse_partition_month n \<noteq> None) names"

definition expired_partitions :: "string list \<Rightarrow> civil \<Rightarrow> string list" where
  "expired_partitions names cutoff =
     filter (\<lambda>n. case parse_partition_month n of None \<Rightarrow> False | Some month \<Rightarrow> month < cutoff) names"

subsection \<open>Configuration and state\<close>

definition default_retention_months :: int where "default_retention_months = 12"
definition default_pre_create_months :: int where "default_pre_create_months = 3"
definition default_check_interval :: int where "default_check_interval = 6 * 60 * 60 * 1000000000"
definition default_operation_timeout :: int where "default_operation_timeout = 30 * 1000000000"

record partition_config =
  pt_retention_months :: int
  pt_pre_create_months :: int
  pt_interval :: int
  pt_operation_timeout :: int

definition partition_set_default :: "partition_config \<Rightarrow> partition_config" where
  "partition_set_default c =
     (let c1 = (if pt_retention_months c < 0 then c\<lparr>pt_retention_months := default_retention_months\<rparr> else c);
          c2 = (if pt_pre_create_months c1 < 0 then c1\<lparr>pt_pre_create_months := default_pre_create_months\<rparr> else c1);
          c3 = (if pt_interval c2 \<le> 0 then c2\<lparr>pt_interval := default_check_interval\<rparr> else c2)
      in if pt_operation_timeout c3 \<le> 0 then c3\<lparr>pt_operation_timeout := default_operation_timeout\<rparr> else c3)"

text \<open>The partitions attached to the table; the range of those that were not created here is not known.\<close>

type_synonym partition_list = "(string \<times> (civil \<times> civil) option) list"

record maintainer =
  mt_cfg :: partition_config
  mt_created :: int               \<comment> \<open>the counters and gauges\<close>
  mt_dropped :: int
  mt_partitions :: int
  mt_default_used :: bool
  mt_runs_ok :: nat
  mt_runs_error :: nat
  mt_last_ok :: "civil option"

definition new_maintainer :: "partition_config \<Rightarrow> maintainer" where
  "new_maintainer cfg =
     \<lparr>mt_cfg = partition_set_default cfg, mt_created = 0, mt_dropped = 0, mt_partitions = 0, mt_default_used = False,
      mt_runs_ok = 0, mt_runs_error = 0, mt_last_ok = None\<rparr>"

text \<open>What a pass meets: the clock, the two transactions, the answers of the database.\<close>

record pass =
  ps_now :: civil
  ps_ensure_tx :: tx_env
  ps_ensure_lock :: "bool result"
  ps_create_fails :: "string \<Rightarrow> go_error option"
  ps_default_used :: "bool result"
  ps_drop_tx :: tx_env
  ps_drop_lock :: "bool result"
  ps_lock_timeout :: "go_error option"
  ps_statement_timeout :: "go_error option"
  ps_list_fails :: "go_error option"
  ps_drop_fails :: "string \<Rightarrow> go_error option"

subsection \<open>A maintenance pass\<close>

definition err_retention_would_empty_table :: go_error where
  "err_retention_would_empty_table =
     errors_new ErrRetentionWouldEmptyTable ''retention would drop every audit partition''"

definition acquire_lock :: "bool result \<Rightarrow> bool result" where
  "acquire_lock answer =
     (case answer of Inl e \<Rightarrow> Inl (wrap ''pg_try_advisory_xact_lock: '' e) | Inr locked \<Rightarrow> Inr locked)"

text \<open>\<open>CREATE TABLE IF NOT EXISTS\<close> for each month: a name that exists is left alone, and counted.\<close>

definition attach :: "string \<Rightarrow> civil \<Rightarrow> civil \<Rightarrow> partition_list \<Rightarrow> partition_list" where
  "attach name lo hi parts = (if name \<in> fst ` set parts then parts else parts @ [(name, Some (lo, hi))])"

fun create_partitions ::
  "(string \<Rightarrow> go_error option) \<Rightarrow> civil list \<Rightarrow> int \<Rightarrow> partition_list \<Rightarrow> int result \<times> partition_list" where
  "create_partitions fails [] created parts = (Inr created, parts)"
| "create_partitions fails (month # months) created parts =
     (let lo = month_start month; hi = add_months lo 1; name = partition_name lo in
      case fails name of
        Some e \<Rightarrow> (Inl (wrap (''tx.ExecContext '' @ name @ '': '') e), parts)
      | None \<Rightarrow>
          create_partitions fails months (created + 1) (attach name lo hi parts))"

definition ensure_partitions :: "pass \<Rightarrow> civil list \<Rightarrow> partition_list \<Rightarrow> int result \<times> partition_list" where
  "ensure_partitions ps months parts =
     (case run_tx (ps_ensure_tx ps) ''EnsurePartitions'' parts
             (\<lambda>parts. case acquire_lock (ps_ensure_lock ps) of
                Inl e \<Rightarrow> (Inl e, parts)
              | Inr locked \<Rightarrow>
                  if \<not> locked then (Inr 0, parts) else create_partitions (ps_create_fails ps) months 0 parts) of
        (Inl e, parts1) \<Rightarrow> (Inl (wrap ''m.db.Tx: '' e), parts1)
      | (Inr created, parts1) \<Rightarrow> (Inr created, parts1))"

definition bound_drop_locks :: "pass \<Rightarrow> go_error option" where
  "bound_drop_locks ps =
     (case ps_lock_timeout ps of
        Some e \<Rightarrow> Some (wrap ''set lock_timeout: '' e)
      | None \<Rightarrow> map_option (wrap ''set statement_timeout: '') (ps_statement_timeout ps))"

fun drop_partitions ::
  "(string \<Rightarrow> go_error option) \<Rightarrow> string list \<Rightarrow> string list \<Rightarrow> partition_list \<Rightarrow> string list result \<times> partition_list" where
  "drop_partitions fails [] dropped parts = (Inr dropped, parts)"
| "drop_partitions fails (name # names) dropped parts =
     (case fails name of
        Some e \<Rightarrow> (Inl (wrap (''drop partition '' @ name @ '': '') e), parts)
      | None \<Rightarrow> drop_partitions fails names (dropped @ [name]) (filter (\<lambda>p. fst p \<noteq> name) parts))"

text \<open>The body of the transaction; it also gives the value of the gauge, if it gets that far.\<close>

definition drop_body ::
  "pass \<Rightarrow> civil \<Rightarrow> partition_list \<Rightarrow> (string list \<times> int option) result \<times> partition_list" where
  "drop_body ps cutoff parts =
     (case acquire_lock (ps_drop_lock ps) of
        Inl e \<Rightarrow> (Inl e, parts)
      | Inr locked \<Rightarrow>
     (if \<not> locked then (Inr ([], None), parts) else
      case bound_drop_locks ps of
        Some e \<Rightarrow> (Inl e, parts)
      | None \<Rightarrow>
     (case ps_list_fails ps of
        Some e \<Rightarrow> (Inl (wrap ''tx.SelectContext: '' e), parts)
      | None \<Rightarrow>
     (let names = map fst parts; expired = expired_partitions names cutoff in
      if expired \<noteq> [] \<and> length expired = length (monthly_partitions names)
      then (Inl err_retention_would_empty_table, parts)
      else
        case drop_partitions (ps_drop_fails ps) expired [] parts of
          (Inl e, parts1) \<Rightarrow> (Inl e, parts1)
        | (Inr dropped, parts1) \<Rightarrow>
            (Inr (dropped, Some (int (length (monthly_partitions names)) - int (length dropped))), parts1)))))"

definition drop_expired_partitions ::
  "pass \<Rightarrow> civil \<Rightarrow> partition_list \<Rightarrow> string list result \<times> partition_list" where
  "drop_expired_partitions ps cutoff parts =
     (case run_tx (ps_drop_tx ps) ''DropExpiredPartitions'' parts (drop_body ps cutoff) of
        (Inl e, parts1) \<Rightarrow> (Inl (wrap ''m.db.Tx: '' e), parts1)
      | (Inr (dropped, g), parts1) \<Rightarrow> (Inr dropped, parts1))"

text \<open>The gauge is set inside the transaction, whatever becomes of the commit.\<close>

definition partitions_gauge :: "pass \<Rightarrow> civil \<Rightarrow> partition_list \<Rightarrow> int \<Rightarrow> int" where
  "partitions_gauge ps cutoff parts old =
     (if tx_begin (ps_drop_tx ps) \<noteq> None then old
      else case fst (drop_body ps cutoff parts) of Inr (d, Some g) \<Rightarrow> g | _ \<Rightarrow> old)"

definition observe_default_partition :: "pass \<Rightarrow> maintainer \<Rightarrow> maintainer" where
  "observe_default_partition ps m =
     (case ps_default_used ps of Inl e \<Rightarrow> m | Inr used \<Rightarrow> m\<lparr>mt_default_used := used\<rparr>)"

definition retention_enabled :: "maintainer \<Rightarrow> bool" where
  "retention_enabled m \<longleftrightarrow> pt_retention_months (mt_cfg m) > 0"

definition maintain ::
  "pass \<Rightarrow> maintainer \<times> partition_list \<Rightarrow> go_error option \<times> maintainer \<times> partition_list" where
  "maintain ps mp =
     (let (m, parts) = mp in
      case ensure_partitions ps (upcoming_months (ps_now ps) (pt_pre_create_months (mt_cfg m))) parts of
        (Inl e, parts1) \<Rightarrow> (Some (wrap ''m.EnsurePartitions: '' e), m, parts1)
      | (Inr created, parts1) \<Rightarrow>
          (let m1 = observe_default_partition ps (m\<lparr>mt_created := mt_created m + created\<rparr>) in
           if \<not> retention_enabled m then (None, m1, parts1)
           else
             let cutoff = retention_cutoff (ps_now ps) (pt_retention_months (mt_cfg m));
                 m2 = m1\<lparr>mt_partitions := partitions_gauge ps cutoff parts1 (mt_partitions m1)\<rparr> in
             case drop_expired_partitions ps cutoff parts1 of
               (Inl e, parts2) \<Rightarrow> (Some (wrap ''m.DropExpiredPartitions: '' e), m2, parts2)
             | (Inr dropped, parts2) \<Rightarrow>
                 (None, m2\<lparr>mt_dropped := mt_dropped m2 + int (length dropped)\<rparr>, parts2)))"

definition run_once :: "pass \<Rightarrow> maintainer \<times> partition_list \<Rightarrow> maintainer \<times> partition_list" where
  "run_once ps mp =
     (case maintain ps mp of
        (Some e, m, parts) \<Rightarrow> (m\<lparr>mt_runs_error := Suc (mt_runs_error m)\<rparr>, parts)
      | (None, m, parts) \<Rightarrow> (m\<lparr>mt_runs_ok := Suc (mt_runs_ok m), mt_last_ok := Some (ps_now ps)\<rparr>, parts))"

text \<open>\<open>Run\<close>: a pass at once, then one per tick; it never reports an error.\<close>

definition run_passes :: "pass list \<Rightarrow> maintainer \<times> partition_list \<Rightarrow> maintainer \<times> partition_list" where
  "run_passes passes mp = fold run_once passes mp"

subsection \<open>Names and months are inverse\<close>

lemma length_nat_digits: "n < 10 ^ Suc k \<Longrightarrow> length (nat_digits n) \<le> Suc k"
proof (induction k arbitrary: n)
  case 0
  then show ?case by (subst nat_digits.simps) simp
next
  case (Suc k)
  then have "n div 10 < 10 ^ Suc k" by (simp add: less_mult_imp_div_less)
  then show ?case using Suc.IH [of "n div 10"] by (subst nat_digits.simps) simp
qed

lemma length_pad_left: "length s \<le> w \<Longrightarrow> length (pad_left w s) = w"
  by (simp add: pad_left_def)

lemma is_digit_0 [simp]: "is_digit CHR ''0''" "digit_value CHR ''0'' = 0"
  by (simp_all add: is_digit_def digit_value_def)

lemma digits_value_append1: "digits_value (s @ [c]) = 10 * digits_value s + digit_value c"
  by (simp add: digits_value_def)

lemma digits_value_zeros: "digits_value (replicate k CHR ''0'' @ s) = digits_value s"
  by (induction k) (simp_all add: digits_value_def)

lemma pad_left_digits: "list_all is_digit (pad_left w (nat_digits n))"
  using nat_digits_are_digits [of n] by (auto simp: pad_left_def list_all_iff)

lemma digits_value_pad [simp]: "digits_value (pad_left w (nat_digits n)) = n"
  by (simp add: pad_left_def digits_value_zeros)

lemma digit_char_back: "is_digit c \<Longrightarrow> char_of (48 + digit_value c) = c \<and> digit_value c < 10"
  by (auto simp: is_digit_def digit_value_def less_diff_conv2)

lemma pad_left_value: "list_all is_digit s \<Longrightarrow> s \<noteq> [] \<Longrightarrow> pad_left (length s) (nat_digits (digits_value s)) = s"
proof (induction s rule: rev_induct)
  case (snoc c t)
  then have c: "char_of (48 + digit_value c) = c" "digit_value c < 10" using digit_char_back by simp_all
  let ?v = "digits_value t"
  have d: "nat_digits (digits_value (t @ [c])) = (if ?v = 0 then [c] else nat_digits ?v @ [c])"
    using c by (subst nat_digits.simps) (simp add: digits_value_append1)
  show ?case
  proof (cases "t = []")
    case True
    then show ?thesis using d by (simp add: pad_left_def digits_value_def)
  next
    case False
    then have IH: "pad_left (length t) (nat_digits ?v) = t" using snoc by simp
    show ?thesis
    proof (cases "?v = 0")
      case True
      have "nat_digits 0 = [CHR ''0'']" by (subst nat_digits.simps) (simp add: char_of_def bit_0)
      then have "replicate (length t - 1) CHR ''0'' @ [CHR ''0''] = t" using IH True by (simp add: pad_left_def)
      then have "replicate (length t) CHR ''0'' = t"
        using False by (metis replicate_append_same length_append_singleton length_replicate replicate_Suc)
      then show ?thesis using d True by (simp add: pad_left_def)
    next
      case False
      then show ?thesis using d IH by (simp add: pad_left_def)
    qed
  qed
qed simp

lemma length_nat_digits_lower: "10 ^ k \<le> n \<Longrightarrow> k < length (nat_digits n)"
proof (induction k arbitrary: n)
  case 0
  then show ?case by (cases "nat_digits n") simp_all
next
  case (Suc k)
  then have "10 ^ k \<le> n div 10" "\<not> n < 10" by (simp_all add: less_eq_div_iff_mult_less_eq)
      (metis Suc.prems le_trans mult.commute one_le_numeral one_le_power power_Suc mult_le_mono2 mult_1_right not_less)
  then show ?case using Suc.IH [of "n div 10"] by (subst nat_digits.simps) simp
qed

definition valid_date :: "civil \<Rightarrow> bool" where
  "valid_date t \<longleftrightarrow> 1 \<le> civ_month t \<and> civ_month t \<le> 12 \<and> 1 \<le> civ_day t \<and> 0 \<le> civ_nanos t"

lemma zero_pad_month:
  assumes "1 \<le> m" "m \<le> (12::int)"
  shows "length (zero_pad 2 m) = 2" "list_all is_digit (zero_pad 2 m)" "digits_value (zero_pad 2 m) = nat m"
proof -
  have "nat m < 10 ^ Suc 1" using assms by simp
  then have "length (nat_digits (nat m)) \<le> 2" using length_nat_digits [of "nat m" 1] by (simp add: numeral_2_eq_2)
  then show "length (zero_pad 2 m) = 2" using assms by (simp add: zero_pad_def length_pad_left)
qed (use assms in \<open>simp_all add: zero_pad_def pad_left_digits\<close>)

lemma parse_name_parts:
  assumes "length a = 4" "length b = 2" "list_all is_digit a" "list_all is_digit b"
  shows "parse_partition_month (name_stem @ a @ ''m'' @ b) =
     (if digits_value b < 1 \<or> digits_value b > 12 then None
      else Some (Civil (int (digits_value a)) (int (digits_value b)) 1 0))"
  using assms by (simp add: parse_partition_month_def nth_append Let_def)

lemma parse_partition_name:
  assumes "valid_date t"
  shows "parse_partition_month (partition_name t) =
      (if 0 \<le> civ_year t \<and> civ_year t \<le> 9999 then Some (month_start t) else None)"
proof -
  let ?y = "civ_year t" and ?m = "civ_month t"
  have m: "length (zero_pad 2 ?m) = 2" "list_all is_digit (zero_pad 2 ?m)" "digits_value (zero_pad 2 ?m) = nat ?m"
    using zero_pad_month [of ?m] assms by (simp_all add: valid_date_def)
  have n: "partition_name t = name_stem @ zero_pad 4 ?y @ ''m'' @ zero_pad 2 ?m"
    by (simp add: partition_name_def month_start_def)
  consider "?y < 0" | "?y > 9999" | "0 \<le> ?y" "?y \<le> 9999" by linarith
  then show ?thesis
  proof cases
    case 1
    then obtain z where z: "zero_pad 4 ?y = CHR ''-'' # z" by (simp add: zero_pad_def)
    have "\<not> is_digit CHR ''-''" by (simp add: is_digit_def)
    then show ?thesis using 1 n z by (simp add: parse_partition_month_def Let_def)
  next
    case 2
    then have "4 < length (nat_digits (nat ?y))" by (intro length_nat_digits_lower) simp
    then have "4 < length (zero_pad 4 ?y)" using 2 by (simp add: zero_pad_def pad_left_def)
    then show ?thesis using 2 n m(1) by (simp add: parse_partition_month_def Let_def)
  next
    case 3
    then have "length (nat_digits (nat ?y)) \<le> 4" using length_nat_digits [of "nat ?y" 3] by simp
    then have "length (zero_pad 4 ?y) = 4" "list_all is_digit (zero_pad 4 ?y)" "digits_value (zero_pad 4 ?y) = nat ?y"
      using 3 by (simp_all add: zero_pad_def length_pad_left pad_left_digits)
    then show ?thesis using 3 m assms
      by (simp only: n parse_name_parts) (auto simp: valid_date_def month_start_def)
  qed
qed

lemma name_of_parsed:
  assumes p: "parse_partition_month name = Some c"
  shows "partition_name c = name \<and> month_start c = c \<and> valid_date c"
proof -
  obtain r where r: "name = name_stem @ r" using p by (auto simp: parse_partition_month_def has_prefix_iff split: if_splits)
  let ?a = "take 4 r" and ?b = "drop 5 r"
  have l: "length r = 7" "list_all is_digit ?a" "list_all is_digit ?b" "r ! 4 = CHR ''m''"
    and c: "c = Civil (int (digits_value ?a)) (int (digits_value ?b)) 1 0"
    and v: "1 \<le> digits_value ?b" "digits_value ?b \<le> 12"
    using p by (auto simp: parse_partition_month_def r Let_def split: if_splits)
  have "r = ?a @ ''m'' @ ?b"
    using l(1,4) id_take_nth_drop [of 4 r] by simp
  moreover have "zero_pad 4 (int (digits_value ?a)) = ?a" "zero_pad 2 (int (digits_value ?b)) = ?b"
    using pad_left_value [of ?a] pad_left_value [of ?b] l by (simp_all add: zero_pad_def) (metis length_0_conv zero_neq_numeral length_take min_def numeral_le_iff)+
  ultimately show ?thesis
    using v by (simp add: c r partition_name_def month_start_def valid_date_def)
qed

text \<open>
  The name of a month and the month of a name are inverse to each other: exactly the months of
  the years 0 to 9999 parse back, to their first instant, and every name that parses, and no other
  partition, is the name of its month.
\<close>

theorem name_month_inverse:
  assumes "valid_date t"
  shows "parse_partition_month (partition_name t) =
      (if 0 \<le> civ_year t \<and> civ_year t \<le> 9999 then Some (month_start t) else None) \<and>
    (\<forall>name c. parse_partition_month name = Some c \<longrightarrow>
       partition_name c = name \<and> month_start c = c \<and> valid_date c)"
proof (rule conjI, goal_cases)
  case 1
  show ?case by (rule parse_partition_name [OF assms])
next
  case 2
  show ?case using name_of_parsed by blast
qed

subsection \<open>Month arithmetic\<close>

definition month_index :: "civil \<Rightarrow> int" where
  "month_index t = 12 * civ_year t + (civ_month t - 1)"

lemma month_index_add [simp]: "month_index (add_months t i) = month_index t + i"
proof -
  have "12 * ((civ_month t - 1 + i) div 12) + (civ_month t - 1 + i) mod 12 = civ_month t - 1 + i" by simp
  then show ?thesis by (simp add: month_index_def add_months_def)
qed

lemma valid_add_months: "valid_date t \<Longrightarrow> valid_date (add_months t i)"
  by (simp add: valid_date_def add_months_def add.commute)

lemma valid_month_start [simp]: "valid_date t \<Longrightarrow> valid_date (month_start t)"
  by (simp add: valid_date_def month_start_def)

lemma month_index_start [simp]: "month_index (month_start t) = month_index t"
  by (simp add: month_index_def month_start_def)

lemma month_start_idem [simp]: "month_start (month_start t) = month_start t"
  "month_start (add_months (month_start t) i) = add_months (month_start t) i"
  by (simp_all add: month_start_def add_months_def)

text \<open>For the first instant of a month, being before an instant is having a smaller number of the month.\<close>

lemma first_instant_le:
  assumes "valid_date s" "valid_date t" "month_start s = s"
  shows "s \<le> t \<longleftrightarrow> month_index s \<le> month_index t"
proof -
  have s: "civ_day s = 1" "civ_nanos s = 0" using assms(3) by (metis civil.sel month_start_def)+
  have "s \<le> t \<longleftrightarrow> civ_year s < civ_year t \<or> civ_year s = civ_year t \<and> civ_month s \<le> civ_month t"
    using assms(2) s by (auto simp: less_eq_civil_def civ_key_def valid_date_def)
  then show ?thesis using assms(1,2) unfolding month_index_def valid_date_def by presburger
qed

lemma first_instant_less:
  assumes "valid_date s" "valid_date t" "month_start t = t"
  shows "s < t \<longleftrightarrow> month_index s < month_index t"
  using first_instant_le [OF assms(2,1,3)] by (simp flip: not_le)

text \<open>The range of a partition is its month.\<close>

lemma in_month:
  assumes "valid_date m" "valid_date t" "month_start m = m"
  shows "m \<le> t \<and> t < add_months m 1 \<longleftrightarrow> month_index t = month_index m"
proof -
  have "month_start (add_months m 1) = add_months m 1" using month_start_idem(2) [of m 1] by (simp add: assms(3))
  then have "t < add_months m 1 \<longleftrightarrow> month_index t < month_index m + 1"
    using first_instant_less [OF assms(2) valid_add_months [OF assms(1)]] by simp
  then show ?thesis using first_instant_le [OF assms] by linarith
qed

text \<open>
  The months created ahead cover the time from the start of the current month to the end of the
  last without gap or overlap: every instant in between is in the range of exactly one of them.
\<close>

theorem upcoming_cover:
  assumes "valid_date now" "valid_date t" "0 \<le> ahead"
    and "month_start now \<le> t" "t < add_months (month_start now) (ahead + 1)"
  shows "\<exists>!m. m \<in> set (upcoming_months now ahead) \<and> m \<le> t \<and> t < add_months m 1"
proof -
  let ?s = "month_start now"
  have v: "valid_date (add_months ?s i)" for i using assms(1) by (simp add: valid_add_months)
  have r: "(add_months ?s i \<le> t \<and> t < add_months (add_months ?s i) 1) \<longleftrightarrow> month_index t = month_index now + i" for i
    using in_month [OF v assms(2), of i] by simp
  let ?i = "month_index t - month_index now"
  have "0 \<le> ?i" using first_instant_le [OF _ assms(2), of ?s] assms(1,4) by simp
  moreover have "?i < ahead + 1"
    using first_instant_less [OF assms(2) v, of "ahead + 1"] assms(5) by simp
  ultimately have "nat ?i \<in> set [0..<nat (ahead + 1)]" "?i = int (nat ?i)" by simp_all
  then have "add_months ?s ?i \<in> set (upcoming_months now ahead)"
    unfolding upcoming_months_def Let_def set_map by (metis imageI)
  moreover have "m = add_months ?s ?i"
    if m: "m \<in> set (upcoming_months now ahead)" "m \<le> t" "t < add_months m 1" for m
  proof -
    obtain i where i: "m = add_months ?s (int i)" using m(1) by (auto simp: upcoming_months_def)
    then have "int i = ?i" using m(2,3) r [of "int i"] by simp
    then show ?thesis using i by simp
  qed
  moreover have "add_months ?s ?i \<le> t \<and> t < add_months (add_months ?s ?i) 1" using r [of ?i] by simp
  ultimately show ?thesis by (intro ex1I [of _ "add_months ?s ?i"] conjI) blast+
qed

subsection \<open>What a pass does to the table\<close>

lemma partition_name_start [simp]: "partition_name (month_start m) = partition_name m"
  by (simp add: partition_name_def)

lemma create_partitions_ok:
  assumes "create_partitions fails months c parts = (Inr n, parts')"
  shows "n = c + int (length months) \<and> set parts \<subseteq> set parts' \<and>
    (\<forall>m \<in> set months. partition_name m \<in> fst ` set parts') \<and>
    (\<forall>p \<in> set parts' - set parts. \<exists>m \<in> set months.
       p = (partition_name m, Some (month_start m, add_months (month_start m) 1)))"
  using assms
proof (induction fails months c parts rule: create_partitions.induct)
  case (2 fails month months created parts)
  let ?parts = "attach (partition_name month) (month_start month) (add_months (month_start month) 1) parts"
  have f: "fails (partition_name month) = None"
    and r: "create_partitions fails months (created + 1) ?parts = (Inr n, parts')"
    using "2.prems" by (simp_all add: Let_def split: option.splits)
  have IH: "n = created + 1 + int (length months)" "set ?parts \<subseteq> set parts'"
    "\<forall>m \<in> set months. partition_name m \<in> fst ` set parts'"
    "\<forall>p \<in> set parts' - set ?parts. \<exists>m \<in> set months.
       p = (partition_name m, Some (month_start m, add_months (month_start m) 1))"
    using "2.IH" [OF refl refl refl] f r by simp_all
  have "set parts \<subseteq> set ?parts" by (auto simp: attach_def)
  moreover have "partition_name month \<in> fst ` set ?parts" by (simp add: attach_def)
  then have "partition_name month \<in> fst ` set parts'" using image_mono [OF IH(2), of fst] by blast
  moreover have "p = (partition_name month, Some (month_start month, add_months (month_start month) 1))"
    if "p \<in> set ?parts - set parts" for p using that by (auto simp: attach_def split: if_splits)
  ultimately show ?case using IH by (simp del: split_paired_All) blast
qed auto

lemma drop_partitions_ok:
  "drop_partitions fails names d parts = (Inr dropped, parts') \<Longrightarrow>
     dropped = d @ names \<and> parts' = filter (\<lambda>p. fst p \<notin> set names) parts"
proof (induction fails names d parts rule: drop_partitions.induct)
  case (2 fails name names dropped parts)
  then show ?case by (auto split: option.splits intro!: filter_cong)
qed auto

lemma expired_sub: "set (expired_partitions names cutoff) \<subseteq> set (monthly_partitions names)"
  by (auto simp: expired_partitions_def monthly_partitions_def split: option.splits)

lemma expired_older:
  "n \<in> set (expired_partitions names cutoff) \<Longrightarrow> \<exists>month. parse_partition_month n = Some month \<and> month < cutoff"
  by (auto simp: expired_partitions_def split: option.splits)

lemma survivor:
  assumes "length (expired_partitions names cutoff) \<noteq> length (monthly_partitions names)"
  shows "\<exists>n \<in> set (monthly_partitions names). n \<notin> set (expired_partitions names cutoff)"
proof (rule ccontr)
  assume "\<not> ?thesis"
  then have "expired_partitions names cutoff = monthly_partitions names"
    by (auto simp: expired_partitions_def monthly_partitions_def intro!: filter_cong split: option.splits)
  then show False using assms by simp
qed

lemma drop_body_ok:
  assumes "drop_body ps cutoff parts = (Inr (dropped, g), parts')"
  shows "(ps_drop_lock ps = Inr True \<and> dropped = expired_partitions (map fst parts) cutoff \<and>
      parts' = filter (\<lambda>p. fst p \<notin> set dropped) parts \<and>
      (dropped \<noteq> [] \<longrightarrow> (\<exists>p \<in> set parts'. parse_partition_month (fst p) \<noteq> None))) \<or>
    (ps_drop_lock ps = Inr False \<and> dropped = [] \<and> parts' = parts)"
proof -
  let ?ex = "expired_partitions (map fst parts) cutoff"
  consider "ps_drop_lock ps = Inr False" "dropped = []" "parts' = parts"
    | "ps_drop_lock ps = Inr True" "\<not> (?ex \<noteq> [] \<and> length ?ex = length (monthly_partitions (map fst parts)))"
      "drop_partitions (ps_drop_fails ps) ?ex [] parts = (Inr dropped, parts')"
    using assms by (auto simp: drop_body_def acquire_lock_def Let_def split: sum.splits option.splits prod.splits if_splits)
  then show ?thesis
  proof cases
    case 2
    then have d: "dropped = ?ex" "parts' = filter (\<lambda>p. fst p \<notin> set ?ex) parts"
      using drop_partitions_ok by fastforce+
    have "\<exists>p \<in> set parts'. parse_partition_month (fst p) \<noteq> None" if "dropped \<noteq> []"
    proof -
      have "length ?ex \<noteq> length (monthly_partitions (map fst parts))" using that 2(2) d(1) by simp
      from survivor [OF this] obtain n where "n \<in> set (monthly_partitions (map fst parts))" "n \<notin> set ?ex" by blast
      then show ?thesis by (auto simp: monthly_partitions_def d(2))
    qed
    then show ?thesis using 2(1) d by simp
  qed simp
qed

lemma drop_removed:
  assumes "drop_expired_partitions ps cutoff parts = (res, parts')" "p \<in> set parts - set parts'"
  shows "\<exists>month. parse_partition_month (fst p) = Some month \<and> month < cutoff"
proof -
  obtain r where "run_tx (ps_drop_tx ps) ''DropExpiredPartitions'' parts (drop_body ps cutoff) = (r, parts')"
    using assms(1) by (auto simp: drop_expired_partitions_def split: prod.splits sum.splits)
  then have "parts' = parts \<or> (\<exists>d g. drop_body ps cutoff parts = (Inr (d, g), parts'))"
    using run_tx_state by fastforce
  then have "fst p \<in> set (expired_partitions (map fst parts) cutoff)"
    using assms(2) drop_body_ok by fastforce
  then show ?thesis by (rule expired_older)
qed

text \<open>
  C36. Retention drops exactly the monthly partitions older than the cutoff, keeps everything else (the
  default partition and any that was not generated), and never empties the table: if it drops
  anything, a monthly partition remains. Without the lock, or after an error whose transaction was
  not committed, nothing is dropped.
\<close>

theorem retention_safe:
  assumes "drop_expired_partitions ps cutoff parts = (res, parts')"
  shows "(\<forall>p \<in> set parts - set parts'. \<exists>month. parse_partition_month (fst p) = Some month \<and> month < cutoff) \<and>
    (parts' \<noteq> parts \<longrightarrow> (\<exists>p \<in> set parts'. parse_partition_month (fst p) \<noteq> None)) \<and>
    (case res of
       Inl e \<Rightarrow> tx_commit (ps_drop_tx ps) = None \<longrightarrow> parts' = parts
     | Inr dropped \<Rightarrow>
         if ps_drop_lock ps = Inr True
         then dropped = expired_partitions (map fst parts) cutoff \<and> parts' = filter (\<lambda>p. fst p \<notin> set dropped) parts
         else dropped = [] \<and> parts' = parts)"
proof -
  obtain r where r: "run_tx (ps_drop_tx ps) ''DropExpiredPartitions'' parts (drop_body ps cutoff) = (r, parts')"
    and res: "res = (case r of Inl e \<Rightarrow> Inl (wrap ''m.db.Tx: '' e) | Inr x \<Rightarrow> Inr (fst x))"
    using assms by (auto simp: drop_expired_partitions_def split: prod.splits sum.splits)
  have state: "parts' = parts \<or> (\<exists>d g. drop_body ps cutoff parts = (Inr (d, g), parts'))"
    using run_tx_state [OF r] by auto
  have ok: "drop_body ps cutoff parts = (Inr (d, g), parts')" if "r = Inr (d, g)" for d g
    using r unfolding that by (rule run_tx_ok)
  let ?ex = "expired_partitions (map fst parts) cutoff"
  have k: "parts' = parts \<or> (parts' = filter (\<lambda>p. fst p \<notin> set ?ex) parts \<and>
      (?ex \<noteq> [] \<longrightarrow> (\<exists>p \<in> set parts'. parse_partition_month (fst p) \<noteq> None)))"
    using state drop_body_ok by blast
  have A: "\<forall>p \<in> set parts - set parts'. \<exists>month. parse_partition_month (fst p) = Some month \<and> month < cutoff"
    by (intro ballI) (rule drop_removed [OF assms])
  have B: "parts' \<noteq> parts \<longrightarrow> (\<exists>p \<in> set parts'. parse_partition_month (fst p) \<noteq> None)"
    using k by (cases "?ex = []") auto
  have C: "case res of
       Inl e \<Rightarrow> tx_commit (ps_drop_tx ps) = None \<longrightarrow> parts' = parts
     | Inr dropped \<Rightarrow>
         if ps_drop_lock ps = Inr True
         then dropped = ?ex \<and> parts' = filter (\<lambda>p. fst p \<notin> set dropped) parts
         else dropped = [] \<and> parts' = parts"
  proof (cases r)
    case (Inl e)
    have "tx_commit (ps_drop_tx ps) = None \<longrightarrow> parts' = parts"
      using r unfolding Inl by (intro impI) (rule run_tx_atomic)
    then show ?thesis by (simp add: res Inl)
  next
    case (Inr dg)
    obtain d g where dg: "dg = (d, g)" by (cases dg)
    have "if ps_drop_lock ps = Inr True then d = ?ex \<and> parts' = filter (\<lambda>p. fst p \<notin> set d) parts
        else d = [] \<and> parts' = parts"
      using drop_body_ok [OF ok [OF Inr [unfolded dg]]] by auto
    then show ?thesis by (simp add: res Inr dg)
  qed
  show ?thesis by (intro conjI A B C)
qed

lemma ensure_names:
  assumes "ensure_partitions ps months parts = (Inr created, parts')" "ps_ensure_lock ps = Inr True"
  shows "created = int (length months) \<and> set parts \<subseteq> set parts' \<and>
    (\<forall>m \<in> set months. partition_name m \<in> fst ` set parts') \<and>
    (\<forall>p \<in> set parts' - set parts. \<exists>m \<in> set months.
       p = (partition_name m, Some (month_start m, add_months (month_start m) 1)))"
proof -
  obtain body where b: "run_tx (ps_ensure_tx ps) ''EnsurePartitions'' parts body = (Inr created, parts')"
    "body parts = create_partitions (ps_create_fails ps) months 0 parts"
    using assms by (auto simp: ensure_partitions_def acquire_lock_def split: prod.splits sum.splits)
  then have "create_partitions (ps_create_fails ps) months 0 parts = (Inr created, parts')"
    using run_tx_ok by metis
  from create_partitions_ok [OF this] show ?thesis by simp
qed

text \<open>
  A pass that succeeds leaves a partition for the current month and for every month it creates
  ahead, whatever the retention: what it has just made sure of is never among what it drops.
\<close>

theorem pass_covers:
  assumes "maintain ps (m, parts) = (None, m', parts')" "ps_ensure_lock ps = Inr True" "valid_date (ps_now ps)"
    and "month \<in> set (upcoming_months (ps_now ps) (pt_pre_create_months (mt_cfg m)))"
  shows "partition_name month \<in> fst ` set parts'"
proof -
  let ?now = "ps_now ps" and ?k = "pt_retention_months (mt_cfg m)"
  obtain created parts1 where e: "ensure_partitions ps (upcoming_months ?now (pt_pre_create_months (mt_cfg m))) parts = (Inr created, parts1)"
    and d: "parts' = parts1 \<or> (?k > 0 \<and> (\<exists>dropped. drop_expired_partitions ps (retention_cutoff ?now ?k) parts1 = (Inr dropped, parts')))"
    using assms(1) by (auto simp: maintain_def retention_enabled_def Let_def split: prod.splits sum.splits if_splits)
  from ensure_names [OF e assms(2)] assms(4) obtain p where p: "p \<in> set parts1" "fst p = partition_name month" by auto
  obtain i where i: "month = add_months (month_start ?now) (int i)" using assms(4) by (auto simp: upcoming_months_def)
  have v: "valid_date month" "month_start month = month" using assms(3) i by (simp_all add: valid_add_months)
  have "p \<in> set parts'"
  proof (rule ccontr)
    assume n: "p \<notin> set parts'"
    then obtain dropped where k: "?k > 0" and
      dr: "drop_expired_partitions ps (retention_cutoff ?now ?k) parts1 = (Inr dropped, parts')"
      using d p(1) by blast
    obtain mo where mo: "parse_partition_month (partition_name month) = Some mo" "mo < retention_cutoff ?now ?k"
      using drop_removed [OF dr, of p] p n by auto
    have "mo = month" using mo(1) parse_partition_name [OF v(1)] v(2) by (simp split: if_splits)
    moreover have "valid_date (retention_cutoff ?now ?k)" "month_start (retention_cutoff ?now ?k) = retention_cutoff ?now ?k"
      using assms(3) by (simp_all add: retention_cutoff_def valid_add_months)
    ultimately have "month_index month < month_index (retention_cutoff ?now ?k)"
      using first_instant_less [OF v(1)] mo(2) by blast
    then show False using i k by (simp add: retention_cutoff_def)
  qed
  then show ?thesis using p(2) by (metis imageI)
qed

text \<open>The number of created partitions counts those that were there: nothing changes and all are counted.\<close>

lemma created_counts_existing:
  assumes "\<forall>m \<in> set months. partition_name m \<in> fst ` set parts"
    and "ensure_partitions ps months parts = (Inr created, parts')" "ps_ensure_lock ps = Inr True"
  shows "created = int (length months) \<and> set parts' = set parts"
proof -
  have "create_partitions fails ms c parts = (Inr n, parts'') \<Longrightarrow> set ms \<subseteq> set months \<Longrightarrow> parts'' = parts"
    for fails ms c n parts''
    using assms(1) by (induction fails ms c parts rule: create_partitions.induct) (auto simp: attach_def Let_def split: option.splits)
  moreover have "create_partitions (ps_create_fails ps) months 0 parts = (Inr created, parts')"
    using assms(2,3) run_tx_ok
    by (fastforce simp: ensure_partitions_def acquire_lock_def split: prod.splits sum.splits)
  ultimately show ?thesis using ensure_names [OF assms(2,3)] by blast
qed

text \<open>A cutoff in the future expires the current month, whatever the comment of \<open>expiredPartitions\<close> says.\<close>

lemma current_month_can_expire:
  "expired_partitions [partition_name (Civil 2024 5 17 0)] (add_months (Civil 2024 5 1 0) 1) =
     [partition_name (Civil 2024 5 17 0)]"
  using parse_partition_name [of "Civil 2024 5 17 0"]
  by (simp add: expired_partitions_def valid_date_def month_start_def add_months_def less_civil_def civ_key_def)

subsection \<open>Concrete runs\<close>

definition quiet_tx :: tx_env where "quiet_tx = \<lparr>tx_begin = None, tx_commit = None, tx_rollback = None\<rparr>"

definition sample_pass :: pass where
  "sample_pass = \<lparr>ps_now = Civil 2024 11 17 5, ps_ensure_tx = quiet_tx, ps_ensure_lock = Inr True,
     ps_create_fails = (\<lambda>_. None), ps_default_used = Inr False, ps_drop_tx = quiet_tx, ps_drop_lock = Inr True,
     ps_lock_timeout = None, ps_statement_timeout = None, ps_list_fails = None, ps_drop_fails = (\<lambda>_. None)\<rparr>"

definition sample_parts :: partition_list where
  "sample_parts = [(''audit_log_y2023m01'', None), (''audit_log_default'', None), (''audit_log_y2024m11'', None)]"

lemma sample_parse [simp]:
  "parse_partition_month ''audit_log_y2023m01'' = Some (Civil 2023 1 1 0)"
  "parse_partition_month ''audit_log_y2024m11'' = Some (Civil 2024 11 1 0)"
  "parse_partition_month ''audit_log_default'' = None"
  by (simp_all add: parse_partition_month_def name_stem_def has_prefix_def is_digit_def digits_value_def digit_value_def)

theorem name_month_inverse_witness:
  "partition_name (Civil 2024 11 17 5) = ''audit_log_y2024m11'' \<and>
   parse_partition_month (partition_name (Civil 2024 11 17 5)) = Some (Civil 2024 11 1 0)"
proof -
  have v: "valid_date (Civil 2024 11 17 5)" by (simp add: valid_date_def)
  have "partition_name (Civil 2024 11 1 0) = ''audit_log_y2024m11''"
    using name_month_inverse [OF v] sample_parse(2) by blast
  then show ?thesis using name_month_inverse [OF v] by (simp add: month_start_def partition_name_def)
qed

theorem upcoming_cover_witness:
  "\<exists>!m. m \<in> set (upcoming_months (Civil 2024 11 17 5) 3) \<and> m \<le> Civil 2025 1 31 7 \<and> Civil 2025 1 31 7 < add_months m 1"
  by (rule upcoming_cover)
     (simp_all add: valid_date_def month_start_def add_months_def less_eq_civil_def less_civil_def civ_key_def)

theorem retention_safe_witness:
  "drop_expired_partitions sample_pass (Civil 2023 11 1 0) sample_parts =
     (Inr [''audit_log_y2023m01''], [(''audit_log_default'', None), (''audit_log_y2024m11'', None)])"
proof -
  let ?c = "Civil 2023 11 1 0"
  obtain res parts' where d: "drop_expired_partitions sample_pass ?c sample_parts = (res, parts')" by fastforce
  have e: "expired_partitions (map fst sample_parts) ?c = [''audit_log_y2023m01'']"
    by (simp add: expired_partitions_def sample_parts_def less_civil_def civ_key_def)
  have "\<exists>x. res = Inr x"
    using d e by (auto simp: drop_expired_partitions_def run_tx_def drop_body_def acquire_lock_def bound_drop_locks_def
        sample_pass_def quiet_tx_def monthly_partitions_def sample_parts_def Let_def split: prod.splits)
  then show ?thesis
    using retention_safe [OF d] d by (auto simp: sample_pass_def sample_parts_def expired_partitions_def less_civil_def civ_key_def)
qed

theorem pass_covers_witness:
  "\<exists>m' parts'. maintain sample_pass (new_maintainer \<lparr>pt_retention_months = 12, pt_pre_create_months = 0, pt_interval = 0,
       pt_operation_timeout = 0\<rparr>, sample_parts) = (None, m', parts') \<and> ''audit_log_y2024m11'' \<in> fst ` set parts'"
proof -
  let ?m = "new_maintainer \<lparr>pt_retention_months = 12, pt_pre_create_months = 0, pt_interval = 0, pt_operation_timeout = 0\<rparr>"
  have v: "valid_date (ps_now sample_pass)" by (simp add: sample_pass_def valid_date_def)
  have u: "upcoming_months (ps_now sample_pass) (pt_pre_create_months (mt_cfg ?m)) = [Civil 2024 11 1 0]"
    by (simp add: new_maintainer_def partition_set_default_def upcoming_months_def sample_pass_def month_start_def
        add_months_def)
  have n: "partition_name (Civil 2024 11 1 0) = ''audit_log_y2024m11''"
    using name_of_parsed [OF sample_parse(2)] by simp
  have "\<exists>m' parts'. maintain sample_pass (?m, sample_parts) = (None, m', parts')"
    unfolding maintain_def Let_def prod.case u
    by (simp add: ensure_partitions_def run_tx_def acquire_lock_def n attach_def
        drop_expired_partitions_def drop_body_def bound_drop_locks_def sample_pass_def quiet_tx_def sample_parts_def
        month_start_def monthly_partitions_def expired_partitions_def retention_cutoff_def add_months_def
        less_civil_def civ_key_def new_maintainer_def partition_set_default_def split: prod.split)
  then obtain m' parts' where r: "maintain sample_pass (?m, sample_parts) = (None, m', parts')" by blast
  have l: "ps_ensure_lock sample_pass = Inr True" by (simp add: sample_pass_def)
  have "partition_name (Civil 2024 11 1 0) \<in> fst ` set parts'"
    by (rule pass_covers [OF r l v]) (simp add: u)
  then show ?thesis using r n by auto
qed

end
