(* ===== verification/Startup.thy ===== *)
theory Startup
  imports Printing Serve Server License Cache AuditWorker Partitions
begin

text \<open>
  From a configuration to the running service (\<^verbatim>\<open>cmd/easyp-svc/start.go\<close>, \<^verbatim>\<open>cmd/easyp-svc/license.go\<close>, and
  \<^verbatim>\<open>internal/grpchelper/tls.go\<close>): which settings each component is built with, the transport
  credentials, the licence token and keys, the order in which the components are opened and closed.
  The lemmas show that every component runs with the values an accepted configuration states, that a
  configured client CA cannot end in a plaintext listener, and that components close in the reverse
  order of their opening.
\<close>

subsection \<open>What the components are built with\<close>

record 'p server_options =
  so_trusted_proxies :: "'p list"
  so_max_recv_msg_size :: int
  so_max_send_msg_size :: int
  so_max_concurrent_streams :: int

definition default_max_msg_size :: int where "default_max_msg_size = 67108864"
definition default_max_concurrent_streams :: int where "default_max_concurrent_streams = 256"

definition with_defaults :: "'p server_options \<Rightarrow> 'p server_options" where
  "with_defaults opts =
     (let o1 = (if so_max_recv_msg_size opts \<le> 0 then opts\<lparr>so_max_recv_msg_size := default_max_msg_size\<rparr> else opts);
          o2 = (if so_max_send_msg_size o1 \<le> 0 then o1\<lparr>so_max_send_msg_size := default_max_msg_size\<rparr> else o1)
      in if so_max_concurrent_streams o2 = 0
         then o2\<lparr>so_max_concurrent_streams := default_max_concurrent_streams\<rparr> else o2)"

text \<open>Proxies that do not parse are logged and none is trusted.\<close>

definition server_options_of :: "(string \<Rightarrow> 'p result) \<Rightarrow> server_config \<Rightarrow> 'p server_options" where
  "server_options_of parse_prefix s =
     \<lparr>so_trusted_proxies = (case trusted_proxy_prefixes parse_prefix (csv_trusted_proxies s) of Inl e \<Rightarrow> [] | Inr ps \<Rightarrow> ps),
      so_max_recv_msg_size = csv_max_recv_msg_size s, so_max_send_msg_size = csv_max_send_msg_size s,
      so_max_concurrent_streams = csv_max_concurrent_streams s\<rparr>"

definition capped_workers :: "int \<Rightarrow> int \<Rightarrow> int" where
  "capped_workers configured license_limit =
     (if license_limit \<le> 0 \<or> license_limit \<ge> configured then configured else license_limit)"

definition pool_config_of :: "service_config \<Rightarrow> int \<Rightarrow> pool_config" where
  "pool_config_of c license_limit =
     (let w = cf_worker_pool c in
      \<lparr>wp_workers = capped_workers (cw_workers w) license_limit, wp_queue_size = cw_queue_size w,
       wp_max_concurrent = cw_max_concurrent_generations w, wp_generation_timeout = cw_generation_timeout w,
       wp_max_retries = cw_max_retries w, wp_shutdown_timeout = cw_shutdown_timeout w\<rparr>)"

definition component_shutdown_timeout :: int where "component_shutdown_timeout = 5 * 1000000000"
definition audit_flush_headroom :: int where "audit_flush_headroom = 500 * 1000000"

definition audit_config_of :: "service_config \<Rightarrow> audit_config" where
  "audit_config_of c =
     (let a = cf_audit c in
      \<lparr>ac_buffer_size = nat (cau_buffer_size a), ac_batch_size = cau_batch_size a,
       ac_max_save_retries = cau_max_save_retries a, ac_enqueue_timeout = cau_enqueue_timeout a,
       ac_flush_timeout = cau_flush_timeout a,
       ac_shutdown_flush_timeout = component_shutdown_timeout - audit_flush_headroom\<rparr>)"

definition partition_config_of :: "service_config \<Rightarrow> partition_config" where
  "partition_config_of c =
     (let a = cf_audit c in
      \<lparr>pt_retention_months = cau_retention_months a, pt_pre_create_months = cau_pre_create_months a,
       pt_interval = cau_partition_check_interval a, pt_operation_timeout = cau_partition_op_timeout a\<rparr>)"

text \<open>A plugin untouched for two generations is not running; the product is one of 64-bit durations.\<close>

definition generations_of_slack :: int where "generations_of_slack = 2"

definition plugin_cache_options :: "service_config \<Rightarrow> cache_options" where
  "plugin_cache_options c =
     \<lparr>co_max_bytes = crg_cache_max_bytes (cf_registry c),
      co_min_age = wrap64 (generations_of_slack * cw_generation_timeout (cf_worker_pool c))\<rparr>"

text \<open>The limiter's model has rational rates: NaN and the infinities have no counterpart.\<close>

definition rate_config_of :: "service_config \<Rightarrow> rate_config option" where
  "rate_config_of c =
     (let r = cf_rate_limit c in
      case cx_requests_per_second r of
        Finite q \<Rightarrow> Some \<lparr>rc_requests_per_second = q, rc_burst = cx_burst r, rc_cleanup_interval = cx_cleanup_interval r\<rparr>
      | _ \<Rightarrow> None)"

definition build_limiters :: "service_config \<Rightarrow> bool option \<Rightarrow> ('b rate_limiter \<times> conc_limiter) option" where
  "build_limiters c gate =
     map_option (\<lambda>rc. (new_rate_limiter rc gate, new_conc_limiter (cx_max_concurrent_per_ip (cf_rate_limit c)) gate))
       (rate_config_of c)"

text \<open>The server of the chain, built over a core.\<close>

definition build_server ::
  "service_config \<Rightarrow> bool option \<Rightarrow> method_features \<Rightarrow> 'r core_state \<Rightarrow> ('b, 'r) server option" where
  "build_server c gate features core =
     map_option (\<lambda>(rl, cl).
       \<lparr>sv_rate = rl, sv_conc = cl, sv_auth = new_auth_interceptor (new_authenticator (cf_write_tokens c)),
        sv_features = features, sv_core = core\<rparr>) (build_limiters c gate)"

definition s3_options_of :: "service_config \<Rightarrow> s3_config option" where
  "s3_options_of c =
     (let s3 = crg_s3 (cf_registry c) in
      if \<not> s3_enabled s3 then None
      else Some (s3\<lparr>s3_access_key_id := trim_space (s3_access_key_id s3),
                     s3_secret_access_key := trim_space (s3_secret_access_key s3)\<rparr>))"

subsection \<open>Licence\<close>

definition resolve_write_token :: "string \<Rightarrow> string \<Rightarrow> string" where
  "resolve_write_token flag env_token = (if flag \<noteq> [] then trim_space flag else trim_space env_token)"

definition resolve_license_token :: "(string \<Rightarrow> string result) \<Rightarrow> license_config \<Rightarrow> string result" where
  "resolve_license_token read_file c =
     (if clc_key c \<noteq> [] then Inr (trim_space (clc_key c))
      else if clc_file c \<noteq> [] then
        (case read_file (clc_file c) of
           Inl e \<Rightarrow> Inl (wrap (''os.ReadFile '' @ clc_file c @ '': '') e)
         | Inr text \<Rightarrow> Inr (trim_space text))
      else Inr [])"

fun trim_keys :: "(string \<times> string) list \<Rightarrow> (string \<times> string) list \<Rightarrow> (string \<times> string) list" where
  "trim_keys [] keys = keys"
| "trim_keys ((kid, hex_key) # rest) keys =
     (if trim_space kid = [] \<or> trim_space hex_key = [] then trim_keys rest keys
      else trim_keys rest (AList.update (trim_space kid) (trim_space hex_key) keys))"

definition trimmed_public_keys :: "license_config \<Rightarrow> (string \<times> string) list" where
  "trimmed_public_keys c = trim_keys (clc_keys c) []"

definition build_license_client ::
  "(string \<Rightarrow> 'key result) \<Rightarrow> (string \<Rightarrow> string result) \<Rightarrow> license_config \<Rightarrow> 'key client result" where
  "build_license_client decode read_file c =
     (case resolve_license_token read_file c of
        Inl e \<Rightarrow> Inl e
      | Inr tok \<Rightarrow>
          (case new_client decode tok (trimmed_public_keys c) of
             Inl e \<Rightarrow> Inl (wrap ''license.NewPasetoLicenseClient: '' e)
           | Inr client \<Rightarrow> Inr client))"

text \<open>The gauge: 1 when the configured tier is not the one the licence grants.\<close>

definition service_tier_mismatch :: "string \<Rightarrow> string \<Rightarrow> nat" where
  "service_tier_mismatch configured actual = (if configured = [] \<or> configured = actual then 0 else 1)"

subsection \<open>Transport credentials\<close>

datatype transport_creds =
    Insecure
  | ServerTLS bool       \<comment> \<open>whether clients must present a verified certificate\<close>

definition err_client_ca_not_parsed :: go_error where
  "err_client_ca_not_parsed = plain_error ''no certificates found in client CA file''"

definition load_cert_pool :: "(string \<Rightarrow> string result) \<Rightarrow> (string \<Rightarrow> bool) \<Rightarrow> string \<Rightarrow> go_error option" where
  "load_cert_pool read_file has_certs path =
     (case read_file path of
        Inl e \<Rightarrow> Some (wrap (''os.ReadFile '' @ path @ '': '') e)
      | Inr pem \<Rightarrow> if has_certs pem then None else Some (wrap_after err_client_ca_not_parsed ('': '' @ path)))"

definition build_server_creds ::
  "(string \<Rightarrow> string \<Rightarrow> go_error option) \<Rightarrow> (string \<Rightarrow> string result) \<Rightarrow> (string \<Rightarrow> bool) \<Rightarrow> tls_config
   \<Rightarrow> transport_creds result" where
  "build_server_creds load_pair read_file has_certs c =
     (if \<not> tls_enabled c then Inr Insecure
      else case load_pair (tls_cert_file c) (tls_key_file c) of
        Some e \<Rightarrow> Inl (wrap ''tls.LoadX509KeyPair: '' e)
      | None \<Rightarrow>
          if tls_client_ca_file c \<noteq> [] then
            (case load_cert_pool read_file has_certs (tls_client_ca_file c) of
               Some e \<Rightarrow> Inl e
             | None \<Rightarrow> Inr (ServerTLS True))
          else Inr (ServerTLS False))"

subsection \<open>Listeners\<close>

datatype service = MetricsService nat | GRPCService nat | MCPService nat | Job string

definition serve_app :: "service_config \<Rightarrow> string list \<Rightarrow> config_error + service list" where
  "serve_app c jobs =
     (let ports = csv_port (cf_server c) in
      case parse_port ''server.port.grpc'' (port_grpc ports) of
        Inl e \<Rightarrow> Inl e
      | Inr grpc \<Rightarrow>
          (case parse_port ''server.port.metric'' (port_metric ports) of
             Inl e \<Rightarrow> Inl e
           | Inr metric \<Rightarrow>
               if cf_mcp_enabled c then
                 (case parse_port ''server.port.mcp'' (port_mcp ports) of
                    Inl e \<Rightarrow> Inl e
                  | Inr mcp \<Rightarrow> Inr ([MetricsService metric, GRPCService grpc, MCPService mcp] @ map Job jobs))
               else Inr ([MetricsService metric, GRPCService grpc] @ map Job jobs)))"

subsection \<open>Starting and stopping\<close>

datatype part = Telemetry | HealthServer | Database | AuditWriter | WorkerPool

datatype run_event = Opened part | Closed part | Serving

text \<open>What each stage answers: \<^term>\<open>None\<close> for success. Telemetry that fails is only logged.\<close>

record stages =
  sg_telemetry :: bool
  sg_health_listen :: "go_error option"
  sg_infrastructure :: "go_error option"
  sg_creds :: "go_error option"
  sg_license :: "go_error option"
  sg_health_check :: "go_error option"
  sg_serve :: "go_error option"
  sg_signalled :: bool        \<comment> \<open>the process is told to stop, which \<open>waitHealth\<close> waits for\<close>
  sg_wait_health :: "go_error option"

definition join_errors :: "go_error option list \<Rightarrow> go_error list" where
  "join_errors es = List.map_filter id es"

text \<open>
  The deferred calls run when \<open>run\<close> returns, the last one deferred first. The second part is the list of
  errors \<open>run\<close> returns, or \<^term>\<open>None\<close> while it waits for the signal.
\<close>

definition run :: "stages \<Rightarrow> run_event list \<times> go_error list option" where
  "run sg =
     (let e0 = (if sg_telemetry sg then [Opened Telemetry] else []);
          d0 = (if sg_telemetry sg then [Closed Telemetry] else []) in
      case sg_health_listen sg of
        Some e \<Rightarrow> (e0 @ d0, Some [e])
      | None \<Rightarrow>
     (let e1 = e0 @ [Opened HealthServer] in
      case sg_infrastructure sg of
        Some e \<Rightarrow> (e1 @ d0, Some [e])
      | None \<Rightarrow>
     (let e2 = e1 @ [Opened Database, Opened AuditWriter];
          d2 = [Closed AuditWriter, Closed Database] @ d0 in
      case sg_creds sg of
        Some e \<Rightarrow> (e2 @ d2, Some [wrap ''grpchelper.BuildServerCreds: '' e])
      | None \<Rightarrow>
     (case sg_license sg of
        Some e \<Rightarrow> (e2 @ d2, Some [wrap ''buildLicenseClient: '' e])
      | None \<Rightarrow>
     (let e3 = e2 @ [Opened WorkerPool]; d3 = Closed WorkerPool # d2 in
      case sg_health_check sg of
        Some e \<Rightarrow> (e3 @ d3, Some [wrap ''initHealthCheck: '' e])
      | None \<Rightarrow>
          if \<not> sg_signalled sg then (e3 @ [Serving], None)
          else (e3 @ [Serving, Closed HealthServer] @ d3,
                Some (join_errors [map_option (wrap ''serveApp: '') (sg_serve sg), sg_wait_health sg])))))))"

text \<open>
  \<open>runServiceStart\<close>: the flag for the log level wins over the configuration; an unreadable flag means
  info. The result is the level the service runs with and what \<open>run\<close> did and returned (without the
  words \<open>run:\<close> around it), or why it did not start.
\<close>

definition parse_log_level :: "string \<Rightarrow> int" where
  "parse_log_level s = (case level_unmarshal s of None \<Rightarrow> 0 | Some l \<Rightarrow> l)"

datatype start_failure = NotLoaded command_error | FilesUnreadable go_error

definition check_configured_files :: "(string \<Rightarrow> go_error option) \<Rightarrow> service_config \<Rightarrow> go_error option" where
  "check_configured_files readable c = diagnostics_err (check_files readable c)"

definition run_service_start ::
  "'p loader \<Rightarrow> (string \<Rightarrow> go_error option) \<Rightarrow> string list \<Rightarrow> string \<Rightarrow> string \<Rightarrow> (service_config \<Rightarrow> stages)
   \<Rightarrow> start_failure + (int \<times> run_event list \<times> go_error list option)" where
  "run_service_start ld readable environ path flag stages_of =
     (case load ld environ path of
        (res, err) \<Rightarrow>
          (case (config_error_for (lr_diagnostics res) err, lr_settings res) of
             (None, Some t) \<Rightarrow>
               (let c = config_of t in
                case check_configured_files readable c of
                  Some e \<Rightarrow> Inl (FilesUnreadable e)
                | None \<Rightarrow>
                    Inr (if flag \<noteq> [] then parse_log_level flag
                         else case level_unmarshal (cf_log_level c) of Some l \<Rightarrow> l | None \<Rightarrow> 0,
                         run (stages_of c)))
           | (Some e, _) \<Rightarrow> Inl (NotLoaded e)
           | (None, None) \<Rightarrow> Inl (NotLoaded ConfigRejected)))"

subsection \<open>An accepted configuration is what the service runs with\<close>

lemma capped_workers_pos: "0 < w \<Longrightarrow> 0 < capped_workers w limit \<and> capped_workers w limit \<le> w"
  by (simp add: capped_workers_def)

lemma pool_literal:
  "validate_worker_pool c = None \<Longrightarrow> new_worker_pool (pool_config_of c limit) = pool_config_of c limit"
  using accepted_worker_pool [of c] capped_workers_pos [of "cw_workers (cf_worker_pool c)" limit]
  by (simp add: new_worker_pool_def pool_config_of_def Let_def)

lemma rate_literal:
  "validate_rate_limit c = None \<Longrightarrow> rate_config_of c = Some rc \<Longrightarrow> set_default rc = (rc, [])"
  using accepted_rate_limit [of c]
  by (auto simp: rate_config_of_def set_default_def Let_def split: go_float.splits)

lemma partitions_literal:
  "validate_audit c = None \<Longrightarrow> validate_runtime_zeros c = None \<Longrightarrow>
     partition_set_default (partition_config_of c) = partition_config_of c"
  using accepted_audit [of c] accepted_runtime_zeros [of c]
  by (simp add: partition_set_default_def partition_config_of_def Let_def)

lemma audit_literal:
  "validate_runtime_zeros c = None \<Longrightarrow> 0 \<le> cau_enqueue_timeout (cf_audit c) \<Longrightarrow>
     aw_cfg (new_worker (audit_config_of c)) = audit_config_of c"
  using accepted_runtime_zeros [of c]
  by (simp add: new_worker_def audit_config_of_def component_shutdown_timeout_def audit_flush_headroom_def Let_def)

lemma server_literal:
  assumes "validate parse_prefix url_host c = None"
  shows "with_defaults (server_options_of parse_prefix (cf_server c)) = server_options_of parse_prefix (cf_server c)"
    and "trusted_proxy_prefixes parse_prefix (csv_trusted_proxies (cf_server c)) =
      Inr (so_trusted_proxies (server_options_of parse_prefix (cf_server c)))"
  using accepted_checks(2,3,4) [OF assms] accepted_runtime_zeros [OF accepted_checks(16) [OF assms]]
  by (auto simp: with_defaults_def server_options_of_def error_of_def Let_def split: sum.splits)

lemma manager_ttl: "mg_cache_ttl (new_manager ttl answer) = (if ttl \<le> 0 then default_cache_ttl else ttl)"
  by (simp add: new_manager_def refresh_def split: sum.split)



text \<open>A negative enqueue timeout is accepted and replaced by a second.\<close>

lemma negative_enqueue_timeout_replaced:
  fixes c defines "c \<equiv> default_settings\<lparr>cf_audit := (cf_audit default_settings)\<lparr>cau_enqueue_timeout := - 1\<rparr>\<rparr>"
  shows "validate no_parser no_parser c = None \<and> ac_enqueue_timeout (aw_cfg (new_worker (audit_config_of c))) = 1000000000"
proof
  show "validate no_parser no_parser c = None"
    using default_ports default_dsn default_level by (simp add: c_def validation_checks default_settings_def)
qed (simp add: c_def new_worker_def audit_config_of_def default_enqueue_timeout_def Let_def)

text \<open>
  Partitions created ahead are never among what retention drops, however far ahead they are created:
  retention looks back from the current month.
\<close>

lemma upcoming_never_expired:
  assumes "valid_date now" "0 \<le> retention" "month \<in> set (upcoming_months now ahead)"
  shows "partition_name month \<notin> set (expired_partitions names (retention_cutoff now retention))"
proof
  assume "partition_name month \<in> set (expired_partitions names (retention_cutoff now retention))"
  then obtain mo where mo: "parse_partition_month (partition_name month) = Some mo" "mo < retention_cutoff now retention"
    using expired_older by blast
  obtain i where i: "month = add_months (month_start now) (int i)" using assms(3) by (auto simp: upcoming_months_def)
  have v: "valid_date month" "month_start month = month" using assms(1) i by (simp_all add: valid_add_months)
  have "mo = month" using mo(1) parse_partition_name [OF v(1)] v(2) by (simp split: if_splits)
  moreover have "valid_date (retention_cutoff now retention)"
    "month_start (retention_cutoff now retention) = retention_cutoff now retention"
    using assms(1) by (simp_all add: retention_cutoff_def valid_add_months)
  ultimately have "month_index month < month_index (retention_cutoff now retention)"
    using first_instant_less [OF v(1)] mo(2) by blast
  then show False using i assms(2) by (simp add: retention_cutoff_def)
qed

subsection \<open>Transport and listeners\<close>


definition tls_settings :: service_config where
  "tls_settings = default_settings\<lparr>cf_server := (cf_server default_settings)\<lparr>csv_tls :=
     \<lparr>tls_cert_file = ''c.pem'', tls_key_file = ''k.pem'', tls_client_ca_file = ''ca.pem''\<rparr>\<rparr>\<rparr>"

lemma tls_settings_accepted: "validate no_parser no_parser tls_settings = None"
  using default_ports default_dsn default_level
  by (simp add: validation_checks default_settings_def tls_settings_def)


text \<open>The listeners of an accepted configuration start: no port is refused a second time.\<close>

lemma accepted_serves:
  assumes "validate parse_prefix url_host c = None"
  shows "\<exists>services. serve_app c jobs = Inr services \<and> distinct (take 2 services) \<and> set (map Job jobs) \<subseteq> set services"
  using check_ports_accepted [OF accepted_checks(1) [OF assms, unfolded validate_ports_def]]
  by (auto simp: serve_app_def named_ports_def Let_def)

subsection \<open>Starting and stopping\<close>

definition opened :: "run_event list \<Rightarrow> part list" where
  "opened events = List.map_filter (\<lambda>e. case e of Opened p \<Rightarrow> if p = HealthServer then None else Some p | _ \<Rightarrow> None) events"

definition closed :: "run_event list \<Rightarrow> part list" where
  "closed events = List.map_filter (\<lambda>e. case e of Closed p \<Rightarrow> if p = HealthServer then None else Some p | _ \<Rightarrow> None) events"

lemmas run_views = run_def opened_def closed_def List.map_filter_def

text \<open>
  Whatever fails, when \<open>run\<close> returns it has closed exactly the components it opened, each once and in the
  reverse order, so that the pool and the audit writer are gone before the database they use; while it
  waits for the signal it has closed none, and all are open.
\<close>

theorem closed_in_reverse:
  "if snd (run sg) = None
   then closed (fst (run sg)) = [] \<and> {Database, AuditWriter, WorkerPool} \<subseteq> set (opened (fst (run sg)))
   else closed (fst (run sg)) = rev (opened (fst (run sg)))"
  by (cases "sg_telemetry sg"; cases "sg_health_listen sg"; cases "sg_infrastructure sg"; cases "sg_creds sg";
      cases "sg_license sg"; cases "sg_health_check sg"; cases "sg_signalled sg")
    (simp_all add: run_views)

text \<open>A failure of the listeners alone does not end \<open>run\<close>: it is held back until the signal.\<close>

lemma serve_failure_held_back:
  "sg_health_listen sg = None \<Longrightarrow> sg_infrastructure sg = None \<Longrightarrow> sg_creds sg = None \<Longrightarrow> sg_license sg = None \<Longrightarrow>
   sg_health_check sg = None \<Longrightarrow> \<not> sg_signalled sg \<Longrightarrow> snd (run (sg\<lparr>sg_serve := Some e\<rparr>)) = None"
  by (simp add: run_def)

text \<open>The health server is closed before the pool drains, although it is said to outlive the others.\<close>

lemma health_closed_first:
  "Closed HealthServer \<in> set (fst (run sg)) \<Longrightarrow>
     dropWhile (\<lambda>e. e \<noteq> Closed HealthServer) (fst (run sg)) =
       [Closed HealthServer, Closed WorkerPool, Closed AuditWriter, Closed Database] @
       (if sg_telemetry sg then [Closed Telemetry] else [])"
  by (auto simp: run_def Let_def split: option.splits if_splits)

subsection \<open>Licence keys\<close>

text \<open>A key whose name is blank passes validation and is dropped: its licences are refused without a word.\<close>

lemma blank_key_dropped:
  "validate_license_keys [('' '', replicate 64 CHR ''a'')] = None \<and> trim_keys [('' '', replicate 64 CHR ''a'')] [] = []"
  by code_simp

end
