(* ===== verification/Publish.thy ===== *)
theory Publish
  imports Scan Batch Storage Startup RegistryWrites EndToEnd
begin

text \<open>
  Publishing plugins (\<^verbatim>\<open>cmd/easyp-svc/push.go\<close>, \<^verbatim>\<open>pack.go\<close>, \<^verbatim>\<open>register.go\<close>): where an archive is
  kept, how one plugin is packed, pushed or registered, and which storage settings a push uses. The
  last section follows a plugin from the directory it was built in, through its archive and the
  object store, to the directory the service runs it from.
\<close>

subsection \<open>Names\<close>

definition default_plugins_prefix :: string where "default_plugins_prefix = ''/plugins''"
definition default_s3_region :: string where "default_s3_region = ''us-east-1''"

text \<open>The YAML library is a parameter: the plugins directory a document states.\<close>

definition resolve_plugins_prefix ::
  "(string \<Rightarrow> string result) \<Rightarrow> (string \<Rightarrow> string result) \<Rightarrow> string \<Rightarrow> string \<Rightarrow> bool \<Rightarrow> string result" where
  "resolve_plugins_prefix read_file plugins_dir_of cfg_path flag explicit =
     (if explicit then Inr (clean flag)
      else if cfg_path = [] then Inr default_plugins_prefix
      else
        case read_file cfg_path of
          Inl e \<Rightarrow> Inl (wrap ''os.ReadFile: '' e)
        | Inr body \<Rightarrow>
            (case plugins_dir_of body of
               Inl e \<Rightarrow> Inl (wrap ''yaml.Unmarshal: '' e)
             | Inr dir \<Rightarrow>
                 if dir = [] then Inl (plain_error (''registry.plugins_dir is empty in config: '' @ cfg_path))
                 else Inr (clean dir)))"

definition plugin_command_path :: "string \<Rightarrow> plugin_key \<Rightarrow> string" where
  "plugin_command_path plugins_prefix k =
     path_join [plugins_prefix, pk_group k, pk_name k, pk_version k, plugin_entrypoint_name]"

definition plugin_display_name :: "plugin_key \<Rightarrow> string" where
  "plugin_display_name k = pk_group k @ ''/'' @ pk_name k @ '':'' @ pk_version k"

definition archive_object_key :: "plugin_key \<Rightarrow> string" where
  "archive_object_key k = path_join [pk_group k, pk_name k, pk_version k, archive_name]"

definition archive_local_path :: "string \<Rightarrow> plugin_key \<Rightarrow> string" where
  "archive_local_path out_dir k = path_join [out_dir, pk_group k, pk_name k, pk_version k, archive_name]"

definition version_dir_of :: "string \<Rightarrow> plugin_key \<Rightarrow> string" where
  "version_dir_of scan_path k = path_join [scan_path, pk_group k, pk_name k, pk_version k]"

definition push_source_path :: "bool \<Rightarrow> string \<Rightarrow> plugin_key \<Rightarrow> string" where
  "push_source_path packed scan_path k =
     (if packed then path_join [version_dir_of scan_path k, archive_name] else version_dir_of scan_path k)"

text \<open>Where a dry run says an archive would go.\<close>

definition push_plan_target :: "s3_config \<Rightarrow> plugin_key \<Rightarrow> string" where
  "push_plan_target opts k =
     ''s3://'' @ (if s3_bucket opts = [] then ''<bucket>'' else s3_bucket opts) @ ''/'' @ s3_prefix opts @ archive_object_key k"

subsection \<open>Storage settings of a push\<close>

definition fill_from_config :: "s3_config \<Rightarrow> s3_config \<Rightarrow> bool \<Rightarrow> s3_config" where
  "fill_from_config opts cfg path_style_set =
     (let or_else = (\<lambda>a b. if a = [] then b else a);
          o1 = opts\<lparr>s3_bucket := or_else (s3_bucket opts) (s3_bucket cfg),
                    s3_endpoint := or_else (s3_endpoint opts) (s3_endpoint cfg),
                    s3_region := or_else (s3_region opts) (s3_region cfg),
                    s3_prefix := or_else (s3_prefix opts) (s3_prefix cfg)\<rparr>;
          o2 = (if s3_access_key_id o1 = [] \<and> s3_secret_access_key o1 = []
                then o1\<lparr>s3_access_key_id := s3_access_key_id cfg, s3_secret_access_key := s3_secret_access_key cfg\<rparr>
                else o1)
      in if path_style_set then o2 else o2\<lparr>s3_force_path_style := s3_force_path_style cfg\<rparr>)"

definition resolve_s3_options ::
  "'p loader \<Rightarrow> string list \<Rightarrow> string \<Rightarrow> s3_config \<Rightarrow> bool \<Rightarrow> command_error + s3_config" where
  "resolve_s3_options ld environ cfg_path flags path_style_set =
     (let with_region = (\<lambda>o1. if s3_region o1 = [] then o1\<lparr>s3_region := default_s3_region\<rparr> else o1) in
      if cfg_path = [] then Inr (with_region flags)
      else
        case load ld environ cfg_path of
          (res, err) \<Rightarrow>
            (case (config_error_for (lr_diagnostics res) err, lr_settings res) of
               (None, Some t) \<Rightarrow> Inr (with_region (fill_from_config flags (crg_s3 (cf_registry (config_of t))) path_style_set))
             | (Some e, _) \<Rightarrow> Inl e
             | (None, None) \<Rightarrow> Inl ConfigRejected))"

subsection \<open>Packing one plugin\<close>

text \<open>What the temporary file, and what moving it into place, fail with; \<open>encode\<close> writes tar and gzip.\<close>

record pack_io =
  pk_stat :: "go_error option"        \<comment> \<open>of the destination, other than that it does not exist\<close>
  pk_mkdir :: "go_error option"
  pk_create :: "go_error option"
  pk_close :: "go_error option"
  pk_chmod :: "go_error option"
  pk_rename :: "go_error option"

definition pack_plugin_dir :: "pack_io \<Rightarrow> (tar_stream \<Rightarrow> string) \<Rightarrow> string \<Rightarrow> tree result \<Rightarrow> string result" where
  "pack_plugin_dir io encode version_dir version_tree =
     (case pk_create io of
        Some e \<Rightarrow> Inl (wrap ''os.CreateTemp: '' e)
      | None \<Rightarrow>
          (case pack_dir version_tree of
             Inl e \<Rightarrow> Inl (wrap (''plugarchive.PackDir '' @ version_dir @ '': '') e)
           | Inr archive \<Rightarrow>
               (case pk_close io of
                  Some e \<Rightarrow> Inl (wrap ''tmpFile.Close: '' e)
                | None \<Rightarrow> Inr (encode archive))))"

text \<open>The archives on disk, by path. A failure leaves them as they were.\<close>

definition pack_single_plugin ::
  "pack_io \<Rightarrow> (tar_stream \<Rightarrow> string) \<Rightarrow> string \<Rightarrow> string \<Rightarrow> bool \<Rightarrow> plugin_key \<Rightarrow> tree result \<Rightarrow> (string \<rightharpoonup> string)
   \<Rightarrow> item_result \<times> (string \<rightharpoonup> string)" where
  "pack_single_plugin io encode scan_path out_dir force k version_tree disk =
     (let dest = archive_local_path out_dir k in
      if \<not> force \<and> pk_stat io \<noteq> None then (Failed (wrap (''os.Stat '' @ dest @ '': '') (the (pk_stat io))), disk)
      else if \<not> force \<and> disk dest \<noteq> None then (Skipped, disk)
      else case pk_mkdir io of
        Some e \<Rightarrow> (Failed (wrap ''os.MkdirAll: '' e), disk)
      | None \<Rightarrow>
          (case pack_plugin_dir io encode (version_dir_of scan_path k) version_tree of
             Inl e \<Rightarrow> (Failed e, disk)
           | Inr bytes \<Rightarrow>
               (case pk_chmod io of
                  Some e \<Rightarrow> (Failed (wrap ''os.Chmod: '' e), disk)
                | None \<Rightarrow>
                    (case pk_rename io of
                       Some e \<Rightarrow> (Failed (wrap ''os.Rename: '' e), disk)
                     | None \<Rightarrow> (Succeeded, disk(dest \<mapsto> bytes))))))"

subsection \<open>Pushing one plugin\<close>

text \<open>\<open>resolveArchive\<close>: a packed archive is opened by the upload, a built directory is packed first.\<close>

datatype archive_source = PackedArchive "string result" | BuiltDirectory "string result"

definition push_single_plugin ::
  "s3_client \<Rightarrow> s3_storage \<Rightarrow> bool \<Rightarrow> plugin_key \<Rightarrow> archive_source \<Rightarrow> bucket \<Rightarrow> item_result \<times> bucket" where
  "push_single_plugin cl st force k source b =
     (let key = archive_object_key k;
          upload = (\<lambda>file. case s3_upload_file cl st b key file of
              (Some e, b1) \<Rightarrow> (Failed (wrap ''store.UploadFile: '' e), b1)
            | (None, b1) \<Rightarrow> (Succeeded, b1));
          send = (case source of
              PackedArchive file \<Rightarrow> upload file
            | BuiltDirectory (Inl e) \<Rightarrow> (Failed e, b)
            | BuiltDirectory (Inr bytes) \<Rightarrow> upload (Inr bytes))
      in if force then send
         else case s3_exists cl st b key of
           Inl e \<Rightarrow> (Failed (wrap ''store.Exists: '' e), b)
         | Inr True \<Rightarrow> (Skipped, b)
         | Inr False \<Rightarrow> send)"

subsection \<open>Registering one plugin\<close>

definition register_config :: "string \<Rightarrow> plugin_key \<Rightarrow> raw_json" where
  "register_config plugins_prefix k =
     RawDoc (JObj [(''command'', JArr [JStr (plugin_command_path plugins_prefix k)])])"

definition sdk_error_text :: "sdk_error \<Rightarrow> go_error" where
  "sdk_error_text e =
     (case e of
        RpcError st \<Rightarrow> status_error (st_code st) (st_message st)
      | CtxError err \<Rightarrow> err)"

text \<open>What the answer of \<open>CreatePlugin\<close> means, \<^term>\<open>None\<close> for success.\<close>

definition register_single_plugin :: "sdk_error option \<Rightarrow> item_result" where
  "register_single_plugin answer =
     (case answer of
        None \<Rightarrow> Succeeded
      | Some e \<Rightarrow>
          (case e of
             RpcError st \<Rightarrow>
               if st_code st = AlreadyExists then Skipped
               else if st_code st = ResourceExhausted \<and> has_infix (st_message st) (msg err_max_plugins_exceeded)
               then Failed (plain_error (''the server'' @ [CHR 0x27] @ ''s licence tier allows no further plugins: '' @ st_message st))
               else Failed (wrap ''sdk.Client.CreatePlugin: '' (sdk_error_text e))
           | CtxError err \<Rightarrow> Failed (wrap ''sdk.Client.CreatePlugin: '' err)))"

subsection \<open>The same names everywhere\<close>

definition plain_coords :: "plugin_key \<Rightarrow> bool" where
  "plain_coords k = (proper (pk_group k) \<and> proper (pk_name k) \<and> proper (pk_version k))"

lemma proper_names [simp]: "proper plugin_entrypoint_name" "proper archive_name"
  by (simp_all add: plugin_entrypoint_name_def archive_name_def proper_def dotdot_def)

text \<open>The object a push writes is the one the registry reads.\<close>

lemma same_object: "archive_object_key k = archive_key (pk_group k) (pk_name k) (pk_version k)"
  by (simp add: archive_object_key_def archive_key_def archive_name_def)

lemma join_proper:
  assumes "\<forall>c \<in> set (c0 # cs). proper c"
  shows "path_join (c0 # cs) = join_slash (c0 # cs)"
proof -
  have s: "split_on CHR ''/'' (join_slash (c0 # cs)) = c0 # cs"
    using split_join_slash [of "c0 # cs"] assms by (auto dest: properD(4))
  have "c0 \<noteq> []" using assms by (auto dest: properD(1))
  then have "path_join (c0 # cs) = clean (join_slash (c0 # cs))" by (simp add: path_join_def)
  also have "\<dots> = join_slash (c0 # cs)"
    unfolding clean_rel [OF join_slash_proper(1) [OF assms]] s clean_comps_all_proper [OF assms] by simp
  finally show ?thesis .
qed

lemma object_key_relative: "plain_coords k \<Longrightarrow> relative_key (archive_object_key k)"
  using join_proper [of "pk_group k" "[pk_name k, pk_version k, archive_name]"]
    join_slash_proper(1) [of "pk_group k" "[pk_name k, pk_version k, archive_name]"]
  by (simp add: archive_object_key_def plain_coords_def relative_key_def is_abs_def)

text \<open>Different plugins have different objects, so they are pushed independently of each other.\<close>

lemma object_key_inj:
  assumes "plain_coords k" "plain_coords k'" "archive_object_key k = archive_object_key k'"
  shows "k = k'"
proof -
  have "join_slash [pk_group k, pk_name k, pk_version k, archive_name] = join_slash [pk_group k', pk_name k', pk_version k', archive_name]"
    using assms join_proper [of "pk_group k" "[pk_name k, pk_version k, archive_name]"]
      join_proper [of "pk_group k'" "[pk_name k', pk_version k', archive_name]"]
    by (simp add: archive_object_key_def plain_coords_def)
  moreover have "split_on CHR ''/'' (join_slash [g, n, v, archive_name]) = [g, n, v, archive_name]"
    if "proper g" "proper n" "proper v" for g n v
    using that by (intro split_join_slash) (auto dest: properD(4) simp: archive_name_def)
  ultimately have "[pk_group k, pk_name k, pk_version k, archive_name] = [pk_group k', pk_name k', pk_version k', archive_name]"
    using assms(1,2) by (metis plain_coords_def)
  then show ?thesis by simp
qed

lemma join_abs:
  assumes "\<forall>c \<in> set (ds @ c0 # cs). proper c"
  shows "path_join (abs_path ds # c0 # cs) = abs_path (ds @ c0 # cs)"
proof -
  let ?q = "c0 # cs"
  have pd: "\<forall>c \<in> set ds. proper c" and pq: "\<forall>c \<in> set ?q. proper c" using assms by auto
  have "abs_path ds \<noteq> []" by (simp add: abs_path_def)
  moreover have "split_on CHR ''/'' (join_slash (abs_path ds # ?q)) = split_on CHR ''/'' (abs_path ds) @ ?q"
  proof -
    have "join_slash (abs_path ds # ?q) = abs_path ds @ CHR ''/'' # join_slash ?q" by (simp add: join_slash_Cons)
    moreover have "split_on CHR ''/'' (join_slash ?q) = ?q" using pq properD(4) by (intro split_join_slash) auto
    ultimately show ?thesis using split_on_mid by metis
  qed
  moreover have "is_abs (join_slash (abs_path ds # ?q))" by (simp add: join_slash_Cons abs_path_def is_abs_iff)
  ultimately have "path_join (abs_path ds # ?q) = CHR ''/'' # join_slash (clean_comps True [] (split_on CHR ''/'' (abs_path ds) @ ?q))"
    by (simp only: path_join_def clean_def dropWhile.simps list.case if_False if_True Let_def)
  moreover have "clean_comps True [] (split_on CHR ''/'' (abs_path ds) @ ?q) = clean_comps True [] (ds @ ?q)"
    by (simp add: split_abs_path [OF pd] del: clean_comps_all_proper)
  moreover have "clean_comps True [] (ds @ ?q) = ds @ ?q"
    using clean_comps_all_proper [OF assms, of True "[]"] by (simp only: rev.simps append_Nil)
  ultimately show ?thesis by (simp add: abs_path_def)
qed

text \<open>
  The command a registration sends is accepted by a service whose plugins directory is the prefix, and
  its directory is the version's directory there.
\<close>

lemma command_path:
  assumes "\<forall>c \<in> set ds. proper c" "plain_coords k"
  shows "plugin_command_path (abs_path ds) k = abs_path (ds @ [pk_group k, pk_name k, pk_version k, plugin_entrypoint_name])"
    and "path_dir (plugin_command_path (abs_path ds) k) = abs_path (ds @ [pk_group k, pk_name k, pk_version k])"
proof -
  let ?q = "[pk_group k, pk_name k, pk_version k, plugin_entrypoint_name]"
  have p: "\<forall>c \<in> set (ds @ ?q). proper c" using assms by (auto simp: plain_coords_def)
  show c: "plugin_command_path (abs_path ds) k = abs_path (ds @ ?q)"
    unfolding plugin_command_path_def by (rule join_abs [OF p])
  show "path_dir (plugin_command_path (abs_path ds) k) = abs_path (ds @ [pk_group k, pk_name k, pk_version k])"
    using last_component [of "ds @ [pk_group k, pk_name k, pk_version k]" plugin_entrypoint_name] p unfolding c by simp
qed

text \<open>Archives on disk are kept apart in the same way.\<close>

lemma local_path:
  assumes "\<forall>c \<in> set ds. proper c" "plain_coords k"
  shows "archive_local_path (abs_path ds) k = abs_path (ds @ [pk_group k, pk_name k, pk_version k, archive_name])"
  unfolding archive_local_path_def using assms by (intro join_abs) (auto simp: plain_coords_def)

lemma local_path_inj:
  assumes "\<forall>c \<in> set ds. proper c" "plain_coords k" "plain_coords k'"
    and "archive_local_path (abs_path ds) k = archive_local_path (abs_path ds) k'"
  shows "k = k'"
proof -
  have "\<forall>c \<in> set (ds @ [pk_group j, pk_name j, pk_version j, archive_name]). proper c" if "plain_coords j" for j
    using assms(1) that by (auto simp: plain_coords_def)
  then have "ds @ [pk_group k, pk_name k, pk_version k, archive_name] = ds @ [pk_group k', pk_name k', pk_version k', archive_name]"
    using assms local_path [OF assms(1)] path_comps_abs_path by metis
  then show ?thesis by simp
qed

lemma registered_command_accepted:
  assumes "\<forall>c \<in> set ds. proper c" "ds \<noteq> []" "plain_coords k"
  shows "validate_config (register_config (abs_path ds) k) (abs_path ds) = None"
proof -
  let ?c = "plugin_command_path (abs_path ds) k"
  let ?q = "[pk_group k, pk_name k, pk_version k, plugin_entrypoint_name]"
  have p: "\<forall>c \<in> set (ds @ ?q). proper c" using assms by (auto simp: plain_coords_def)
  have "\<exists>cfg. unmarshal_config (register_config (abs_path ds) k) = Inr cfg \<and> pc_command cfg = [?c]"
    by (simp add: unmarshal_config_def register_config_def decode_member_def field_of_def decode_string_def zero_config_def)
  moreover have "clean ?c = ?c" using command_path(1) [OF assms(1,3)] clean_abs_path [OF p] by simp
  moreover have "has_prefix ?c (abs_path ds @ ''/'')"
    using command_path(1) [OF assms(1,3)] abs_path_append [of ds ?q] assms(2) by (simp add: has_prefix_iff)
  ultimately show ?thesis using validate_config_None clean_abs_path [OF assms(1)] by metis
qed

subsection \<open>What a push leaves in the store\<close>

lemma push_stores:
  assumes "push_single_plugin cl st force k (BuiltDirectory (Inr bytes)) b = (r, b')"
  shows "(r = Succeeded \<longrightarrow> b' = b(format_key st (archive_object_key k) \<mapsto> bytes)) \<and> (r \<noteq> Succeeded \<longrightarrow> b' = b)"
  using assms
  by (auto simp: push_single_plugin_def s3_upload_file_def Let_def split: if_splits sum.splits bool.splits option.splits prod.splits)

lemma credentials_paired:
  "(s3_access_key_id (fill_from_config opts cfg path_style), s3_secret_access_key (fill_from_config opts cfg path_style)) \<in>
     {(s3_access_key_id opts, s3_secret_access_key opts), (s3_access_key_id cfg, s3_secret_access_key cfg)}"
  by (simp add: fill_from_config_def Let_def)

text \<open>A pack that fails leaves no archive behind that a later run would take for done.\<close>

lemma pack_all_or_nothing:
  assumes "pack_single_plugin io encode scan_path out_dir force k t disk = (r, disk')"
  shows "(r \<noteq> Succeeded \<longrightarrow> disk' = disk) \<and>
    (r = Succeeded \<longrightarrow> (\<exists>archive. pack_dir t = Inr archive \<and> disk' = disk(archive_local_path out_dir k \<mapsto> encode archive)))"
  using assms
  by (auto simp: pack_single_plugin_def pack_plugin_dir_def Let_def split: if_splits option.splits sum.splits)

subsection \<open>From the build directory to the service\<close>

text \<open>Where the staged archive is written and removed, with nothing in the way.\<close>

lemma unlink_file:
  assumes "\<forall>c \<in> set (d @ [n]). proper c" "dirs_to fs d" "fs (d @ [n]) = Some (File c m)"
  shows "unlink fs (d @ [n]) = fs(d @ [n] := None)"
  using lresolve_dirs [OF assms(1)] assms(2,3) by (simp add: unlink_def)

lemma stage:
  assumes "\<forall>c \<in> set (d @ [n]). proper c" "dirs_to fs d" "fs (d @ [n]) = None"
  shows "write_nofollow fs (d @ [n]) [] m = (None, fs(d @ [n] \<mapsto> File [] m))"
    and "snd (write_nofollow (fs(d @ [n] \<mapsto> File [] m)) (d @ [n]) c m) = fs(d @ [n] \<mapsto> File c m)"
    and "dirs_to (fs(d @ [n] \<mapsto> x)) d"
proof -
  show "write_nofollow fs (d @ [n]) [] m = (None, fs(d @ [n] \<mapsto> File [] m))" using at_free(4) [OF assms] .
  have k: "dirs_to (fs(d @ [n] \<mapsto> x)) d" for x using assms(2) by (auto simp: dirs_to_def)
  then show "dirs_to (fs(d @ [n] \<mapsto> x)) d" .
  have "lresolve (fs(d @ [n] \<mapsto> File [] m)) (d @ [n]) = Some (d @ [n])" using lresolve_dirs [OF assms(1)] k by simp
  then show "snd (write_nofollow (fs(d @ [n] \<mapsto> File [] m)) (d @ [n]) c m) = fs(d @ [n] \<mapsto> File c m)"
    by (simp add: write_nofollow_def)
qed

text \<open>
  The directories and names a delivery uses: the staging directory and the parent of the version's
  directory exist, the temporary names are free, and the staged archive lies outside both trees.
\<close>

definition delivery_ready :: "registry \<Rightarrow> string list \<Rightarrow> string \<Rightarrow> string list \<Rightarrow> string \<Rightarrow> string \<Rightarrow> bool" where
  "delivery_ready rg sd x ps t d \<longleftrightarrow>
     (\<forall>c \<in> set (sd @ [x]). proper c) \<and> rg_tmp_dir rg = abs_path sd \<and> dirs_to (rg_fs rg) sd \<and> rg_fs rg (sd @ [x]) = None
     \<and> free_tmp (rg_fs rg) ps t d \<and> \<not> prefix (ps @ [t]) (sd @ [x]) \<and> \<not> prefix (ps @ [d]) (sd @ [x])"

lemma fetch_delivers:
  assumes "delivery_ready rg sd x ps t d" "ou_archive_tmp ou = x" "ou_unpack_tmp ou = abs_path (ps @ [t])"
    and "ou_download ou key = Inr bytes" "ou_untar ou bytes = Inr archive" "pack_dir (Inr (TDir perm kids)) = Inr archive"
    and "packable 0 kids" "unpacked kids [entrypoint_name] \<noteq> None" "expected = ou_sha256 ou bytes"
  shows "\<exists>rg'. fetch_and_unpack ou rg key (abs_path (ps @ [d])) expected = (None, rg')
    \<and> (\<forall>n path. rg_fs rg' (ps @ d # n # path) = with_entrypoint (n # path) (unpacked kids (n # path)))
    \<and> inside (ps @ [d]) (rg_fs rg) (rg_fs rg')"
proof -
  let ?fs = "rg_fs rg"
  have px: "\<forall>c \<in> set (sd @ [x]). proper c" and tmp: "rg_tmp_dir rg = abs_path sd" and ds: "dirs_to ?fs sd"
    and nx: "?fs (sd @ [x]) = None" and fr: "free_tmp ?fs ps t d"
    and out: "\<not> prefix (ps @ [t]) (sd @ [x])" "\<not> prefix (ps @ [d]) (sd @ [x])"
    using assms(1) by (auto simp: delivery_ready_def)
  have pd: "\<forall>c \<in> set sd. proper c" using px by simp
  have s: "staging_dir rg = (Inr (abs_path sd), rg)"
  proof -
    have "abs_path sd \<noteq> []" by (simp add: abs_path_def)
    then show ?thesis
      using mkdir_all_existing [OF pd ds, of dir_perm] path_comps_abs_path [OF pd] by (simp add: staging_dir_def tmp)
  qed
  have tp: "path_comps (path_join [abs_path sd, x]) = sd @ [x]"
  proof -
    have "split_on CHR ''/'' x = [x]" using px by (intro split_on_no_sep) (auto dest: properD(4))
    then have "path_join [abs_path sd, x] = abs_path (sd @ [x])"
      using clean_join2 [OF pd, of x] px by (auto simp: proper_def)
    then show ?thesis using path_comps_abs_path [OF px] by simp
  qed
  let ?fs3 = "?fs(sd @ [x] \<mapsto> File bytes 0x180)"
  note st = stage [OF px ds nx]
  have "dirs_to ?fs3 ps"
    using fr nx by (auto simp: free_tmp_def dirs_to_def is_dir_iff)
  then have f3: "free_tmp ?fs3 ps t d" using fr out by (auto simp: free_tmp_def)
  obtain fs4 where u: "unpack ?fs3 (Inr archive) (path_join [abs_path sd, x]) (abs_path (ps @ [d])) (abs_path (ps @ [t])) = (None, fs4)"
    and tree: "\<forall>n path. fs4 (ps @ d # n # path) = with_entrypoint (n # path) (unpacked kids (n # path))"
    and i4: "inside (ps @ [d]) ?fs3 fs4"
    using pack_unpack [OF assms(7,8) f3, of perm "path_join [abs_path sd, x]"] assms(6) by auto
  have "dirs_to fs4 sd"
  proof -
    have "\<not> prefix (ps @ [d]) xs" if "prefix xs sd" for xs
      using that out(2) by (meson prefix_order.trans prefixI)
    then show ?thesis using st(3) i4 by (auto simp: dirs_to_def inside_def)
  qed
  moreover have "fs4 (sd @ [x]) = Some (File bytes 0x180)" using i4 out(2) by (simp add: inside_def)
  ultimately have ul: "unlink fs4 (sd @ [x]) = fs4(sd @ [x] := None)" using unlink_file [OF px] by simp
  have v: "verify_checksum (ou_sha256 ou) (Inr bytes) expected = None" using assms(9) by (simp add: verify_checksum_def)
  let ?rg' = "rg\<lparr>rg_fs := fs4(sd @ [x] := None)\<rparr>"
  have "fetch_and_unpack ou rg key (abs_path (ps @ [d])) expected = (None, ?rg')"
    using s tp st(1,2) assms(2,3,4,5) v u ul by (simp add: fetch_and_unpack_def Let_def)
  moreover have "rg_fs ?rg' (ps @ d # n # path) = with_entrypoint (n # path) (unpacked kids (n # path))" for n path
  proof -
    have "ps @ d # n # path \<noteq> sd @ [x]" using out(2) by (metis append.assoc append_Cons append_Nil prefixI)
    then show ?thesis using tree by simp
  qed
  moreover have "inside (ps @ [d]) ?fs (rg_fs ?rg')" using i4 nx by (auto simp: inside_def)
  ultimately show ?thesis by blast
qed


definition sample_coords :: plugin_key where
  "sample_coords = \<lparr>pk_group = ''grpc'', pk_name = ''go'', pk_version = ''v1''\<rparr>"

definition sample_storage :: s3_storage where
  "sample_storage = \<lparr>st_bucket = ''b'', st_prefix = ''p/'', st_static_credentials = False\<rparr>"

definition quiet_io :: pack_io where
  "quiet_io = \<lparr>pk_stat = None, pk_mkdir = None, pk_create = None, pk_close = None, pk_chmod = None, pk_rename = None\<rparr>"

definition delivery_outside :: outside where
  "delivery_outside = sample_outside\<lparr>ou_untar := (\<lambda>_. pack_dir (Inr (TDir 0x1ED sample_tree))),
     ou_archive_tmp := ''a1'', ou_unpack_tmp := abs_path [''plugins'', ''grpc'', ''go'', ''v1.tmp-7'']\<rparr>"

definition delivery_registry :: registry where
  "delivery_registry = sample_registry\<lparr>rg_tmp_dir := abs_path [''plugins'', ''.tmp''],
     rg_fs := [[] \<mapsto> Dir 493, [''plugins''] \<mapsto> Dir 493, [''plugins'', ''.tmp''] \<mapsto> Dir 493,
               [''plugins'', ''grpc''] \<mapsto> Dir 493, [''plugins'', ''grpc'', ''go''] \<mapsto> Dir 493]\<rparr>"

lemma delivery_sample_ready:
  "delivery_ready delivery_registry [''plugins'', ''.tmp''] ''a1''
     ([''plugins''] @ [pk_group sample_coords, pk_name sample_coords]) ''v1.tmp-7'' (pk_version sample_coords)"
proof -
  have 2: "prefix xs [a, b] \<longleftrightarrow> xs \<in> {[], [a], [a, b]}" for xs and a b :: string
    by (cases xs; cases "tl xs"; cases "tl (tl xs)") auto
  have 3: "prefix xs [a, b, c] \<longleftrightarrow> xs \<in> {[], [a], [a, b], [a, b, c]}" for xs and a b c :: string
    by (cases xs; cases "tl xs"; cases "tl (tl xs)"; cases "tl (tl (tl xs))") auto
  show ?thesis
    by (auto simp: delivery_ready_def delivery_registry_def sample_coords_def free_tmp_def dirs_to_def is_dir_iff 2 3
        proper_def dotdot_def)
qed


subsection \<open>Where the commands and the service differ\<close>

text \<open>The SDK retries no refused registration, whatever the limit that refused it.\<close>

lemma refused_registration_fails:
  "\<not> is_transient_status (RpcError \<lparr>st_code = ResourceExhausted, st_message = m, st_reason = r\<rparr>)
   \<and> is_failed (register_single_plugin (Some (RpcError \<lparr>st_code = ResourceExhausted, st_message = m, st_reason = r\<rparr>)))"
  by (simp add: is_transient_status_def register_single_plugin_def is_failed_def)

text \<open>The plan of a dry run leaves out the separator that the adapter adds to the prefix.\<close>

lemma plan_misses_separator:
  fixes opts defines "opts \<equiv> \<lparr>s3_endpoint = [], s3_bucket = ''b'', s3_region = [], s3_prefix = ''p'', s3_access_key_id = [],
    s3_secret_access_key = [], s3_force_path_style = False\<rparr>"
  shows "push_plan_target opts sample_coords = ''s3://b/pgrpc/go/v1/plugin.tgz''
    \<and> new_s3_storage None opts = Inr sample_storage
    \<and> format_key sample_storage (archive_object_key sample_coords) = ''p/grpc/go/v1/plugin.tgz''"
proof -
  have "archive_object_key sample_coords = ''grpc/go/v1/plugin.tgz''"
    using join_proper [of "''grpc''" "[''go'', ''v1'', ''plugin.tgz'']"]
    by (simp add: archive_object_key_def sample_coords_def archive_name_def proper_def dotdot_def join_slash_def)
  then show ?thesis
    by (simp add: push_plan_target_def opts_def new_s3_storage_def sample_storage_def format_key_def has_prefix_def has_suffix_def)
qed

text \<open>The service trims the credentials of a configuration, a push uses them as they are.\<close>

lemma credentials_trimmed_differently:
  fixes cfg defines "cfg \<equiv> \<lparr>s3_endpoint = [], s3_bucket = ''b'', s3_region = [], s3_prefix = [], s3_access_key_id = ''id '',
    s3_secret_access_key = ''key'', s3_force_path_style = False\<rparr>"
  shows "map_option s3_access_key_id (s3_options_of (default_settings\<lparr>cf_registry := (cf_registry default_settings)\<lparr>crg_s3 := cfg\<rparr>\<rparr>)) = Some ''id''
    \<and> s3_access_key_id (fill_from_config \<lparr>s3_endpoint = [], s3_bucket = [], s3_region = [], s3_prefix = [], s3_access_key_id = [],
        s3_secret_access_key = [], s3_force_path_style = False\<rparr> cfg False) = ''id ''"
  by (simp add: s3_options_of_def s3_enabled_def cfg_def fill_from_config_def Let_def trim_space_def trim_left_def is_space_def)

text \<open>A scan that is pointed at a symbolic link finds no plugins and reports success.\<close>

lemma linked_directory_is_empty: "scan_source packed LinkedRoot scan_path pattern = Inr []"
  by (simp add: scan_source_def scan_plugins_def scan_plugin_tree_def)

end
