(* ===== verification/Commands.thy ===== *)
theory Commands
  imports Publish
begin

text \<open>
  The operator's commands (\<^verbatim>\<open>cmd/easyp-svc\<close>): \<open>auth new-token\<close> (\<^verbatim>\<open>newtoken.go\<close>), the transport of the
  client commands (\<^verbatim>\<open>clienttls.go\<close>), \<open>api descriptor\<close> (\<^verbatim>\<open>descriptor.go\<close>), and the runs of \<open>plugins pack\<close>,
  \<open>plugins push\<close> and \<open>plugins register\<close> from the options of \<^verbatim>\<open>main.go\<close> to their plans and summaries. The
  lemmas show that a new token is accepted by the service, that nothing but the flag turns encryption
  off, that a descriptor set lists every file once and behind its imports, and what a run that reports
  success has done.
\<close>

subsection \<open>A new token\<close>

definition hex_digit :: "nat \<Rightarrow> char" where
  "hex_digit n = (if n < 10 then char_of (48 + n) else char_of (87 + n))"

definition hex_encode :: "string \<Rightarrow> string" where
  "hex_encode s = concat (map (\<lambda>c. [hex_digit (of_char c div 16), hex_digit (of_char c mod 16)]) s)"

definition token_bytes :: nat where "token_bytes = 32"

text \<open>What \<open>runAuthNewToken\<close> prints: the token, and the entry for the configuration.\<close>

definition run_auth_new_token :: "(string \<Rightarrow> string) \<Rightarrow> string result \<Rightarrow> string \<Rightarrow> (string \<times> write_token) result" where
  "run_auth_new_token sha256 random_bytes name =
     (case random_bytes of
        Inl e \<Rightarrow> Inl (wrap ''rand.Read: '' e)
      | Inr raw \<Rightarrow>
          (let token = hex_encode raw in
           Inr (token, \<lparr>wt_name = name, wt_sha256 = hex_encode (sha256 token)\<rparr>)))"

lemma hex_digit_value: "n < 16 \<Longrightarrow> hex_value (hex_digit n) = Some n"
  by (cases "n < 10") (auto simp: hex_value_def hex_digit_def Let_def take_bit_eq_mod)

lemma hex_round_trip [simp]: "hex_decode (hex_encode s) = Some s"
proof (induction s)
  case (Cons c s)
  have "of_char c < (256 :: nat)" by simp
  then have "of_char c div 16 < (16 :: nat)" by (simp add: div_less_iff_less_mult)
  then have "hex_value (hex_digit (of_char c div 16)) = Some (of_char c div 16)"
    "hex_value (hex_digit (of_char c mod 16)) = Some (of_char c mod 16)"
    by (auto intro!: hex_digit_value)
  moreover have "(16 :: nat) * (of_char c div 16) + of_char c mod 16 = of_char c" by simp
  ultimately show ?case using Cons.IH by (simp add: hex_encode_def)
qed (simp add: hex_encode_def)

lemma length_hex_encode [simp]: "length (hex_encode s) = 2 * length s"
  by (induction s) (simp_all add: hex_encode_def)

lemma hex_encode_plain:
  assumes "s \<noteq> []" shows "hex_encode s \<noteq> []" "trim_space (hex_encode s) = hex_encode s"
proof -
  show n: "hex_encode s \<noteq> []" using assms length_hex_encode [of s] by (metis length_0_conv mult_is_0 zero_neq_numeral)
  have "\<forall>c \<in> set (hex_encode s). \<not> is_space c"
    using hex_decode_chars [OF hex_round_trip [of s]] hex_value_plain by blast
  then show "trim_space (hex_encode s) = hex_encode s" using n by (simp add: trim_space_edges)
qed

lemma validate_tokens_append:
  assumes "validate_tokens i seen ts = None" "wt_name t \<noteq> []" "length (wt_sha256 t) = sha256_hex_length"
    and "hex_decode (wt_sha256 t) = Some d" "wt_name t \<notin> seen" "wt_name t \<notin> wt_name ` set ts"
  shows "validate_tokens i seen (ts @ [t]) = None"
  using assms
proof (induction i seen ts rule: validate_tokens.induct)
  case (1 idx seen)
  then show ?case by (auto simp: sha256_hex_length_def)
next
  case (2 idx seen u us)
  then show ?case by (auto split: if_splits option.splits)
qed

subsection \<open>The client of a command\<close>

record client_tls_options =
  ct_ca_file :: string
  ct_cert_file :: string
  ct_key_file :: string
  ct_insecure :: bool

definition err_client_cert_pair_required :: go_error where
  "err_client_cert_pair_required = plain_error ''--tls-cert and --tls-key must be passed together''"
definition err_ca_not_parsed :: go_error where
  "err_ca_not_parsed = plain_error ''no certificates found in CA file''"

definition load_ca_pool :: "(string \<Rightarrow> string result) \<Rightarrow> (string \<Rightarrow> bool) \<Rightarrow> string \<Rightarrow> string result" where
  "load_ca_pool read_file has_certs path =
     (case read_file path of
        Inl e \<Rightarrow> Inl (wrap (''os.ReadFile '' @ path @ '': '') e)
      | Inr pem \<Rightarrow> if has_certs pem then Inr pem else Inl (wrap_after err_ca_not_parsed ('': '' @ path)))"

text \<open>\<open>new_tls\<close> makes credentials of a key pair and a pool of certificates, \<^term>\<open>None\<close> for the system's.\<close>

record tls_files =
  tf_load_pair :: "string \<Rightarrow> string \<Rightarrow> string result"
  tf_read_file :: "string \<Rightarrow> string result"
  tf_has_certs :: "string \<Rightarrow> bool"
  tf_new_tls :: "string option \<Rightarrow> string option \<Rightarrow> string"

definition client_sdk_option :: "tls_files \<Rightarrow> client_tls_options \<Rightarrow> sdk_option result" where
  "client_sdk_option tf o1 =
     (if ct_insecure o1 then Inr with_insecure
      else if (ct_cert_file o1 \<noteq> []) \<noteq> (ct_key_file o1 \<noteq> []) then Inl err_client_cert_pair_required
      else
        case (if ct_cert_file o1 \<noteq> [] then map_sum (wrap ''tls.LoadX509KeyPair: '') Some (tf_load_pair tf (ct_cert_file o1) (ct_key_file o1))
              else Inr None) of
          Inl e \<Rightarrow> Inl e
        | Inr cert \<Rightarrow>
            (case (if ct_ca_file o1 \<noteq> [] then map_sum id Some (load_ca_pool (tf_read_file tf) (tf_has_certs tf) (ct_ca_file o1))
                   else Inr None) of
               Inl e \<Rightarrow> Inl e
             | Inr pool \<Rightarrow> Inr (with_transport_credentials (tf_new_tls tf cert pool))))"

text \<open>The client of \<open>plugins register\<close>: an empty token is left out.\<close>

definition register_client_config :: "sdk_option \<Rightarrow> string \<Rightarrow> sdk_config" where
  "register_client_config tls_opt token = new_client_config (tls_opt # (if token \<noteq> [] then [with_token token] else []))"

lemma client_sdk_option_cases:
  assumes "client_sdk_option tf o1 = Inr tls_opt"
  shows "if ct_insecure o1 then tls_opt = with_insecure else \<exists>creds. tls_opt = with_transport_credentials creds"
  using assms by (auto simp: client_sdk_option_def split: if_splits sum.splits)

text \<open>
  Nothing but the flag turns encryption off: every other combination of flags ends in credentials or in
  an error, and one half of a key pair is always an error.
\<close>

lemma plaintext_only_by_flag:
  assumes "client_sdk_option tf o1 = Inr tls_opt"
  shows "(sd_transport (register_client_config tls_opt token) = TransportInsecure \<longleftrightarrow> ct_insecure o1)
    \<and> (\<not> ct_insecure o1 \<longrightarrow> (ct_cert_file o1 = [] \<longleftrightarrow> ct_key_file o1 = []))"
  using client_sdk_option_cases [OF assms] assms
  by (auto simp: register_client_config_def new_client_config_def with_token_def with_insecure_def with_transport_credentials_def
      client_sdk_option_def split: if_splits)

lemma register_interceptors:
  assumes "client_sdk_option tf o1 = Inr tls_opt" "token \<noteq> []"
  shows "sd_interceptors (register_client_config tls_opt token) = [BearerToken token]"
  using client_sdk_option_cases [OF assms(1)] assms(2)
  by (auto simp: register_client_config_def new_client_config_def with_token_def with_insecure_def with_transport_credentials_def
      default_sdk_config_def split: if_splits)

text \<open>
  C24. The entry that is printed with a new token is accepted by the configuration it is added to, and
  a command that is given the token is authenticated by the service under exactly the name of the entry,
  whatever its transport and whatever else is configured.
\<close>

theorem new_token_accepted:
  assumes "run_auth_new_token sha256 (Inr raw) name = Inr (token, entry)"
    and "raw \<noteq> []" "name \<noteq> []" "\<forall>x. length (sha256 x) = 32"
    and "validate_auth configured = None" "name \<notin> wt_name ` set configured"
    and "client_sdk_option tf o1 = Inr tls_opt"
  shows "validate_auth (configured @ [entry]) = None
    \<and> authenticate sha256 (new_authenticator (configured @ [entry]))
        (outgoing (sd_interceptors (register_client_config tls_opt (resolve_write_token token env))) (\<lambda>_. []))
      = Inr \<lparr>ac_name = name, ac_kind = kind_token\<rparr>"
proof -
  have t: "token = hex_encode raw" and e: "entry = \<lparr>wt_name = name, wt_sha256 = hex_encode (sha256 token)\<rparr>"
    using assms(1) by (auto simp: run_auth_new_token_def Let_def)
  note plain = hex_encode_plain [OF assms(2), folded t]
  have v: "validate_auth (configured @ [entry]) = None"
    unfolding validate_auth_def
    using assms(3-6) by (intro validate_tokens_append [where d = "sha256 token"]) (simp_all add: e validate_auth_def sha256_hex_length_def)
  have r: "resolve_write_token token env = token" using plain by (simp add: resolve_write_token_def)
  have i: "sd_interceptors (register_client_config tls_opt token) = [] @ BearerToken token # []"
    using register_interceptors [OF assms(7) plain(1)] by simp
  have b: "bearer_token (outgoing (sd_interceptors (register_client_config tls_opt token)) (\<lambda>_. [])) = Some token"
    using sdk_token_accepted [OF i _ _ plain v, of "\<lambda>_. []" entry sha256] by (simp add: e)
  have f: "filter (\<lambda>w. hex_decode (wt_sha256 w) = Some (sha256 token)) (configured @ [entry]) =
      filter (\<lambda>w. hex_decode (wt_sha256 w) = Some (sha256 token)) configured @ [entry]" by (simp add: e)
  show ?thesis
    using v unfolding r authenticate_validated [OF v] b option.case f
    by (auto simp: e split: list.split) (metis append_is_Nil_conv last.simps last_snoc list.distinct(1) write_token.select_convs(1))+
qed

definition plain_tls :: client_tls_options where
  "plain_tls = \<lparr>ct_ca_file = [], ct_cert_file = [], ct_key_file = [], ct_insecure = False\<rparr>"

definition no_tls_files :: tls_files where
  "no_tls_files = \<lparr>tf_load_pair = (\<lambda>_ _. Inl (plain_error ''none'')), tf_read_file = (\<lambda>_. Inl (plain_error ''none'')),
     tf_has_certs = (\<lambda>_. False), tf_new_tls = (\<lambda>_ _. ''system'')\<rparr>"

theorem new_token_accepted_witness:
  "\<exists>token entry. run_auth_new_token (\<lambda>_. replicate 32 CHR ''x'') (Inr (replicate 32 CHR ''r'')) ''ci'' = Inr (token, entry)
     \<and> validate_auth [sample_token, entry] = None"
proof -
  obtain token entry where r: "run_auth_new_token (\<lambda>_. replicate 32 CHR ''x'') (Inr (replicate 32 CHR ''r'')) ''ci'' = Inr (token, entry)"
    by (auto simp: run_auth_new_token_def Let_def)
  moreover have "client_sdk_option no_tls_files plain_tls = Inr (with_transport_credentials ''system'')"
    by (simp add: client_sdk_option_def plain_tls_def no_tls_files_def)
  ultimately have "validate_auth ([sample_token] @ [entry]) = None"
    using new_token_accepted [OF r _ _ _ sample_valid] by (auto simp: sample_token_def)
  then show ?thesis using r by auto
qed

subsection \<open>The descriptor set\<close>

text \<open>
  \<open>collectFileDescriptors\<close> over the import graph of the registered files: the files that were seen and
  those that were appended. The fuel bounds the depth of the recursion.
\<close>

fun collect_file_descriptors ::
  "nat \<Rightarrow> (string \<Rightarrow> string list) \<Rightarrow> string list \<Rightarrow> string list \<times> string list \<Rightarrow> string list \<times> string list" where
  "collect_file_descriptors 0 deps ps st = st"
| "collect_file_descriptors (Suc n) deps [] st = st"
| "collect_file_descriptors (Suc n) deps (p # ps) (seen, out) =
     (if p \<in> set seen then collect_file_descriptors (Suc n) deps ps (seen, out)
      else case collect_file_descriptors n deps (deps p) (p # seen, out) of
        (seen1, out1) \<Rightarrow> collect_file_descriptors (Suc n) deps ps (seen1, out1 @ [p]))"

definition api_descriptor :: "nat \<Rightarrow> (string \<Rightarrow> string list) \<Rightarrow> string \<Rightarrow> string list" where
  "api_descriptor depth deps p = snd (collect_file_descriptors depth deps [p] ([], []))"

definition deps_first :: "(string \<Rightarrow> string list) \<Rightarrow> string list \<Rightarrow> bool" where
  "deps_first deps out \<longleftrightarrow> (\<forall>xs p ys. out = xs @ p # ys \<longrightarrow> set (deps p) \<subseteq> set xs)"

lemma deps_first_simps [simp]:
  "deps_first deps []"
  "deps_first deps (out @ [p]) \<longleftrightarrow> deps_first deps out \<and> set (deps p) \<subseteq> set out"
proof -
  show "deps_first deps (out @ [p]) \<longleftrightarrow> deps_first deps out \<and> set (deps p) \<subseteq> set out"
    unfolding deps_first_def
    by (auto simp: append_eq_append_conv2 append_eq_Cons_conv Cons_eq_append_conv) (metis append.assoc append_Cons append_is_Nil_conv butlast.simps(2) butlast_append butlast_snoc list.distinct(1) subsetD)+
qed (simp add: deps_first_def)

text \<open>The invariant of the traversal: \<open>opened\<close> are the files whose imports are being collected.\<close>

definition collected :: "(string \<Rightarrow> string list) \<Rightarrow> string set \<Rightarrow> string list \<times> string list \<Rightarrow> bool" where
  "collected deps opened_files st \<longleftrightarrow>
     set (fst st) = set (snd st) \<union> opened_files \<and> opened_files \<inter> set (snd st) = {} \<and> distinct (snd st) \<and> deps_first deps (snd st)"

definition import_rel :: "(string \<Rightarrow> string list) \<Rightarrow> (string \<times> string) set" where
  "import_rel deps = {(p, q). q \<in> set (deps p)}"

lemma collected_begin:
  "collected deps op1 (seen, out) \<Longrightarrow> p \<notin> set seen \<Longrightarrow> collected deps (insert p op1) (p # seen, out)"
  by (auto simp: collected_def)

lemma collected_end:
  "collected deps (insert p op1) (seen, out) \<Longrightarrow> p \<notin> op1 \<Longrightarrow> set (deps p) \<subseteq> set out \<Longrightarrow>
   collected deps op1 (seen, out @ [p])"
  by (auto simp: collected_def)

lemma import_reach:
  "q \<in> (import_rel deps)\<^sup>* `` set (deps p) \<Longrightarrow> q \<in> (import_rel deps)\<^sup>* `` set (p # ps)"
  by (auto simp: import_rel_def intro: converse_rtrancl_into_rtrancl)

lemma collect_collects:
  "\<forall>p. \<forall>q \<in> set (deps p). rank q < rank p \<Longrightarrow> collected deps op1 st \<Longrightarrow> \<forall>p \<in> set ps. rank p < n \<Longrightarrow>
     \<forall>p \<in> set ps. \<forall>o1 \<in> op1. rank p < (rank o1 :: nat) \<Longrightarrow>
   collected deps op1 (collect_file_descriptors n deps ps st)
     \<and> set ps \<union> set (snd st) \<subseteq> set (snd (collect_file_descriptors n deps ps st))
     \<and> set (snd (collect_file_descriptors n deps ps st)) \<subseteq> set (snd st) \<union> (import_rel deps)\<^sup>* `` set ps"
proof (induction n deps ps st arbitrary: op1 rule: collect_file_descriptors.induct)
  case (1 deps ps st)
  then show ?case by (cases ps) auto
next
  case (3 n deps p ps seen out)
  show ?case
  proof (cases "p \<in> set seen")
    case True
    moreover have "p \<notin> op1" using "3.prems"(4) by auto
    ultimately have "p \<in> set out" using "3.prems"(2) by (auto simp: collected_def)
    then show ?thesis using "3.IH"(1) [OF True, of op1] "3.prems" True by auto
  next
    case False
    obtain seen1 out1 where r: "collect_file_descriptors n deps (deps p) (p # seen, out) = (seen1, out1)"
      by (cases "collect_file_descriptors n deps (deps p) (p # seen, out)") auto
    have np: "p \<notin> op1" using "3.prems"(4) by auto
    have lt: "rank q < n \<and> (\<forall>o1 \<in> insert p op1. rank q < rank o1)" if "q \<in> set (deps p)" for q
    proof -
      have "rank q < rank p" using "3.prems"(1) that by blast
      then show ?thesis using "3.prems"(3,4) by fastforce
    qed
    have i: "collected deps (insert p op1) (seen1, out1)" "set (deps p) \<union> set out \<subseteq> set out1"
      "set out1 \<subseteq> set out \<union> (import_rel deps)\<^sup>* `` set (deps p)"
      using "3.IH"(2) [OF False "3.prems"(1) collected_begin [OF "3.prems"(2) False]] lt by (auto simp: r)
    have c: "collected deps op1 (seen1, out1 @ [p])" using collected_end [OF i(1) np] i(2) by simp
    have j: "collected deps op1 (collect_file_descriptors (Suc n) deps ps (seen1, out1 @ [p]))"
      "set ps \<union> set (out1 @ [p]) \<subseteq> set (snd (collect_file_descriptors (Suc n) deps ps (seen1, out1 @ [p])))"
      "set (snd (collect_file_descriptors (Suc n) deps ps (seen1, out1 @ [p]))) \<subseteq>
         set (out1 @ [p]) \<union> (import_rel deps)\<^sup>* `` set ps"
      using "3.IH"(3) [OF False r [symmetric] "3.prems"(1) c] "3.prems"(3,4) by auto
    have e: "collect_file_descriptors (Suc n) deps (p # ps) (seen, out) =
        collect_file_descriptors (Suc n) deps ps (seen1, out1 @ [p])" using False r by simp
    have "set (out1 @ [p]) \<subseteq> set out \<union> (import_rel deps)\<^sup>* `` set (p # ps)"
      using i(3) import_reach [of _ deps p ps] by auto
    then show ?thesis using i(2) j unfolding e by auto
  qed
qed auto

lemma deps_first_reaches:
  assumes "deps_first deps out" "p \<in> set out" "(p, q) \<in> (import_rel deps)\<^sup>*"
  shows "q \<in> set out"
  using assms(3,2)
proof (induction rule: rtrancl_induct)
  case (step y z)
  then obtain xs ys where "out = xs @ y # ys" by (meson split_list)
  then show ?case using assms(1) step.hyps(2) by (fastforce simp: deps_first_def import_rel_def)
qed simp

text \<open>
  The descriptor set of a file whose imports are not cyclic holds the file and everything it imports,
  directly or through others, and nothing else; each once, and behind all of its own imports. The
  recursion needs no more depth than the longest chain of imports.
\<close>

theorem descriptor_complete:
  assumes "\<forall>p. \<forall>q \<in> set (deps p). rank q < (rank p :: nat)" "rank p < depth"
  shows "set (api_descriptor depth deps p) = (import_rel deps)\<^sup>* `` {p}
    \<and> distinct (api_descriptor depth deps p) \<and> deps_first deps (api_descriptor depth deps p)"
proof -
  have i: "collected deps {} (collect_file_descriptors depth deps [p] ([], []))"
    "p \<in> set (api_descriptor depth deps p)" "set (api_descriptor depth deps p) \<subseteq> (import_rel deps)\<^sup>* `` {p}"
    using collect_collects [OF assms(1), of "{}" "([], [])" "[p]" depth] assms(2)
    by (auto simp: collected_def api_descriptor_def)
  then have d: "deps_first deps (api_descriptor depth deps p)" "distinct (api_descriptor depth deps p)"
    by (auto simp: collected_def api_descriptor_def)
  moreover have "(import_rel deps)\<^sup>* `` {p} \<subseteq> set (api_descriptor depth deps p)"
    using deps_first_reaches [OF d(1) i(2)] by auto
  ultimately show ?thesis using i(3) by auto
qed

definition sample_imports :: "string \<Rightarrow> string list" where
  "sample_imports p = (if p = ''api'' then [''opts'', ''time''] else if p = ''opts'' then [''time''] else [])"

theorem descriptor_complete_witness: "set (api_descriptor 3 sample_imports ''api'') = (import_rel sample_imports)\<^sup>* `` {''api''}
    \<and> api_descriptor 3 sample_imports ''api'' = [''time'', ''opts'', ''api'']"
proof -
  have "\<forall>p. \<forall>q \<in> set (sample_imports p). (if q = ''api'' then 2 else if q = ''opts'' then 1 else 0) <
      (if p = ''api'' then 2 else if p = ''opts'' then 1 else 0 :: nat)"
    by (simp add: sample_imports_def)
  from descriptor_complete [OF this, of "''api''" 3]
  have "set (api_descriptor 3 sample_imports ''api'') = (import_rel sample_imports)\<^sup>* `` {''api''}" by simp
  moreover have "api_descriptor 3 sample_imports ''api'' = [''time'', ''opts'', ''api'']" by code_simp
  ultimately show ?thesis by blast
qed

subsection \<open>Plans and summaries\<close>

definition rule_line :: string where "rule_line = replicate 40 CHR ''-''"

definition summary_row :: "string \<Rightarrow> nat \<Rightarrow> string" where
  "summary_row label n = pad_right 25 label @ '' : '' @ nat_digits n"

definition batch_summary :: "string \<Rightarrow> string \<Rightarrow> string \<Rightarrow> nat \<Rightarrow> nat \<Rightarrow> nat \<Rightarrow> nat \<Rightarrow> string list" where
  "batch_summary title done_label skip_label n_total n_done n_skipped n_failed =
     [[], title, rule_line, summary_row ''Plugins found'' n_total, summary_row done_label n_done,
      summary_row skip_label n_skipped, summary_row ''Failed'' n_failed, rule_line]"

definition pack_summary :: "nat \<Rightarrow> nat \<Rightarrow> nat \<Rightarrow> nat \<Rightarrow> string list" where
  "pack_summary = batch_summary ''Pack results:'' ''Packed'' ''Skipped (already packed)''"
definition push_summary :: "nat \<Rightarrow> nat \<Rightarrow> nat \<Rightarrow> nat \<Rightarrow> string list" where
  "push_summary = batch_summary ''Push results:'' ''Pushed'' ''Skipped (already exists)''"
definition register_summary :: "nat \<Rightarrow> nat \<Rightarrow> nat \<Rightarrow> nat \<Rightarrow> string list" where
  "register_summary = batch_summary ''Registration results:'' ''Registered'' ''Skipped (already exists)''"

definition plan :: "string \<Rightarrow> string \<Rightarrow> (plugin_key \<Rightarrow> string) \<Rightarrow> plugin_key list \<Rightarrow> string list" where
  "plan title verb row ks =
     [title, rule_line] @ map row ks @ [rule_line, ''Would '' @ verb @ '': '' @ nat_digits (length ks) @ '' plugin(s)'']"

definition pack_plan :: "string \<Rightarrow> string \<Rightarrow> plugin_key list \<Rightarrow> string list" where
  "pack_plan scan_path out_dir =
     plan ''Dry-run: would pack the following plugin archives'' ''pack''
       (\<lambda>k. pad_right 40 (plugin_display_name k) @ ''  '' @ version_dir_of scan_path k @ '' -> '' @ archive_local_path out_dir k)"

definition push_plan :: "bool \<Rightarrow> string \<Rightarrow> s3_config \<Rightarrow> plugin_key list \<Rightarrow> string list" where
  "push_plan packed scan_path opts =
     plan ''Dry-run: would push the following plugin archives'' ''push''
       (\<lambda>k. pad_right 40 (plugin_display_name k) @ ''  '' @ push_source_path packed scan_path k @ '' -> '' @ push_plan_target opts k)"

definition register_plan :: "string \<Rightarrow> plugin_key list \<Rightarrow> string list" where
  "register_plan plugins_prefix =
     plan ''Dry-run: would register the following plugins'' ''register''
       (\<lambda>k. pad_right 40 (plugin_display_name k) @ ''  command: '' @ plugin_command_path plugins_prefix k)"

definition none_found :: "string list" where "none_found = [''No plugins found matching the criteria.'']"

subsection \<open>The run of pack\<close>

record tally =
  ta_packed :: nat
  ta_skipped :: nat
  ta_failed :: nat

definition record_pack_result :: "item_result \<Rightarrow> tally \<Rightarrow> tally" where
  "record_pack_result r t =
     (case r of
        Failed e \<Rightarrow> t\<lparr>ta_failed := Suc (ta_failed t)\<rparr>
      | Skipped \<Rightarrow> t\<lparr>ta_skipped := Suc (ta_skipped t)\<rparr>
      | Succeeded \<Rightarrow> t\<lparr>ta_packed := Suc (ta_packed t)\<rparr>)"

text \<open>The loop over the plugins; \<open>cancelled i\<close> is whether the context is done before the \<open>i\<close>-th of them.\<close>

fun pack_loop ::
  "(nat \<Rightarrow> bool) \<Rightarrow> (plugin_key \<Rightarrow> 'd \<Rightarrow> item_result \<times> 'd) \<Rightarrow> nat \<Rightarrow> plugin_key list \<Rightarrow> tally \<Rightarrow> 'd \<Rightarrow> bool \<times> tally \<times> 'd" where
  "pack_loop cancelled pack i [] t disk = (False, t, disk)"
| "pack_loop cancelled pack i (k # ks) t disk =
     (if cancelled i then (True, t, disk)
      else case pack k disk of (r, disk1) \<Rightarrow> pack_loop cancelled pack (Suc i) ks (record_pack_result r t) disk1)"

definition run_plugins_pack ::
  "plugin_key list result \<Rightarrow> string \<Rightarrow> string \<Rightarrow> bool \<Rightarrow> (nat \<Rightarrow> bool) \<Rightarrow> (plugin_key \<Rightarrow> 'd \<Rightarrow> item_result \<times> 'd) \<Rightarrow> 'd
   \<Rightarrow> go_error option \<times> string list \<times> 'd" where
  "run_plugins_pack listed scan_path out_dir dry_run cancelled pack disk =
     (case listed of
        Inl e \<Rightarrow> (Some (wrap ''scanPlugins: '' e), [], disk)
      | Inr ks \<Rightarrow>
          if ks = [] then (None, none_found, disk)
          else if dry_run then (None, pack_plan scan_path out_dir ks, disk)
          else case pack_loop cancelled pack 0 ks \<lparr>ta_packed = 0, ta_skipped = 0, ta_failed = 0\<rparr> disk of
            (interrupted, t, disk1) \<Rightarrow>
              (if interrupted then Some (wrap ''ctx.Err: '' ctx_canceled)
               else if ta_failed t > 0
               then Some (plain_error (''plugin pack failed: '' @ nat_digits (ta_failed t) @ '' plugin(s) failed to pack''))
               else None,
               pack_summary (length ks) (ta_packed t) (ta_skipped t) (ta_failed t), disk1))"

subsection \<open>The starts of push and register\<close>

datatype 'a client_start =
    StartRefused go_error
  | OnlyPrinted "string list"
  | Started 'a "plugin_key list"

definition run_plugins_push ::
  "plugin_key list result \<Rightarrow> bool \<Rightarrow> string \<Rightarrow> bool \<Rightarrow> s3_config \<Rightarrow> go_error option \<Rightarrow> s3_storage client_start" where
  "run_plugins_push listed packed scan_path dry_run opts config_fails =
     (case listed of
        Inl e \<Rightarrow> StartRefused (wrap ''scanPushSource: '' e)
      | Inr ks \<Rightarrow>
          if ks = [] then OnlyPrinted none_found
          else if dry_run then OnlyPrinted (push_plan packed scan_path opts ks)
          else if s3_bucket opts = []
          then StartRefused (plain_error ''s3 bucket is required (pass --bucket or configure registry.s3 in --cfg)'')
          else case new_s3_storage config_fails opts of
            Inl e \<Rightarrow> StartRefused (wrap ''storage.NewS3Storage: '' e)
          | Inr st \<Rightarrow> Started st ks)"

text \<open>Connecting is a parameter: what \<open>sdk.NewClient\<close> fails with.\<close>

definition run_plugins_register ::
  "plugin_key list result \<Rightarrow> string \<Rightarrow> bool \<Rightarrow> tls_files \<Rightarrow> client_tls_options \<Rightarrow> string \<Rightarrow> string \<Rightarrow> go_error option
   \<Rightarrow> sdk_config client_start" where
  "run_plugins_register listed plugins_prefix dry_run tf tls token addr connect_fails =
     (case listed of
        Inl e \<Rightarrow> StartRefused e
      | Inr ks \<Rightarrow>
          if ks = [] then OnlyPrinted none_found
          else if dry_run then OnlyPrinted (register_plan plugins_prefix ks)
          else case client_sdk_option tf tls of
            Inl e \<Rightarrow> StartRefused e
          | Inr tls_opt \<Rightarrow>
              (case connect_fails of
                 Some e \<Rightarrow> StartRefused (wrap (''failed to connect to gRPC server at '' @ addr @ '': '') e)
               | None \<Rightarrow> Started (register_client_config tls_opt token) ks))"

text \<open>
  The uploads of a push in the order in which they end. Those of different plugins are of different
  objects, so an interleaving is its order of ends.
\<close>

fun push_in_order ::
  "s3_client \<Rightarrow> s3_storage \<Rightarrow> bool \<Rightarrow> (plugin_key \<Rightarrow> archive_source) \<Rightarrow> plugin_key list \<Rightarrow> bucket \<Rightarrow> item_result list \<times> bucket" where
  "push_in_order cl st force source [] b = ([], b)"
| "push_in_order cl st force source (k # ks) b =
     (case push_single_plugin cl st force k (source k) b of
        (r, b1) \<Rightarrow> (case push_in_order cl st force source ks b1 of (rs, b2) \<Rightarrow> (r # rs, b2)))"

subsection \<open>What a successful run has done\<close>

text \<open>One step on a store of archives by name: nothing unless it succeeds, and then one archive.\<close>

definition stores_one :: "'k \<Rightarrow> ('k \<rightharpoonup> string) \<Rightarrow> bool \<Rightarrow> (string \<Rightarrow> bool) \<Rightarrow> item_result \<Rightarrow> ('k \<rightharpoonup> string) \<Rightarrow> bool" where
  "stores_one name store force made r store1 \<longleftrightarrow>
     (case r of
        Failed e \<Rightarrow> store1 = store
      | Skipped \<Rightarrow> store1 = store \<and> \<not> force \<and> store name \<noteq> None
      | Succeeded \<Rightarrow> (\<exists>bytes. made bytes \<and> store1 = store(name \<mapsto> bytes)))"

lemma pack_stores_one:
  assumes "pack_single_plugin io encode scan_path out_dir force k t disk = (r, disk1)"
  shows "stores_one (archive_local_path out_dir k) disk force (\<lambda>bytes. \<exists>archive. pack_dir t = Inr archive \<and> bytes = encode archive) r disk1"
  using assms
  by (auto simp: stores_one_def pack_single_plugin_def pack_plugin_dir_def Let_def split: if_splits option.splits sum.splits)

definition source_bytes :: "archive_source \<Rightarrow> string \<Rightarrow> bool" where
  "source_bytes src bytes = (src = PackedArchive (Inr bytes) \<or> src = BuiltDirectory (Inr bytes))"

lemma push_stores_one:
  assumes "push_single_plugin cl st force k src b = (r, b1)"
  shows "stores_one (format_key st (archive_object_key k)) b force (source_bytes src) r b1"
  using assms
  by (auto simp: stores_one_def push_single_plugin_def s3_upload_file_def s3_exists_def source_bytes_def Let_def
      split: if_splits option.splits sum.splits bool.splits prod.splits archive_source.splits)

text \<open>What holds of every name after steps on distinct names of which none failed.\<close>

definition provided :: "bool \<Rightarrow> (string \<Rightarrow> bool) \<Rightarrow> string option \<Rightarrow> string option \<Rightarrow> bool" where
  "provided force made before after \<longleftrightarrow>
     (\<exists>bytes. after = Some bytes \<and> (made bytes \<or> \<not> force \<and> before = Some bytes))"

lemma stores_one_provided:
  "stores_one name store force made r store1 \<Longrightarrow> \<not> is_failed r \<Longrightarrow> provided force made (store name) (store1 name)"
  by (cases r) (auto simp: stores_one_def provided_def is_failed_def)

lemma stores_one_other: "stores_one name store force made r store1 \<Longrightarrow> n \<noteq> name \<Longrightarrow> store1 n = store n"
  by (cases r) (auto simp: stores_one_def)

text \<open>A sequence of steps on a store, of which the loop of pack and the uploads of push are instances.\<close>

fun run_steps :: "('p \<Rightarrow> 'd \<Rightarrow> item_result \<times> 'd) \<Rightarrow> 'p list \<Rightarrow> 'd \<Rightarrow> item_result list \<times> 'd" where
  "run_steps step [] store = ([], store)"
| "run_steps step (k # ks) store =
     (case step k store of (r, store1) \<Rightarrow> (case run_steps step ks store1 of (rs, store2) \<Rightarrow> (r # rs, store2)))"

lemma is_failed_simps [simp]: "\<not> is_failed Succeeded" "\<not> is_failed Skipped" "is_failed (Failed e)"
  by (simp_all add: is_failed_def)

lemma push_is_steps: "push_in_order cl st force source ks b = run_steps (\<lambda>k. push_single_plugin cl st force k (source k)) ks b"
  by (induction ks arbitrary: b) (simp_all split: prod.splits)

lemma pack_is_steps:
  "pack_loop cancelled pack i ks t disk = (False, t1, disk1) \<Longrightarrow>
   \<exists>rs. run_steps pack ks disk = (rs, disk1) \<and> ta_failed t1 = ta_failed t + length (filter is_failed rs)
     \<and> ta_packed t1 + ta_skipped t1 + ta_failed t1 = ta_packed t + ta_skipped t + ta_failed t + length ks"
proof (induction ks arbitrary: i t disk)
  case (Cons k ks)
  obtain r d where p: "pack k disk = (r, d)" by (cases "pack k disk")
  then have "pack_loop cancelled pack (Suc i) ks (record_pack_result r t) d = (False, t1, disk1)"
    using Cons.prems by (simp split: if_splits)
  from Cons.IH [OF this] obtain rs where "run_steps pack ks d = (rs, disk1)"
    "ta_failed t1 = ta_failed (record_pack_result r t) + length (filter is_failed rs)"
    "ta_packed t1 + ta_skipped t1 + ta_failed t1 = ta_packed (record_pack_result r t) + ta_skipped (record_pack_result r t)
       + ta_failed (record_pack_result r t) + length ks" by blast
  then show ?case using p by (cases r) (auto simp: record_pack_result_def)
qed simp

lemma run_steps_store:
  assumes "\<And>k d r d1. k \<in> set ks \<Longrightarrow> step k d = (r, d1) \<Longrightarrow> stores_one (name k) d force (made k) r d1"
    and "distinct (map name ks)" "run_steps step ks d = (rs, d1)" "\<forall>r \<in> set rs. \<not> is_failed r"
  shows "(\<forall>k \<in> set ks. provided force (made k) (d (name k)) (d1 (name k))) \<and> (\<forall>n. n \<notin> name ` set ks \<longrightarrow> d1 n = d n)"
  using assms
proof (induction ks arbitrary: d rs)
  case (Cons k ks)
  obtain r e where 1: "step k d = (r, e)" by (cases "step k d")
  obtain qs where 2: "run_steps step ks e = (qs, d1)" "rs = r # qs" using Cons.prems(3) 1 by (auto split: prod.splits)
  have so: "stores_one (name k) d force (made k) r e" using Cons.prems(1) 1 by simp
  have ih: "\<forall>j \<in> set ks. provided force (made j) (e (name j)) (d1 (name j))" "\<forall>n. n \<notin> name ` set ks \<longrightarrow> d1 n = e n"
    using Cons.IH [OF _ _ 2(1)] Cons.prems 2(2) by auto
  have "name k \<notin> name ` set ks" using Cons.prems(2) by simp
  moreover have "provided force (made k) (d (name k)) (e (name k))" using stores_one_provided [OF so] Cons.prems(4) 2(2) by simp
  moreover have "provided force (made j) (d (name j)) (d1 (name j))" if "j \<in> set ks" for j
    using that ih(1) stores_one_other [OF so] calculation(1) by (metis image_eqI)
  ultimately show ?case using ih stores_one_other [OF so] by auto
qed simp

text \<open>
  When \<open>plugins pack\<close> reports success, every plugin of the scan has its archive on disk at the path a
  push reads it from: the archive of its directory, or, when nothing is forced, the one that was there;
  no other file has changed, and the plugins packed and skipped add up to those that were found.
\<close>

theorem pack_run_complete:
  assumes "run_plugins_pack (Inr ks) scan_path (abs_path ds) False cancelled
      (\<lambda>k. pack_single_plugin (io k) encode scan_path (abs_path ds) force k (tree_of k)) disk = (None, out, disk1)"
    and "ks \<noteq> []" "distinct ks" "\<forall>k \<in> set ks. plain_coords k" "\<forall>c \<in> set ds. proper c"
  shows "(\<forall>k \<in> set ks. provided force (\<lambda>bytes. \<exists>archive. pack_dir (tree_of k) = Inr archive \<and> bytes = encode archive)
        (disk (archive_local_path (abs_path ds) k)) (disk1 (archive_local_path (abs_path ds) k)))
    \<and> (\<forall>n. n \<notin> archive_local_path (abs_path ds) ` set ks \<longrightarrow> disk1 n = disk n)
    \<and> (\<exists>p q. out = pack_summary (length ks) p q 0 \<and> p + q = length ks)"
proof -
  let ?pack = "\<lambda>k. pack_single_plugin (io k) encode scan_path (abs_path ds) force k (tree_of k)"
  obtain t where t: "pack_loop cancelled ?pack 0 ks \<lparr>ta_packed = 0, ta_skipped = 0, ta_failed = 0\<rparr> disk = (False, t, disk1)"
    and f: "ta_failed t = 0" and o: "out = pack_summary (length ks) (ta_packed t) (ta_skipped t) (ta_failed t)"
    using assms(1,2) by (auto simp: run_plugins_pack_def split: prod.splits if_splits)
  obtain rs where rs: "run_steps ?pack ks disk = (rs, disk1)" "filter is_failed rs = []"
    and n: "ta_packed t + ta_skipped t = length ks"
    using pack_is_steps [OF t] f by auto
  have "\<forall>r \<in> set rs. \<not> is_failed r" using rs(2) by (simp add: filter_empty_conv)
  moreover have "distinct (map (archive_local_path (abs_path ds)) ks)"
    using assms(3-5) local_path_inj by (auto simp: distinct_map inj_on_def)
  ultimately show ?thesis
    using run_steps_store [where step = ?pack and name = "archive_local_path (abs_path ds)" and force = force
        and made = "\<lambda>k bytes. \<exists>archive. pack_dir (tree_of k) = Inr archive \<and> bytes = encode archive", OF pack_stores_one _ rs(1)]
      o f n by auto
qed

theorem pack_run_complete_witness:
  "\<exists>bytes. snd (snd (run_plugins_pack (Inr [sample_coords]) ''/in'' (abs_path [''out'']) False (\<lambda>_. False)
     (\<lambda>k. pack_single_plugin quiet_io (\<lambda>_. ''tgz'') ''/in'' (abs_path [''out'']) False k (Inr (TDir 0x1ED []))) Map.empty))
     (archive_local_path (abs_path [''out'']) sample_coords) = Some bytes"
proof -
  let ?run = "run_plugins_pack (Inr [sample_coords]) ''/in'' (abs_path [''out'']) False (\<lambda>_. False)
     (\<lambda>k. pack_single_plugin quiet_io (\<lambda>_. ''tgz'') ''/in'' (abs_path [''out'']) False k (Inr (TDir 0x1ED []))) Map.empty"
  have "fst ?run = None"
    by (simp add: run_plugins_pack_def pack_single_plugin_def pack_plugin_dir_def quiet_io_def pack_dir_def record_pack_result_def Let_def)
  then have r: "?run = (None, fst (snd ?run), snd (snd ?run))" by (metis prod.collapse)
  have "plain_coords sample_coords" by (simp add: plain_coords_def sample_coords_def proper_def dotdot_def)
  moreover have "proper ''out''" by (simp add: proper_def dotdot_def)
  ultimately show ?thesis
    using pack_run_complete [where io = "\<lambda>_. quiet_io" and tree_of = "\<lambda>_. Inr (TDir 0x1ED [])", OF r]
    by (auto simp: provided_def)
qed

text \<open>
  When no upload of a push failed, every plugin has its object in the store: the bytes of its archive,
  or, when nothing is forced, what was there before; every other object is what it was, in whatever
  order the uploads ended.
\<close>

theorem push_run_complete:
  assumes "push_in_order cl st force source ks b = (rs, b1)" "\<forall>r \<in> set rs. \<not> is_failed r"
    and "distinct ks" "\<forall>k \<in> set ks. plain_coords k"
  shows "(\<forall>k \<in> set ks. provided force (source_bytes (source k)) (b (format_key st (archive_object_key k)))
        (b1 (format_key st (archive_object_key k))))
    \<and> (\<forall>n. n \<notin> (\<lambda>k. format_key st (archive_object_key k)) ` set ks \<longrightarrow> b1 n = b n)"
proof -
  have "distinct (map (\<lambda>k. format_key st (archive_object_key k)) ks)"
    using assms(3,4) object_key_inj object_key_relative format_key_inj by (auto simp: distinct_map inj_on_def)
  then show ?thesis
    using run_steps_store [where name = "\<lambda>k. format_key st (archive_object_key k)" and force = force
        and made = "\<lambda>k. source_bytes (source k)", OF push_stores_one _ assms(1) [unfolded push_is_steps] assms(2)] by auto
qed

theorem push_run_complete_witness:
  "provided False (source_bytes (PackedArchive (Inr ''tgz''))) None
     (snd (push_in_order quiet_client sample_storage False (\<lambda>_. PackedArchive (Inr ''tgz'')) [sample_coords] Map.empty)
       (format_key sample_storage (archive_object_key sample_coords)))"
proof -
  have "plain_coords sample_coords" by (simp add: plain_coords_def sample_coords_def proper_def dotdot_def)
  moreover have "push_in_order quiet_client sample_storage False (\<lambda>_. PackedArchive (Inr ''tgz'')) [sample_coords] Map.empty =
      ([Succeeded], [format_key sample_storage (archive_object_key sample_coords) \<mapsto> ''tgz''])"
    by (simp add: push_single_plugin_def s3_exists_def s3_upload_file_def quiet_client_def Let_def)
  ultimately show ?thesis
    using push_run_complete [of quiet_client sample_storage False "\<lambda>_. PackedArchive (Inr ''tgz'')" "[sample_coords]" Map.empty] 
    by (simp add: is_failed_def)
qed

end
