(* ===== verification/Build.thy ===== *)
theory Build
  imports Scan Batch Cache "HOL-Library.AList"
begin

text \<open>
  Building plugins (\<^verbatim>\<open>cmd/easyp-svc/build.go\<close>): the versions a \<^verbatim>\<open>plugin.yaml\<close> declares, with the
  overrides of each over the defaults of the file, the jobs of a registry directory, which of them are
  already built, the command line of a build, and what one build leaves in its output directory. The
  YAML library and Docker are parameters. The lemmas show that the jobs are exactly the wanted
  versions, that the command line does not depend on the order of a Go map, and what a success means.
\<close>

subsection \<open>The file of a plugin\<close>

text \<open>A Go map is an association list of which only \<^term>\<open>map_of\<close> matters.\<close>

type_synonym build_args = "(string \<times> string) list"

record version_entry =
  ve_version :: string
  ve_build_args :: build_args
  ve_dockerfile :: string
  ve_args :: "string list"
  ve_skip :: bool

definition empty_entry :: version_entry where
  "empty_entry = \<lparr>ve_version = [], ve_build_args = [], ve_dockerfile = [], ve_args = [], ve_skip = False\<rparr>"

text \<open>A node of the document, a mapping with what decoding it yields.\<close>

datatype version_node = ScalarNode string | MappingNode "version_entry result" | OtherNode int

definition unmarshal_version :: "version_node \<Rightarrow> version_entry result" where
  "unmarshal_version node =
     (case node of
        ScalarNode v \<Rightarrow> Inr (empty_entry\<lparr>ve_version := v\<rparr>)
      | MappingNode (Inl e) \<Rightarrow> Inl (wrap ''decode version entry: '' e)
      | MappingNode (Inr entry) \<Rightarrow> Inr entry
      | OtherNode kind \<Rightarrow>
          Inl (plain_error (''does not match expected structure: unexpected version node kind '' @ int_text kind)))"

record plugin_yaml =
  pc_build_args :: build_args
  pc_dockerfile :: string
  pc_args :: "string list"
  pc_versions :: "version_entry list"

text \<open>\<open>parsePluginConfig\<close>, whose document decodes to the defaults and the nodes of the versions.\<close>

fun unmarshal_versions :: "version_node list \<Rightarrow> version_entry list result" where
  "unmarshal_versions [] = Inr []"
| "unmarshal_versions (n # ns) =
     (case unmarshal_version n of
        Inl e \<Rightarrow> Inl e
      | Inr v \<Rightarrow> (case unmarshal_versions ns of Inl e \<Rightarrow> Inl e | Inr vs \<Rightarrow> Inr (v # vs)))"

definition parse_plugin_config ::
  "(string \<Rightarrow> (build_args \<times> string \<times> string list \<times> version_node list) result) \<Rightarrow> string \<Rightarrow> plugin_yaml result" where
  "parse_plugin_config decode body =
     (case decode body of
        Inl e \<Rightarrow> Inl (wrap ''parse plugin.yaml: '' e)
      | Inr (build_args, dockerfile, args, nodes) \<Rightarrow>
          (case unmarshal_versions nodes of
             Inl e \<Rightarrow> Inl (wrap ''parse plugin.yaml: '' e)
           | Inr vs \<Rightarrow> Inr \<lparr>pc_build_args = build_args, pc_dockerfile = dockerfile, pc_args = args, pc_versions = vs\<rparr>))"

subsection \<open>Jobs\<close>

record build_job =
  bj_group :: string
  bj_name :: string
  bj_version :: string
  bj_build_args :: build_args
  bj_dockerfile :: string
  bj_args :: "string list"
  bj_plugin_dir :: string
  bj_output_dir :: string

definition job_key :: "build_job \<Rightarrow> string" where
  "job_key j = bj_group j @ ''/'' @ bj_name j @ '':'' @ bj_version j"

definition override_string :: "string \<Rightarrow> string \<Rightarrow> string" where
  "override_string default_val override_val = (if override_val \<noteq> [] then override_val else default_val)"

definition copy_args :: "build_args \<Rightarrow> build_args \<Rightarrow> build_args" where
  "copy_args src dst = fold (\<lambda>(k, v). AList.update k v) src dst"

definition merge_build_args :: "build_args \<Rightarrow> build_args \<Rightarrow> build_args" where
  "merge_build_args base override =
     (if base = [] \<and> override = [] then [] else copy_args override (copy_args base []))"

definition merge_args :: "string list \<Rightarrow> string list \<Rightarrow> string list" where
  "merge_args base override = (if base = [] \<and> override = [] then [] else base @ override)"

definition job_of :: "plugin_yaml \<Rightarrow> string \<Rightarrow> string \<Rightarrow> string \<Rightarrow> string \<Rightarrow> version_entry \<Rightarrow> build_job" where
  "job_of cfg grp name plugin_dir output_dir v =
     \<lparr>bj_group = grp, bj_name = name, bj_version = ve_version v,
      bj_build_args = merge_build_args (pc_build_args cfg) (ve_build_args v),
      bj_dockerfile = override_string (pc_dockerfile cfg) (ve_dockerfile v),
      bj_args = merge_args (pc_args cfg) (ve_args v),
      bj_plugin_dir = plugin_dir,
      bj_output_dir = path_join [output_dir, grp, name, ve_version v]\<rparr>"

fun expand_versions ::
  "plugin_yaml \<Rightarrow> string \<Rightarrow> string \<Rightarrow> string \<Rightarrow> string \<Rightarrow> string \<Rightarrow> version_entry list \<Rightarrow> build_job list \<times> string list" where
  "expand_versions cfg grp name plugin_dir output_dir pattern [] = ([], [])"
| "expand_versions cfg grp name plugin_dir output_dir pattern (v # vs) =
     (case expand_versions cfg grp name plugin_dir output_dir pattern vs of
        (jobs, skips) \<Rightarrow>
          if ve_version v = [] \<or> \<not> match_filter grp name (ve_version v) pattern then (jobs, skips)
          else if ve_skip v then (jobs, (grp @ ''/'' @ name @ '':'' @ ve_version v) # skips)
          else (job_of cfg grp name plugin_dir output_dir v # jobs, skips))"

definition jobs_from_config ::
  "plugin_yaml \<Rightarrow> string \<Rightarrow> string \<Rightarrow> string \<Rightarrow> string \<Rightarrow> string \<Rightarrow> build_job list \<times> string list" where
  "jobs_from_config cfg grp name plugin_dir output_dir pattern =
     expand_versions cfg grp name plugin_dir output_dir pattern (pc_versions cfg)"

text \<open>\<open>filepath.Base\<close>: the last element of a path without its trailing slashes.\<close>

definition path_base :: "string \<Rightarrow> string" where
  "path_base p =
     (if p = [] then ''.''
      else
        let stripped = rev (dropWhile (\<lambda>c. c = CHR ''/'') (rev p)) in
        if stripped = [] then ''/'' else rev (takeWhile (\<lambda>c. c \<noteq> CHR ''/'') (rev stripped)))"

text \<open>Reading a file and parsing it are parameters of the scan.\<close>

definition jobs_from_config_file ::
  "(string \<Rightarrow> string result) \<Rightarrow> (string \<Rightarrow> plugin_yaml result) \<Rightarrow> string \<Rightarrow> string \<Rightarrow> string
   \<Rightarrow> (build_job list \<times> string list) result" where
  "jobs_from_config_file read_file parse config_path output_dir pattern =
     (case read_file config_path of
        Inl e \<Rightarrow> Inl (wrap (''read '' @ config_path @ '': '') e)
      | Inr body \<Rightarrow>
          (case parse body of
             Inl e \<Rightarrow> Inl (wrap (''parse '' @ config_path @ '': '') e)
           | Inr cfg \<Rightarrow>
               (let plugin_dir = path_dir config_path in
                Inr (jobs_from_config cfg (path_base (path_dir plugin_dir)) (path_base plugin_dir) plugin_dir output_dir pattern))))"

fun collect_jobs ::
  "(string \<Rightarrow> (build_job list \<times> string list) result) \<Rightarrow> string list \<Rightarrow> (build_job list \<times> string list) result" where
  "collect_jobs jobs_of [] = Inr ([], [])"
| "collect_jobs jobs_of (p # ps) =
     (case jobs_of p of
        Inl e \<Rightarrow> Inl e
      | Inr (jobs, skips) \<Rightarrow>
          (case collect_jobs jobs_of ps of Inl e \<Rightarrow> Inl e | Inr (js, ss) \<Rightarrow> Inr (jobs @ js, skips @ ss)))"

definition plugin_config_name :: string where "plugin_config_name = ''plugin.yaml''"

definition config_paths :: "string \<Rightarrow> (string \<times> tree) list \<Rightarrow> string list" where
  "config_paths registry_dir kids =
     map (\<lambda>rel. path_join (clean registry_dir # rel)) (filter (\<lambda>rel. last rel = plugin_config_name) (walk_files [] kids))"

definition validate_registry_dir :: "scan_root \<Rightarrow> string \<Rightarrow> go_error option" where
  "validate_registry_dir tree_root path =
     (case tree_root of
        MissingRoot \<Rightarrow> Some (plain_error (''directory does not exist: '' @ path))
      | UnreadableRoot e \<Rightarrow> Some (wrap (''failed to access registry directory '' @ path @ '': '') e)
      | NoDirectory \<Rightarrow> Some (plain_error (''path is not a directory: '' @ path))
      | _ \<Rightarrow> None)"

text \<open>\<open>sort.Slice\<close> on the keys is not stable, so only the order of different keys is determined.\<close>

definition scan_build_jobs ::
  "(string \<Rightarrow> string result) \<Rightarrow> (string \<Rightarrow> plugin_yaml result) \<Rightarrow> scan_root \<Rightarrow> string \<Rightarrow> string \<Rightarrow> string
   \<Rightarrow> (build_job list \<times> string list) result" where
  "scan_build_jobs read_file parse tree_root registry_dir output_dir pattern =
     (case tree_root of
        BrokenWalk e \<Rightarrow> Inl (wrap ''scanning registry: '' e)
      | RootDir kids \<Rightarrow>
          (case collect_jobs (\<lambda>p. jobs_from_config_file read_file parse p output_dir pattern) (config_paths registry_dir kids) of
             Inl e \<Rightarrow> Inl (wrap ''scanning registry: '' e)
           | Inr (jobs, skips) \<Rightarrow> Inr (sort_key job_key jobs, sort skips))
      | _ \<Rightarrow> Inr ([], []))"

subsection \<open>What a build leaves\<close>

text \<open>The output directory of a job: what is at its \<^verbatim>\<open>plugin\<close>, and the log of a failed build.\<close>

datatype artifact = RegularFile int | NotRegular

record out_dir =
  od_plugin :: "artifact option"
  od_executable :: bool
  od_log :: "string option"

definition cached :: "out_dir \<Rightarrow> bool" where
  "cached od = (case od_plugin od of Some (RegularFile len) \<Rightarrow> True | _ \<Rightarrow> False)"

definition split_cached :: "(build_job \<Rightarrow> out_dir) \<Rightarrow> bool \<Rightarrow> build_job list \<Rightarrow> build_job list \<times> nat" where
  "split_cached dirs force jobs =
     (if force then (jobs, 0)
      else (filter (\<lambda>j. \<not> cached (dirs j)) jobs, length (filter (\<lambda>j. cached (dirs j)) jobs)))"

definition dockerfile_path :: "build_job \<Rightarrow> string" where
  "dockerfile_path j =
     (if bj_dockerfile j = [] then path_join [bj_plugin_dir j, ''Dockerfile'']
      else if is_abs (bj_dockerfile j) then bj_dockerfile j
      else path_join [bj_plugin_dir j, bj_dockerfile j])"

definition arg_keys :: "build_args \<Rightarrow> string list" where
  "arg_keys m = sort (remdups (map fst m))"

definition docker_args :: "build_job \<Rightarrow> string list" where
  "docker_args j =
     [''build'', ''--progress=plain'', ''--build-arg'', ''VERSION='' @ bj_version j]
     @ concat (map (\<lambda>k. [''--build-arg'', k @ ''='' @ the (map_of (bj_build_args j) k)]) (arg_keys (bj_build_args j)))
     @ bj_args j
     @ [''--output'', ''type=local,dest='' @ bj_output_dir j, ''-f'', dockerfile_path j, bj_plugin_dir j]"

text \<open>
  \<open>formatSize\<close>: the loop over the units, with the last one reached. The quotient of the two floating
  point numbers with one digit is a parameter.
\<close>

function size_unit :: "int \<Rightarrow> int \<Rightarrow> nat \<Rightarrow> int \<times> nat" where
  "size_unit n d e = (if n \<ge> 1024 then size_unit (n div 1024) (d * 1024) (Suc e) else (d, e))"
  by pat_completeness auto
termination by (relation "measure (\<lambda>(n, d, e). nat n)") auto

declare size_unit.simps [simp del]

definition format_size :: "(int \<Rightarrow> int \<Rightarrow> string) \<Rightarrow> int \<Rightarrow> string option" where
  "format_size one_digit len =
     (if len < 1024 then Some (int_text len @ '' B'')
      else case size_unit (len div 1024) 1024 0 of
        (d, e) \<Rightarrow> if e < length ''KMGTPE'' then Some (one_digit len d @ ''KMGTPE'' ! e # ''B'') else None)"

definition err_no_output_binary :: go_error where
  "err_no_output_binary = plain_error ''no output binary produced by build''"

definition normalize_output :: "out_dir \<Rightarrow> int result \<times> out_dir" where
  "normalize_output od =
     (case od_plugin od of
        Some (RegularFile len) \<Rightarrow> (Inr len, od\<lparr>od_executable := True\<rparr>)
      | _ \<Rightarrow> (Inl err_no_output_binary, od))"

definition write_build_log :: "string \<Rightarrow> go_error \<Rightarrow> out_dir \<Rightarrow> out_dir" where
  "write_build_log output cause od = od\<lparr>od_log := Some (output @ [CHR 0x0A] @ ''Error: '' @ msg cause @ [CHR 0x0A])\<rparr>"

text \<open>One run of Docker: what it prints, whether it fails, and the output directory after it.\<close>

type_synonym docker = "string list \<Rightarrow> out_dir \<Rightarrow> string \<times> go_error option \<times> out_dir"

definition build_one ::
  "docker \<Rightarrow> go_error option \<Rightarrow> bool \<Rightarrow> build_job \<Rightarrow> out_dir \<Rightarrow> int result \<times> go_error option \<times> out_dir" where
  "build_one run_docker mkdir_fails keep_going j od =
     (case mkdir_fails of
        Some e \<Rightarrow> (Inl (plain_error ''mkdir failed''), keep_or_fail keep_going (wrap (''mkdir '' @ bj_output_dir j @ '': '') e), od)
      | None \<Rightarrow>
          (case run_docker (docker_args j) od of
             (out, Some e, od1) \<Rightarrow>
               (Inl (plain_error (''see '' @ path_join [bj_output_dir j, ''build.log''])),
                keep_or_fail keep_going (wrap (''build '' @ job_key j @ '': '') e), write_build_log out e od1)
           | (out, None, od1) \<Rightarrow>
               (case normalize_output od1 of
                  (Inl e, od2) \<Rightarrow>
                    (Inl e, keep_or_fail keep_going (wrap (''build '' @ job_key j @ '': '') e), write_build_log out e od2)
                | (Inr len, od2) \<Rightarrow> (Inr len, None, od2\<lparr>od_log := None\<rparr>))))"

datatype build_start =
    BuildRefused go_error
  | NothingFound
  | Planned "build_job list" "string list"
  | AllCached "string list"
  | Building "build_job list" nat "string list"

text \<open>\<open>runPluginsBuild\<close> up to the builds, with what looking for Docker yields.\<close>

definition start_build ::
  "(build_job list \<times> string list) result \<Rightarrow> go_error option \<Rightarrow> go_error option \<Rightarrow> (build_job \<Rightarrow> out_dir) \<Rightarrow> bool \<Rightarrow> bool
   \<Rightarrow> build_start" where
  "start_build jobs_found bad_registry docker_missing dirs force dry_run =
     (case bad_registry of
        Some e \<Rightarrow> BuildRefused e
      | None \<Rightarrow>
          (case jobs_found of
             Inl e \<Rightarrow> BuildRefused e
           | Inr (jobs, skips) \<Rightarrow>
               if length jobs + length skips = 0 then NothingFound
               else (case split_cached dirs force jobs of
                 (to_build, hits) \<Rightarrow>
                   if dry_run then Planned to_build skips
                   else if to_build = [] then AllCached skips
                   else case docker_missing of
                     Some e \<Rightarrow> BuildRefused e
                   | None \<Rightarrow> Building to_build hits skips)))"

definition check_docker :: "bool \<Rightarrow> go_error option \<Rightarrow> go_error option" where
  "check_docker in_path info_fails =
     (if \<not> in_path then Some (plain_error ''docker not found in PATH; install Docker to build plugins'')
      else map_option (wrap ''docker daemon is not available: '') info_fails)"

subsection \<open>The jobs of a registry\<close>

definition wanted :: "string \<Rightarrow> string \<Rightarrow> string \<Rightarrow> version_entry \<Rightarrow> bool" where
  "wanted grp name pattern v = (ve_version v \<noteq> [] \<and> match_filter grp name (ve_version v) pattern)"

lemma expand_versions_eq:
  "expand_versions cfg grp name plugin_dir output_dir pattern vs =
    (map (job_of cfg grp name plugin_dir output_dir) (filter (\<lambda>v. wanted grp name pattern v \<and> \<not> ve_skip v) vs),
     map (\<lambda>v. grp @ ''/'' @ name @ '':'' @ ve_version v) (filter (\<lambda>v. wanted grp name pattern v \<and> ve_skip v) vs))"
  by (induction vs) (auto simp: wanted_def split: prod.splits)

lemma map_of_copy_args: "map_of (copy_args src dst) k = (case map_of (rev src) k of Some v \<Rightarrow> Some v | None \<Rightarrow> map_of dst k)"
  unfolding copy_args_def
proof (induction src arbitrary: dst)
  case (Cons kv src)
  then show ?case by (cases kv) (auto simp: map_add_def update_conv' split: option.splits)
qed simp

lemma merge_build_args_of:
  assumes "distinct (map fst base)" "distinct (map fst override)"
  shows "map_of (merge_build_args base override) k = (case map_of override k of Some v \<Rightarrow> Some v | None \<Rightarrow> map_of base k)"
proof -
  have r: "map_of (rev xs) = map_of xs" if "distinct (map fst xs)" for xs :: build_args
    using that by (intro map_of_inject_set [THEN iffD2]) (auto simp: rev_map [symmetric])
  show ?thesis
    using assms by (auto simp: merge_build_args_def map_of_copy_args r split: option.splits)
qed

lemma arg_keys_map: "map_of m = map_of m' \<Longrightarrow> arg_keys m = arg_keys m'"
proof -
  assume "map_of m = map_of m'"
  then have "set (map fst m) = set (map fst m')" by (metis dom_map_of_conv_image_fst set_map)
  then show ?thesis
    unfolding arg_keys_def by (intro sorted_distinct_set_unique) auto
qed

text \<open>What the files of a registry declare: the configuration of each path, in the order of the walk.\<close>

definition declared ::
  "(string \<Rightarrow> string result) \<Rightarrow> (string \<Rightarrow> plugin_yaml result) \<Rightarrow> string \<Rightarrow> plugin_yaml \<Rightarrow> bool" where
  "declared read_file parse p cfg = (case read_file p of Inl e \<Rightarrow> False | Inr body \<Rightarrow> parse body = Inr cfg)"

definition versions_at :: "(version_entry \<Rightarrow> bool) \<Rightarrow> string \<Rightarrow> string \<Rightarrow> string \<times> plugin_yaml \<Rightarrow> build_job list" where
  "versions_at keep output_dir pattern = (\<lambda>(p, cfg).
     map (job_of cfg (path_base (path_dir (path_dir p))) (path_base (path_dir p)) (path_dir p) output_dir)
       (filter (\<lambda>v. wanted (path_base (path_dir (path_dir p))) (path_base (path_dir p)) pattern v \<and> keep v) (pc_versions cfg)))"

lemma job_key_of [simp]: "job_key (job_of cfg grp name d out v) = grp @ ''/'' @ name @ '':'' @ ve_version v"
  by (simp add: job_key_def job_of_def)

lemma jobs_from_config_file_ok:
  assumes "jobs_from_config_file read_file parse p output_dir pattern = Inr (jobs, skips)"
  shows "\<exists>cfg. declared read_file parse p cfg
    \<and> jobs = versions_at (\<lambda>v. \<not> ve_skip v) output_dir pattern (p, cfg)
    \<and> skips = map job_key (versions_at ve_skip output_dir pattern (p, cfg))"
  using assms
  by (auto simp: jobs_from_config_file_def declared_def versions_at_def jobs_from_config_def expand_versions_eq comp_def Let_def
      split: sum.splits)

lemma collect_jobs_ok:
  "collect_jobs (\<lambda>p. jobs_from_config_file read_file parse p output_dir pattern) ps = Inr (jobs, skips) \<Longrightarrow>
   \<exists>cfgs. list_all2 (declared read_file parse) ps cfgs
     \<and> jobs = concat (map (versions_at (\<lambda>v. \<not> ve_skip v) output_dir pattern) (zip ps cfgs))
     \<and> skips = map job_key (concat (map (versions_at ve_skip output_dir pattern) (zip ps cfgs)))"
proof (induction ps arbitrary: jobs skips)
  case (Cons p ps)
  then obtain js ss jobs' skips' where 1: "jobs_from_config_file read_file parse p output_dir pattern = Inr (js, ss)"
    and 2: "collect_jobs (\<lambda>p. jobs_from_config_file read_file parse p output_dir pattern) ps = Inr (jobs', skips')"
    and 3: "jobs = js @ jobs'" "skips = ss @ skips'"
    by (auto split: sum.splits prod.splits)
  obtain cfg where c: "declared read_file parse p cfg" "js = versions_at (\<lambda>v. \<not> ve_skip v) output_dir pattern (p, cfg)"
    "ss = map job_key (versions_at ve_skip output_dir pattern (p, cfg))"
    using jobs_from_config_file_ok [OF 1] by blast
  obtain cfgs where "list_all2 (declared read_file parse) ps cfgs"
    "jobs' = concat (map (versions_at (\<lambda>v. \<not> ve_skip v) output_dir pattern) (zip ps cfgs))"
    "skips' = map job_key (concat (map (versions_at ve_skip output_dir pattern) (zip ps cfgs)))"
    using Cons.IH [OF 2] by blast
  then show ?case using c 3 by (intro exI [of _ "cfg # cfgs"]) simp
qed simp

text \<open>
  The jobs of a registry are exactly what its files declare: one for every version that has a name,
  passes the filter and is not declared as skipped, with the settings of the version over those of its
  file, in the order of their keys; the skipped versions are reported under theirs, in order.
\<close>

theorem build_jobs_exact:
  assumes "scan_build_jobs read_file parse (RootDir kids) registry_dir output_dir pattern = Inr (jobs, skips)"
  shows "sorted (map job_key jobs) \<and> sorted skips
    \<and> (\<exists>cfgs. list_all2 (declared read_file parse) (config_paths registry_dir kids) cfgs
        \<and> mset jobs = mset (concat (map (versions_at (\<lambda>v. \<not> ve_skip v) output_dir pattern) (zip (config_paths registry_dir kids) cfgs)))
        \<and> mset skips = mset (map job_key (concat (map (versions_at ve_skip output_dir pattern) (zip (config_paths registry_dir kids) cfgs)))))"
proof -
  obtain js ss where c: "collect_jobs (\<lambda>p. jobs_from_config_file read_file parse p output_dir pattern) (config_paths registry_dir kids) = Inr (js, ss)"
    and r: "jobs = sort_key job_key js" "skips = sort ss"
    using assms by (auto simp: scan_build_jobs_def split: sum.splits prod.splits)
  show ?thesis using collect_jobs_ok [OF c] by (auto simp: r)
qed

definition sample_config :: plugin_yaml where
  "sample_config =
     \<lparr>pc_build_args = [(''GO'', ''1.24''), (''ARCH'', ''amd64'')], pc_dockerfile = [], pc_args = [''--pull''],
      pc_versions = [empty_entry\<lparr>ve_version := ''v1'', ve_build_args := [(''GO'', ''1.25'')]\<rparr>,
                     empty_entry\<lparr>ve_version := ''v0'', ve_skip := True\<rparr>]\<rparr>"

definition sample_job :: build_job where
  "sample_job = job_of sample_config ''grpc'' ''go'' ''r/grpc/go'' ''out'' (empty_entry\<lparr>ve_version := ''v1'', ve_build_args := [(''GO'', ''1.25'')]\<rparr>)"

lemma sample_scan:
  "scan_build_jobs (\<lambda>_. Inr []) (\<lambda>_. Inr sample_config)
     (RootDir [(''grpc'', TDir 0x1ED [(''go'', TDir 0x1ED [(''plugin.yaml'', TFile (Inr []) 0x1A4)])])]) ''r'' ''out'' []
   = Inr ([sample_job], [''grpc/go:v0''])"
  by code_simp

theorem build_jobs_exact_witness:
  "\<exists>cfgs. mset [sample_job] = mset (concat (map (versions_at (\<lambda>v. \<not> ve_skip v) ''out'' []) (zip [''r/grpc/go/plugin.yaml''] cfgs)))"
proof -
  have p: "config_paths ''r'' [(''grpc'', TDir 0x1ED [(''go'', TDir 0x1ED [(''plugin.yaml'', TFile (Inr []) 0x1A4)])])] = [''r/grpc/go/plugin.yaml'']"
    by code_simp
  show ?thesis using build_jobs_exact [OF sample_scan] unfolding p by blast
qed

subsection \<open>The command line\<close>

text \<open>
  The command line of a build is determined by what the file of the plugin says, whatever the order
  of its maps: the version, then every build argument of the file or the version once, in order of
  name, the version's value before the file's, then the extra arguments of the file and of the version.
\<close>

theorem docker_command_of_config:
  assumes "distinct (map fst (pc_build_args cfg))" "distinct (map fst (ve_build_args v))"
  shows "docker_args (job_of cfg grp name plugin_dir output_dir v) =
    [''build'', ''--progress=plain'', ''--build-arg'', ''VERSION='' @ ve_version v]
    @ concat (map (\<lambda>k. [''--build-arg'', k @ ''='' @
          (case map_of (ve_build_args v) k of Some x \<Rightarrow> x | None \<Rightarrow> the (map_of (pc_build_args cfg) k))])
        (sorted_list_of_set (fst ` set (pc_build_args cfg) \<union> fst ` set (ve_build_args v))))
    @ pc_args cfg @ ve_args v
    @ [''--output'', ''type=local,dest='' @ path_join [output_dir, grp, name, ve_version v],
       ''-f'', dockerfile_path (job_of cfg grp name plugin_dir output_dir v), plugin_dir]"
proof -
  let ?m = "merge_build_args (pc_build_args cfg) (ve_build_args v)"
  have m: "map_of ?m k = (case map_of (ve_build_args v) k of Some x \<Rightarrow> Some x | None \<Rightarrow> map_of (pc_build_args cfg) k)" for k
    by (rule merge_build_args_of [OF assms])
  have "set (map fst ?m) = dom (map_of ?m)" by (simp add: dom_map_of_conv_image_fst)
  also have "\<dots> = dom (map_of (pc_build_args cfg)) \<union> dom (map_of (ve_build_args v))"
    by (auto simp: dom_def m split: option.splits)
  finally have "arg_keys ?m = sorted_list_of_set (fst ` set (pc_build_args cfg) \<union> fst ` set (ve_build_args v))"
    unfolding arg_keys_def by (simp add: sorted_list_of_set_sort_remdups [symmetric] dom_map_of_conv_image_fst)
  moreover have "the (map_of ?m k) = (case map_of (ve_build_args v) k of Some x \<Rightarrow> x | None \<Rightarrow> the (map_of (pc_build_args cfg) k))" for k
    by (simp add: m split: option.splits)
  moreover have "merge_args (pc_args cfg) (ve_args v) = pc_args cfg @ ve_args v" by (simp add: merge_args_def)
  ultimately show ?thesis by (simp add: docker_args_def job_of_def)
qed

theorem docker_command_of_config_witness:
  "docker_args sample_job =
     [''build'', ''--progress=plain'', ''--build-arg'', ''VERSION=v1'', ''--build-arg'', ''ARCH=amd64'',
      ''--build-arg'', ''GO=1.25'', ''--pull'', ''--output'', ''type=local,dest=out/grpc/go/v1'',
      ''-f'', ''r/grpc/go/Dockerfile'', ''r/grpc/go'']"
proof -
  have k: "sorted_list_of_set (insert ''GO'' {''ARCH''}) = [''ARCH'', ''GO'']" by code_simp
  have "clean ''out/grpc/go/v1'' = ''out/grpc/go/v1''" "clean ''r/grpc/go/Dockerfile'' = ''r/grpc/go/Dockerfile''" by code_simp+
  then show ?thesis
    using docker_command_of_config [of sample_config "empty_entry\<lparr>ve_version := ''v1'', ve_build_args := [(''GO'', ''1.25'')]\<rparr>"
        "''grpc''" "''go''" "''r/grpc/go''" "''out''"] k
    by (simp add: sample_job_def sample_config_def empty_entry_def dockerfile_path_def job_of_def path_join_def join_slash_def
        override_string_def insert_commute)
qed

subsection \<open>One build\<close>


definition empty_dir :: out_dir where "empty_dir = \<lparr>od_plugin = None, od_executable = False, od_log = None\<rparr>"


text \<open>An artifact of an earlier build stands in for the one a forced rebuild did not produce.\<close>

lemma stale_artifact_accepted:
  fixes od defines "od \<equiv> empty_dir\<lparr>od_plugin := Some (RegularFile 10)\<rparr>"
  shows "is_ok (fst (build_one (\<lambda>args od. ([], None, od)) None keep_going j od))
    \<and> cached (snd (snd (build_one (\<lambda>args od. (''boom'', Some e, od)) None keep_going j od)))"
  by (simp add: od_def empty_dir_def build_one_def normalize_output_def write_build_log_def cached_def)

text \<open>A version that is listed twice is built twice, at the same time and in the same directory.\<close>

lemma duplicate_version_built_twice:
  "jobs_from_config \<lparr>pc_build_args = [], pc_dockerfile = [], pc_args = [],
      pc_versions = [empty_entry\<lparr>ve_version := ''v1''\<rparr>, empty_entry\<lparr>ve_version := ''v1''\<rparr>]\<rparr> ''grpc'' ''go'' d out []
   = (let j = job_of \<lparr>pc_build_args = [], pc_dockerfile = [], pc_args = [],
      pc_versions = [empty_entry\<lparr>ve_version := ''v1''\<rparr>, empty_entry\<lparr>ve_version := ''v1''\<rparr>]\<rparr> ''grpc'' ''go'' d out
        (empty_entry\<lparr>ve_version := ''v1''\<rparr>) in ([j, j], []))"
  by (simp add: jobs_from_config_def expand_versions_eq wanted_def match_filter_def empty_entry_def Let_def)

subsection \<open>Sizes\<close>

lemma size_unit_inv:
  assumes "n \<ge> 1" "d = 1024 ^ Suc e" "n = s div d" "size_unit n d e = (d', e')" "s \<ge> 0"
  shows "d' = 1024 ^ Suc e' \<and> d' \<le> s \<and> s < 1024 * d'"
  using assms
proof (induction n d e rule: size_unit.induct)
  case (1 n d e)
  have dp: "d > 0" using "1.prems"(2) by simp
  show ?case
  proof (cases "n \<ge> 1024")
    case True
    have "n div 1024 = s div (d * 1024)" using "1.prems"(3,5) by (simp add: zdiv_zmult2_eq)
    moreover have "n div 1024 \<ge> 1" using True by simp
    moreover have "size_unit (n div 1024) (d * 1024) (Suc e) = (d', e')"
      using "1.prems"(4) True by (subst (asm) size_unit.simps) simp
    ultimately show ?thesis using "1.IH" [OF True] "1.prems"(2,5) by simp
  next
    case False
    then have r: "d' = d" "e' = e" using "1.prems"(4) by (subst (asm) size_unit.simps; simp)+
    have sd: "s = d * n + s mod d" using "1.prems"(3) by simp
    have "d * 1 \<le> d * n" "d * n \<le> d * 1023" using "1.prems"(1) False dp by (intro mult_left_mono; simp)+
    then have "d \<le> s" "s < 1024 * d" using sd pos_mod_bound [OF dp, of s] pos_mod_sign [OF dp, of s] by linarith+
    then have "d \<le> s \<and> s < 1024 * d" by simp
    then show ?thesis using r "1.prems"(2) by simp
  qed
qed

text \<open>
  Every size of a file is written with one of the six units: the index into them stays in range, the
  divisor is the power of 1024 that belongs to the unit and does not leave 63 bits, and the quotient is at
  least one and below 1024.
\<close>

theorem format_size_in_range:
  assumes "0 \<le> len" "len < 2 ^ 63"
  shows "format_size one_digit len \<noteq> None
    \<and> (len \<ge> 1024 \<longrightarrow> (\<exists>d e. size_unit (len div 1024) 1024 0 = (d, e) \<and> e < 6 \<and> d = 1024 ^ Suc e \<and> d < 2 ^ 63
          \<and> d \<le> len \<and> len < 1024 * d))"
proof (cases "len \<ge> 1024")
  case True
  obtain d e where u: "size_unit (len div 1024) 1024 0 = (d, e)" by (cases "size_unit (len div 1024) 1024 0")
  have i: "d = 1024 ^ Suc e \<and> d \<le> len \<and> len < 1024 * d"
  proof -
    have "len div 1024 \<ge> 1" using True by simp
    then show ?thesis using size_unit_inv [of "len div 1024" 1024 0 len d e] assms(1) u by simp
  qed
  have "e < 6"
  proof (rule ccontr)
    assume "\<not> e < 6"
    then have "(1024::int) ^ 7 \<le> 1024 ^ Suc e" by (intro power_increasing) auto
    then show False using i assms(2) by simp
  qed
  moreover have "d < 2 ^ 63" using i assms(2) by linarith
  moreover have "format_size one_digit len \<noteq> None" using True u \<open>e < 6\<close> by (simp add: format_size_def)
  ultimately show ?thesis using i u by blast
qed (simp add: format_size_def)

theorem format_size_in_range_witness: "format_size (\<lambda>a b. int_text (a div b)) (3 * 1024 ^ 6) = Some ''3EB''"
proof -
  have "int_text 3 = ''3''" by code_simp
  then show ?thesis
    using format_size_in_range [of "3 * 1024 ^ 6" "\<lambda>a b. int_text (a div b)"]
    by (simp add: format_size_def size_unit.simps)
qed

end
