(* ===== verification/Flags.thy ===== *)
theory Flags
  imports Commands Build
begin

text \<open>
  The command line (\<^verbatim>\<open>cmd/easyp-svc/main.go\<close>): the flags every command declares, with their defaults and
  other spellings, and the options its action makes of them. Parsing the arguments is the library's; it
  ends in the values that were given, by name. The lemmas show that an action reads only flags its
  command declares with the type it reads, and that the commands agree with each other and with the
  defaults of the service when they are given nothing.
\<close>

subsection \<open>Declared flags\<close>

datatype flag_value = StringFlag string | BoolFlag bool | IntFlag int

record flag =
  fl_name :: string
  fl_aliases :: "string list"
  fl_default :: flag_value
  fl_required :: bool

definition string_flag :: "string \<Rightarrow> string \<Rightarrow> flag" where
  "string_flag name v = \<lparr>fl_name = name, fl_aliases = [], fl_default = StringFlag v, fl_required = False\<rparr>"
definition bool_flag :: "string \<Rightarrow> bool \<Rightarrow> flag" where
  "bool_flag name v = \<lparr>fl_name = name, fl_aliases = [], fl_default = BoolFlag v, fl_required = False\<rparr>"
definition int_flag :: "string \<Rightarrow> int \<Rightarrow> flag" where
  "int_flag name v = \<lparr>fl_name = name, fl_aliases = [''p''], fl_default = IntFlag v, fl_required = False\<rparr>"

definition default_build_parallel :: int where "default_build_parallel = 4"
definition default_push_parallel :: int where "default_push_parallel = 8"
definition default_register_parallel :: int where "default_register_parallel = 8"
definition default_plugins_scan_path :: string where "default_plugins_scan_path = ''plugins''"

definition config_validate_flags :: "flag list" where
  "config_validate_flags = [string_flag ''cfg'' []]"

definition config_print_flags :: "flag list" where
  "config_print_flags = [string_flag ''cfg'' [], bool_flag ''origin'' False, bool_flag ''changed'' False, bool_flag ''show-secrets'' False]"

definition descriptor_flags :: "flag list" where
  "descriptor_flags = [(string_flag ''output'' ''-'')\<lparr>fl_aliases := [''o'']\<rparr>]"

definition new_token_flags :: "flag list" where
  "new_token_flags = [string_flag ''name'' ''unnamed'']"

definition start_flags :: "flag list" where
  "start_flags = [string_flag ''cfg'' [], (string_flag ''log-level'' [])\<lparr>fl_aliases := [''log_level'']\<rparr>]"

definition pack_flags :: "flag list" where
  "pack_flags =
     [(string_flag ''out'' [])\<lparr>fl_required := True\<rparr>, string_flag ''filter'' [], bool_flag ''force'' False, bool_flag ''dry-run'' False,
      bool_flag ''non-interactive'' False]"

definition s3_flags :: "flag list" where
  "s3_flags =
     [string_flag ''cfg'' [], string_flag ''bucket'' [], string_flag ''endpoint'' [], string_flag ''region'' [],
      string_flag ''prefix'' [], bool_flag ''force-path-style'' False]"

definition push_flags :: "flag list" where
  "push_flags = s3_flags @
     [string_flag ''filter'' [], bool_flag ''packed'' False, int_flag ''parallel'' default_push_parallel,
      bool_flag ''force'' False, bool_flag ''dry-run'' False, bool_flag ''non-interactive'' False]"

definition connection_flags :: "flag list" where
  "connection_flags =
     [string_flag ''tls-ca'' [], string_flag ''tls-cert'' [], string_flag ''tls-key'' [], bool_flag ''insecure'' False,
      string_flag ''token'' []]"

definition register_flags :: "flag list" where
  "register_flags =
     [string_flag ''addr'' ''localhost:23410'', string_flag ''cfg'' [], string_flag ''filter'' [], bool_flag ''packed'' False,
      int_flag ''parallel'' default_register_parallel, bool_flag ''non-interactive'' False, bool_flag ''dry-run'' False,
      bool_flag ''fail-on-error'' True, string_flag ''plugins-prefix'' default_plugins_prefix] @ connection_flags"

definition build_flags :: "flag list" where
  "build_flags =
     [(string_flag ''output'' ''plugins'')\<lparr>fl_aliases := [''o'']\<rparr>, string_flag ''filter'' [],
      int_flag ''parallel'' default_build_parallel, bool_flag ''force'' False, bool_flag ''dry-run'' False,
      bool_flag ''non-interactive'' False, bool_flag ''keep-going'' True]"

subsection \<open>Reading them\<close>

text \<open>
  A parsed command: the flags it declares, and the values given, under the name of their flag. The value
  of a flag that is not declared, or not with that type, is the zero value of the type.
\<close>

record invocation =
  in_flags :: "flag list"
  in_given :: "string \<rightharpoonup> flag_value"
  in_args :: "string list"

definition flag_of :: "invocation \<Rightarrow> string \<Rightarrow> flag_value option" where
  "flag_of c name =
     (case find (\<lambda>f. fl_name f = name) (in_flags c) of
        None \<Rightarrow> None
      | Some f \<Rightarrow> Some (case in_given c name of Some v \<Rightarrow> v | None \<Rightarrow> fl_default f))"

definition cmd_string :: "invocation \<Rightarrow> string \<Rightarrow> string" where
  "cmd_string c name = (case flag_of c name of Some (StringFlag s) \<Rightarrow> s | _ \<Rightarrow> [])"
definition cmd_bool :: "invocation \<Rightarrow> string \<Rightarrow> bool" where
  "cmd_bool c name = (case flag_of c name of Some (BoolFlag b) \<Rightarrow> b | _ \<Rightarrow> False)"
definition cmd_int :: "invocation \<Rightarrow> string \<Rightarrow> int" where
  "cmd_int c name = (case flag_of c name of Some (IntFlag i) \<Rightarrow> i | _ \<Rightarrow> 0)"
definition cmd_is_set :: "invocation \<Rightarrow> string \<Rightarrow> bool" where
  "cmd_is_set c name = (in_given c name \<noteq> None)"

text \<open>The required flags that are missing; the library refuses such a command.\<close>

definition missing_flags :: "invocation \<Rightarrow> string list" where
  "missing_flags c = map fl_name (filter (\<lambda>f. fl_required f \<and> in_given c (fl_name f) = None) (in_flags c))"

definition scan_path_of :: "invocation \<Rightarrow> string" where
  "scan_path_of c = (case in_args c of [] \<Rightarrow> default_plugins_scan_path | a # rest \<Rightarrow> a)"

subsection \<open>Actions\<close>

record pack_options =
  pa_scan_path :: string
  pa_out_dir :: string
  pa_filter :: string
  pa_force :: bool
  pa_dry_run :: bool
  pa_non_interactive :: bool

definition pack_action :: "invocation \<Rightarrow> pack_options" where
  "pack_action c =
     \<lparr>pa_scan_path = scan_path_of c, pa_out_dir = cmd_string c ''out'', pa_filter = cmd_string c ''filter'',
      pa_force = cmd_bool c ''force'', pa_dry_run = cmd_bool c ''dry-run'', pa_non_interactive = cmd_bool c ''non-interactive''\<rparr>"

record push_options =
  pu_scan_path :: string
  pu_filter :: string
  pu_s3 :: s3_config
  pu_packed :: bool
  pu_parallel :: int
  pu_force :: bool
  pu_dry_run :: bool
  pu_non_interactive :: bool

definition push_action :: "'p loader \<Rightarrow> string list \<Rightarrow> invocation \<Rightarrow> command_error + push_options" where
  "push_action ld environ c =
     (case resolve_s3_options ld environ (cmd_string c ''cfg'')
         \<lparr>s3_endpoint = cmd_string c ''endpoint'', s3_bucket = cmd_string c ''bucket'', s3_region = cmd_string c ''region'',
          s3_prefix = cmd_string c ''prefix'', s3_access_key_id = [], s3_secret_access_key = [],
          s3_force_path_style = cmd_bool c ''force-path-style''\<rparr>
         (cmd_is_set c ''force-path-style'') of
        Inl e \<Rightarrow> Inl e
      | Inr s3 \<Rightarrow>
          Inr \<lparr>pu_scan_path = scan_path_of c, pu_filter = cmd_string c ''filter'', pu_s3 = s3,
               pu_packed = cmd_bool c ''packed'', pu_parallel = cmd_int c ''parallel'', pu_force = cmd_bool c ''force'',
               pu_dry_run = cmd_bool c ''dry-run'', pu_non_interactive = cmd_bool c ''non-interactive''\<rparr>)"

record register_options =
  re_scan_path :: string
  re_addr :: string
  re_filter :: string
  re_plugins_prefix :: string
  re_token :: string
  re_tls :: client_tls_options
  re_packed :: bool
  re_parallel :: int
  re_non_interactive :: bool
  re_dry_run :: bool
  re_fail_on_error :: bool

definition register_action ::
  "(string \<Rightarrow> string result) \<Rightarrow> (string \<Rightarrow> string result) \<Rightarrow> string \<Rightarrow> invocation \<Rightarrow> register_options result" where
  "register_action read_file plugins_dir_of env_token c =
     (case resolve_plugins_prefix read_file plugins_dir_of (cmd_string c ''cfg'') (cmd_string c ''plugins-prefix'')
         (cmd_is_set c ''plugins-prefix'') of
        Inl e \<Rightarrow> Inl e
      | Inr plugins_prefix \<Rightarrow>
          Inr \<lparr>re_scan_path = scan_path_of c, re_addr = cmd_string c ''addr'', re_filter = cmd_string c ''filter'',
               re_plugins_prefix = plugins_prefix, re_token = resolve_write_token (cmd_string c ''token'') env_token,
               re_tls = \<lparr>ct_ca_file = cmd_string c ''tls-ca'', ct_cert_file = cmd_string c ''tls-cert'',
                         ct_key_file = cmd_string c ''tls-key'', ct_insecure = cmd_bool c ''insecure''\<rparr>,
               re_packed = cmd_bool c ''packed'', re_parallel = cmd_int c ''parallel'',
               re_non_interactive = cmd_bool c ''non-interactive'', re_dry_run = cmd_bool c ''dry-run'',
               re_fail_on_error = cmd_bool c ''fail-on-error''\<rparr>)"

record build_options =
  bo_registry_path :: string
  bo_output_dir :: string
  bo_filter :: string
  bo_parallel :: int
  bo_force :: bool
  bo_dry_run :: bool
  bo_non_interactive :: bool
  bo_keep_going :: bool

definition build_action :: "invocation \<Rightarrow> build_options result" where
  "build_action c =
     (case in_args c of
        [] \<Rightarrow> Inl (plain_error ''missing registry path argument; usage: easyp-svc plugins build <registry-path>'')
      | path # rest \<Rightarrow>
          Inr \<lparr>bo_registry_path = path, bo_output_dir = cmd_string c ''output'', bo_filter = cmd_string c ''filter'',
               bo_parallel = cmd_int c ''parallel'', bo_force = cmd_bool c ''force'', bo_dry_run = cmd_bool c ''dry-run'',
               bo_non_interactive = cmd_bool c ''non-interactive'', bo_keep_going = cmd_bool c ''keep-going''\<rparr>)"

definition config_print_action :: "invocation \<Rightarrow> print_opts" where
  "config_print_action c =
     \<lparr>po_aliases = [], po_cfg_path = cmd_string c ''cfg'', po_origin = cmd_bool c ''origin'',
      po_changed = cmd_bool c ''changed'', po_show_secrets = cmd_bool c ''show-secrets''\<rparr>"

definition start_action :: "invocation \<Rightarrow> string \<times> string" where
  "start_action c = (cmd_string c ''cfg'', cmd_string c ''log-level'')"

definition new_token_action :: "invocation \<Rightarrow> string" where "new_token_action c = cmd_string c ''name''"
definition descriptor_action :: "invocation \<Rightarrow> string" where "descriptor_action c = cmd_string c ''output''"
definition config_validate_action :: "invocation \<Rightarrow> string" where "config_validate_action c = cmd_string c ''cfg''"

subsection \<open>The commands agree\<close>

definition spellings :: "flag list \<Rightarrow> string list" where
  "spellings fs = concat (map (\<lambda>f. fl_name f # fl_aliases f) fs)"

lemma spellings_distinct:
  "list_all (\<lambda>fs. distinct (spellings fs))
     [config_validate_flags, config_print_flags, descriptor_flags, new_token_flags, start_flags, pack_flags, push_flags,
      register_flags, build_flags]"
  by code_simp

text \<open>A flag that is given decides, whatever the others are.\<close>

lemma flag_given: "\<exists>f \<in> set (in_flags c). fl_name f = name \<Longrightarrow> in_given c name = Some v \<Longrightarrow> flag_of c name = Some v"
  by (auto simp: flag_of_def find_None_iff split: option.split)

definition bare :: "flag list \<Rightarrow> string list \<Rightarrow> invocation" where
  "bare fs args = \<lparr>in_flags = fs, in_given = Map.empty, in_args = args\<rparr>"

lemmas flag_reads = cmd_string_def cmd_bool_def cmd_int_def cmd_is_set_def flag_of_def bare_def scan_path_of_def
  string_flag_def bool_flag_def int_flag_def

text \<open>
  Without flags the commands work on the same things: a build writes the tree that pack, push and
  register look for, register addresses the port on which the service listens by default, sends the
  directory in which the service keeps its plugins by default, and encrypts; and every command works on
  at least one plugin at a time.
\<close>

theorem bare_commands_agree:
  "\<exists>bo pu re.
     build_action (bare build_flags [registry_path]) = Inr bo
   \<and> push_action ld environ (bare push_flags []) = Inr pu
   \<and> register_action read_file plugins_dir_of env_token (bare register_flags []) = Inr re
   \<and> bo_output_dir bo = pa_scan_path (pack_action (bare pack_flags []))
   \<and> bo_output_dir bo = pu_scan_path pu \<and> bo_output_dir bo = re_scan_path re
   \<and> re_addr re = ''localhost:'' @ port_grpc (csv_port (cf_server default_settings))
   \<and> re_plugins_prefix re = crg_plugins_dir (cf_registry default_settings)
   \<and> s3_region (pu_s3 pu) = s3_region (crg_s3 (cf_registry default_settings))
   \<and> re_tls re = plain_tls \<and> re_token re = trim_space env_token
   \<and> bo_parallel bo > 0 \<and> parallel_limit (pu_parallel pu) = pu_parallel pu \<and> parallel_limit (re_parallel re) = re_parallel re
   \<and> re_fail_on_error re \<and> bo_keep_going bo \<and> \<not> bo_force bo \<and> \<not> pu_force pu"
proof -
  have "build_action (bare build_flags [registry_path]) =
      Inr \<lparr>bo_registry_path = registry_path, bo_output_dir = ''plugins'', bo_filter = [], bo_parallel = 4, bo_force = False,
           bo_dry_run = False, bo_non_interactive = False, bo_keep_going = True\<rparr>"
    by (simp add: build_action_def build_flags_def flag_reads default_build_parallel_def)
  moreover have "push_action ld environ (bare push_flags []) =
      Inr \<lparr>pu_scan_path = ''plugins'', pu_filter = [],
           pu_s3 = \<lparr>s3_endpoint = [], s3_bucket = [], s3_region = ''us-east-1'', s3_prefix = [], s3_access_key_id = [],
             s3_secret_access_key = [], s3_force_path_style = False\<rparr>,
           pu_packed = False, pu_parallel = 8, pu_force = False, pu_dry_run = False, pu_non_interactive = False\<rparr>"
    by (simp add: push_action_def push_flags_def s3_flags_def flag_reads default_push_parallel_def default_plugins_scan_path_def
        resolve_s3_options_def default_s3_region_def Let_def)
  moreover have "register_action read_file plugins_dir_of env_token (bare register_flags []) =
      Inr \<lparr>re_scan_path = ''plugins'', re_addr = ''localhost:23410'', re_filter = [], re_plugins_prefix = ''/plugins'',
           re_token = trim_space env_token, re_tls = plain_tls, re_packed = False, re_parallel = 8, re_non_interactive = False,
           re_dry_run = False, re_fail_on_error = True\<rparr>"
    by (simp add: register_action_def register_flags_def connection_flags_def flag_reads default_register_parallel_def
        default_plugins_scan_path_def default_plugins_prefix_def resolve_plugins_prefix_def resolve_write_token_def plain_tls_def)
  moreover have "pa_scan_path (pack_action (bare pack_flags [])) = ''plugins''"
    by (simp add: pack_action_def pack_flags_def flag_reads default_plugins_scan_path_def)
  ultimately show ?thesis by (simp add: default_settings_def parallel_limit_def)
qed

end
