(* ===== verification/Panel.thy ===== *)
theory Panel
  imports Build
begin

text \<open>
  What a command shows while it works (\<open>buildTracker\<close> of \<^verbatim>\<open>cmd/easyp-svc/build.go\<close>, \<open>batchTracker\<close> of
  \<^verbatim>\<open>progress.go\<close>): the live panel of a build over the lines of a terminal, the reports without a terminal,
  and the progress line of push and register. Percentages are computed in floating point and the text of
  a duration is the library's; both are parameters. The lemmas show that the panel erases exactly
  itself: whatever happens, the terminal shows the line of every finished build and at most seventeen
  lines below them.
\<close>

subsection \<open>Glyphs\<close>

definition spinners :: "string list" where
  "spinners = map (\<lambda>c. [CHR 0xE2, CHR 0xA0, c])
     [CHR 0x8B, CHR 0x99, CHR 0xB9, CHR 0xB8, CHR 0xBC, CHR 0xB4, CHR 0xA6, CHR 0xA7, CHR 0x87, CHR 0x8F]"

definition check_mark :: string where "check_mark = [CHR 0xE2, CHR 0x9C, CHR 0x85]"
definition cross_mark :: string where "cross_mark = [CHR 0xE2, CHR 0x9D, CHR 0x8C]"
definition hourglass :: string where "hourglass = [CHR 0xE2, CHR 0x8F, CHR 0xB3]"
definition skip_mark :: string where "skip_mark = [CHR 0xE2, CHR 0x8F, CHR 0xAD]"
definition ellipsis :: string where "ellipsis = [CHR 0xE2, CHR 0x80, CHR 0xA6]"

text \<open>\<open>percent\<close> of two counts, \<open>filled\<close> cells of a bar for a percentage, and the text of a duration.\<close>

record figures =
  fi_percent :: "nat \<Rightarrow> nat \<Rightarrow> nat"
  fi_filled :: "nat \<Rightarrow> nat"
  fi_duration :: "int \<Rightarrow> string"

definition progress_bar_width :: nat where "progress_bar_width = 20"

definition render_progress_bar :: "figures \<Rightarrow> nat \<Rightarrow> string" where
  "render_progress_bar fi percent =
     (let n = min (fi_filled fi percent) progress_bar_width in
      ''['' @ concat (replicate n [CHR 0xE2, CHR 0x96, CHR 0x88])
        @ concat (replicate (progress_bar_width - n) [CHR 0xE2, CHR 0x96, CHR 0x91]) @ '']'')"

definition pad_left :: "nat \<Rightarrow> string \<Rightarrow> string" where
  "pad_left n s = replicate (n - length s) CHR '' '' @ s"

text \<open>Names are padded by characters; the names of plugins are taken to be ASCII here.\<close>

definition pad_name :: "string \<Rightarrow> string" where
  "pad_name s = s @ replicate (50 - length s) CHR '' ''"

subsection \<open>The tracker of a build\<close>

text \<open>Times are in nanoseconds.\<close>

record tracker =
  tr_active :: "(string \<times> int) list"
  tr_total :: nat
  tr_completed :: nat
  tr_succeeded :: nat
  tr_failed :: nat
  tr_start_time :: int
  tr_last_report :: int
  tr_interactive :: bool
  tr_spin_idx :: nat
  tr_panel_lines :: nat

definition new_build_tracker :: "int \<Rightarrow> nat \<Rightarrow> bool \<Rightarrow> tracker" where
  "new_build_tracker now n_total interactive =
     \<lparr>tr_active = [], tr_total = n_total, tr_completed = 0, tr_succeeded = 0, tr_failed = 0, tr_start_time = now,
      tr_last_report = now, tr_interactive = interactive, tr_spin_idx = 0, tr_panel_lines = 0\<rparr>"

text \<open>\<open>Duration.Round(time.Second)\<close>, halves away from zero; a start does not lie in the future.\<close>

definition round_second :: "int \<Rightarrow> int" where
  "round_second d = (d + 500000000) div 1000000000 * 1000000000"

definition entries_of :: "int \<Rightarrow> tracker \<Rightarrow> (string \<times> int) list" where
  "entries_of now t = sort_key (\<lambda>(name, d). - d) (map (\<lambda>(name, started). (name, round_second (now - started))) (tr_active t))"

definition max_panel_rows :: nat where "max_panel_rows = 15"

definition render_panel :: "figures \<Rightarrow> int \<Rightarrow> tracker \<Rightarrow> string list \<times> tracker" where
  "render_panel fi now t =
     (if tr_completed t \<ge> tr_total t then ([], t)
      else
        let spinner = spinners ! (tr_spin_idx t mod length spinners);
            pct = fi_percent fi (tr_completed t) (tr_total t);
            header = spinner @ '' '' @ render_progress_bar fi pct @ '' '' @ nat_digits (tr_completed t) @ ''/'' @ nat_digits (tr_total t)
              @ '' ('' @ nat_digits pct @ ''%) | '' @ check_mark @ '' '' @ nat_digits (tr_succeeded t) @ ''  '' @ cross_mark @ '' ''
              @ nat_digits (tr_failed t) @ ''  | active: '' @ nat_digits (length (tr_active t));
            entries = entries_of now t;
            rows = map (\<lambda>(name, d). ''   '' @ spinner @ '' '' @ pad_name name @ '' ('' @ fi_duration fi d @ '')'') (take max_panel_rows entries);
            extra = (if length entries > max_panel_rows
                     then [''   '' @ ellipsis @ '' +'' @ nat_digits (length entries - max_panel_rows) @ '' more''] else [])
        in (header # rows @ extra, t\<lparr>tr_spin_idx := Suc (tr_spin_idx t)\<rparr>))"

text \<open>
  The terminal as its complete lines, with the cursor below the last: moving up and erasing to the end
  takes lines away.
\<close>

type_synonym terminal = "string list"

definition clear_panel :: "tracker \<times> terminal \<Rightarrow> tracker \<times> terminal" where
  "clear_panel = (\<lambda>(t, screen). (t\<lparr>tr_panel_lines := 0\<rparr>, take (length screen - tr_panel_lines t) screen))"

definition redraw :: "figures \<Rightarrow> int \<Rightarrow> string \<Rightarrow> tracker \<times> terminal \<Rightarrow> tracker \<times> terminal" where
  "redraw fi now finished_line st =
     (case clear_panel st of
        (t, screen) \<Rightarrow>
          (case render_panel fi now t of
             (panel, t1) \<Rightarrow>
               (t1\<lparr>tr_panel_lines := length panel\<rparr>,
                screen @ (if finished_line \<noteq> [] then [finished_line] else []) @ panel)))"

definition tracker_start :: "figures \<Rightarrow> int \<Rightarrow> string \<Rightarrow> tracker \<times> terminal \<Rightarrow> tracker \<times> terminal" where
  "tracker_start fi now key = (\<lambda>(t, screen).
     let t1 = t\<lparr>tr_active := AList.update key now (tr_active t)\<rparr> in
     if tr_interactive t1 then redraw fi now [] (t1, screen)
     else (t1, screen @ [''Building '' @ key @ ''...'']))"

definition finished_text :: "figures \<Rightarrow> nat \<Rightarrow> nat \<Rightarrow> string \<Rightarrow> bool \<Rightarrow> string \<Rightarrow> int \<Rightarrow> string" where
  "finished_text fi n_completed n_total key success details d =
     ''['' @ pad_left 4 (nat_digits n_completed) @ ''/'' @ pad_left 4 (nat_digits n_total) @ ''] ''
     @ (if success then check_mark else cross_mark) @ '' '' @ key @ '' ('' @ details @ '', '' @ fi_duration fi d @ '')''"

definition tracker_finish ::
  "figures \<Rightarrow> int \<Rightarrow> string \<Rightarrow> bool \<Rightarrow> string \<Rightarrow> int \<Rightarrow> tracker \<times> terminal \<Rightarrow> tracker \<times> terminal" where
  "tracker_finish fi now key success details d = (\<lambda>(t, screen).
     let t1 = t\<lparr>tr_active := AList.delete key (tr_active t), tr_completed := Suc (tr_completed t),
                tr_succeeded := tr_succeeded t + (if success then 1 else 0),
                tr_failed := tr_failed t + (if success then 0 else 1), tr_last_report := now\<rparr>;
         line = finished_text fi (tr_completed t1) (tr_total t1) key success details d
     in if tr_interactive t1 then redraw fi now line (t1, screen) else (t1, screen @ [line]))"

definition stalled_report_every :: int where "stalled_report_every = 30 * 1000000000"

definition print_stalled :: "figures \<Rightarrow> int \<Rightarrow> tracker \<times> terminal \<Rightarrow> tracker \<times> terminal" where
  "print_stalled fi now = (\<lambda>(t, screen).
     if tr_active t = [] \<or> now - tr_last_report t < stalled_report_every then (t, screen)
     else
       (t\<lparr>tr_last_report := now\<rparr>,
        screen @ [''  '' @ hourglass @ '' ['' @ fi_duration fi (round_second (now - tr_start_time t)) @ ''] ''
            @ nat_digits (tr_completed t) @ ''/'' @ nat_digits (tr_total t) @ '' done | active: '' @ nat_digits (length (tr_active t))]
          @ map (\<lambda>(name, d). ''    '' @ pad_name name @ '' ('' @ fi_duration fi d @ '')'') (entries_of now t)))"

definition tracker_tick :: "figures \<Rightarrow> int \<Rightarrow> tracker \<times> terminal \<Rightarrow> tracker \<times> terminal" where
  "tracker_tick fi now = (\<lambda>(t, screen).
     if tr_interactive t then redraw fi now [] (t, screen) else print_stalled fi now (t, screen))"

subsection \<open>The progress line of a batch\<close>

record batch_labels =
  bl_in_progress :: string
  bl_skip_reason :: string
  bl_succeeded :: string

text \<open>What \<open>finish\<close> prints without a terminal; an error goes to the standard error.\<close>

definition finish_message :: "batch_labels \<Rightarrow> string \<Rightarrow> item_result \<Rightarrow> string" where
  "finish_message labels name r =
     (case r of
        Failed e \<Rightarrow> ''Error '' @ bl_in_progress labels @ '' '' @ name @ '': '' @ msg e
      | Skipped \<Rightarrow> ''Skipped ('' @ bl_skip_reason labels @ ''): '' @ name
      | Succeeded \<Rightarrow> ''Successfully '' @ bl_succeeded labels @ '' '' @ name)"

definition progress_line :: "figures \<Rightarrow> nat \<Rightarrow> nat \<Rightarrow> batch \<Rightarrow> string" where
  "progress_line fi spin_idx n_total b =
     (let n = length (ba_done b); pct = fi_percent fi n n_total in
      spinners ! (spin_idx mod length spinners) @ '' '' @ render_progress_bar fi pct @ '' '' @ nat_digits pct @ ''% ('' @ nat_digits n
        @ ''/'' @ nat_digits n_total @ '') | '' @ check_mark @ '' '' @ nat_digits (succeeded b) @ ''  '' @ skip_mark @ '' ''
        @ nat_digits (skipped b) @ ''  '' @ cross_mark @ '' '' @ nat_digits (failed b))"

subsection \<open>The panel erases itself\<close>

datatype tracker_event =
    Start int string
  | Finish int string bool string int
  | Tick int

fun apply_event :: "figures \<Rightarrow> tracker_event \<Rightarrow> tracker \<times> terminal \<Rightarrow> tracker \<times> terminal" where
  "apply_event fi (Start now key) st = tracker_start fi now key st"
| "apply_event fi (Finish now key success details d) st = tracker_finish fi now key success details d st"
| "apply_event fi (Tick now) st = tracker_tick fi now st"

definition run_events :: "figures \<Rightarrow> tracker_event list \<Rightarrow> tracker \<times> terminal \<Rightarrow> tracker \<times> terminal" where
  "run_events fi evs st = fold (apply_event fi) evs st"

text \<open>The log the panel stands below: one line for every build that ended.\<close>

fun finished_log :: "figures \<Rightarrow> nat \<Rightarrow> nat \<Rightarrow> tracker_event list \<Rightarrow> string list" where
  "finished_log fi n_total n [] = []"
| "finished_log fi n_total n (Finish now key success details d # evs) =
     finished_text fi (Suc n) n_total key success details d # finished_log fi n_total (Suc n) evs"
| "finished_log fi n_total n (e # evs) = finished_log fi n_total n evs"

definition panel_shown :: "string list \<Rightarrow> tracker \<times> terminal \<Rightarrow> bool" where
  "panel_shown log st \<longleftrightarrow>
     (case st of (t, screen) \<Rightarrow>
        tr_interactive t \<and> tr_panel_lines t \<le> max_panel_rows + 2
        \<and> (\<exists>panel. screen = log @ panel \<and> length panel = tr_panel_lines t)
        \<and> tr_succeeded t + tr_failed t = tr_completed t)"

lemma render_panel_small: "render_panel fi now t = (panel, t1) \<Longrightarrow> length panel \<le> max_panel_rows + 2
    \<and> tr_interactive t1 = tr_interactive t \<and> tr_completed t1 = tr_completed t \<and> tr_total t1 = tr_total t
    \<and> tr_succeeded t1 = tr_succeeded t \<and> tr_failed t1 = tr_failed t"
  by (auto simp: render_panel_def Let_def split: if_splits)

lemma redraw_shows:
  assumes "panel_shown log (t, screen)" "redraw fi now line (t, screen) = (t1, screen1)"
  shows "panel_shown (log @ (if line \<noteq> [] then [line] else [])) (t1, screen1)
    \<and> tr_completed t1 = tr_completed t \<and> tr_total t1 = tr_total t"
proof -
  obtain panel where p: "screen = log @ panel" "length panel = tr_panel_lines t" using assms(1) by (auto simp: panel_shown_def)
  obtain new_panel t2 where r: "render_panel fi now (t\<lparr>tr_panel_lines := 0\<rparr>) = (new_panel, t2)"
    by (cases "render_panel fi now (t\<lparr>tr_panel_lines := 0\<rparr>)")
  show ?thesis
    using assms p r render_panel_small [OF r] by (auto simp: redraw_def clear_panel_def panel_shown_def)
qed

lemma event_shows:
  assumes "panel_shown log st" "apply_event fi e st = st1" "log1 = log @ finished_log fi (tr_total (fst st)) (tr_completed (fst st)) [e]"
  shows "panel_shown log1 st1 \<and> tr_completed (fst st1) = tr_completed (fst st) + length (finished_log fi (tr_total (fst st)) (tr_completed (fst st)) [e])
    \<and> tr_total (fst st1) = tr_total (fst st)"
proof -
  obtain t screen where st: "st = (t, screen)" by (cases st)
  obtain t1 screen1 where st1: "st1 = (t1, screen1)" by (cases st1)
  have i: "tr_interactive t" using assms(1) st by (simp add: panel_shown_def)
  show ?thesis
  proof (cases e)
    case (Start now key)
    let ?t = "t\<lparr>tr_active := AList.update key now (tr_active t)\<rparr>"
    have "panel_shown log (?t, screen)" using assms(1) st by (simp add: panel_shown_def)
    then show ?thesis
      using redraw_shows [of log ?t screen fi now "[]" t1 screen1] assms(2,3) i
      by (simp add: st st1 Start tracker_start_def)
  next
    case (Finish now key success details d)
    let ?t = "t\<lparr>tr_active := AList.delete key (tr_active t), tr_completed := Suc (tr_completed t),
        tr_succeeded := tr_succeeded t + (if success then 1 else 0),
        tr_failed := tr_failed t + (if success then 0 else 1), tr_last_report := now\<rparr>"
    let ?line = "finished_text fi (Suc (tr_completed t)) (tr_total t) key success details d"
    have "panel_shown log (?t, screen)" using assms(1) st by (simp add: panel_shown_def)
    moreover have "?line \<noteq> []" by (simp add: finished_text_def)
    ultimately show ?thesis
      using redraw_shows [of log ?t screen fi now ?line t1 screen1] assms(2,3) i
      by (simp add: st st1 Finish tracker_finish_def Let_def)
  next
    case (Tick now)
    then show ?thesis
      using redraw_shows [of log t screen fi now "[]" t1 screen1] assms i by (simp add: st st1 tracker_tick_def)
  qed
qed

lemma finished_log_Cons:
  "finished_log fi n_total n (e # evs) = finished_log fi n_total n [e] @ finished_log fi n_total (n + length (finished_log fi n_total n [e])) evs"
  by (cases e) simp_all

lemma events_show:
  "panel_shown log st \<Longrightarrow>
   panel_shown (log @ finished_log fi (tr_total (fst st)) (tr_completed (fst st)) evs) (run_events fi evs st)
   \<and> tr_completed (fst (run_events fi evs st)) = tr_completed (fst st) + length (finished_log fi (tr_total (fst st)) (tr_completed (fst st)) evs)"
proof (induction evs arbitrary: log st)
  case (Cons e evs)
  let ?st1 = "apply_event fi e st" and ?l = "finished_log fi (tr_total (fst st)) (tr_completed (fst st)) [e]"
  have 1: "panel_shown (log @ ?l) ?st1" "tr_completed (fst ?st1) = tr_completed (fst st) + length ?l" "tr_total (fst ?st1) = tr_total (fst st)"
    using event_shows [OF Cons.prems refl refl] by auto
  have r: "run_events fi (e # evs) st = run_events fi evs ?st1" by (simp add: run_events_def)
  show ?case
    unfolding r finished_log_Cons [of fi _ _ e evs] using Cons.IH [OF 1(1)] by (simp add: 1(2,3))
qed (simp add: run_events_def)


end
