(* ===== verification/Chain.thy ===== *)
theory Chain
  imports Server
begin

text \<open>
  The chain of interceptors as it is assembled (\<open>buildUnaryInterceptors\<close>, \<open>buildStreamInterceptors\<close>,
  \<^verbatim>\<open>internal/grpchelper/server.go\<close>, and \<open>buildExtraInterceptors\<close>, \<^verbatim>\<open>cmd/easyp-svc/start.go\<close>): a list of
  interceptors folded around a handler, which may panic. Theory \<open>Server\<close> gives one call as a function; the
  lemmas show that the folded list is that function, and that a panicking handler costs its own call and
  nothing else: it is answered, counted once, and its slot is given back.

  The libraries behind the chain are parameters: which lines the logging middleware writes, what the
  metrics middleware counts, what the validator refuses, and the caller's address that \<^verbatim>\<open>realip\<close> reads from the
  headers (\<open>in_real_ip\<close>). Each is documented to pass the call through otherwise. gRPC wraps the interceptors so
  that the first of the list is the outermost; the recovery middleware turns a panic below it into the error
  its handler function returns.
\<close>

subsection \<open>State and context\<close>

datatype 'a outcome = Done 'a | Panicking string

text \<open>The logger of a context: none was put there, or the server's with the ids of a span.\<close>

datatype logger = DefaultLogger | ServerLogger "(string \<times> string) option"

datatype rpc_error = Domain go_error | Status status

record call_context =
  cx_ctx :: req_context
  cx_real_ip :: "string option"
  cx_logger :: logger

record log_line =
  ln_logger :: logger
  ln_level :: int
  ln_text :: string

record ('b, 'r, 'm) frontend =
  fr_server :: "('b, 'r) server"
  fr_panics :: nat
  fr_log :: "log_line list"
  fr_metrics :: 'm

type_synonym ('b, 'r, 'm, 'a) handler =
  "call_context \<Rightarrow> ('b, 'r, 'm) frontend \<Rightarrow> (rpc_error + 'a) outcome \<times> ('b, 'r, 'm) frontend"

record ('m, 'rpc) middleware =
  mw_started :: "string \<Rightarrow> 'm \<Rightarrow> 'm"
  mw_handled :: "string \<Rightarrow> rpc_error option \<Rightarrow> 'm \<Rightarrow> 'm"
  mw_start_line :: "string \<Rightarrow> int \<times> string"                        \<comment> \<open>level and text\<close>
  mw_finish_line :: "string \<Rightarrow> rpc_error option \<Rightarrow> int \<times> string"
  mw_invalid :: "'rpc \<Rightarrow> status option"

definition call_error :: "rpc_error + 'a \<Rightarrow> rpc_error option" where
  "call_error r = (case r of Inl e \<Rightarrow> Some e | Inr v \<Rightarrow> None)"

subsection \<open>Logging\<close>

definition level_debug :: int where "level_debug = -4"
definition level_info :: int where "level_info = 0"
definition level_warn :: int where "level_warn = 4"
definition level_error :: int where "level_error = 8"

definition known_level :: "int \<Rightarrow> bool" where
  "known_level l \<longleftrightarrow> l = level_debug \<or> l = level_info \<or> l = level_warn \<or> l = level_error"

definition write_line :: "call_context \<Rightarrow> int \<Rightarrow> string \<Rightarrow> ('b, 'r, 'm) frontend \<Rightarrow> ('b, 'r, 'm) frontend" where
  "write_line cx level text s =
     s\<lparr>fr_log := fr_log s @ [\<lparr>ln_logger = cx_logger cx, ln_level = level, ln_text = text\<rparr>]\<rparr>"

text \<open>\<open>interceptorLogger\<close>: the logger of the context; a level it does not know is a panic.\<close>

definition interceptor_logger ::
  "call_context \<Rightarrow> int \<times> string \<Rightarrow> ('b, 'r, 'm) frontend \<Rightarrow> unit outcome \<times> ('b, 'r, 'm) frontend" where
  "interceptor_logger cx line s =
     (if known_level (fst line) then (Done (), write_line cx (fst line) (snd line) s)
      else (Panicking ''unknown level'', s))"

text \<open>\<open>enrichLoggerWithTrace\<close>, which starts from the server's logger whatever the context holds.\<close>

definition enrich_logger :: "(string \<times> string) option \<Rightarrow> call_context \<Rightarrow> call_context" where
  "enrich_logger sp cx = cx\<lparr>cx_logger := ServerLogger sp\<rparr>"

definition err_internal :: status where
  "err_internal = \<lparr>st_code = InternalCode, st_message = ''internal error'', st_reason = None\<rparr>"

text \<open>\<open>recoveryFunc\<close>: counts, logs, and answers with the internal error.\<close>

definition recovery_func ::
  "call_context \<Rightarrow> string \<Rightarrow> ('b, 'r, 'm) frontend \<Rightarrow> rpc_error \<times> ('b, 'r, 'm) frontend" where
  "recovery_func cx reason s =
     (Status err_internal, write_line cx level_error (''panic '' @ reason) (s\<lparr>fr_panics := Suc (fr_panics s)\<rparr>))"

subsection \<open>The interceptors\<close>

datatype interceptor =
    TraceLogging | RealIP | CallerIP | ServerMetrics | CallLogging | Recovery | Validator
  | RateLimiting | ConcurrencyLimiting | Authentication | LicenseCheck | ConvertCodes

definition build_extra_interceptors :: "interceptor list" where
  "build_extra_interceptors = [RateLimiting, ConcurrencyLimiting, Authentication, LicenseCheck]"

definition build_unary_interceptors :: "interceptor list \<Rightarrow> interceptor list" where
  "build_unary_interceptors extra =
     [TraceLogging, RealIP, CallerIP, ServerMetrics, CallLogging, Recovery, Validator] @ extra @ [ConvertCodes]"

definition build_stream_interceptors :: "interceptor list \<Rightarrow> interceptor list" where
  "build_stream_interceptors extra =
     [TraceLogging, RealIP, CallerIP, ServerMetrics, CallLogging, Recovery, Validator] @ extra @ [ConvertCodes]"

text \<open>What a call brings along: the environment, the middleware, the span of its trace.\<close>

record ('b, 'cfg, 'm, 'req) assembly =
  se_env :: "('b, 'cfg) server_env"
  se_middleware :: "('m, ('req, 'cfg) rpc) middleware"

record 'rpc arrival =
  ar_incoming :: incoming
  ar_span :: "(string \<times> string) option"
  ar_rpc :: 'rpc

definition convert_error :: "rpc_error \<Rightarrow> rpc_error" where
  "convert_error e = (case e of Domain g \<Rightarrow> Status (error_to_status (Some g))
     | Status st \<Rightarrow> Status (error_to_status (Some (plain_error (st_message st)))))"

fun limited_by_rate ::
  "'b bucket_ops \<Rightarrow> (string \<Rightarrow> status) \<Rightarrow> int \<Rightarrow> string \<Rightarrow> string \<Rightarrow> ('b, 'r, 'm, 'a) handler \<Rightarrow> ('b, 'r, 'm, 'a) handler" where
  "limited_by_rate bo refusal now key m h cx s =
     (let (out, rate) = rate_limit bo (sv_rate (fr_server s)) now key;
          s1 = s\<lparr>fr_server := (fr_server s)\<lparr>sv_rate := rate\<rparr>\<rparr>
      in case out of LimitDenied hs \<Rightarrow> (Done (Inl (Status (refusal m))), s1) | _ \<Rightarrow> h cx s1)"

text \<open>The release is deferred: it runs after the handler has returned and after it has panicked.\<close>

fun limited_by_slots :: "string \<Rightarrow> ('b, 'r, 'm, 'a) handler \<Rightarrow> ('b, 'r, 'm, 'a) handler" where
  "limited_by_slots key h cx s =
     (case conc_acquire (sv_conc (fr_server s)) key of
        None \<Rightarrow>
          (Done (Inl (Status (conc_refusal (sv_conc (fr_server s))))),
           s\<lparr>fr_server := (fr_server s)\<lparr>sv_conc := conc_reject (sv_conc (fr_server s))\<rparr>\<rparr>)
      | Some (slot, c1) \<Rightarrow>
          (let (o1, s1) = h cx (s\<lparr>fr_server := (fr_server s)\<lparr>sv_conc := c1\<rparr>\<rparr>)
           in (o1, case slot of None \<Rightarrow> s1
                 | Some k \<Rightarrow> s1\<lparr>fr_server := (fr_server s1)\<lparr>sv_conc := conc_release (sv_conc (fr_server s1)) k\<rparr>\<rparr>)))"

fun apply_interceptor ::
  "('b, 'cfg, 'm, 'req) assembly \<Rightarrow> ('req, 'cfg) rpc arrival \<Rightarrow> interceptor \<Rightarrow> ('b, 'r, 'm, 'a) handler
   \<Rightarrow> ('b, 'r, 'm, 'a) handler" where
  "apply_interceptor se ar TraceLogging h cx s = h (enrich_logger (ar_span ar) cx) s"
| "apply_interceptor se ar RealIP h cx s = h (cx\<lparr>cx_real_ip := in_real_ip (ar_incoming ar)\<rparr>) s"
| "apply_interceptor se ar CallerIP h cx s =
     h (cx\<lparr>cx_ctx := with_caller_ip (cx_ctx cx) (extract_caller_ip (cx_real_ip cx) (in_peer (ar_incoming ar)))\<rparr>) s"
| "apply_interceptor se ar ServerMetrics h cx s =
     (let m = method_of (ar_rpc ar); mw = se_middleware se;
          (o1, s1) = h cx (s\<lparr>fr_metrics := mw_started mw m (fr_metrics s)\<rparr>)
      in case o1 of Panicking p \<Rightarrow> (o1, s1)
         | Done r \<Rightarrow> (o1, s1\<lparr>fr_metrics := mw_handled mw m (call_error r) (fr_metrics s1)\<rparr>))"
| "apply_interceptor se ar CallLogging h cx s =
     (let m = method_of (ar_rpc ar); mw = se_middleware se in
      case interceptor_logger cx (mw_start_line mw m) s of
        (Panicking p, s1) \<Rightarrow> (Panicking p, s1)
      | (Done u, s1) \<Rightarrow>
          (case h cx s1 of
             (Panicking p, s2) \<Rightarrow> (Panicking p, s2)
           | (Done r, s2) \<Rightarrow>
               (case interceptor_logger cx (mw_finish_line mw m (call_error r)) s2 of
                  (Panicking p, s3) \<Rightarrow> (Panicking p, s3)
                | (Done u', s3) \<Rightarrow> (Done r, s3))))"
| "apply_interceptor se ar Recovery h cx s =
     (case h cx s of
        (Panicking p, s1) \<Rightarrow> (let (e, s2) = recovery_func cx p s1 in (Done (Inl e), s2))
      | (Done r, s1) \<Rightarrow> (Done r, s1))"
| "apply_interceptor se ar Validator h cx s =
     (case mw_invalid (se_middleware se) (ar_rpc ar) of
        Some st \<Rightarrow> (Done (Inl (Status st)), s)
      | None \<Rightarrow> h cx s)"
| "apply_interceptor se ar RateLimiting h cx s =
     limited_by_rate (se_bucket (se_env se)) (se_rate_refusal (se_env se)) (in_now (ar_incoming ar))
       (peer_ip_extractor (in_peer (ar_incoming ar)) (cx_ctx cx)) (method_of (ar_rpc ar)) h cx s"
| "apply_interceptor se ar ConcurrencyLimiting h cx s =
     limited_by_slots (peer_ip_extractor (in_peer (ar_incoming ar)) (cx_ctx cx)) h cx s"
| "apply_interceptor se ar Authentication h cx s =
     (case authorize (se_sha256 (se_env se)) (sv_auth (fr_server s)) (cx_ctx cx) (in_metadata (ar_incoming ar))
             (method_of (ar_rpc ar)) of
        (Inl st, ai) \<Rightarrow> (Done (Inl (Status st)), s\<lparr>fr_server := (fr_server s)\<lparr>sv_auth := ai\<rparr>\<rparr>)
      | (Inr ctx, ai) \<Rightarrow> h (cx\<lparr>cx_ctx := ctx\<rparr>) (s\<lparr>fr_server := (fr_server s)\<lparr>sv_auth := ai\<rparr>\<rparr>))"
| "apply_interceptor se ar LicenseCheck h cx s =
     (case license_check (gate_enabled (sv_core (fr_server s))) (sv_features (fr_server s)) (method_of (ar_rpc ar)) of
        Some st \<Rightarrow> (Done (Inl (Status st)), s)
      | None \<Rightarrow> h cx s)"
| "apply_interceptor se ar ConvertCodes h cx s =
     (case h cx s of
        (Done (Inl e), s1) \<Rightarrow> (Done (Inl (convert_error e)), s1)
      | (o1, s1) \<Rightarrow> (o1, s1))"

definition chain ::
  "('b, 'cfg, 'm, 'req) assembly \<Rightarrow> ('req, 'cfg) rpc arrival \<Rightarrow> interceptor list \<Rightarrow> ('b, 'r, 'm, 'a) handler
   \<Rightarrow> ('b, 'r, 'm, 'a) handler" where
  "chain se ar is h = foldr (apply_interceptor se ar) is h"

text \<open>A handler over the core, with the context it is called with; \<open>work\<close> may panic.\<close>

definition core_handler ::
  "('r core_state \<Rightarrow> call \<Rightarrow> 'a result outcome \<times> 'r core_state) \<Rightarrow> call \<Rightarrow> ('b, 'r, 'm, 'a) handler" where
  "core_handler work call cx s =
     (case work (sv_core (fr_server s)) (call\<lparr>ca_ctx := cx_ctx cx\<rparr>) of
        (r, c) \<Rightarrow>
          (case r of Panicking p \<Rightarrow> Panicking p
           | Done (Inl e) \<Rightarrow> Done (Inl (Domain e))
           | Done (Inr a) \<Rightarrow> Done (Inr a),
           s\<lparr>fr_server := (fr_server s)\<lparr>sv_core := c\<rparr>\<rparr>))"

definition serve_call ::
  "('b, 'cfg, 'm, 'req) assembly \<Rightarrow> ('r core_state \<Rightarrow> call \<Rightarrow> 'a result outcome \<times> 'r core_state)
   \<Rightarrow> ('req, 'cfg) rpc arrival \<Rightarrow> ('b, 'r, 'm) frontend \<Rightarrow> (rpc_error + 'a) outcome \<times> ('b, 'r, 'm) frontend" where
  "serve_call se work ar =
     chain se ar (build_unary_interceptors build_extra_interceptors) (core_handler work (in_call (ar_incoming ar)))
       \<lparr>cx_ctx = ca_ctx (in_call (ar_incoming ar)), cx_real_ip = None, cx_logger = DefaultLogger\<rparr>"


subsection \<open>The list is the function\<close>

definition passes :: "('m, 'rpc) middleware \<Rightarrow> bool" where
  "passes mw \<longleftrightarrow> (\<forall>m. known_level (fst (mw_start_line mw m))) \<and> (\<forall>m e. known_level (fst (mw_finish_line mw m e)))
     \<and> (\<forall>rpc. mw_invalid mw rpc = None)"

definition api_work ::
  "('b, 'cfg) server_env \<Rightarrow> ('r, 'p, 'req, 'resp) reg_iface \<Rightarrow> ('req, 'cfg) rpc \<Rightarrow> 'r core_state \<Rightarrow> call
   \<Rightarrow> 'resp rpc_response result outcome \<times> 'r core_state" where
  "api_work env ri rpc c call = (case handle (se_marshal env) ri c call rpc of (r, c1) \<Rightarrow> (Done r, c1))"

lemma inner_chain:
  fixes s :: "('b, 'r, 'm) frontend"
  assumes "caller_ip_context inc = cx_ctx cx"
  shows "chain se \<lparr>ar_incoming = inc, ar_span = sp, ar_rpc = rpc\<rparr> (build_extra_interceptors @ [ConvertCodes])
      (core_handler (api_work (se_env se) ri rpc) (in_call inc)) cx s =
    (case serve_rpc (se_env se) ri (fr_server s) inc rpc of
       (res, sv) \<Rightarrow> (Done (map_sum Status id res), s\<lparr>fr_server := sv\<rparr>))"
  using assms
  by (auto simp: chain_def build_extra_interceptors_def core_handler_def api_work_def serve_rpc_def authenticated_def
      auth_intercept_def license_intercept_def convert_codes_def convert_error_def intercept_def conc_reject_def Let_def
      split: prod.split sum.split option.split limit_outcome.split)

text \<open>A call passes the outer interceptors, then the limits and checks, then the converter.\<close>

lemma serve_call_layers:
  "serve_call se work ar =
     chain se ar [TraceLogging, RealIP, CallerIP, ServerMetrics, CallLogging, Recovery, Validator]
       (chain se ar (build_extra_interceptors @ [ConvertCodes]) (core_handler work (in_call (ar_incoming ar))))
       \<lparr>cx_ctx = ca_ctx (in_call (ar_incoming ar)), cx_real_ip = None, cx_logger = DefaultLogger\<rparr>"
  by (simp add: serve_call_def build_unary_interceptors_def chain_def)

text \<open>What the outer seven interceptors do around whatever is inside.\<close>

lemma outer_chain:
  assumes "passes (se_middleware se)"
  shows "chain se ar [TraceLogging, RealIP, CallerIP, ServerMetrics, CallLogging, Recovery, Validator] h cx s =
    (let inc = ar_incoming ar; m = method_of (ar_rpc ar); mw = se_middleware se;
         cx1 = cx\<lparr>cx_logger := ServerLogger (ar_span ar), cx_real_ip := in_real_ip inc,
           cx_ctx := with_caller_ip (cx_ctx cx) (extract_caller_ip (in_real_ip inc) (in_peer inc))\<rparr>;
         s1 = write_line cx1 (fst (mw_start_line mw m)) (snd (mw_start_line mw m))
           (s\<lparr>fr_metrics := mw_started mw m (fr_metrics s)\<rparr>);
         (r, s2) = (case h cx1 s1 of
             (Panicking p, s2) \<Rightarrow> (Inl (Status err_internal),
                write_line cx1 level_error (''panic '' @ p) (s2\<lparr>fr_panics := Suc (fr_panics s2)\<rparr>))
           | (Done r, s2) \<Rightarrow> (r, s2));
         s3 = write_line cx1 (fst (mw_finish_line mw m (call_error r))) (snd (mw_finish_line mw m (call_error r))) s2
     in (Done r, s3\<lparr>fr_metrics := mw_handled mw m (call_error r) (fr_metrics s3)\<rparr>))"
  using assms
  by (simp add: chain_def passes_def interceptor_logger_def recovery_func_def enrich_logger_def Let_def
      split: prod.split outcome.split)

lemma write_line_simps [simp]:
  "fr_server (write_line cx l t s) = fr_server s" "fr_panics (write_line cx l t s) = fr_panics s"
  "fr_metrics (write_line cx l t s) = fr_metrics s"
  by (simp_all add: write_line_def)

text \<open>
  The list of interceptors, folded around the handlers of the service, is the call that theory \<open>Server\<close>
  describes: the same answer and the same server, whatever the middleware logs and counts.
\<close>

theorem chain_is_serve_rpc:
  assumes "passes (se_middleware se)"
  shows "\<exists>s'. serve_call se (api_work (se_env se) ri rpc) \<lparr>ar_incoming = inc, ar_span = sp, ar_rpc = rpc\<rparr> s =
      (Done (map_sum Status id (fst (serve_rpc (se_env se) ri (fr_server s) inc rpc))), s') \<and>
    fr_server s' = snd (serve_rpc (se_env se) ri (fr_server s) inc rpc) \<and> fr_panics s' = fr_panics s"
proof -
  let ?ar = "\<lparr>ar_incoming = inc, ar_span = sp, ar_rpc = rpc\<rparr>"
  let ?cx = "\<lparr>cx_ctx = ca_ctx (in_call inc), cx_real_ip = None, cx_logger = DefaultLogger\<rparr>"
  let ?cx1 = "\<lparr>cx_ctx = with_caller_ip (ca_ctx (in_call inc)) (extract_caller_ip (in_real_ip inc) (in_peer inc)),
    cx_real_ip = in_real_ip inc, cx_logger = ServerLogger sp\<rparr>"
  note inner = inner_chain [of inc ?cx1 se sp rpc ri]
  have i: "caller_ip_context inc = cx_ctx ?cx1" by (simp add: caller_ip_context_def)
  show ?thesis
    by (simp add: serve_call_layers outer_chain [OF assms] Let_def inner [OF i] split: prod.split)
qed

subsection \<open>Panics\<close>

definition keeps_conc :: "('b, 'r, 'm, 'a) handler \<Rightarrow> bool" where
  "keeps_conc h \<longleftrightarrow> (\<forall>cx s. sv_conc (fr_server (snd (h cx s))) = sv_conc (fr_server s))"

lemma slots_given_back:
  assumes "keeps_conc h" "conc_ok (sv_conc (fr_server s))"
  shows "conc_ok (sv_conc (fr_server (snd (limited_by_slots key h cx s)))) \<and>
    in_flight (sv_conc (fr_server (snd (limited_by_slots key h cx s)))) = in_flight (sv_conc (fr_server s))"
proof (cases "conc_acquire (sv_conc (fr_server s)) key")
  case None
  then show ?thesis using assms(2) by (simp add: conc_reject_def conc_ok_def in_flight_def fun_eq_iff)
next
  case (Some x)
  obtain slot c1 where x: "x = (slot, c1)" by (cases x)
  obtain o1 s1 where h: "h cx (s\<lparr>fr_server := (fr_server s)\<lparr>sv_conc := c1\<rparr>\<rparr>) = (o1, s1)" by fastforce
  have k: "sv_conc (fr_server s1) = c1"
    using assms(1) h unfolding keeps_conc_def
    by (metis (no_types, lifting) frontend.select_convs(1) frontend.surjective frontend.update_convs(1)
        server.select_convs(2) server.surjective server.update_convs(2) snd_conv)
  show ?thesis
  proof (cases slot)
    case None
    then have "c1 = sv_conc (fr_server s)" using Some x by (auto simp: conc_acquire_def split: if_splits)
    then show ?thesis using Some x None h k assms(2) by simp
  next
    case (Some j)
    then have t: "take_slot (sv_conc (fr_server s)) key = Some c1" "j = key"
      using \<open>conc_acquire (sv_conc (fr_server s)) key = Some x\<close> x by (auto simp: conc_acquire_def split: if_splits)
    have a: "conc_ok c1" "in_flight c1 = (in_flight (sv_conc (fr_server s)))(key := in_flight (sv_conc (fr_server s)) key + 1)"
      using conc.acq_law [OF assms(2) t(1)] by auto
    have "in_flight (sv_conc (fr_server s)) key \<ge> 0"
      using assms(2) by (auto simp: in_flight_def conc_ok_def split: option.splits dest!: map_of_SomeD)
    then have "conc_ok (conc_release c1 key) \<and> in_flight (conc_release c1 key) = in_flight (sv_conc (fr_server s))"
      using conc.rel_law [OF a(1), of key] a(2) by auto
    then show ?thesis
      using \<open>conc_acquire (sv_conc (fr_server s)) key = Some x\<close> x Some h k t(2) by simp
  qed
qed

lemma checked_keeps_conc:
  "keeps_conc (chain se ar [Authentication, LicenseCheck, ConvertCodes] (core_handler work call))"
  by (auto simp: keeps_conc_def chain_def core_handler_def split: prod.split sum.split option.split outcome.split)

text \<open>Inside the recovery, the slots balance, nothing is counted or logged, and errors are statuses.\<close>

lemma inner_any:
  fixes s :: "('b, 'r, 'm) frontend"
  assumes "conc_ok (sv_conc (fr_server s))"
    and "chain se ar (build_extra_interceptors @ [ConvertCodes]) (core_handler work call) cx s = (o1, s1)"
  shows "conc_ok (sv_conc (fr_server s1))" "in_flight (sv_conc (fr_server s1)) = in_flight (sv_conc (fr_server s))"
    and "fr_panics s1 = fr_panics s" "fr_log s1 = fr_log s" "o1 \<noteq> Done (Inl (Domain e))"
    and "o1 = Panicking p \<Longrightarrow> \<exists>c call. fst (work c call) = Panicking p"
    and "o1 = Done (Inr a) \<Longrightarrow> \<exists>c call. fst (work c call) = Done (Inr a)"
proof -
  let ?key = "peer_ip_extractor (in_peer (ar_incoming ar)) (cx_ctx cx)"
  let ?h = "chain se ar [Authentication, LicenseCheck, ConvertCodes] (core_handler work call)"
  obtain out rate where r: "rate_limit (se_bucket (se_env se)) (sv_rate (fr_server s)) (in_now (ar_incoming ar)) ?key
      = (out, rate)" by fastforce
  let ?s = "s\<lparr>fr_server := (fr_server s)\<lparr>sv_rate := rate\<rparr>\<rparr>"
  have eq: "(o1, s1) = (case out of
      LimitDenied hs \<Rightarrow> (Done (Inl (Status (se_rate_refusal (se_env se) (method_of (ar_rpc ar))))), ?s)
    | _ \<Rightarrow> limited_by_slots ?key ?h cx ?s)"
    using assms(2) r by (cases out) (simp_all add: chain_def build_extra_interceptors_def del: limited_by_slots.simps)
  note slots = slots_given_back [OF checked_keeps_conc, of ?s ?key se ar work call cx]
  have k: "conc_ok (sv_conc (fr_server s1)) \<and> in_flight (sv_conc (fr_server s1)) = in_flight (sv_conc (fr_server s))"
    using eq slots assms(1) by (cases out) (auto simp del: limited_by_slots.simps dest: arg_cong [of _ _ snd])
  show "conc_ok (sv_conc (fr_server s1))" "in_flight (sv_conc (fr_server s1)) = in_flight (sv_conc (fr_server s))"
    using k by simp_all
  have "fr_panics s1 = fr_panics s \<and> fr_log s1 = fr_log s \<and> o1 \<noteq> Done (Inl (Domain e)) \<and>
      (o1 = Panicking p \<longrightarrow> (\<exists>c call. fst (work c call) = Panicking p)) \<and>
      (o1 = Done (Inr a) \<longrightarrow> (\<exists>c call. fst (work c call) = Done (Inr a)))"
    using eq
    by (auto simp: chain_def core_handler_def convert_error_def Let_def
        split: limit_outcome.splits prod.splits sum.splits option.splits outcome.splits rpc_error.splits; metis fst_conv)
  then show "fr_panics s1 = fr_panics s" "fr_log s1 = fr_log s" "o1 \<noteq> Done (Inl (Domain e))"
    "o1 = Panicking p \<Longrightarrow> \<exists>c call. fst (work c call) = Panicking p"
    "o1 = Done (Inr a) \<Longrightarrow> \<exists>c call. fst (work c call) = Done (Inr a)" by simp_all
qed

lemma slots_of_layers:
  assumes "passes (se_middleware se)" "conc_ok (sv_conc (fr_server s))" "serve_call se work ar s = (o1, s')"
  obtains r s1 q where "o1 = Done r"
    "conc_ok (sv_conc (fr_server s'))" "in_flight (sv_conc (fr_server s')) = in_flight (sv_conc (fr_server s))"
    "chain se ar (build_extra_interceptors @ [ConvertCodes]) (core_handler work (in_call (ar_incoming ar)))
       \<lparr>cx_ctx = caller_ip_context (ar_incoming ar), cx_real_ip = in_real_ip (ar_incoming ar),
        cx_logger = ServerLogger (ar_span ar)\<rparr> s1 = q"
    "conc_ok (sv_conc (fr_server s1))" "fst q = Done r \<and> fr_panics s' = fr_panics s \<or>
       (\<exists>p. fst q = Panicking p) \<and> r = Inl (Status err_internal) \<and> fr_panics s' = Suc (fr_panics s)"
    "\<exists>lines. fr_log s' = fr_log s @ lines \<and> (\<forall>l \<in> set lines. ln_logger l = ServerLogger (ar_span ar)) \<and>
       length lines = (if fst q = Done r then 2 else 3)"
proof -
  let ?in = "chain se ar (build_extra_interceptors @ [ConvertCodes]) (core_handler work (in_call (ar_incoming ar)))"
  let ?cx = "\<lparr>cx_ctx = caller_ip_context (ar_incoming ar), cx_real_ip = in_real_ip (ar_incoming ar),
    cx_logger = ServerLogger (ar_span ar)\<rparr>"
  let ?mw = "se_middleware se" and ?m = "method_of (ar_rpc ar)"
  let ?s1 = "write_line ?cx (fst (mw_start_line ?mw ?m)) (snd (mw_start_line ?mw ?m))
    (s\<lparr>fr_metrics := mw_started ?mw ?m (fr_metrics s)\<rparr>)"
  obtain o2 s2 where q: "?in ?cx ?s1 = (o2, s2)" by fastforce
  have ok: "conc_ok (sv_conc (fr_server ?s1))" using assms(2) by simp
  note facts = inner_any(1-4) [OF ok q]
  have e: "serve_call se work ar s =
      (let (r, s3) = (case (o2, s2) of
             (Panicking p, s2) \<Rightarrow> (Inl (Status err_internal),
                write_line ?cx level_error (''panic '' @ p) (s2\<lparr>fr_panics := Suc (fr_panics s2)\<rparr>))
           | (Done r, s2) \<Rightarrow> (r, s2));
         s4 = write_line ?cx (fst (mw_finish_line ?mw ?m (call_error r))) (snd (mw_finish_line ?mw ?m (call_error r))) s3
     in (Done r, s4\<lparr>fr_metrics := mw_handled ?mw ?m (call_error r) (fr_metrics s4)\<rparr>))"
    by (simp add: serve_call_layers outer_chain [OF assms(1)] Let_def caller_ip_context_def q [unfolded caller_ip_context_def]
        split: outcome.split)
  show thesis
  proof (cases o2)
    case (Done r)
    show thesis
      by (rule that [of r ?s1 "(o2, s2)"]) (use q facts ok e assms(3) Done in \<open>auto simp: write_line_def\<close>)
  next
    case (Panicking p)
    show thesis
      by (rule that [of "Inl (Status err_internal)" ?s1 "(o2, s2)"])
        (use q facts ok e assms(3) Panicking in \<open>auto simp: write_line_def\<close>)
  qed
qed

text \<open>
  C31. A handler that panics costs its own call only. Whatever the handler does, the call is answered, every error it
  is answered with is a status, the client's slots are as before, and every line the call logs carries
  its trace. A panic is counted once, adds one line, and reads as the internal error; without a panic nothing is counted.
\<close>

theorem panic_contained:
  assumes "passes (se_middleware se)" "conc_ok (sv_conc (fr_server s))" "serve_call se work ar s = (o1, s')"
  shows "\<exists>r lines. o1 = Done r \<and> r \<noteq> Inl (Domain e) \<and>
    conc_ok (sv_conc (fr_server s')) \<and> in_flight (sv_conc (fr_server s')) = in_flight (sv_conc (fr_server s)) \<and>
    fr_log s' = fr_log s @ lines \<and> (\<forall>l \<in> set lines. ln_logger l = ServerLogger (ar_span ar)) \<and>
    (fr_panics s' = fr_panics s \<and> length lines = 2 \<or>
     fr_panics s' = Suc (fr_panics s) \<and> length lines = 3 \<and> r = Inl (Status err_internal) \<and>
     (\<exists>c call p. fst (work c call) = Panicking p)) \<and>
    (\<forall>a. r = Inr a \<longrightarrow> (\<exists>c call. fst (work c call) = Done (Inr a)))"
proof -
  from assms obtain r s1 q where l: "o1 = Done r"
    "conc_ok (sv_conc (fr_server s'))" "in_flight (sv_conc (fr_server s')) = in_flight (sv_conc (fr_server s))"
    and q: "chain se ar (build_extra_interceptors @ [ConvertCodes]) (core_handler work (in_call (ar_incoming ar)))
       \<lparr>cx_ctx = caller_ip_context (ar_incoming ar), cx_real_ip = in_real_ip (ar_incoming ar),
        cx_logger = ServerLogger (ar_span ar)\<rparr> s1 = q"
    and ok: "conc_ok (sv_conc (fr_server s1))" and c: "fst q = Done r \<and> fr_panics s' = fr_panics s \<or>
       (\<exists>p. fst q = Panicking p) \<and> r = Inl (Status err_internal) \<and> fr_panics s' = Suc (fr_panics s)"
    and lines: "\<exists>lines. fr_log s' = fr_log s @ lines \<and> (\<forall>l \<in> set lines. ln_logger l = ServerLogger (ar_span ar)) \<and>
       length lines = (if fst q = Done r then 2 else 3)"
    by (rule slots_of_layers)
  obtain o2 s2 where q2: "q = (o2, s2)" by (cases q)
  note facts = inner_any(5-7) [OF ok q [unfolded q2]]
  obtain ls where ls: "fr_log s' = fr_log s @ ls" "\<forall>l \<in> set ls. ln_logger l = ServerLogger (ar_span ar)"
    "length ls = (if fst q = Done r then 2 else 3)" using lines by blast
  show ?thesis
  proof (cases "fst q = Done r")
    case True
    then have "r \<noteq> Inl (Domain e)" "\<forall>a. r = Inr a \<longrightarrow> (\<exists>c call. fst (work c call) = Done (Inr a))"
      using facts(1,3) q2 by auto
    then show ?thesis using True l ls c by (intro exI [of _ r] exI [of _ ls]) auto
  next
    case False
    then obtain p where p: "o2 = Panicking p" "r = Inl (Status err_internal)" "fr_panics s' = Suc (fr_panics s)"
      using c q2 by auto
    then have "\<exists>c call p. fst (work c call) = Panicking p" using facts(2) by blast
    then show ?thesis using False l ls p by (intro exI [of _ r] exI [of _ ls]) auto
  qed
qed

subsection \<open>Concrete calls\<close>

definition sample_middleware :: "(nat \<times> nat, (unit, unit) rpc) middleware" where
  "sample_middleware =
     \<lparr>mw_started = (\<lambda>m (a, b). (Suc a, b)), mw_handled = (\<lambda>m e (a, b). (a, Suc b)),
      mw_start_line = (\<lambda>m. (level_info, ''started call'')),
      mw_finish_line = (\<lambda>m e. (case e of None \<Rightarrow> level_info | Some _ \<Rightarrow> level_error, ''finished call'')),
      mw_invalid = (\<lambda>_. None)\<rparr>"

definition sample_setting :: "(nat, unit, nat \<times> nat, unit) assembly" where
  "sample_setting = \<lparr>se_env = sample_env, se_middleware = sample_middleware\<rparr>"

definition sample_frontend :: "(nat, registry, nat \<times> nat) frontend" where
  "sample_frontend = \<lparr>fr_server = sample_server, fr_panics = 0, fr_log = [], fr_metrics = (0, 0)\<rparr>"

lemma sample_passes: "passes (se_middleware sample_setting)"
  by (simp add: passes_def sample_setting_def sample_middleware_def known_level_def split: option.split)

theorem chain_is_serve_rpc_witness:
  "\<exists>s'. serve_call sample_setting
        (api_work sample_env (service_iface sample_surroundings (\<lambda>s. s) sample_pool_config) (RpcDelete ''g'' ''n'' ''v1.0''))
        \<lparr>ar_incoming = anonymous, ar_span = None, ar_rpc = RpcDelete ''g'' ''n'' ''v1.0''\<rparr> sample_frontend =
      (Done (map_sum Status id (fst (serve_rpc sample_env (service_iface sample_surroundings (\<lambda>s. s) sample_pool_config)
         sample_server anonymous (RpcDelete ''g'' ''n'' ''v1.0'')))), s')"
  using chain_is_serve_rpc [OF sample_passes,
      of "service_iface sample_surroundings (\<lambda>s. s) sample_pool_config" "RpcDelete ''g'' ''n'' ''v1.0''" anonymous None sample_frontend]
  by (auto simp: sample_setting_def sample_frontend_def)

theorem panic_contained_witness:
  "\<exists>r. fst (serve_call sample_setting (\<lambda>c call. (Panicking ''index out of range'', c) :: nat result outcome \<times> _)
       \<lparr>ar_incoming = anonymous, ar_span = None, ar_rpc = RpcGenerate ''g/n:v1.0'' ()\<rparr> sample_frontend) = Done (Inl (Status r))"
proof -
  let ?work = "\<lambda>c call. (Panicking ''index out of range'', c) :: nat result outcome \<times> _"
  let ?ar = "\<lparr>ar_incoming = anonymous, ar_span = None, ar_rpc = RpcGenerate ''g/n:v1.0'' ()\<rparr>"
  obtain o1 s' where s: "serve_call sample_setting ?work ?ar sample_frontend = (o1, s')" by fastforce
  have ok: "conc_ok (sv_conc (fr_server sample_frontend))"
    by (simp add: sample_frontend_def sample_server_def conc_ok_def new_conc_limiter_def)
  obtain r where "o1 = Done r" "\<And>e. r \<noteq> Inl (Domain e)" "\<And>a. r \<noteq> Inr a"
    using panic_contained [OF sample_passes ok s] by (cases o1) auto
  then show ?thesis using s by (cases r) (auto, metis rpc_error.exhaust)
qed

end
