(* ===== verification/Observing.thy ===== *)
theory Observing
  imports Chain License Database
begin

text \<open>
  What the service measures: the adapter behind the core's counters, the collectors that read the database
  on every scrape (\<^verbatim>\<open>internal/adapters/metrics\<close>), the metrics around database calls
  (\<^verbatim>\<open>internal/database/metrics.go\<close>) and the gauges of the licence (\<^verbatim>\<open>internal/license/metrics.go\<close>). A
  counter of the Prometheus library is a map from label values to a number. The lemmas show that
  measuring changes nothing, that the counters are the number of events with their labels, and that the
  figures of a scrape agree with each other and with the table of plugins.

  Durations are only counted: a histogram is the number of its observations. Names and help texts of
  the metrics are left out, but for the labels. The collector's numbers are \<open>float64\<close> in the code and exact
  for the counts a database can hold.
\<close>

subsection \<open>Counters\<close>

type_synonym counters = "string list \<Rightarrow> nat option"

definition inc_series :: "string list \<Rightarrow> counters \<Rightarrow> counters" where
  "inc_series k v = v(k \<mapsto> (case v k of None \<Rightarrow> 1 | Some n \<Rightarrow> Suc n))"

definition series_value :: "counters \<Rightarrow> string list \<Rightarrow> nat" where
  "series_value v k = (case v k of None \<Rightarrow> 0 | Some n \<Rightarrow> n)"

lemma inc_value [simp]: "series_value (inc_series k v) j = (if j = k then Suc (series_value v k) else series_value v j)"
  by (simp add: series_value_def inc_series_def split: option.split)

lemma empty_value [simp]: "series_value Map.empty k = 0"
  by (simp add: series_value_def)

lemma inc_dom [simp]: "dom (inc_series k v) = insert k (dom v)"
  by (simp add: inc_series_def)

lemma inc_all_value: "series_value (fold inc_series ks v) k = series_value v k + count_list ks k"
  by (induction ks arbitrary: v) auto

lemma inc_all_dom: "dom (fold inc_series ks v) = set ks \<union> dom v"
  by (induction ks arbitrary: v) auto

subsection \<open>The adapter of the core\<close>

record metrics_adapter =
  ma_generated :: counters
  ma_duration :: counters
  ma_errors :: counters
  ma_retries :: counters
  ma_operations :: counters

definition new_metrics_adapter :: metrics_adapter where
  "new_metrics_adapter =
     \<lparr>ma_generated = Map.empty, ma_duration = Map.empty, ma_errors = Map.empty, ma_retries = Map.empty,
      ma_operations = Map.empty\<rparr>"

definition generate_code_metric :: "metrics_adapter \<Rightarrow> plugin_info \<Rightarrow> go_error option \<times> metrics_adapter" where
  "generate_code_metric m info =
     (let plugin = pi_group info @ ''/'' @ pi_name info @ '':'' @ pi_version info
      in (None, m\<lparr>ma_generated := inc_series [plugin] (ma_generated m)\<rparr>))"

definition observe_generation_duration :: "metrics_adapter \<Rightarrow> string \<Rightarrow> metrics_adapter" where
  "observe_generation_duration m plugin_name = m\<lparr>ma_duration := inc_series [plugin_name] (ma_duration m)\<rparr>"

definition inc_generation_errors :: "metrics_adapter \<Rightarrow> string \<Rightarrow> string \<Rightarrow> metrics_adapter" where
  "inc_generation_errors m plugin_name error_type = m\<lparr>ma_errors := inc_series [plugin_name, error_type] (ma_errors m)\<rparr>"

definition inc_operation :: "metrics_adapter \<Rightarrow> string \<Rightarrow> string \<Rightarrow> metrics_adapter" where
  "inc_operation m op status = m\<lparr>ma_operations := inc_series [op, status] (ma_operations m)\<rparr>"

definition inc_generation_retries :: "metrics_adapter \<Rightarrow> string \<Rightarrow> metrics_adapter" where
  "inc_generation_retries m plugin_name = m\<lparr>ma_retries := inc_series [plugin_name] (ma_retries m)\<rparr>"

fun operation_text :: "operation \<Rightarrow> string" where
  "operation_text GENERATE_CODE = ''GENERATE_CODE''"
| "operation_text LIST_PLUGINS = ''LIST_PLUGINS''"
| "operation_text CREATE_PLUGIN = ''CREATE_PLUGIN''"
| "operation_text UPDATE_PLUGIN = ''UPDATE_PLUGIN''"
| "operation_text DELETE_PLUGIN = ''DELETE_PLUGIN''"

fun status_text :: "audit_status \<Rightarrow> string" where
  "status_text AuditSuccess = ''success''"
| "status_text AuditError = ''error''"

definition operation_labels :: "operation \<times> audit_status \<Rightarrow> string list" where
  "operation_labels e = [operation_text (fst e), status_text (snd e)]"

text \<open>The counter of operations after the operations the core has counted.\<close>

definition operations_total :: "(operation \<times> audit_status) list \<Rightarrow> metrics_adapter" where
  "operations_total es = fold (\<lambda>e m. inc_operation m (operation_text (fst e)) (status_text (snd e))) es new_metrics_adapter"

lemma operations_fold:
  "ma_operations (fold (\<lambda>e m. inc_operation m (operation_text (fst e)) (status_text (snd e))) es m) =
     fold inc_series (map operation_labels es) (ma_operations m)"
  by (induction es arbitrary: m) (simp_all add: inc_operation_def operation_labels_def)

lemma operation_text_inj [simp]: "operation_text a = operation_text b \<longleftrightarrow> a = b"
  by (cases a; cases b) simp_all

lemma status_text_inj [simp]: "status_text a = status_text b \<longleftrightarrow> a = b"
  by (cases a; cases b) simp_all

lemma operation_labels_inj [simp]: "operation_labels a = operation_labels b \<longleftrightarrow> a = b"
  by (cases a; cases b) (simp add: operation_labels_def)

definition all_operations :: "operation list" where
  "all_operations = [GENERATE_CODE, LIST_PLUGINS, CREATE_PLUGIN, UPDATE_PLUGIN, DELETE_PLUGIN]"

text \<open>
  The counter of an operation and outcome is how often the core counted it, and the metric never
  has more than ten series, whatever the requests hold.
\<close>

theorem operations_counted:
  "series_value (ma_operations (operations_total es)) (operation_labels e) = count_list es e \<and>
   card (dom (ma_operations (operations_total es))) \<le> 10"
proof
  have m: "count_list (map operation_labels es) (operation_labels e) = count_list es e"
    by (induction es) auto
  have o: "ma_operations (operations_total es) = fold inc_series (map operation_labels es) Map.empty"
    by (simp add: operations_total_def operations_fold new_metrics_adapter_def)
  show "series_value (ma_operations (operations_total es)) (operation_labels e) = count_list es e"
    by (simp add: o inc_all_value m)
  let ?all = "map operation_labels (List.product all_operations [AuditSuccess, AuditError])"
  have "x \<in> set (List.product all_operations [AuditSuccess, AuditError])" for x
    by (cases x; cases "fst x"; cases "snd x") (auto simp: all_operations_def)
  then have "dom (ma_operations (operations_total es)) \<subseteq> set ?all"
    unfolding o inc_all_dom by auto
  then have "card (dom (ma_operations (operations_total es))) \<le> length ?all"
    by (meson card_length card_mono le_trans List.finite_set)
  then show "card (dom (ma_operations (operations_total es))) \<le> 10" by (simp add: all_operations_def)
qed

subsection \<open>Database calls\<close>

text \<open>\<open>NewMetrics\<close>: a series at zero for each method of the interface, \<open>MethodsOf\<close> of theory \<open>Database\<close>'s package.\<close>

record dal_metrics =
  dm_errors :: counters
  dm_durations :: counters

definition new_dal_metrics :: "string list \<Rightarrow> dal_metrics" where
  "new_dal_metrics methods =
     \<lparr>dm_errors = fold (\<lambda>m v. v([m] \<mapsto> 0)) methods Map.empty, dm_durations = fold (\<lambda>m v. v([m] \<mapsto> 0)) methods Map.empty\<rparr>"

text \<open>\<open>Collecting\<close>: the deferred function observes, counts an error or a panic, and panics on.\<close>

definition collecting ::
  "string \<Rightarrow> ('s \<Rightarrow> go_error option outcome \<times> 's) \<Rightarrow> 's \<times> dal_metrics \<Rightarrow> go_error option outcome \<times> 's \<times> dal_metrics" where
  "collecting method fn st =
     (let (result, s) = fn (fst st);
          m1 = (snd st)\<lparr>dm_durations := inc_series [method] (dm_durations (snd st))\<rparr>;
          m2 = (case result of
                  Done None \<Rightarrow> m1
                | Done (Some e) \<Rightarrow> m1\<lparr>dm_errors := inc_series [method] (dm_errors m1)\<rparr>
                | Panicking p \<Rightarrow> m1\<lparr>dm_errors := inc_series [method] (dm_errors m1)\<rparr>)
      in (result, s, m2))"

definition no_metric :: "string \<Rightarrow> ('s \<Rightarrow> go_error option outcome \<times> 's) \<Rightarrow> 's \<Rightarrow> go_error option outcome \<times> 's" where
  "no_metric method f = f"

text \<open>Calls one after another until one panics.\<close>

fun run_calls ::
  "(string \<times> ('s \<Rightarrow> go_error option outcome \<times> 's)) list \<Rightarrow> 's \<times> dal_metrics
   \<Rightarrow> (string \<times> go_error option outcome) list \<times> 's \<times> dal_metrics" where
  "run_calls [] st = ([], st)"
| "run_calls ((m, fn) # calls) st =
     (case collecting m fn st of
        (r, st1) \<Rightarrow>
          (case r of Panicking p \<Rightarrow> ([(m, r)], st1)
           | Done e \<Rightarrow> (case run_calls calls st1 of (rs, st2) \<Rightarrow> ((m, r) # rs, st2))))"

fun plain_calls ::
  "(string \<times> ('s \<Rightarrow> go_error option outcome \<times> 's)) list \<Rightarrow> 's \<Rightarrow> (string \<times> go_error option outcome) list \<times> 's" where
  "plain_calls [] s = ([], s)"
| "plain_calls ((m, fn) # calls) s =
     (case no_metric m fn s of
        (r, s1) \<Rightarrow>
          (case r of Panicking p \<Rightarrow> ([(m, r)], s1)
           | Done e \<Rightarrow> (case plain_calls calls s1 of (rs, s2) \<Rightarrow> ((m, r) # rs, s2))))"

text \<open>
  Measuring database calls changes neither results nor state, a panic goes on, each call is observed
  under its method, and exactly the calls that failed or panicked are counted as errors.
\<close>

theorem collecting_transparent:
  assumes "run_calls calls (s, m) = (rs, s', m')"
  shows "plain_calls calls s = (rs, s') \<and>
    series_value (dm_durations m') [k] = series_value (dm_durations m) [k] + length (filter (\<lambda>(n, r). n = k) rs) \<and>
    series_value (dm_errors m') [k] =
      series_value (dm_errors m) [k] + length (filter (\<lambda>(n, r). n = k \<and> r \<noteq> Done None) rs)"
  using assms
proof (induction calls arbitrary: s m rs)
  case (Cons c calls)
  obtain n fn where c: "c = (n, fn)" by (cases c)
  obtain r s1 where f: "fn s = (r, s1)" by fastforce
  show ?case
  proof (cases r)
    case (Panicking p)
    then show ?thesis using Cons.prems by (auto simp: c f collecting_def no_metric_def Let_def)
  next
    case (Done e)
    obtain rs1 s2 m2 where t: "run_calls calls (s1, snd (snd (collecting n fn (s, m)))) = (rs1, s2, m2)"
      by (metis surj_pair)
    then have eq: "rs = (n, r) # rs1" "s' = s2" "m' = m2"
      using Cons.prems Done by (auto simp: c f collecting_def Let_def split: prod.splits)
    show ?thesis using Cons.IH [OF t [unfolded eq(2,3) [symmetric]]] Done
      by (auto simp: c f eq(1) collecting_def no_metric_def Let_def split: option.splits)
  qed
qed simp

subsection \<open>Transactions that panic\<close>

text \<open>
  \<open>Tx\<close> inside its metrics, with a body that may panic: the recovery rolls back and panics on. A panic value is its
  text; \<open>returns\<close> relates it to the transactions of theory \<open>Database\<close>.
\<close>

definition err_rollback_failed :: string where "err_rollback_failed = ''rollback failed''"

definition tx_call ::
  "tx_env \<Rightarrow> string \<Rightarrow> ('db \<Rightarrow> go_error option outcome \<times> 'db) \<Rightarrow> 'db \<Rightarrow> go_error option outcome \<times> 'db" where
  "tx_call env method body db =
     (case tx_begin env of
        Some e \<Rightarrow> (Done (Some (wrap (method @ '': '') e)), db)
      | None \<Rightarrow>
          (case body db of
             (Panicking p, db1) \<Rightarrow>
               (Panicking (case tx_rollback env of None \<Rightarrow> p | Some re \<Rightarrow> err_rollback_failed @ '': '' @ p @ '': '' @ msg re), db)
           | (Done (Some e), db1) \<Rightarrow>
               (Done (Some (case tx_rollback env of Some re \<Rightarrow> wrap ''tx.Rollback: '' re | None \<Rightarrow> wrap (method @ '': '') e)), db)
           | (Done None, db1) \<Rightarrow>
               (case tx_commit env of
                  Some (e, landed) \<Rightarrow> (Done (Some (wrap (method @ '': '') e)), if landed then db1 else db)
                | None \<Rightarrow> (Done None, db1))))"

definition measured_tx ::
  "tx_env \<Rightarrow> string \<Rightarrow> ('db \<Rightarrow> go_error option outcome \<times> 'db) \<Rightarrow> 'db \<times> dal_metrics
   \<Rightarrow> go_error option outcome \<times> 'db \<times> dal_metrics" where
  "measured_tx env method body st = collecting method (tx_call env method body) st"

text \<open>Without a panic it is the transaction of theory \<open>Database\<close>.\<close>

lemma tx_call_is_run_tx:
  assumes "body = (\<lambda>db. case fn db of (Inl e, db1) \<Rightarrow> (Done (Some e), db1) | (Inr u, db1) \<Rightarrow> (Done None, db1))"
  shows "tx_call env method body db =
    (case run_tx env method db fn of (Inl e, db1) \<Rightarrow> (Done (Some e), db1) | (Inr (u :: unit), db1) \<Rightarrow> (Done None, db1))"
  by (auto simp: tx_call_def run_tx_def assms split: option.split prod.split sum.split)

text \<open>
  A transaction is all or nothing whatever its body does. Unless a commit fails that took effect all the same, the
  database keeps what the body did exactly when the call returns no error; a panic leaves it as it was, goes on to the caller,
  and is counted as an error like any other failure.
\<close>

theorem transaction_all_or_nothing:
  assumes "measured_tx env method body (db, m) = (r, db', m')"
    and "\<forall>e. tx_commit env \<noteq> Some (e, True)"
  shows "(r = Done None \<longrightarrow> body db = (Done None, db')) \<and> (r \<noteq> Done None \<longrightarrow> db' = db) \<and>
    ((\<exists>p. r = Panicking p) \<longleftrightarrow> tx_begin env = None \<and> (\<exists>p. fst (body db) = Panicking p)) \<and>
    series_value (dm_durations m') [method] = Suc (series_value (dm_durations m) [method]) \<and>
    series_value (dm_errors m') [method] = series_value (dm_errors m) [method] + (if r = Done None then 0 else 1)"
  using assms
  by (auto simp: measured_tx_def collecting_def tx_call_def Let_def
      split: option.splits prod.splits outcome.splits if_splits)

theorem transaction_all_or_nothing_witness:
  "\<exists>m'. measured_tx \<lparr>tx_begin = None, tx_commit = None, tx_rollback = None\<rparr> ''Create''
       (\<lambda>n. (Panicking ''index out of range'', Suc n)) (7 :: nat, new_dal_metrics [''Create'']) =
     (Panicking ''index out of range'', 7, m') \<and> series_value (dm_errors m') [''Create''] = 1"
proof -
  let ?env = "\<lparr>tx_begin = None, tx_commit = None, tx_rollback = None\<rparr>"
  let ?m = "new_dal_metrics [''Create'']"
  obtain r db' m' where t: "measured_tx ?env ''Create'' (\<lambda>n. (Panicking ''index out of range'', Suc n)) (7 :: nat, ?m) = (r, db', m')"
    by (metis surj_pair)
  have "r = Panicking ''index out of range''"
    using t by (simp add: measured_tx_def collecting_def tx_call_def Let_def)
  moreover have "series_value (dm_errors ?m) [''Create''] = 0" by (simp add: new_dal_metrics_def series_value_def)
  ultimately show ?thesis using transaction_all_or_nothing [OF t] t by auto
qed

subsection \<open>The scrape\<close>

datatype desc = PluginsTotal | PluginsByGroup | AuditLogTotal | PluginVersionsCount

record sample =
  sm_desc :: desc
  sm_labels :: "string list"
  sm_value :: int

text \<open>What is sent to the channel, and the metrics whose collection was logged as failed.\<close>

record scrape =
  sc_sent :: "sample list"
  sc_failed :: "(string \<times> go_error) list"

text \<open>A query of rows fails, or gives rows of which each may fail to scan, and an error at their end.\<close>

datatype 'k rows_answer = QueryFails go_error | Rows "('k \<times> int) result list" "go_error option"

record db_answers =
  an_plugins :: "int result"
  an_audit :: "int result"
  an_groups :: "string rows_answer"
  an_versions :: "(string \<times> string) rows_answer"

definition describe :: "desc list" where
  "describe = [PluginsTotal, PluginsByGroup, AuditLogTotal, PluginVersionsCount]"

definition send :: "desc \<Rightarrow> string list \<Rightarrow> int \<Rightarrow> scrape \<Rightarrow> scrape" where
  "send d ls n sc = sc\<lparr>sc_sent := sc_sent sc @ [\<lparr>sm_desc = d, sm_labels = ls, sm_value = n\<rparr>]\<rparr>"

definition log_failure :: "string \<Rightarrow> go_error \<Rightarrow> scrape \<Rightarrow> scrape" where
  "log_failure name e sc = sc\<lparr>sc_failed := sc_failed sc @ [(name, e)]\<rparr>"

definition collect_scalar :: "desc \<Rightarrow> string \<Rightarrow> int result \<Rightarrow> scrape \<Rightarrow> scrape" where
  "collect_scalar d name answer sc = (case answer of Inl e \<Rightarrow> log_failure name e sc | Inr n \<Rightarrow> send d [] n sc)"

fun send_rows :: "desc \<Rightarrow> string \<Rightarrow> ('k \<Rightarrow> string list) \<Rightarrow> ('k \<times> int) result list \<Rightarrow> go_error option \<Rightarrow> scrape \<Rightarrow> scrape" where
  "send_rows d name labels [] err sc = (case err of None \<Rightarrow> sc | Some e \<Rightarrow> log_failure name e sc)"
| "send_rows d name labels (Inl e # rows) err sc = log_failure name e sc"
| "send_rows d name labels (Inr (k, n) # rows) err sc = send_rows d name labels rows err (send d (labels k) n sc)"

definition collect_grouped :: "desc \<Rightarrow> string \<Rightarrow> string rows_answer \<Rightarrow> scrape \<Rightarrow> scrape" where
  "collect_grouped d name answer sc =
     (case answer of QueryFails e \<Rightarrow> log_failure name e sc | Rows rows err \<Rightarrow> send_rows d name (\<lambda>g. [g]) rows err sc)"

definition collect_grouped2 :: "desc \<Rightarrow> string \<Rightarrow> (string \<times> string) rows_answer \<Rightarrow> scrape \<Rightarrow> scrape" where
  "collect_grouped2 d name answer sc =
     (case answer of QueryFails e \<Rightarrow> log_failure name e sc | Rows rows err \<Rightarrow> send_rows d name (\<lambda>(g, n). [g, n]) rows err sc)"

definition collect :: "db_answers \<Rightarrow> scrape \<Rightarrow> scrape" where
  "collect an sc =
     (let sc1 = collect_scalar PluginsTotal ''plugins_total'' (an_plugins an) sc;
          sc2 = collect_scalar AuditLogTotal ''audit_log_total'' (an_audit an) sc1;
          sc3 = collect_grouped PluginsByGroup ''plugins_by_group'' (an_groups an) sc2
      in collect_grouped2 PluginVersionsCount ''plugin_versions_count'' (an_versions an) sc3)"

text \<open>The collector of the connection pool only reads the statistics.\<close>

record db_stats =
  ds_open :: int
  ds_idle :: int
  ds_wait_count :: int
  ds_wait_duration :: int

definition collect_pool :: "db_stats \<Rightarrow> (string \<times> rat) list" where
  "collect_pool st =
     [(''db_open_connections'', of_int (ds_open st)), (''db_idle_connections'', of_int (ds_idle st)),
      (''db_wait_count_total'', of_int (ds_wait_count st)),
      (''db_wait_duration_seconds_total'', of_int (ds_wait_duration st) / 1000000000)]"

subsection \<open>The queries over the tables\<close>

text \<open>\<open>GROUP BY\<close> with \<open>count(*)\<close>, and with \<open>count(DISTINCT version)\<close>; the order of the groups is the database's.\<close>

definition group_counts :: "('a \<Rightarrow> 'k) \<Rightarrow> 'a list \<Rightarrow> ('k \<times> int) list" where
  "group_counts key rows = map (\<lambda>k. (k, int (length (filter (\<lambda>r. key r = k) rows)))) (remdups (map key rows))"

definition group_distinct :: "('a \<Rightarrow> 'k) \<Rightarrow> ('a \<Rightarrow> 'v) \<Rightarrow> 'a list \<Rightarrow> ('k \<times> int) list" where
  "group_distinct key val rows =
     map (\<lambda>k. (k, int (length (remdups (map val (filter (\<lambda>r. key r = k) rows)))))) (remdups (map key rows))"

definition plugin_path :: "plugin_row \<Rightarrow> string \<times> string" where
  "plugin_path r = (pr_group r, pr_name r)"

text \<open>\<open>auditRowEstimate\<close>: the planner's row counts of the partitions, \<open>-1\<close> for one that was never analysed.\<close>

definition audit_row_estimate :: "int list \<Rightarrow> int" where
  "audit_row_estimate reltuples = sum_list (map (\<lambda>n. max n 0) reltuples)"

definition answers_from :: "plugin_row list \<Rightarrow> int list \<Rightarrow> db_answers \<Rightarrow> bool" where
  "answers_from rows reltuples an \<longleftrightarrow>
     an_plugins an = Inr (int (length rows)) \<and> an_audit an = Inr (audit_row_estimate reltuples) \<and>
     (\<exists>gs. an_groups an = Rows (map Inr gs) None \<and> mset gs = mset (group_counts pr_group rows)) \<and>
     (\<exists>vs. an_versions an = Rows (map Inr vs) None \<and> mset vs = mset (group_distinct plugin_path pr_version rows))"

lemma group_counts_total: "sum_list (map snd (group_counts key rows)) = int (length rows)"
proof -
  have "length (filter (\<lambda>r. key r = k) rows) = count_list (map key rows) k" for k
    by (induction rows) auto
  then have "sum_list (map snd (group_counts key rows)) = (\<Sum>k \<in> set (map key rows). int (count_list (map key rows) k))"
    by (simp add: group_counts_def o_def sum_list_distinct_conv_sum_set del: set_map)
  also have "\<dots> = int (length (map key rows))"
    using sum_count_set [of "map key rows" "set (map key rows)"] by (simp flip: of_nat_sum)
  finally show ?thesis by simp
qed

lemma unique_versions:
  assumes "rows_unique rows"
  shows "group_distinct plugin_path pr_version rows = group_counts plugin_path rows"
proof -
  have "distinct (map pr_version (filter (\<lambda>r. plugin_path r = k) rows))" for k
    using assms by (auto simp: rows_unique_def distinct_map inj_on_def plugin_path_def row_key_def)
  then show ?thesis by (simp add: group_distinct_def group_counts_def distinct_remdups_id)
qed

lemma group_counts_part:
  "filter (\<lambda>x. fst (fst x) = G) (group_counts plugin_path rows) = group_counts plugin_path (filter (\<lambda>r. pr_group r = G) rows)"
proof -
  have "map plugin_path (filter (\<lambda>r. pr_group r = G) rows) = filter (\<lambda>k. fst k = G) (map plugin_path rows)"
    by (induction rows) (auto simp: plugin_path_def)
  then have "remdups (map plugin_path (filter (\<lambda>r. pr_group r = G) rows)) = filter (\<lambda>k. fst k = G) (remdups (map plugin_path rows))"
    by (simp add: remdups_filter)
  moreover have "filter (\<lambda>r. plugin_path r = k) (filter (\<lambda>r. pr_group r = G) rows) = filter (\<lambda>r. plugin_path r = k) rows"
    if "fst k = G" for k
    using that by (induction rows) (auto simp: plugin_path_def)
  ultimately show ?thesis
    by (auto simp: group_counts_def filter_map o_def case_prod_beta)
qed

definition figure :: "desc \<Rightarrow> (string list \<Rightarrow> bool) \<Rightarrow> scrape \<Rightarrow> int" where
  "figure d P sc = sum_list (map sm_value (filter (\<lambda>s. sm_desc s = d \<and> P (sm_labels s)) (sc_sent sc)))"

definition new_scrape :: scrape where "new_scrape = \<lparr>sc_sent = [], sc_failed = []\<rparr>"

lemma send_rows_all:
  "send_rows d name labels (map Inr ks) None sc =
     sc\<lparr>sc_sent := sc_sent sc @ map (\<lambda>(k, n). \<lparr>sm_desc = d, sm_labels = labels k, sm_value = n\<rparr>) ks\<rparr>"
  by (induction ks arbitrary: sc) (auto simp: send_def)

lemma sum_snd_perm:
  assumes "mset ks = mset ls"
  shows "sum_list (map snd (filter P ks)) = (sum_list (map snd (filter P ls)) :: int)"
proof -
  have "mset (map snd (filter P ks)) = mset (map snd (filter P ls))" using assms by simp
  then show ?thesis by (metis sum_mset_sum_list)
qed

lemma group_counts_at: "sum_list (map snd (filter (\<lambda>x. fst x = G) (group_counts key rows))) =
    int (length (filter (\<lambda>r. key r = G) rows))"
proof -
  have f: "filter (\<lambda>k. k = G) (remdups ks) = (if G \<in> set ks then [G] else [])" for ks
    by (induction ks) auto
  have "filter (\<lambda>x. fst x = G) (group_counts key rows) =
      map (\<lambda>k. (k, int (length (filter (\<lambda>r. key r = k) rows)))) (filter (\<lambda>k. k = G) (remdups (map key rows)))"
    by (simp add: group_counts_def filter_map o_def)
  then show ?thesis by (auto simp: f filter_empty_conv)
qed

text \<open>
  The figures of a scrape agree. When the queries of a scrape see one state of the table, nothing is logged,
  the plugins by group and the versions by plugin both add up to the total, which is the number of rows, and
  within a group the versions add up to the plugins of the group.
\<close>

theorem scrape_consistent:
  assumes "rows_unique rows" "answers_from rows reltuples an"
  shows "sc_failed (collect an new_scrape) = [] \<and>
    figure PluginsTotal (\<lambda>_. True) (collect an new_scrape) = int (length rows) \<and>
    figure PluginsByGroup (\<lambda>_. True) (collect an new_scrape) = int (length rows) \<and>
    figure PluginVersionsCount (\<lambda>_. True) (collect an new_scrape) = int (length rows) \<and>
    figure AuditLogTotal (\<lambda>_. True) (collect an new_scrape) = audit_row_estimate reltuples \<and>
    figure PluginsByGroup (\<lambda>ls. ls = [G]) (collect an new_scrape) = int (length (filter (\<lambda>r. pr_group r = G) rows)) \<and>
    figure PluginVersionsCount (\<lambda>ls. hd ls = G) (collect an new_scrape) = int (length (filter (\<lambda>r. pr_group r = G) rows))"
proof -
  obtain gs vs where gs: "an_groups an = Rows (map Inr gs) None" "mset gs = mset (group_counts pr_group rows)"
    and vs: "an_versions an = Rows (map Inr vs) None" "mset vs = mset (group_counts plugin_path rows)"
    using assms(2) unique_versions [OF assms(1)] by (auto simp: answers_from_def)
  have c: "collect an new_scrape = \<lparr>sc_sent =
      [\<lparr>sm_desc = PluginsTotal, sm_labels = [], sm_value = int (length rows)\<rparr>,
       \<lparr>sm_desc = AuditLogTotal, sm_labels = [], sm_value = audit_row_estimate reltuples\<rparr>] @
      map (\<lambda>(k, n). \<lparr>sm_desc = PluginsByGroup, sm_labels = [k], sm_value = n\<rparr>) gs @
      map (\<lambda>(k, n). \<lparr>sm_desc = PluginVersionsCount, sm_labels = [fst k, snd k], sm_value = n\<rparr>) vs,
      sc_failed = []\<rparr>"
    using assms(2) gs(1) vs(1)
    by (simp add: answers_from_def collect_def collect_scalar_def collect_grouped_def collect_grouped2_def send_rows_all
        send_def new_scrape_def case_prod_beta)
  have g: "sum_list (map snd (filter P gs)) = sum_list (map snd (filter P (group_counts pr_group rows)))" for P
    by (rule sum_snd_perm [OF gs(2)])
  have v: "sum_list (map snd (filter P vs)) = sum_list (map snd (filter P (group_counts plugin_path rows)))" for P
    by (rule sum_snd_perm [OF vs(2)])
  have "figure PluginsByGroup P (collect an new_scrape) = sum_list (map snd (filter (\<lambda>x. P [fst x]) gs))" for P
    by (simp add: c figure_def filter_map o_def case_prod_beta)
  moreover have "figure PluginVersionsCount P (collect an new_scrape) =
      sum_list (map snd (filter (\<lambda>x. P [fst (fst x), snd (fst x)]) vs))" for P
    by (simp add: c figure_def filter_map o_def case_prod_beta)
  moreover have "figure PluginsTotal (\<lambda>_. True) (collect an new_scrape) = int (length rows)"
    "figure AuditLogTotal (\<lambda>_. True) (collect an new_scrape) = audit_row_estimate reltuples"
    by (simp_all add: c figure_def filter_map o_def case_prod_beta)
  moreover have "sum_list (map snd (filter (\<lambda>x. fst (fst x) = G) vs)) = int (length (filter (\<lambda>r. pr_group r = G) rows))"
    by (simp add: v group_counts_part group_counts_total)
  ultimately show ?thesis
    using group_counts_total [of pr_group rows] group_counts_total [of plugin_path rows] group_counts_at [of G pr_group rows]
      g [of "\<lambda>_. True"] v [of "\<lambda>_. True"] g [of "\<lambda>x. fst x = G"]
    by (simp add: c case_prod_beta)
qed

text \<open>A query that fails costs its own metric only: what is sent was answered, and each failure is logged once.\<close>

lemma send_rows_sent:
  "\<exists>ss. sc_sent (send_rows d name labels rows err sc) = sc_sent sc @ ss \<and>
     (\<forall>s \<in> set ss. sm_desc s = d \<and> (\<exists>k. Inr (k, sm_value s) \<in> set rows \<and> sm_labels s = labels k)) \<and>
     (sc_failed (send_rows d name labels rows err sc) = sc_failed sc \<and> length ss = length rows \<or>
      (\<exists>e. sc_failed (send_rows d name labels rows err sc) = sc_failed sc @ [(name, e)]))"
proof (induction d name labels rows err sc rule: send_rows.induct)
  case (3 d name labels k n rows err sc)
  then obtain ss where ss: "sc_sent (send_rows d name labels rows err (send d (labels k) n sc)) = sc_sent (send d (labels k) n sc) @ ss"
    "\<forall>s \<in> set ss. sm_desc s = d \<and> (\<exists>k. Inr (k, sm_value s) \<in> set rows \<and> sm_labels s = labels k)"
    "sc_failed (send_rows d name labels rows err (send d (labels k) n sc)) = sc_failed sc \<and> length ss = length rows \<or>
      (\<exists>e. sc_failed (send_rows d name labels rows err (send d (labels k) n sc)) = sc_failed sc @ [(name, e)])"
    by (auto simp: send_def)
  then show ?case
    by (intro exI [of _ "\<lparr>sm_desc = d, sm_labels = labels k, sm_value = n\<rparr> # ss"]) (auto simp: send_def)
qed (auto simp: log_failure_def split: option.splits)

subsection \<open>The gauges of the licence\<close>

record license_gauges =
  lg_valid :: int
  lg_expiry :: int
  lg_in_grace :: int

text \<open>Expiry times are Unix seconds; the zero time of the community claims is \<^term>\<open>None\<close>.\<close>

definition observe_claims :: "license_claims \<Rightarrow> license_gauges" where
  "observe_claims claims =
     \<lparr>lg_valid = (if lc_tier claims = tier_enterprise then 1 else 0),
      lg_expiry = (case lc_expires_at claims of None \<Rightarrow> 0 | Some t \<Rightarrow> t),
      lg_in_grace = (if lc_in_grace claims then 1 else 0)\<rparr>"

definition no_gauges :: license_gauges where
  "no_gauges = \<lparr>lg_valid = 0, lg_expiry = 0, lg_in_grace = 0\<rparr>"

text \<open>A refresh publishes the claims it keeps; one that fails leaves claims and gauges.\<close>

definition refresh_observed :: "manager \<times> license_gauges \<Rightarrow> license_claims result \<Rightarrow> manager \<times> license_gauges" where
  "refresh_observed st answer =
     (refresh (fst st) answer, case answer of Inl e \<Rightarrow> snd st | Inr claims \<Rightarrow> observe_claims claims)"

theorem gauges_follow_claims:
  "(case fold (\<lambda>a st. refresh_observed st a) answers
      (refresh_observed (\<lparr>mg_claims = community_license_claims, mg_cache_ttl = ttl, mg_denied = []\<rparr>, no_gauges) first) of
     (lm, gauges) \<Rightarrow> gauges = observe_claims (mg_claims lm))"
proof -
  have "snd st = observe_claims (mg_claims (fst st)) \<Longrightarrow>
      snd (fold (\<lambda>a st. refresh_observed st a) answers st) =
        observe_claims (mg_claims (fst (fold (\<lambda>a st. refresh_observed st a) answers st)))" for st
    by (induction answers arbitrary: st) (auto simp: refresh_observed_def refresh_def split: sum.split)
  moreover have "no_gauges = observe_claims community_license_claims"
    by (simp add: no_gauges_def observe_claims_def claims_defs)
  ultimately show ?thesis
    by (simp add: refresh_observed_def refresh_def case_prod_beta split: sum.split)
qed

subsection \<open>Concrete figures\<close>

definition counted_row :: "string \<Rightarrow> string \<Rightarrow> string \<Rightarrow> plugin_row" where
  "counted_row g n v =
     \<lparr>pr_id = 0, pr_group = g, pr_name = n, pr_version = v, pr_config = RawEmpty, pr_tags = [], pr_created_at = 0\<rparr>"

definition counted_rows :: "plugin_row list" where
  "counted_rows = [counted_row ''g'' ''n'' ''v1'', counted_row ''h'' ''n'' ''v1'', counted_row ''g'' ''n'' ''v2'']"

definition sample_answers :: db_answers where
  "sample_answers =
     \<lparr>an_plugins = Inr 3, an_audit = Inr 40,
      an_groups = Rows [Inr (''g'', 2), Inr (''h'', 1)] None,
      an_versions = Rows [Inr ((''g'', ''n''), 2), Inr ((''h'', ''n''), 1)] None\<rparr>"

lemma sample_answered: "rows_unique counted_rows" "answers_from counted_rows [-1, 40] sample_answers"
proof -
  show "rows_unique counted_rows" by (simp add: rows_unique_def counted_rows_def counted_row_def row_key_def)
  have "mset [(''g'', 2), (''h'', 1)] = mset (group_counts pr_group counted_rows)"
    by (simp add: group_counts_def counted_rows_def counted_row_def)
  moreover have "mset [((''g'', ''n''), 2), ((''h'', ''n''), 1)] = mset (group_distinct plugin_path pr_version counted_rows)"
    by (simp add: group_distinct_def counted_rows_def counted_row_def plugin_path_def)
  ultimately show "answers_from counted_rows [-1, 40] sample_answers"
    unfolding answers_from_def
    by (intro conjI exI [of _ "[(''g'', 2), (''h'', 1)]"] exI [of _ "[((''g'', ''n''), 2), ((''h'', ''n''), 1)]"])
      (simp_all add: sample_answers_def counted_rows_def audit_row_estimate_def)
qed

theorem scrape_consistent_witness:
  "figure PluginVersionsCount (\<lambda>ls. hd ls = ''g'') (collect sample_answers new_scrape) = 2"
  using scrape_consistent [OF sample_answered, of "''g''"] by (simp add: counted_rows_def counted_row_def)

theorem collecting_transparent_witness:
  "\<exists>m'. run_calls [(''Get'', \<lambda>n. (Done None, Suc n)), (''Get'', \<lambda>n. (Done (Some err_not_found), n)), (''List'', \<lambda>n. (Panicking ''nil'', n))]
       (0 :: nat, new_dal_metrics [''Get'', ''List'']) =
     ([(''Get'', Done None), (''Get'', Done (Some err_not_found)), (''List'', Panicking ''nil'')], 1, m') \<and>
     series_value (dm_errors m') [''Get''] = 1 \<and> series_value (dm_durations m') [''Get''] = 2"
proof -
  let ?calls = "[(''Get'', \<lambda>n. (Done None, Suc n)), (''Get'', \<lambda>n. (Done (Some err_not_found), n)), (''List'', \<lambda>n. (Panicking ''nil'', n))]"
  let ?rs = "[(''Get'', Done None), (''Get'', Done (Some err_not_found)), (''List'', Panicking ''nil'')]"
  obtain rs s' m' where r: "run_calls ?calls (0 :: nat, new_dal_metrics [''Get'', ''List'']) = (rs, s', m')"
    by (metis surj_pair)
  have "plain_calls ?calls (0 :: nat) = (?rs, 1)" by (simp add: no_metric_def)
  moreover note t = collecting_transparent [OF r, of "''Get''"]
  ultimately have "rs = ?rs" "s' = 1" by auto
  moreover have "series_value (dm_errors (new_dal_metrics [''Get'', ''List''])) [''Get''] = 0"
    "series_value (dm_durations (new_dal_metrics [''Get'', ''List''])) [''Get''] = 0"
    by (simp_all add: new_dal_metrics_def series_value_def)
  ultimately show ?thesis using r t by simp
qed

end
