(* ===== verification/Probes.thy ===== *)
theory Probes
  imports Startup Connectors
begin

text \<open>
  What a deployment sees of the service while it starts and stops (\<^verbatim>\<open>cmd/easyp-svc/start.go\<close>): the health
  endpoints (\<open>startHealthServer\<close>), the opening of the database (\<open>initInfrastructure\<close>,
  \<^verbatim>\<open>internal/database/goosemigrate/goosemigrate.go\<close>), the watchdog of the shutdown (\<open>forceShutdown\<close>). Requests are
  matched as \<open>http.ServeMux\<close> does it, without methods, hosts and wildcards, which no pattern of the service uses. The
  health library is the parameter \<open>checked\<close>: the status for what its one check returns.

  The lemmas show that liveness never depends on the database, that readiness tells of the database from the
  moment it is wired, and which of the comments on both hold.
\<close>

subsection \<open>Requests\<close>

datatype http_answer = Answered nat string | Moved string

definition clean_url_path :: "string \<Rightarrow> string" where
  "clean_url_path p =
     (if p = [] then ''/''
      else let p1 = (if hd p = CHR ''/'' then p else CHR ''/'' # p); np = clean p1
           in if last p1 = CHR ''/'' \<and> np \<noteq> ''/'' then np @ ''/'' else np)"

text \<open>The pattern that equals the path, or else the longest one that ends in a slash and begins the path.\<close>

fun longest_subtree :: "(string \<times> 'h) list \<Rightarrow> string \<Rightarrow> (string \<times> 'h) option" where
  "longest_subtree [] path = None"
| "longest_subtree ((pat, h) # pats) path =
     (let rest = longest_subtree pats path in
      if pat \<noteq> [] \<and> last pat = CHR ''/'' \<and> has_prefix path pat then
        (case rest of None \<Rightarrow> Some (pat, h) | Some (q, g) \<Rightarrow> if length q > length pat then Some (q, g) else Some (pat, h))
      else rest)"

definition mux_match :: "(string \<times> 'h) list \<Rightarrow> string \<Rightarrow> 'h option" where
  "mux_match pats path =
     (case map_of pats path of Some h \<Rightarrow> Some h | None \<Rightarrow> map_option snd (longest_subtree pats path))"

definition mux_serve :: "(string \<times> http_answer) list \<Rightarrow> string \<Rightarrow> http_answer" where
  "mux_serve pats path =
     (let c = clean_url_path path in
      if map_of pats c = None \<and> map_of pats (c @ ''/'') \<noteq> None then Moved (c @ ''/'')
      else if c \<noteq> path then Moved c
      else case mux_match pats c of None \<Rightarrow> Answered 404 ''404 page not found'' | Some a \<Rightarrow> a)"

subsection \<open>The health server\<close>

definition listen_addr :: "string \<Rightarrow> nat \<Rightarrow> string" where
  "listen_addr host port = join_host_port host (int port)"

text \<open>\<open>startHealthServer\<close> up to the listener: the port is parsed as the validation parses it.\<close>

definition start_health_server ::
  "(string \<Rightarrow> go_error option) \<Rightarrow> service_config \<Rightarrow> (config_error + go_error) + string" where
  "start_health_server listen c =
     (case parse_port ''server.port.health'' (port_health (csv_port (cf_server c))) of
        Inl e \<Rightarrow> Inl (Inl e)
      | Inr port \<Rightarrow>
          (let addr = listen_addr (csv_host (cf_server c)) port in
           case listen addr of Some e \<Rightarrow> Inl (Inr (wrap ''listen health: '' e)) | None \<Rightarrow> Inr addr))"

text \<open>The function it returns, once the context is done: what \<open>Serve\<close> and \<open>Shutdown\<close> left.\<close>

definition wait_health :: "http_error option \<Rightarrow> go_error option \<Rightarrow> go_error list" where
  "wait_health serve_err shutdown_err =
     join_errors [case serve_err of None \<Rightarrow> None | Some ServerClosed \<Rightarrow> None | Some (HttpError e) \<Rightarrow> Some e, shutdown_err]"

definition live_path :: string where "live_path = ''/live''"

text \<open>\<open>readiness\<close> is the atomic pointer: \<^term>\<open>None\<close> until \<open>run\<close> stores the check, then what the check finds.\<close>

definition ready_answer :: "(go_error option \<Rightarrow> http_answer) \<Rightarrow> go_error option option \<Rightarrow> http_answer" where
  "ready_answer checked readiness =
     (case readiness of None \<Rightarrow> Answered 503 ''starting'' | Some database \<Rightarrow> checked database)"

definition health_mux :: "(go_error option \<Rightarrow> http_answer) \<Rightarrow> go_error option option \<Rightarrow> (string \<times> http_answer) list" where
  "health_mux checked readiness = [(live_path, Answered 200 []), (''/'', ready_answer checked readiness)]"

text \<open>How far \<open>run\<close> has come.\<close>

datatype stage = NotListening | Wiring | CheckStored | ServingApp | Draining | AppStopped | HealthStopped

record probed =
  pb_stage :: stage
  pb_readiness :: bool                \<comment> \<open>the check is stored\<close>
  pb_signalled :: bool
  pb_database :: "go_error option"    \<comment> \<open>what \<open>repo.Health\<close> answers now\<close>

definition listening :: "probed \<Rightarrow> bool" where
  "listening st \<longleftrightarrow> pb_stage st \<noteq> NotListening \<and> pb_stage st \<noteq> HealthStopped"

text \<open>A request that no listener takes has no answer.\<close>

definition probe :: "(go_error option \<Rightarrow> http_answer) \<Rightarrow> probed \<Rightarrow> string \<Rightarrow> http_answer option" where
  "probe checked st path =
     (if listening st
      then Some (mux_serve (health_mux checked (if pb_readiness st then Some (pb_database st) else None)) path) else None)"

definition begun :: probed where
  "begun = \<lparr>pb_stage = NotListening, pb_readiness = False, pb_signalled = False, pb_database = None\<rparr>"

text \<open>
  The steps of \<open>run\<close> in its order, with the database and the signal changing at any time. A stage that
  fails ends the process, and with it the listener.
\<close>

inductive probe_step :: "probed \<Rightarrow> probed \<Rightarrow> bool" where
  database: "probe_step st (st\<lparr>pb_database := e\<rparr>)"
| signal: "probe_step st (st\<lparr>pb_signalled := True\<rparr>)"
| listen: "pb_stage st = NotListening \<Longrightarrow> probe_step st (st\<lparr>pb_stage := Wiring\<rparr>)"
| fails: "pb_stage st = Wiring \<Longrightarrow> probe_step st (st\<lparr>pb_stage := HealthStopped\<rparr>)"
| store: "pb_stage st = Wiring \<Longrightarrow> probe_step st (st\<lparr>pb_stage := CheckStored, pb_readiness := True\<rparr>)"
| serves: "pb_stage st = CheckStored \<Longrightarrow> probe_step st (st\<lparr>pb_stage := ServingApp\<rparr>)"
| drains: "pb_stage st = ServingApp \<Longrightarrow> pb_signalled st \<Longrightarrow> probe_step st (st\<lparr>pb_stage := Draining\<rparr>)"
| app_stops: "pb_stage st = ServingApp \<or> pb_stage st = Draining \<Longrightarrow> probe_step st (st\<lparr>pb_stage := AppStopped\<rparr>)"
| health_stops: "pb_stage st = AppStopped \<Longrightarrow> pb_signalled st \<Longrightarrow> probe_step st (st\<lparr>pb_stage := HealthStopped\<rparr>)"

inductive probe_reach :: "probed \<Rightarrow> bool" where
  start: "probe_reach begun"
| step: "probe_reach st \<Longrightarrow> probe_step st st' \<Longrightarrow> probe_reach st'"

inductive_cases probe_stepE: "probe_step st st'"

subsection \<open>Opening the database\<close>

datatype handle_event = MigrationOpened | MigrationClosed | WaitedForDatabase | DatabaseOpened

record goose_answers =
  go_open :: "go_error option"
  go_ping :: "go_error option"
  go_sub :: "go_error option"
  go_locker :: "go_error option"
  go_provider :: "go_error option"
  go_up :: "go_error option"

fun first_failure :: "(string \<times> go_error option) list \<Rightarrow> go_error option" where
  "first_failure [] = None"
| "first_failure ((what, Some e) # rest) = Some (wrap (what @ '': '') e)"
| "first_failure ((what, None) # rest) = first_failure rest"

definition goose_up :: "goose_answers \<Rightarrow> handle_event list \<times> go_error option" where
  "goose_up ga =
     (case go_open ga of
        Some e \<Rightarrow> ([], Some (wrap ''sql.Open: '' e))
      | None \<Rightarrow>
          ([MigrationOpened, MigrationClosed],
           first_failure [(''db.PingContext'', go_ping ga), (''fs.Sub'', go_sub ga),
             (''lock.NewPostgresSessionLocker'', go_locker ga), (''goose.NewProvider'', go_provider ga),
             (''provider.Up'', go_up ga)]))"

record infra_answers =
  fa_goose :: goose_answers
  fa_sql_open :: "go_error option"
  fa_wait :: "go_error option"          \<comment> \<open>\<open>waitForDB\<close>, theory \<open>Database\<close>\<close>
  fa_storage :: "go_error option"
  fa_registry :: "go_error option"

definition init_infrastructure :: "infra_answers \<Rightarrow> handle_event list \<times> go_error option" where
  "init_infrastructure fa =
     (case goose_up (fa_goose fa) of
        (ev, Some e) \<Rightarrow> (ev, Some (wrap ''goosemigrate.Up: '' e))
      | (ev, None) \<Rightarrow>
          (case fa_sql_open fa of
             Some e \<Rightarrow> (ev, Some (wrap ''database.NewSQL: '' (wrap ''sql.Open: '' e)))
           | None \<Rightarrow>
               (let ev1 = ev @ [DatabaseOpened, WaitedForDatabase] in
                case fa_wait fa of
                  Some e \<Rightarrow> (ev1, Some (wrap ''database.NewSQL: '' e))
                | None \<Rightarrow>
                    (case fa_storage fa of
                       Some e \<Rightarrow> (ev1, Some e)
                     | None \<Rightarrow> (ev1, map_option (wrap ''registry.New: '') (fa_registry fa))))))"

subsection \<open>The watchdog\<close>

datatype process_end = Returned int | Forced int

definition exit_code :: int where "exit_code = 2"

text \<open>
  \<open>forceShutdown\<close>: from the signal on the process has \<open>delay\<close> to return; \<open>returned\<close> is when \<open>run\<close> would, if ever.
  The result is when the process ends and how.
\<close>

definition process_ends :: "int option \<Rightarrow> int \<Rightarrow> int option \<Rightarrow> process_end option" where
  "process_ends signalled delay returned =
     (case signalled of
        None \<Rightarrow> map_option Returned returned
      | Some t \<Rightarrow>
          (case returned of
             Some r \<Rightarrow> if r \<le> t + max 0 delay then Some (Returned r) else Some (Forced (t + max 0 delay))
           | None \<Rightarrow> Some (Forced (t + max 0 delay))))"

subsection \<open>What the probes are told\<close>

lemma clean_url_rooted: "\<exists>q. clean_url_path p = CHR ''/'' # q"
  by (auto simp: clean_url_path_def clean_def is_abs_def has_prefix_def Let_def neq_Nil_conv)

text \<open>Every request is live, readiness, or sent to its clean path.\<close>

lemma health_routes:
  "mux_serve (health_mux checked r) path =
     (if clean_url_path path \<noteq> path then Moved (clean_url_path path)
      else if path = live_path then Answered 200 [] else ready_answer checked r)"
proof -
  obtain q where q: "clean_url_path path = CHR ''/'' # q" using clean_url_rooted by blast
  have l: "c @ ''/'' \<noteq> live_path" for c by (cases c rule: rev_cases) (auto simp: live_path_def)
  have "last live_path \<noteq> CHR ''/''" by (simp add: live_path_def)
  then have s: "longest_subtree (health_mux checked r) (CHR ''/'' # q) = Some (''/'', ready_answer checked r)"
    by (simp add: health_mux_def has_prefix_def)
  have "map_of (health_mux checked r) (clean_url_path path @ ''/'') = None"
    using l [of "CHR ''/'' # q"] by (simp add: health_mux_def q)
  moreover have "mux_match (health_mux checked r) (clean_url_path path) =
      Some (if clean_url_path path = live_path then Answered 200 [] else ready_answer checked r)"
    using s by (simp add: mux_match_def q health_mux_def)
  ultimately show ?thesis by (cases "clean_url_path path = path") (simp_all add: mux_serve_def Let_def)
qed

lemma readiness_stored:
  "probe_reach st \<Longrightarrow> (pb_readiness st \<longrightarrow> pb_stage st \<noteq> NotListening \<and> pb_stage st \<noteq> Wiring) \<and>
     (pb_stage st \<in> {CheckStored, ServingApp, Draining, AppStopped} \<longrightarrow> pb_readiness st)"
proof (induction rule: probe_reach.induct)
  case (step st st')
  from step.hyps(2) step.IH show ?case by (cases rule: probe_step.cases) auto
qed (simp add: begun_def)


lemma reach_serving: "probe_reach \<lparr>pb_stage = ServingApp, pb_readiness = True, pb_signalled = False, pb_database = None\<rparr>"
proof -
  have "probe_reach (begun\<lparr>pb_stage := Wiring\<rparr>)"
    by (rule probe_reach.step [OF probe_reach.start]) (rule probe_step.listen, simp add: begun_def)
  then have "probe_reach (begun\<lparr>pb_stage := CheckStored, pb_readiness := True\<rparr>)"
    using probe_reach.step [OF _ probe_step.store] by (force simp: begun_def)
  then show ?thesis
    using probe_reach.step [OF _ probe_step.serves] by (force simp: begun_def)
qed

text \<open>
  A service that is draining is still ready: nothing takes the check back, so where the database answers the
  readiness probe goes on answering what it answered before the signal.
\<close>

lemma ready_while_draining:
  "\<exists>st. probe_reach st \<and> pb_stage st = Draining \<and> pb_signalled st \<and> probe checked st ''/'' = Some (checked None)"
proof -
  let ?s = "\<lparr>pb_stage = ServingApp, pb_readiness = True, pb_signalled = False, pb_database = None\<rparr>"
  have "probe_reach (?s\<lparr>pb_signalled := True\<rparr>)" by (rule probe_reach.step [OF reach_serving probe_step.signal])
  then have r: "probe_reach (?s\<lparr>pb_signalled := True, pb_stage := Draining\<rparr>)"
    by (rule probe_reach.step) (use probe_step.drains [of "?s\<lparr>pb_signalled := True\<rparr>"] in simp)
  have "clean_url_path ''/'' = ''/''" by code_simp
  then show ?thesis using r by (intro exI [of _ "?s\<lparr>pb_signalled := True, pb_stage := Draining\<rparr>"])
      (simp add: probe_def listening_def health_routes ready_answer_def live_path_def)
qed

text \<open>
  Without a signal the same holds of a service that serves no more: after a listener has failed, both probes
  go on answering as before, and no step of the program itself changes that.
\<close>

theorem ready_without_service:
  "\<exists>st. probe_reach st \<and> pb_stage st = AppStopped \<and> \<not> pb_signalled st \<and>
     probe checked st ''/'' = Some (checked None) \<and> probe checked st live_path = Some (Answered 200 []) \<and>
     (\<forall>st'. probe_step st st' \<longrightarrow>
        pb_stage st' = AppStopped \<and> probe checked st' ''/'' = Some (checked (pb_database st')))"
proof -
  let ?s = "\<lparr>pb_stage = ServingApp, pb_readiness = True, pb_signalled = False, pb_database = None\<rparr>"
  let ?t = "?s\<lparr>pb_stage := AppStopped\<rparr>"
  have r: "probe_reach ?t" by (rule probe_reach.step [OF reach_serving probe_step.app_stops]) simp
  have c: "clean_url_path ''/'' = ''/''" "clean_url_path live_path = live_path" by code_simp+
  have "pb_stage st' = AppStopped \<and> pb_readiness st'" if "probe_step ?t st'" for st'
    using that by (cases rule: probe_step.cases) auto
  then show ?thesis using r c
    by (intro exI [of _ ?t]) (auto simp: probe_def listening_def health_routes ready_answer_def live_path_def)
qed

subsection \<open>The database at the start\<close>

text \<open>
  A database that does not answer yet ends the start: the migrations ping once, before the wait for the
  database, so the wait is only reached when there is nothing to wait for.
\<close>

theorem unreachable_database_ends_start:
  assumes "go_open (fa_goose fa) = None" "go_ping (fa_goose fa) = Some e"
  shows "init_infrastructure fa =
    ([MigrationOpened, MigrationClosed], Some (wrap ''goosemigrate.Up: '' (wrap ''db.PingContext: '' e)))"
  using assms by (simp add: init_infrastructure_def goose_up_def)

theorem unreachable_database_ends_start_witness:
  "init_infrastructure
     \<lparr>fa_goose = \<lparr>go_open = None, go_ping = Some (plain_error ''connection refused''), go_sub = None, go_locker = None,
        go_provider = None, go_up = None\<rparr>, fa_sql_open = None, fa_wait = None, fa_storage = None, fa_registry = None\<rparr> =
   ([MigrationOpened, MigrationClosed],
    Some (wrap ''goosemigrate.Up: '' (wrap ''db.PingContext: '' (plain_error ''connection refused''))))"
  by (rule unreachable_database_ends_start) simp_all

lemma first_failure_none [simp]: "first_failure xs = None \<longleftrightarrow> (\<forall>(what, e) \<in> set xs. e = None)"
  by (induction xs rule: first_failure.induct) auto

lemma migrations_close: "count_list (fst (goose_up ga)) MigrationOpened = count_list (fst (goose_up ga)) MigrationClosed"
  by (simp add: goose_up_def split: option.split)

text \<open>Infrastructure that comes up has migrated and has waited, in that order.\<close>

lemma infrastructure_up:
  "snd (init_infrastructure fa) = None \<Longrightarrow>
     fst (init_infrastructure fa) = [MigrationOpened, MigrationClosed, DatabaseOpened, WaitedForDatabase] \<and>
     go_up (fa_goose fa) = None \<and> fa_wait fa = None \<and> fa_storage fa = None \<and> fa_registry fa = None"
  by (auto simp: init_infrastructure_def goose_up_def Let_def split: option.splits prod.splits)

subsection \<open>Ending\<close>

text \<open>After a signal the process ends within the delay, whether or not \<open>run\<close> returns; in time it is never forced.\<close>

lemma watchdog:
  "\<exists>x. process_ends (Some t) delay returned = Some x \<and>
     (case x of Returned r \<Rightarrow> returned = Some r \<and> r \<le> t + max 0 delay
      | Forced f \<Rightarrow> f = t + max 0 delay \<and> (\<forall>r. returned = Some r \<longrightarrow> f < r))"
  by (auto simp: process_ends_def split: option.split)

subsection \<open>A concrete request\<close>


end
