(* ===== verification/Tracing.thy ===== *)
theory Tracing
  imports Core
begin

text \<open>
  The tracing decorators (\<^verbatim>\<open>internal/telemetry/tracing_core.go\<close>, \<^verbatim>\<open>tracing_registry.go\<close>,
  \<^verbatim>\<open>tracing_plugin.go\<close>) that the service start puts around the registry, its plugins and the core. A
  trace is the spans in the order of their ends and the samples of the duration histogram, carried
  beside the state of the registry. The lemmas show that the decorated core is the core: it refines it
  in every operation, whatever the registry does, and a span marks an error exactly when its call fails.
\<close>

subsection \<open>Spans\<close>

datatype attribute_value = StringAttr string | IntAttr int

record span =
  sp_name :: string
  sp_attributes :: "(string \<times> attribute_value) list"
  sp_error :: "string option"

record traces =
  tc_spans :: "span list"
  tc_samples :: "string list"       \<comment> \<open>the plugins of the duration histogram\<close>

definition end_span :: "string \<Rightarrow> (string \<times> attribute_value) list \<Rightarrow> go_error option \<Rightarrow> traces \<Rightarrow> traces" where
  "end_span name attrs e tc =
     tc\<lparr>tc_spans := tc_spans tc @ [\<lparr>sp_name = name, sp_attributes = attrs, sp_error = map_option msg e\<rparr>]\<rparr>"

definition failure :: "'a result \<Rightarrow> go_error option" where
  "failure r = (case r of Inl e \<Rightarrow> Some e | Inr v \<Rightarrow> None)"

definition plugin_attributes :: "string \<Rightarrow> string \<Rightarrow> string \<Rightarrow> (string \<times> attribute_value) list" where
  "plugin_attributes grp name version =
     [(''plugin.group'', StringAttr grp), (''plugin.name'', StringAttr name), (''plugin.version'', StringAttr version)]"

definition db_attributes :: "string \<Rightarrow> (string \<times> attribute_value) list" where
  "db_attributes op = [(''db.system'', StringAttr ''postgresql''), (''db.operation'', StringAttr op)]"

subsection \<open>The registry and its plugins\<close>

definition traced_get ::
  "('r, 'p, 'req, 'resp) reg_iface \<Rightarrow> 'r \<times> traces \<Rightarrow> string \<Rightarrow> string \<Rightarrow> string \<Rightarrow> 'p result \<times> 'r \<times> traces" where
  "traced_get ri st grp name version =
     (case ri_get ri (fst st) grp name version of
        (r, s) \<Rightarrow> (r, s, end_span ''registry.Get'' (db_attributes ''SELECT'' @ plugin_attributes grp name version) (failure r) (snd st)))"

definition traced_list ::
  "('r, 'p, 'req, 'resp) reg_iface \<Rightarrow> 'r \<times> traces \<Rightarrow> plugin_filter \<Rightarrow> plugin_page \<Rightarrow> plugin_info list result \<times> 'r \<times> traces" where
  "traced_list ri st f page =
     (case ri_list ri (fst st) f page of
        (r, s) \<Rightarrow> (r, s, end_span ''registry.List'' (db_attributes ''SELECT'') (failure r) (snd st)))"

definition traced_create ::
  "('r, 'p, 'req, 'resp) reg_iface \<Rightarrow> 'r \<times> traces \<Rightarrow> create_request \<Rightarrow> plugin_info result \<times> 'r \<times> traces" where
  "traced_create ri st req =
     (case ri_create ri (fst st) req of
        (r, s) \<Rightarrow> (r, s, end_span ''registry.Create''
          (db_attributes ''INSERT'' @ plugin_attributes (cr_group req) (cr_name req) (cr_version req)) (failure r) (snd st)))"

definition traced_update ::
  "('r, 'p, 'req, 'resp) reg_iface \<Rightarrow> 'r \<times> traces \<Rightarrow> update_request \<Rightarrow> plugin_info result \<times> 'r \<times> traces" where
  "traced_update ri st req =
     (case ri_update ri (fst st) req of
        (r, s) \<Rightarrow> (r, s, end_span ''registry.Update''
          (db_attributes ''UPDATE'' @ plugin_attributes (ur_group req) (ur_name req) (ur_version req)) (failure r) (snd st)))"

definition traced_delete ::
  "('r, 'p, 'req, 'resp) reg_iface \<Rightarrow> 'r \<times> traces \<Rightarrow> string \<Rightarrow> string \<Rightarrow> string \<Rightarrow> go_error option \<times> 'r \<times> traces" where
  "traced_delete ri st grp name version =
     (case ri_delete ri (fst st) grp name version of
        (e, s) \<Rightarrow> (e, s, end_span ''registry.Delete'' (db_attributes ''DELETE'' @ plugin_attributes grp name version) e (snd st)))"

text \<open>\<open>TracingPlugin.Generate\<close>; \<open>exit_code\<close> is what \<open>errors.AsType\<close> finds of an exit status.\<close>

definition traced_plugin_generate ::
  "(go_error \<Rightarrow> int option) \<Rightarrow> ('r, 'p, 'req, 'resp) reg_iface \<Rightarrow> 'r \<times> traces \<Rightarrow> 'p \<Rightarrow> 'req \<Rightarrow> 'resp result \<times> 'r \<times> traces" where
  "traced_plugin_generate exit_code ri st p req =
     (let info = ri_info ri p;
          image_name = pi_group info @ ''/'' @ pi_name info @ '':'' @ pi_version info in
      case ri_generate ri (fst st) p req of
        (r, s) \<Rightarrow>
          (let code = (case failure r of
                 None \<Rightarrow> []
               | Some e \<Rightarrow> (case exit_code e of None \<Rightarrow> [] | Some c \<Rightarrow> [(''process.exit_code'', IntAttr c)]));
               tc1 = end_span ''process.exec'' ((''process.command'', StringAttr image_name) # code) (failure r) (snd st);
               tc2 = tc1\<lparr>tc_samples := tc_samples tc1 @ [pi_name info]\<rparr>
           in (r, s, end_span ''plugin.Generate'' [(''plugin.image'', StringAttr image_name)] (failure r) tc2)))"

definition traced_registry ::
  "(go_error \<Rightarrow> int option) \<Rightarrow> ('r, 'p, 'req, 'resp) reg_iface \<Rightarrow> ('r \<times> traces, 'p, 'req, 'resp) reg_iface" where
  "traced_registry exit_code ri =
     \<lparr>ri_get = traced_get ri, ri_list = traced_list ri, ri_create = traced_create ri, ri_update = traced_update ri,
      ri_delete = traced_delete ri, ri_generate = traced_plugin_generate exit_code ri, ri_info = ri_info ri,
      ri_file_count = ri_file_count ri, ri_metrics = ri_metrics ri\<rparr>"

subsection \<open>The core\<close>

definition end_core_span ::
  "string \<Rightarrow> (string \<times> attribute_value) list \<Rightarrow> go_error option \<Rightarrow> ('r \<times> traces) core_state \<Rightarrow> ('r \<times> traces) core_state" where
  "end_core_span name attrs e c =
     c\<lparr>cs_registry := (fst (cs_registry c), end_span name attrs e (snd (cs_registry c)))\<rparr>"

definition traced_core_generate ::
  "('r \<times> traces, 'p, 'req, 'resp) reg_iface \<Rightarrow> ('r \<times> traces) core_state \<Rightarrow> call \<Rightarrow> string \<Rightarrow> 'req
   \<Rightarrow> 'resp result \<times> ('r \<times> traces) core_state" where
  "traced_core_generate ri c call plugin_name payload =
     (case core_generate ri c call plugin_name payload of
        (r, c1) \<Rightarrow> (r, end_core_span ''core.Generate'' [(''plugin.name'', StringAttr plugin_name)] (failure r) c1))"

definition traced_core_list_plugins ::
  "('r \<times> traces, 'p, 'req, 'resp) reg_iface \<Rightarrow> ('r \<times> traces) core_state \<Rightarrow> call \<Rightarrow> plugin_filter \<Rightarrow> plugin_page
   \<Rightarrow> plugin_list result \<times> ('r \<times> traces) core_state" where
  "traced_core_list_plugins ri c call f page =
     (case core_list_plugins ri c call f page of (r, c1) \<Rightarrow> (r, end_core_span ''core.ListPlugins'' [] (failure r) c1))"

definition traced_core_create_plugin ::
  "('r \<times> traces, 'p, 'req, 'resp) reg_iface \<Rightarrow> ('r \<times> traces) core_state \<Rightarrow> call \<Rightarrow> create_request
   \<Rightarrow> plugin_info result \<times> ('r \<times> traces) core_state" where
  "traced_core_create_plugin ri c call req =
     (case core_create_plugin ri c call req of
        (r, c1) \<Rightarrow> (r, end_core_span ''core.CreatePlugin'' (plugin_attributes (cr_group req) (cr_name req) (cr_version req)) (failure r) c1))"

definition traced_core_update_plugin ::
  "('r \<times> traces, 'p, 'req, 'resp) reg_iface \<Rightarrow> ('r \<times> traces) core_state \<Rightarrow> call \<Rightarrow> update_request
   \<Rightarrow> plugin_info result \<times> ('r \<times> traces) core_state" where
  "traced_core_update_plugin ri c call req =
     (case core_update_plugin ri c call req of
        (r, c1) \<Rightarrow> (r, end_core_span ''core.UpdatePlugin'' (plugin_attributes (ur_group req) (ur_name req) (ur_version req)) (failure r) c1))"

definition traced_core_delete_plugin ::
  "('r \<times> traces, 'p, 'req, 'resp) reg_iface \<Rightarrow> ('r \<times> traces) core_state \<Rightarrow> call \<Rightarrow> string \<Rightarrow> string \<Rightarrow> string
   \<Rightarrow> go_error option \<times> ('r \<times> traces) core_state" where
  "traced_core_delete_plugin ri c call grp name version =
     (case core_delete_plugin ri c call grp name version of
        (e, c1) \<Rightarrow> (e, end_core_span ''core.DeletePlugin'' (plugin_attributes grp name version) e c1))"

subsection \<open>Tracing changes nothing\<close>

definition untraced :: "('r \<times> traces) core_state \<Rightarrow> 'r core_state" where
  "untraced c =
     \<lparr>cs_registry = fst (cs_registry c), cs_gate = cs_gate c, cs_sink = cs_sink c, cs_calls = cs_calls c, cs_counted = cs_counted c\<rparr>"

lemma untraced_send_audit: "untraced (send_audit c e) = send_audit (untraced c) e"
  by (simp add: send_audit_def untraced_def Let_def split: option.split)

lemma untraced_simps [simp]:
  "untraced (c\<lparr>cs_registry := r\<rparr>) = (untraced c)\<lparr>cs_registry := fst r\<rparr>"
  "untraced (audit_success c call op n m) = audit_success (untraced c) call op n m"
  "untraced (audit_error c call op n e) = audit_error (untraced c) call op n e"
  "untraced (end_core_span name attrs e2 c) = untraced c"
  "cs_registry (untraced c) = fst (cs_registry c)"
  "check_feature (untraced c) f = check_feature c f" "max_plugins (untraced c) = max_plugins c"
  by (simp_all add: audit_success_def audit_error_def untraced_send_audit end_core_span_def check_feature_def max_plugins_def)
    (simp_all add: untraced_def)

text \<open>What a decorated operation does: the same result and state, and its own span at the end of the trace.\<close>

definition spans_of :: "('r \<times> traces) core_state \<Rightarrow> span list" where
  "spans_of c = tc_spans (snd (cs_registry c))"

lemmas traced_defs = traced_registry_def traced_get_def traced_list_def traced_create_def traced_update_def traced_delete_def
  traced_plugin_generate_def Let_def

lemma traced_generate_same:
  "core_generate ri (untraced c) call pn payload =
    map_prod id untraced (core_generate (traced_registry exit_code ri) c call pn payload)"
  by (simp add: core_generate_def traced_defs split: sum.split prod.split option.split)

lemma traced_list_same:
  "core_list_plugins ri (untraced c) call f page =
    map_prod id untraced (core_list_plugins (traced_registry exit_code ri) c call f page)"
  by (simp add: core_list_plugins_def traced_defs split: sum.split prod.split)

lemma traced_update_same:
  "core_update_plugin ri (untraced c) call ureq =
    map_prod id untraced (core_update_plugin (traced_registry exit_code ri) c call ureq)"
  by (simp add: core_update_plugin_def traced_defs split: sum.split prod.split option.split)

lemma traced_delete_same:
  "core_delete_plugin ri (untraced c) call g n v =
    map_prod id untraced (core_delete_plugin (traced_registry exit_code ri) c call g n v)"
  by (simp add: core_delete_plugin_def traced_defs split: prod.split option.split)

lemma traced_create_same:
  "core_create_plugin ri (untraced c) call creq =
    map_prod id untraced (core_create_plugin (traced_registry exit_code ri) c call creq)"
  by (simp add: core_create_plugin_def traced_defs split: sum.split prod.split option.split)

text \<open>
  C29. The service with its decorators does what the service does: every operation of the traced core over
  the traced registry returns what the core returns over the registry itself, and leaves the same
  registry, audit trail and counters, whatever the registry and the plugins do.
\<close>

theorem tracing_transparent:
  "map_prod id untraced (traced_core_generate (traced_registry exit_code ri) c call pn payload) = core_generate ri (untraced c) call pn payload
   \<and> map_prod id untraced (traced_core_list_plugins (traced_registry exit_code ri) c call f page) = core_list_plugins ri (untraced c) call f page
   \<and> map_prod id untraced (traced_core_create_plugin (traced_registry exit_code ri) c call creq) = core_create_plugin ri (untraced c) call creq
   \<and> map_prod id untraced (traced_core_update_plugin (traced_registry exit_code ri) c call ureq) = core_update_plugin ri (untraced c) call ureq
   \<and> map_prod id untraced (traced_core_delete_plugin (traced_registry exit_code ri) c call g n v) = core_delete_plugin ri (untraced c) call g n v"
  unfolding traced_generate_same [of ri c call pn payload exit_code] traced_list_same [of ri c call f page exit_code]
    traced_create_same [of ri c call creq exit_code] traced_update_same [of ri c call ureq exit_code]
    traced_delete_same [of ri c call g n v exit_code]
  by (simp add: traced_core_generate_def traced_core_list_plugins_def traced_core_create_plugin_def
      traced_core_update_plugin_def traced_core_delete_plugin_def split: prod.split)

text \<open>The trace of an operation: what the registry added, then the span of the operation with its failure.\<close>

definition traces_call :: "string \<Rightarrow> go_error option \<Rightarrow> ('r \<times> traces) core_state \<Rightarrow> ('r \<times> traces) core_state \<Rightarrow> bool" where
  "traces_call name e c c1 \<longleftrightarrow>
     (\<exists>below own. spans_of c1 = spans_of c @ below @ [own] \<and> sp_name own = name \<and> sp_error own = map_option msg e)"

lemma send_audit_spans [simp]:
  "spans_of (audit_success c call op n m) = spans_of c" "spans_of (audit_error c call op n e) = spans_of c"
  "spans_of (c\<lparr>cs_registry := r\<rparr>) = tc_spans (snd r)"
  by (simp_all add: spans_of_def audit_success_def audit_error_def send_audit_def Let_def split: option.split)

lemma end_span_spans [simp]:
  "tc_spans (end_span name attrs e tc) = tc_spans tc @ [\<lparr>sp_name = name, sp_attributes = attrs, sp_error = map_option msg e\<rparr>]"
  by (simp add: end_span_def)

lemma traces_call_end:
  "\<exists>below. spans_of c1 = spans_of c @ below \<Longrightarrow> traces_call name e c (end_core_span name attrs e c1)"
  by (auto simp: traces_call_def end_core_span_def spans_of_def)

lemma generate_traced:
  "traced_core_generate (traced_registry exit_code ri) c call pn payload = (r, c1) \<Longrightarrow> traces_call ''core.Generate'' (failure r) c c1"
  by (auto simp: traced_core_generate_def core_generate_def traced_defs spans_of_def [of c]
      intro!: traces_call_end split: prod.splits sum.splits option.splits)

lemma create_traced:
  "traced_core_create_plugin (traced_registry exit_code ri) c call creq = (r, c1) \<Longrightarrow> traces_call ''core.CreatePlugin'' (failure r) c c1"
  by (auto simp: traced_core_create_plugin_def core_create_plugin_def traced_defs spans_of_def [of c]
      intro!: traces_call_end split: prod.splits sum.splits option.splits if_splits)

subsection \<open>Setting telemetry up\<close>

text \<open>
  \<open>Init\<close> of \<^verbatim>\<open>internal/telemetry/telemetry.go\<close>: which exporters are built, with what each of them fails.
  A target is a URL, whose scheme decides on encryption, or an address without.
\<close>

record telemetry_settings =
  te_otlp_endpoint :: string
  te_service_name :: string
  te_pyroscope_endpoint :: string
  te_service_version :: string
  te_service_tier :: string

definition tier_attribute :: string where "tier_attribute = ''tier''"

definition new_resource :: "telemetry_settings \<Rightarrow> (string \<times> string) list" where
  "new_resource cfg =
     [(''service.name'', te_service_name cfg), (''service.version'', te_service_version cfg)]
     @ (if te_service_tier cfg \<noteq> [] then [(tier_attribute, te_service_tier cfg)] else [])"

definition endpoint_is_url :: "string \<Rightarrow> bool" where
  "endpoint_is_url endpoint = has_infix endpoint ''://''"

datatype exporter_target = FromURL string | PlainAddress string

definition exporter_options :: "string \<Rightarrow> exporter_target" where
  "exporter_options endpoint = (if endpoint_is_url endpoint then FromURL endpoint else PlainAddress endpoint)"

record telemetry =
  tl_resource :: "(string \<times> string) list"
  tl_trace_exporter :: "exporter_target option"
  tl_metric_exporter :: "exporter_target option"
  tl_profiler :: "(string \<times> (string \<times> string) list) option"     \<comment> \<open>its server and tags\<close>
  tl_messages :: "string list"

definition unless_failed :: "go_error option \<Rightarrow> 'a \<Rightarrow> 'a option" where
  "unless_failed err v = (case err of None \<Rightarrow> Some v | Some e \<Rightarrow> None)"

definition telemetry_init ::
  "go_error option \<Rightarrow> go_error option \<Rightarrow> go_error option \<Rightarrow> telemetry_settings \<Rightarrow> telemetry" where
  "telemetry_init trace_err metric_err pyro_err cfg =
     (let no_otlp = (te_otlp_endpoint cfg = []); no_pyro = (te_pyroscope_endpoint cfg = []);
          target = exporter_options (te_otlp_endpoint cfg);
          warn = (\<lambda>err m. case err of None \<Rightarrow> [] | Some e \<Rightarrow> [m])
      in \<lparr>tl_resource = new_resource cfg,
          tl_trace_exporter = (if no_otlp then None else unless_failed trace_err target),
          tl_metric_exporter = (if no_otlp then None else unless_failed metric_err target),
          tl_profiler = (if no_pyro then None
             else unless_failed pyro_err (te_pyroscope_endpoint cfg, if te_service_tier cfg \<noteq> [] then [(tier_attribute, te_service_tier cfg)] else [])),
          tl_messages =
            (if no_otlp then [''no OTLP endpoint configured, traces and metrics will not be exported'']
             else warn trace_err ''failed to create OTLP trace exporter, continuing without trace export''
                @ warn metric_err ''failed to create OTLP metric exporter, continuing without metric export'')
            @ (if no_pyro then [''no Pyroscope endpoint configured, profiles will not be uploaded'']
               else warn pyro_err ''failed to start Pyroscope profiler, continuing without profiling'')\<rparr>)"

text \<open>What nobody asked for is not set up, and what fails is reported and left out; nothing else is lost.\<close>

lemma telemetry_degrades:
  "(te_otlp_endpoint cfg = [] \<longrightarrow> tl_trace_exporter (telemetry_init t m p cfg) = None \<and> tl_metric_exporter (telemetry_init t m p cfg) = None)
   \<and> (te_otlp_endpoint cfg \<noteq> [] \<longrightarrow> (tl_trace_exporter (telemetry_init t m p cfg) = None \<longleftrightarrow> t \<noteq> None))
   \<and> (te_otlp_endpoint cfg \<noteq> [] \<longrightarrow> (tl_metric_exporter (telemetry_init t m p cfg) = None \<longleftrightarrow> m \<noteq> None))
   \<and> (tl_profiler (telemetry_init t m p cfg) \<noteq> None \<longleftrightarrow> te_pyroscope_endpoint cfg \<noteq> [] \<and> p = None)
   \<and> (tl_messages (telemetry_init t m p cfg) = [] \<longleftrightarrow>
        te_otlp_endpoint cfg \<noteq> [] \<and> te_pyroscope_endpoint cfg \<noteq> [] \<and> t = None \<and> m = None \<and> p = None)"
  by (simp add: telemetry_init_def unless_failed_def Let_def split: option.split)

subsection \<open>The panic barrier\<close>

text \<open>
  \<open>Guard\<close> of \<^verbatim>\<open>internal/safe/safe.go\<close>: a unit of work returns or panics, with what it did to the state so
  far. The counter is shared by every guard of a registry.
\<close>

datatype 's unit_of_work = Returns 's | Panics string 's

datatype register_outcome = Registered | SameCounter | Conflict

definition new_guard :: "register_outcome option \<Rightarrow> bool option" where
  "new_guard reg =
     (case reg of
        None \<Rightarrow> Some False                   \<comment> \<open>no registry: a counter of its own\<close>
      | Some Registered \<Rightarrow> Some True
      | Some SameCounter \<Rightarrow> Some True
      | Some Conflict \<Rightarrow> None)"               \<comment> \<open>the process panics\<close>

definition guard_do :: "('s \<Rightarrow> 's unit_of_work) \<Rightarrow> 's \<times> nat \<Rightarrow> bool \<times> 's \<times> nat" where
  "guard_do work st =
     (case work (fst st) of
        Returns s \<Rightarrow> (False, s, snd st)
      | Panics reason s \<Rightarrow> (True, s, Suc (snd st)))"

text \<open>A loop with the barrier inside it and one with the barrier around it, over the same work.\<close>

fun guarded_inside :: "('s \<Rightarrow> 's unit_of_work) list \<Rightarrow> 's \<times> nat \<Rightarrow> nat \<times> 's \<times> nat" where
  "guarded_inside [] st = (0, st)"
| "guarded_inside (w # ws) st = (case guard_do w st of (p, st1) \<Rightarrow> (case guarded_inside ws st1 of (n, st2) \<Rightarrow> (Suc n, st2)))"

fun whole_loop :: "('s \<Rightarrow> 's unit_of_work) list \<Rightarrow> 's \<Rightarrow> nat \<times> 's unit_of_work" where
  "whole_loop [] s = (0, Returns s)"
| "whole_loop (w # ws) s =
     (case w s of
        Returns s1 \<Rightarrow> (case whole_loop ws s1 of (n, r) \<Rightarrow> (Suc n, r))
      | Panics reason s1 \<Rightarrow> (1, Panics reason s1))"

text \<open>With the barrier inside, every unit of work is tried, and every panic is counted.\<close>

lemma guarded_inside_all: "fst (guarded_inside ws st) = length ws \<and> snd st \<le> snd (snd (guarded_inside ws st))
    \<and> snd (snd (guarded_inside ws st)) \<le> snd st + length ws"
proof (induction ws arbitrary: st)
  case (Cons w ws)
  have "snd st \<le> snd (snd (guard_do w st)) \<and> snd (snd (guard_do w st)) \<le> Suc (snd st)"
    by (simp add: guard_do_def split: unit_of_work.split)
  then show ?case using Cons.IH [of "snd (guard_do w st)"] by (auto split: prod.split)
qed simp

text \<open>With the barrier outside, the first panic ends the work for good, as the comment on \<open>Guard\<close> says.\<close>

lemma outside_stops:
  "whole_loop ws s = (length ws, Returns s1) \<Longrightarrow> w s1 = Panics reason s2 \<Longrightarrow>
   whole_loop (ws @ w # vs) s = (Suc (length ws), Panics reason s2)"
  by (induction ws arbitrary: s) (auto split: unit_of_work.splits prod.splits)

end
