(* ===== verification/Logging.thy ===== *)
theory Logging
  imports Startup Tracing
begin

text \<open>
  The logger of the service and the flag values: the handler that adds the ids of a trace to a record
  (\<^verbatim>\<open>internal/telemetry/trace_handler.go\<close>), the logger of a context (\<^verbatim>\<open>internal/monitor/log.go\<close>), a flag that
  reads a file and one that reads a level (\<^verbatim>\<open>internal/flags\<close>). A handler of \<^verbatim>\<open>log/slog\<close> is what was put on
  it, attributes and groups, and what it writes is a list of attributes with their group paths. The lemmas
  show that the handler only adds the two ids, where it adds them, and what the flag keeps of a file.
\<close>

subsection \<open>Handlers\<close>

type_synonym attr = "string \<times> string"

datatype slog_handler = Base int | WithAttrs "attr list" slog_handler | WithGroup string slog_handler

text \<open>The open groups of a handler; \<^verbatim>\<open>log/slog\<close> ignores a group without a name.\<close>

fun open_groups :: "slog_handler \<Rightarrow> string list" where
  "open_groups (Base level) = []"
| "open_groups (WithAttrs as h) = open_groups h"
| "open_groups (WithGroup g h) = (if g = [] then open_groups h else open_groups h @ [g])"

fun base_level :: "slog_handler \<Rightarrow> int" where
  "base_level (Base level) = level"
| "base_level (WithAttrs as h) = base_level h"
| "base_level (WithGroup g h) = base_level h"

definition below :: "string list \<Rightarrow> attr list \<Rightarrow> (string list \<times> string) list" where
  "below gs as = map (\<lambda>(k, v). (gs @ [k], v)) as"

fun kept_attrs :: "slog_handler \<Rightarrow> (string list \<times> string) list" where
  "kept_attrs (Base level) = []"
| "kept_attrs (WithAttrs as h) = kept_attrs h @ below (open_groups h) as"
| "kept_attrs (WithGroup g h) = kept_attrs h"

definition written :: "slog_handler \<Rightarrow> attr list \<Rightarrow> (string list \<times> string) list" where
  "written h record = kept_attrs h @ below (open_groups h) record"

subsection \<open>The trace handler\<close>

record span_context =
  sx_trace_id :: string
  sx_span_id :: string

text \<open>An id of zeros, which prints as such, is not valid.\<close>

definition span_valid :: "span_context \<Rightarrow> bool" where
  "span_valid sx \<longleftrightarrow> (\<exists>c \<in> set (sx_trace_id sx). c \<noteq> CHR ''0'') \<and> (\<exists>c \<in> set (sx_span_id sx). c \<noteq> CHR ''0'')"

definition trace_attrs :: "span_context \<Rightarrow> attr list" where
  "trace_attrs sx = (if span_valid sx then [(''trace_id'', sx_trace_id sx), (''span_id'', sx_span_id sx)] else [])"

datatype trace_handler = TraceHandler slog_handler

definition trace_enabled :: "trace_handler \<Rightarrow> int \<Rightarrow> bool" where
  "trace_enabled th level = (case th of TraceHandler h \<Rightarrow> base_level h \<le> level)"

text \<open>\<open>out\<close> is what the handler below answers for the record it is given.\<close>

definition trace_handle ::
  "((string list \<times> string) list \<Rightarrow> go_error option) \<Rightarrow> trace_handler \<Rightarrow> span_context \<Rightarrow> attr list
   \<Rightarrow> (string list \<times> string) list \<times> go_error option" where
  "trace_handle out th sx record =
     (case th of TraceHandler h \<Rightarrow>
        (let line = written h (record @ trace_attrs sx)
         in (line, map_option (wrap ''inner.Handle: '') (out line))))"

definition trace_with_attrs :: "trace_handler \<Rightarrow> attr list \<Rightarrow> trace_handler" where
  "trace_with_attrs th as = (case th of TraceHandler h \<Rightarrow> TraceHandler (WithAttrs as h))"

definition trace_with_group :: "trace_handler \<Rightarrow> string \<Rightarrow> trace_handler" where
  "trace_with_group th g = (case th of TraceHandler h \<Rightarrow> TraceHandler (WithGroup g h))"

datatype derivation = ByAttrs "attr list" | ByGroup string

fun derive :: "slog_handler \<Rightarrow> derivation list \<Rightarrow> slog_handler" where
  "derive h [] = h"
| "derive h (ByAttrs as # ds) = derive (WithAttrs as h) ds"
| "derive h (ByGroup g # ds) = derive (WithGroup g h) ds"

fun trace_derive :: "trace_handler \<Rightarrow> derivation list \<Rightarrow> trace_handler" where
  "trace_derive th [] = th"
| "trace_derive th (ByAttrs as # ds) = trace_derive (trace_with_attrs th as) ds"
| "trace_derive th (ByGroup g # ds) = trace_derive (trace_with_group th g) ds"

lemma trace_derive_inner: "trace_derive (TraceHandler h) ds = TraceHandler (derive h ds)"
  by (induction h ds rule: derive.induct) (simp_all add: trace_with_attrs_def trace_with_group_def)

lemma below_append: "below gs (as @ bs) = below gs as @ below gs bs"
  by (simp add: below_def)

text \<open>
  Whatever loggers are derived from the service's logger, a record is written as without the trace
  handler, followed by the two ids when a span is valid, inside the groups that are open.
\<close>

theorem trace_handler_adds_ids:
  "fst (trace_handle out (trace_derive (TraceHandler h) ds) sx record) =
     written (derive h ds) record @ below (open_groups (derive h ds)) (trace_attrs sx) \<and>
   trace_enabled (trace_derive (TraceHandler h) ds) level = (base_level (derive h ds) \<le> level)"
  by (simp add: trace_derive_inner trace_handle_def trace_enabled_def written_def below_append Let_def)

text \<open>Within a group the ids are members of the group.\<close>

lemma ids_within_group:
  "span_valid sx \<Longrightarrow> fst (trace_handle out (trace_with_group (TraceHandler (Base 0)) ''db'') sx [(''rows'', ''3'')]) =
     [([''db'', ''rows''], ''3''), ([''db'', ''trace_id''], sx_trace_id sx), ([''db'', ''span_id''], sx_span_id sx)]"
  by (simp add: trace_handle_def trace_with_group_def written_def below_def trace_attrs_def Let_def)

subsection \<open>The logger of a context\<close>

definition default_level :: int where "default_level = 0"

definition from_context :: "slog_handler option \<Rightarrow> slog_handler" where
  "from_context logger = (case logger of Some h \<Rightarrow> h | None \<Rightarrow> Base default_level)"

subsection \<open>Telemetry over a run\<close>

text \<open>
  \<open>initObservability\<close>: the settings of telemetry from the configuration, and the composite shutdown that the
  deferred call logs an error of. The three errors are those of the tracer, the meter and the profiler.
\<close>

definition telemetry_of :: "string \<Rightarrow> string \<Rightarrow> service_config \<Rightarrow> telemetry_settings" where
  "telemetry_of namespace version c =
     \<lparr>te_otlp_endpoint = ct_otlp_endpoint (cf_telemetry c), te_service_name = namespace, te_pyroscope_endpoint = ct_pyroscope_endpoint (cf_telemetry c),
      te_service_version = version, te_service_tier = ct_service_tier (cf_telemetry c)\<rparr>"

definition telemetry_shutdown ::
  "telemetry \<Rightarrow> go_error option \<Rightarrow> go_error option \<Rightarrow> go_error option \<Rightarrow> go_error list" where
  "telemetry_shutdown tel tracer_err meter_err profiler_err =
     join_errors [tracer_err, meter_err, if tl_profiler tel = None then None else profiler_err]"

lemma shutdown_reports:
  "e \<in> set (telemetry_shutdown tel t m p) \<longleftrightarrow>
     t = Some e \<or> m = Some e \<or> p = Some e \<and> tl_profiler tel \<noteq> None"
  by (auto simp: telemetry_shutdown_def join_errors_def map_filter_def)

subsection \<open>Flag values\<close>

record file_flag =
  ff_default_path :: string
  ff_max_size :: int
  ff_file :: "string option"       \<comment> \<open>what is left to read\<close>

definition file_flag_string :: "file_flag \<Rightarrow> string" where
  "file_flag_string f = ff_default_path f"

definition file_flag_is_nil :: "file_flag \<Rightarrow> bool" where
  "file_flag_is_nil f = (ff_file f = None)"

text \<open>
  \<open>Set\<close>: the error of the deferred \<open>Close\<close> is assigned to a variable that is not the result, so it is lost;
  \<open>contents\<close> is the file, or why it does not open, and then what reading it answers.
\<close>

definition file_flag_set ::
  "file_flag \<Rightarrow> (string result) result \<Rightarrow> go_error option \<Rightarrow> go_error option \<times> file_flag" where
  "file_flag_set f contents close_err =
     (case contents of
        Inl e \<Rightarrow> (Some (wrap ''os.Open: '' e), f)
      | Inr (Inl e) \<Rightarrow> (Some (wrap ''io.ReadAll: '' e), f)
      | Inr (Inr s) \<Rightarrow> (None, f\<lparr>ff_file := Some (take (nat (ff_max_size f)) s)\<rparr>))"

text \<open>\<open>Read\<close> of a buffer into \<open>n\<close> bytes: \<^term>\<open>None\<close> is the end of the file, for an empty buffer and a request for some bytes.\<close>

definition file_flag_read :: "file_flag \<Rightarrow> nat \<Rightarrow> (string option \<times> file_flag) option" where
  "file_flag_read f n =
     map_option (\<lambda>s. if s = [] \<and> n > 0 then (None, f)
        else (Some (take n s), f\<lparr>ff_file := Some (drop n s)\<rparr>)) (ff_file f)"

definition level_flag_set :: "int \<Rightarrow> string \<Rightarrow> string option \<times> int" where
  "level_flag_set level s = (case level_unmarshal s of None \<Rightarrow> (Some ''parse log level'', level) | Some l \<Rightarrow> (None, l))"

text \<open>Reading a flag in pieces of any size gives the file up to the limit, and nothing says that there was more.\<close>

fun read_pieces :: "file_flag \<Rightarrow> nat list \<Rightarrow> string" where
  "read_pieces f [] = []"
| "read_pieces f (n # ns) =
     (case file_flag_read f n of Some (Some s, f1) \<Rightarrow> s @ read_pieces f1 ns | _ \<Rightarrow> [])"

lemma read_pieces_prefix: "ff_file f = Some s \<Longrightarrow> read_pieces f ns = take (sum_list ns) s"
proof (induction ns arbitrary: f s)
  case (Cons n ns)
  show ?case
  proof (cases "s = [] \<and> n > 0")
    case False
    then have "read_pieces f (n # ns) = take n s @ read_pieces (f\<lparr>ff_file := Some (drop n s)\<rparr>) ns"
      using Cons.prems by (auto simp: file_flag_read_def)
    also have "\<dots> = take n s @ take (sum_list ns) (drop n s)" using Cons.IH by simp
    finally show ?thesis by (simp add: take_add)
  qed (simp add: Cons.prems file_flag_read_def)
qed simp

theorem oversized_file_truncated:
  "fst (file_flag_set f (Inr (Inr s)) close_err) = None \<and>
   read_pieces (snd (file_flag_set f (Inr (Inr s)) close_err)) ns = take (min (sum_list ns) (nat (ff_max_size f))) s"
  using read_pieces_prefix [of "snd (file_flag_set f (Inr (Inr s)) close_err)" "take (nat (ff_max_size f)) s" ns]
  by (simp add: file_flag_set_def min.commute)

end
