(* ===== verification/Spec2Isabelle.thy ===== *)
theory Spec2Isabelle
  imports EndToEnd PlugArchive Flags Panel Observing Probes Logging
begin

text \<open>
  Verification of the EasyP plugin server: a gRPC service that stores protobuf code generator plugins
  and runs them for its clients, with the commands an operator builds and publishes plugins with and
  the client library.

  \<^bold>\<open>The program.\<close> A plugin is built into a directory \<open>group/name/version\<close> that holds an executable
  \<open>entrypoint\<close> (\<open>plugins build\<close>), packed into an archive (\<open>plugins pack\<close>), copied to an object store
  (\<open>plugins push\<close>) and registered with the service (\<open>plugins register\<close>). The service keeps one row per
  plugin in a database. A call for a generation finds the row, downloads and unpacks the archive unless
  the version is in the cache on disk, checks it against the recorded checksum, runs the executable
  with the request on its standard input and returns what it wrote. In front of the core stand a worker
  pool, limits per client, the authentication of the calls that write, the licence; behind it an audit
  log in monthly partitions. The client library retries calls and walks the pages of a listing.

  \<^bold>\<open>The theories.\<close> One theory models one component; it holds the component's state, its operations in the
  order of the code, and its lemmas. File names are relative to \<^verbatim>\<open>src\<close>.

  \<^item> Foundations. \<open>Prelude\<close>: the parts of \<^verbatim>\<open>strings\<close> and \<^verbatim>\<open>strconv\<close>, wrapped errors and the collections of hints.
    \<open>Paths\<close>: \<open>Clean\<close>, \<open>Join\<close>, \<open>Rel\<close>, \<open>IsLocal\<close> of \<^verbatim>\<open>path/filepath\<close>. \<open>FileSys\<close>: a tree of directories, files
    and symbolic links with the calls of \<^verbatim>\<open>os\<close> the code makes. \<open>Json\<close>: the texts of \<^verbatim>\<open>encoding/json\<close>.
    \<open>Domain\<close>: \<^verbatim>\<open>internal/core/domain.go\<close>, \<^verbatim>\<open>context.go\<close>.

  \<^item> Archives: \<open>PlugArchive\<close> (unpacking) and \<open>Packing\<close>, both \<^verbatim>\<open>internal/plugarchive/plugarchive.go\<close>;
    \<open>Storage\<close>: \<^verbatim>\<open>internal/adapters/storage/s3.go\<close> over a bucket, a map from keys to objects.

  \<^item> Registry (\<^verbatim>\<open>internal/adapters/registry\<close>): \<open>Cache\<close> (\<^verbatim>\<open>cache.go\<close>); \<open>PluginConfig\<close>, \<open>Registry\<close>, \<open>RegistryReads\<close>,
    \<open>RegistryWrites\<close> and \<open>PluginRun\<close> (\<^verbatim>\<open>registry.go\<close>). The state is the table of plugins, a list of rows, with
    the cache and the file system.

  \<^item> Core: \<open>Listing\<close> (the contract of a listing), \<open>Paging\<close> and \<open>Core\<close> (\<^verbatim>\<open>internal/core/core.go\<close>), \<open>Pool\<close>
    (\<^verbatim>\<open>pool.go\<close>), \<open>Service\<close> (core, pool and registry as \<^verbatim>\<open>cmd/easyp-svc/start.go\<close> wires them), \<open>Tracing\<close>
    (the decorators of \<^verbatim>\<open>internal/telemetry\<close>, \<open>Init\<close>, and the barrier of \<^verbatim>\<open>internal/safe\<close>), \<open>License\<close>
    (\<^verbatim>\<open>internal/license\<close>), \<open>Observing\<close> (\<^verbatim>\<open>internal/adapters/metrics\<close>, the metrics of \<^verbatim>\<open>internal/database\<close> and
    \<^verbatim>\<open>internal/license\<close>), \<open>Logging\<close> (\<^verbatim>\<open>internal/telemetry/trace_handler.go\<close>, \<^verbatim>\<open>internal/flags\<close>, \<^verbatim>\<open>internal/monitor\<close>).

  \<^item> The server: \<open>PageToken\<close> and \<open>Api\<close> (\<^verbatim>\<open>internal/api\<close>), \<open>Auth\<close> (\<^verbatim>\<open>internal/auth\<close>, \<^verbatim>\<open>internal/config/auth.go\<close>
    and the interceptors), \<open>Callers\<close> and \<open>RateLimiter\<close> (\<^verbatim>\<open>internal/ratelimiter\<close>), \<open>Server\<close> (one call through
    the server and a run of it), \<open>Chain\<close> (the list of interceptors folded around a handler that may panic,
    \<^verbatim>\<open>internal/grpchelper\<close>), \<open>Serve\<close> (\<^verbatim>\<open>internal/serve\<close>), \<open>Probes\<close> (the health endpoints, the opening of the database).

  \<^item> The audit log: \<open>AuditWorker\<close> and \<open>Partitions\<close> (\<^verbatim>\<open>internal/adapters/audit\<close>), \<open>Database\<close>
    (\<^verbatim>\<open>internal/database/sql.go\<close>) and \<open>Connectors\<close> (\<^verbatim>\<open>internal/database/connectors\<close>).

  \<^item> Configuration (\<^verbatim>\<open>internal/config\<close>): \<open>Settings\<close> (\<^verbatim>\<open>fields.go\<close>: the struct types and the walk over them),
    \<open>Hints\<close> and \<open>Diagnostics\<close> (\<^verbatim>\<open>diagnostics.go\<close>, \<^verbatim>\<open>yamlalias.go\<close>, \<^verbatim>\<open>env.go\<close>), \<open>Validation\<close> (\<^verbatim>\<open>config.go\<close>,
    \<^verbatim>\<open>validate_more.go\<close>), \<open>Loading\<close> (\<^verbatim>\<open>config.go\<close>, \<^verbatim>\<open>alias.go\<close>), \<open>Printing\<close> (the commands \<open>config validate\<close> and
    \<open>config print\<close>), \<open>Startup\<close> (from an accepted configuration to the parts it builds, \<^verbatim>\<open>start.go\<close>).

  \<^item> Commands (\<^verbatim>\<open>cmd/easyp-svc\<close>): \<open>Flags\<close> (\<^verbatim>\<open>main.go\<close>), \<open>Build\<close> (\<^verbatim>\<open>build.go\<close>), \<open>Scan\<close> (the walk over a tree of
    plugins), \<open>Batch\<close> (plugins worked on in parallel), \<open>Publish\<close> (\<^verbatim>\<open>pack.go\<close>, \<^verbatim>\<open>push.go\<close>, \<^verbatim>\<open>register.go\<close> on one
    plugin), \<open>Commands\<close> (the runs, \<^verbatim>\<open>newtoken.go\<close>, \<^verbatim>\<open>clienttls.go\<close>, \<^verbatim>\<open>descriptor.go\<close>), \<open>Panel\<close> (progress).

  \<^item> The client library: \<open>Sdk\<close> (\<^verbatim>\<open>sdk\<close>), and \<open>EndToEnd\<close>, which joins it to the server.
\<close>

text \<open>
  \<^bold>\<open>How the code is rendered.\<close> A struct is a \<open>record\<close>, an enumeration or an interface value a \<open>datatype\<close>. An
  integer whose overflow matters is a \<open>word\<close> or carries its wrap-around explicitly (\<open>time.Duration\<close>);
  lengths and counters that stay far from their bounds are \<open>int\<close> or \<open>nat\<close>. A call that may fail returns a
  sum with the error on the left, or the error with the state it leaves. State is passed explicitly: each
  operation returns the state it leaves also when it fails. A map whose iteration order could show is an
  association list in the order of the iteration, and what is proved holds for every order.

  Where goroutines meet, a component is a step relation over the interleavings of its steps: the job
  queue and the generation limiter (\<open>Pool\<close>), the audit worker (\<open>AuditWorker\<close>), the group of listeners
  (\<open>Serve\<close>), a batch (\<open>Batch\<close>), the stages of a start beside its probes (\<open>Probes\<close>). Invariants are proved by rule induction over the reachable states; that
  such a relation ends is shown with a budget, a number every step lowers. For the group it counts the
  services that have not returned and the signals outstanding, for a batch the items not yet
  accounted for with three steps each.

  \<^bold>\<open>Bounds.\<close> Loops end by their measures: the retries by the attempts left, the eviction by the entries left,
  the queue of a listener by its steps. Three loops have an explicit bound. The walk of a path follows
  at most 40 symbolic links (\<open>max_links\<close>), the limit of the kernel the code runs on, and fails with \<open>ELOOP\<close>
  beyond, as the kernel does. The walk over the imports of a descriptor goes as deep as the rank of a
  file in the import graph; any larger depth gives the same set. The wait for a database and the page
  walk of the client may run for ever: they are \<open>partial_function\<close>s in the option monad, so that not
  returning is the value \<open>None\<close>, and returning is proved where it holds.

  \<^bold>\<open>Interfaces.\<close> Three contracts are locales. \<open>listing\<close> (theory \<open>Listing\<close>) is what the core relies on when
  it pages: every page is the next part of one order. It is interpreted on the rows of the registry in
  \<open>RegistryReads\<close>. \<open>slot_limiter\<close> (theory \<open>RateLimiter\<close>) is what the interceptor relies on: a slot taken is
  given back. It is interpreted on the limiter of the code. \<open>object_store\<close> (theory \<open>Storage\<close>) is what the
  registry and the commands rely on: a download returns what was uploaded under its key and other keys
  keep their objects. It is interpreted on the S3 adapter over a bucket.

  \<^bold>\<open>Parameters.\<close> Code that is not part of the repository appears as an argument with its documented
  behaviour as a named hypothesis: SHA-256, the signatures and the parser of PASETO, the encodings of tar
  and gzip, the YAML library and envconfig, the URL library, protojson, the token bucket of
  \<^verbatim>\<open>golang.org/x/time/rate\<close>, the collation and the answers of the database, the client of the object
  store, the process of a plugin and of Docker, floating point percentages, clocks and random bytes.
\<close>

text \<open>
  \<^bold>\<open>What the lemmas show.\<close>

  \<^item> From build to run (\<open>Publish\<close>, \<open>Build\<close>, \<open>Commands\<close>). The tree that was built is the tree the service runs:
    packing, the object store, the recorded checksum, the download and the unpacking compose to the
    identity on the files of a plugin. A build succeeds exactly when Docker left a regular plugin; its
    command line does not depend on the order of the maps it is made from. A pack that reports success
    leaves an archive for each plugin where a push reads it.

  \<^item> Archives. \<open>Unpack\<close> is all or nothing where no entry goes below a link of the archive itself, and
    writes outside its root for an archive that does. A version directory appears only after its
    checksum matched.

  \<^item> Registry. \<open>Create\<close>, \<open>Update\<close> and \<open>Delete\<close> change exactly the row they name, or nothing; the rows keep one
    row per key. \<open>List\<close> meets its contract for every collation. The cache accounts for its bytes exactly.

  \<^item> Core, pool and limits. Licence and name checks precede every write; the table never exceeds the
    licence under any sequence of requests; under every interleaving each job is answered once, the
    generations running and waiting are bounded, and limits per client hold exactly the requests in flight.

  \<^item> Server. A write behind the server has a configured token, and its audit entry carries the token's
    name. The server refines the core: what it does to the state is what direct calls of some of its
    requests do. The folded list of interceptors is that call, and a handler that panics costs its own call
    only. Decorating core and registry with traces and database calls with metrics changes no result, and the
    figures of a scrape agree with the table.

  \<^item> Configuration. A loaded value comes from the first layer that supplies it; what is accepted is
    what the parts run with; reports do not depend on secrets; the distance behind a suggestion is the
    least number of edits.

  \<^item> Audit. No entry disappears between the worker's queue and the store, and the retention drops exactly the
    expired partitions.

  \<^item> Client. The library's retries and delays are exact, and a listing through client, server, core and
    registry has every plugin once, in order.

  \<^item> Progress. What the live panel of a build leaves on the terminal is the log of its finished builds.

  \<^bold>\<open>What the model showed.\<close> The archive escape above; a build without slots (\<open>--parallel 0\<close>) that starts no
  job and never ends; a start that fails on a database that is not up yet, before the wait for it; probes that
  answer ready for a service that has stopped serving; a build with \<open>--force\<close> that keeps the plugin of the version before; versions named
  twice that share one directory; a listener that fails to open while \<open>run\<close> waits for a signal; a
  password that is not escaped in the connection string of PostgreSQL. The lemmas say so of the model.
\<close>

text \<open>
  \<^bold>\<open>Not modelled.\<close> The generated API code (\<^verbatim>\<open>api/easyp\<close>). The names and help texts of metrics and their
  registration. The registration of the listing tool with the MCP library (\<^verbatim>\<open>internal/api/mcp.go\<close>);
  the tool itself is in \<open>Api\<close>. The client connection, the collectors and the line logger of
  \<^verbatim>\<open>internal/grpchelper\<close>: options of libraries. What the migrations do, embedded SQL run by a library. The Russian texts of
  the plan and the summary of a build. The smoke tools under \<^verbatim>\<open>cmd/mcp-smoke\<close> and \<^verbatim>\<open>test\<close>. Of files, the
  contents, kinds, permissions and links are modelled; owners, times, and faults of the device only where a
  parameter answers for them.
\<close>

end
